(* ===== verification/Prelude.thy ===== *)
theory Prelude
  imports Main "HOL-Library.Word"
begin

text \<open>
  Shared vocabulary of the development: Go bytes and integers, Go error values, the outcomes of
  a Go call (a value, an error value, or a crash of the goroutine), the state-passing form of a
  Go function, slices with their bounds checks, and the runtime's unspecified iteration order of
  maps. The lemmas here are the ones several components use.
\<close>

unbundle bit_operations_syntax

type_synonym byte = "8 word"
type_synonym u16 = "16 word"
type_synonym u32 = "32 word"
type_synonym u64 = "64 word"

section \<open>Automation shared by the components\<close>

named_theorems go_simps \<open>unfolding rules of the Go outcome and state combinators\<close>
named_theorems codec_simps \<open>rules that run the byte codecs\<close>
named_theorems pool_defs \<open>definitions of the pool's operations\<close>

section \<open>Errors and outcomes\<close>

text \<open>
  Go compares error values by identity. Every error variable the code compares against has a
  constructor of its own; an error made in place by \<open>errors.New\<close> or \<open>fmt.Errorf\<close> is
  \<open>ErrMsg\<close> with its (format) text, and an error that comes from outside the program (the
  network, a driver, a context) is \<open>ErrEnv\<close> with a number that tells such errors apart.
\<close>

datatype gerr =
    ErrBadConn | ErrSkip | ErrRemoveArgument
  | ErrEOF | ErrUnexpectedEOF
  | ErrDBClosed | ErrConnDone | ErrTxDone | ErrNoRows | ErrRowsClosed | ErrNoRowsAvailable
  | ErrPoolFacadeClosed | ErrUnableToGetPool | ErrNilPtr
  | ErrInvalidConn | ErrMalformPkt | ErrNoTLS | ErrCleartextPassword | ErrNativePassword
  | ErrOldPassword | ErrUnknownPlugin | ErrOldProtocol | ErrPktSync | ErrPktSyncMul
  | ErrPktTooLarge | ErrBusyBuffer | ErrBadConnNoWrite
  | ErrInvalidDSNUnescaped | ErrInvalidDSNAddr | ErrInvalidDSNNoSlash
  | ErrInvalidDSNUnsafeCollation
  | MySQLError u16 "byte list"
  | ErrCtx nat
  | ErrMsg string
  | ErrEnv nat

text \<open>
  Ways a goroutine stops without returning: a panic (an explicit one, or the runtime's for an
  index out of range), a lock or channel operation that can never proceed, and the runtime's
  fatal error for unlocking a mutex that is not locked.
\<close>

datatype halt = Panic string | IndexOutOfRange | NilDeref | Deadlock | FatalUnlock

datatype 'a res = Ok 'a | Fail gerr | Crash halt

fun bindR :: "'a res \<Rightarrow> ('a \<Rightarrow> 'b res) \<Rightarrow> 'b res" where
  "bindR (Ok x) f = f x"
| "bindR (Fail e) f = Fail e"
| "bindR (Crash h) f = Crash h"

declare bindR.simps [go_simps]

lemma bindR_Ok_iff: "bindR m f = Ok y \<longleftrightarrow> (\<exists>x. m = Ok x \<and> f x = Ok y)"
  by (cases m) auto

lemma bindR_Crash_iff:
  "bindR m f = Crash h \<longleftrightarrow> m = Crash h \<or> (\<exists>x. m = Ok x \<and> f x = Crash h)"
  by (cases m) auto

lemma bindR_Fail_iff:
  "bindR m f = Fail e \<longleftrightarrow> m = Fail e \<or> (\<exists>x. m = Ok x \<and> f x = Fail e)"
  by (cases m) auto

lemma bindR_assoc: "bindR (bindR m f) g = bindR m (\<lambda>x. bindR (f x) g)"
  by (cases m) simp_all

section \<open>Functions over a mutable state\<close>

text \<open>
  A Go function that mutates its receiver becomes a function from the state to an outcome and
  the state it leaves, which exists after an error too.
\<close>

type_synonym ('s, 'a) act = "'s \<Rightarrow> 'a res \<times> 's"

definition ret :: "'a \<Rightarrow> ('s, 'a) act" where
  "ret x = (\<lambda>s. (Ok x, s))"

definition fail :: "gerr \<Rightarrow> ('s, 'a) act" where
  "fail e = (\<lambda>s. (Fail e, s))"

definition crash :: "halt \<Rightarrow> ('s, 'a) act" where
  "crash h = (\<lambda>s. (Crash h, s))"

definition thenA :: "('s, 'a) act \<Rightarrow> ('a \<Rightarrow> ('s, 'b) act) \<Rightarrow> ('s, 'b) act" where
  "thenA m f = (\<lambda>s. case m s of
      (Ok x, s') \<Rightarrow> f x s'
    | (Fail e, s') \<Rightarrow> (Fail e, s')
    | (Crash h, s') \<Rightarrow> (Crash h, s'))"

definition seqA :: "('s, 'a) act \<Rightarrow> ('s, 'b) act \<Rightarrow> ('s, 'b) act" where
  "seqA m n = thenA m (\<lambda>_. n)"

text \<open>\<open>tryA m\<close> hands the error value to the caller, as \<open>x, err := m()\<close> does.\<close>

definition tryA :: "('s, 'a) act \<Rightarrow> ('s, gerr + 'a) act" where
  "tryA m = (\<lambda>s. case m s of
      (Ok x, s') \<Rightarrow> (Ok (Inr x), s')
    | (Fail e, s') \<Rightarrow> (Ok (Inl e), s')
    | (Crash h, s') \<Rightarrow> (Crash h, s'))"

definition getA :: "('s \<Rightarrow> 'a) \<Rightarrow> ('s, 'a) act" where
  "getA f = (\<lambda>s. (Ok (f s), s))"

definition modA :: "('s \<Rightarrow> 's) \<Rightarrow> ('s, unit) act" where
  "modA f = (\<lambda>s. (Ok (), f s))"

definition liftA :: "'a res \<Rightarrow> ('s, 'a) act" where
  "liftA r = (\<lambda>s. (r, s))"

lemma ret_apply [simp]: "ret x s = (Ok x, s)" by (simp add: ret_def)
lemma fail_apply [simp]: "fail e s = (Fail e, s)" by (simp add: fail_def)
lemma crash_apply [simp]: "crash h s = (Crash h, s)" by (simp add: crash_def)
lemma getA_apply [simp]: "getA f s = (Ok (f s), s)" by (simp add: getA_def)
lemma modA_apply [simp]: "modA f s = (Ok (), f s)" by (simp add: modA_def)
lemma liftA_apply [simp]: "liftA r s = (r, s)" by (simp add: liftA_def)

lemma thenA_Ok: "m s = (Ok x, s') \<Longrightarrow> thenA m f s = f x s'" by (simp add: thenA_def)
lemma thenA_Fail: "m s = (Fail e, s') \<Longrightarrow> thenA m f s = (Fail e, s')" by (simp add: thenA_def)
lemma thenA_Crash: "m s = (Crash h, s') \<Longrightarrow> thenA m f s = (Crash h, s')" by (simp add: thenA_def)

lemma thenA_ret [simp]: "thenA (ret x) f s = f x s" by (simp add: thenA_def)
lemma thenA_fail [simp]: "thenA (fail e) f s = (Fail e, s)" by (simp add: thenA_def)
lemma thenA_crash [simp]: "thenA (crash h) f s = (Crash h, s)" by (simp add: thenA_def)
lemma thenA_getA [simp]: "thenA (getA g) f s = f (g s) s" by (simp add: thenA_def)
lemma thenA_modA [simp]: "thenA (modA g) f s = f () (g s)" by (simp add: thenA_def)

lemma thenA_Ok_iff:
  "thenA m f s = (Ok y, t) \<longleftrightarrow> (\<exists>x s'. m s = (Ok x, s') \<and> f x s' = (Ok y, t))"
  by (auto simp: thenA_def split: prod.splits res.splits)

lemma seqA_Ok_iff:
  "seqA m n s = (Ok y, t) \<longleftrightarrow> (\<exists>x s'. m s = (Ok x, s') \<and> n s' = (Ok y, t))"
  by (simp add: seqA_def thenA_Ok_iff)

lemma tryA_cases:
  "tryA m s = (case m s of (Ok x, s') \<Rightarrow> (Ok (Inr x), s') | (Fail e, s') \<Rightarrow> (Ok (Inl e), s')
     | (Crash h, s') \<Rightarrow> (Crash h, s'))"
  by (simp add: tryA_def)

lemma seqA_apply: "seqA m n s = thenA m (\<lambda>_. n) s" by (simp add: seqA_def)
lemma seqA_ret [simp]: "seqA (ret x) n s = n s" by (simp add: seqA_def)
lemma seqA_fail [simp]: "seqA (fail e) n s = (Fail e, s)" by (simp add: seqA_def)
lemma seqA_crash [simp]: "seqA (crash h) n s = (Crash h, s)" by (simp add: seqA_def)
lemma seqA_modA [simp]: "seqA (modA g) n s = n (g s)" by (simp add: seqA_def)
lemma seqA_Ok: "m s = (Ok x, s') \<Longrightarrow> seqA m n s = n s'" by (simp add: seqA_def thenA_Ok)

lemmas act_defs = thenA_def seqA_def tryA_def liftA_def

section \<open>Relations every step respects\<close>

text \<open>
  \<open>keeps R m\<close>: whatever the outcome of \<open>m\<close>, the state it leaves is related to the state it
  found. For a preorder the combinators pass this on, so that a claim about every operation of a
  component reduces to its primitive updates. The rules are collected in \<open>keeps_intro\<close>.
\<close>

named_theorems keeps_intro \<open>rules that reduce \<open>keeps\<close> to primitive updates\<close>

definition keeps :: "('s \<Rightarrow> 's \<Rightarrow> bool) \<Rightarrow> ('s, 'a) act \<Rightarrow> bool" where
  "keeps R m \<longleftrightarrow> (\<forall>s. R s (snd (m s)))"

lemma keepsD: "keeps R m \<Longrightarrow> m s = (r, s') \<Longrightarrow> R s s'"
  by (auto simp: keeps_def dest: spec [of _ s])

lemma keeps_if [keeps_intro]: "keeps R m \<Longrightarrow> keeps R n \<Longrightarrow> keeps R (if b then m else n)"
  by simp

lemma keeps_let [keeps_intro]: "keeps R (f x) \<Longrightarrow> keeps R (let y = x in f y)"
  by simp

lemma keeps_case_prod [keeps_intro]:
  "(\<And>a b. keeps R (f a b)) \<Longrightarrow> keeps R (case x of (a, b) \<Rightarrow> f a b)"
  by (cases x) simp

lemma keeps_case_option [keeps_intro]:
  "keeps R m \<Longrightarrow> (\<And>a. keeps R (f a)) \<Longrightarrow> keeps R (case x of None \<Rightarrow> m | Some a \<Rightarrow> f a)"
  by (cases x) simp_all

lemma keeps_case_sum [keeps_intro]:
  "(\<And>a. keeps R (f a)) \<Longrightarrow> (\<And>b. keeps R (g b)) \<Longrightarrow> keeps R (case x of Inl a \<Rightarrow> f a | Inr b \<Rightarrow> g b)"
  by (cases x) simp_all

lemma keeps_case_list [keeps_intro]:
  "keeps R m \<Longrightarrow> (\<And>a as. keeps R (f a as)) \<Longrightarrow> keeps R (case x of [] \<Rightarrow> m | a # as \<Rightarrow> f a as)"
  by (cases x) simp_all

locale act_order =
  fixes R :: "'s \<Rightarrow> 's \<Rightarrow> bool"
  assumes refl: "R s s" and trans: "R s t \<Longrightarrow> R t u \<Longrightarrow> R s u"
begin

lemma keeps_ret: "keeps R (ret x)" by (simp add: keeps_def refl)
lemma keeps_fail: "keeps R (fail e)" by (simp add: keeps_def refl)
lemma keeps_crash: "keeps R (crash h)" by (simp add: keeps_def refl)
lemma keeps_getA: "keeps R (getA f)" by (simp add: keeps_def refl)
lemma keeps_liftA: "keeps R (liftA r)" by (simp add: keeps_def refl)
lemma keeps_pair: "keeps R (Pair r)" by (simp add: keeps_def refl)
lemma keeps_modA: "(\<And>s. R s (f s)) \<Longrightarrow> keeps R (modA f)" by (simp add: keeps_def)

lemma keeps_thenA:
  assumes "keeps R m" and "\<And>x. keeps R (f x)"
  shows "keeps R (thenA m f)"
  unfolding keeps_def
proof
  fix s
  obtain r t where mt: "m s = (r, t)" by (cases "m s")
  then have st: "R s t" using assms(1) by (rule keepsD [rotated])
  show "R s (snd (thenA m f s))"
  proof (cases r)
    case (Ok x)
    then show ?thesis using mt st assms(2) [of x] by (auto simp: thenA_def keeps_def intro: trans)
  qed (use mt st in \<open>simp_all add: thenA_def\<close>)
qed

lemma keeps_seqA: "keeps R m \<Longrightarrow> keeps R n \<Longrightarrow> keeps R (seqA m n)"
  by (simp add: seqA_def keeps_thenA)

lemma keeps_get_mod: "(\<And>s. R s (f (g s) s)) \<Longrightarrow> (\<And>x. keeps R (m x)) \<Longrightarrow>
    keeps R (thenA (getA g) (\<lambda>x. seqA (modA (f x)) (m x)))"
  by (simp add: keeps_def) (meson trans)

lemma keeps_tryA: "keeps R m \<Longrightarrow> keeps R (tryA m)"
  by (simp add: keeps_def tryA_def split: prod.splits res.splits) (metis snd_conv)

lemmas keeps_rules = keeps_ret keeps_pair keeps_fail keeps_crash keeps_getA keeps_liftA keeps_thenA
  keeps_seqA keeps_tryA

end

section \<open>Slices and their bounds checks\<close>

text \<open>
  \<open>xs[i]\<close> and \<open>xs[i:j]\<close> of Go panic out of range. The slices modelled here have
  length equal to capacity, so the upper bound of a slice expression is the length.
\<close>

definition idx :: "'a list \<Rightarrow> nat \<Rightarrow> 'a res" where
  "idx xs i = (if i < length xs then Ok (xs ! i) else Crash IndexOutOfRange)"

definition slice :: "'a list \<Rightarrow> nat \<Rightarrow> nat \<Rightarrow> 'a list res" where
  "slice xs i j =
     (if i \<le> j \<and> j \<le> length xs then Ok (take (j - i) (drop i xs)) else Crash IndexOutOfRange)"

definition slice_from :: "'a list \<Rightarrow> nat \<Rightarrow> 'a list res" where
  "slice_from xs i = (if i \<le> length xs then Ok (drop i xs) else Crash IndexOutOfRange)"

lemma idx_in [simp]: "i < length xs \<Longrightarrow> idx xs i = Ok (xs ! i)"
  by (simp add: idx_def)

lemma idx_Ok_iff: "idx xs i = Ok x \<longleftrightarrow> i < length xs \<and> x = xs ! i"
  by (auto simp: idx_def)

lemma slice_Ok_iff:
  "slice xs i j = Ok ys \<longleftrightarrow> i \<le> j \<and> j \<le> length xs \<and> ys = take (j - i) (drop i xs)"
  by (auto simp: slice_def)

lemma slice_length: "slice xs i j = Ok ys \<Longrightarrow> length ys = j - i"
  by (auto simp: slice_Ok_iff)

lemma slice_full [simp]: "slice xs 0 (length xs) = Ok xs"
  by (simp add: slice_def)

text \<open>\<open>copy(dst[i:], src)\<close> writes as many elements as fit.\<close>

definition copy_at :: "'a list \<Rightarrow> nat \<Rightarrow> 'a list \<Rightarrow> 'a list" where
  "copy_at dst i src =
     (let n = min (length dst - i) (length src)
      in take i dst @ take n src @ drop (i + n) dst)"

lemma length_copy_at [simp]: "i \<le> length dst \<Longrightarrow> length (copy_at dst i src) = length dst"
  by (auto simp: copy_at_def Let_def)

lemma copy_at_fits:
  "i + length src \<le> length dst \<Longrightarrow>
   copy_at dst i src = take i dst @ src @ drop (i + length src) dst"
  by (simp add: copy_at_def min_absorb2 Let_def)

section \<open>Iteration over Go maps\<close>

text \<open>
  \<open>range\<close> over a map visits the entries in an order the runtime chooses anew for each
  loop. \<open>range_order ks xs\<close> is the order given by the choices \<open>ks\<close>: the next entry is
  the one at position \<open>k mod n\<close> among the \<open>n\<close> left. Every permutation is the order of some
  choices (\<open>range_order_surj\<close>), so a statement for all \<open>ks\<close> holds for whatever the
  runtime does.
\<close>

fun range_order :: "nat list \<Rightarrow> 'a list \<Rightarrow> 'a list" where
  "range_order ks [] = []"
| "range_order [] (x # xs) = x # xs"
| "range_order (k # ks) (x # xs) =
     (let ys = x # xs; i = k mod length ys
      in ys ! i # range_order ks (take i ys @ drop (Suc i) ys))"

lemma length_range_order [simp]: "length (range_order ks xs) = length xs"
proof (induction ks xs rule: range_order.induct)
  case (3 k ks x xs)
  let ?ys = "x # xs" and ?i = "k mod length (x # xs)"
  have "?i < length ?ys" by (rule mod_less_divisor) simp
  then show ?case using 3 [OF refl refl] by (simp add: Let_def del: mod_less)
qed simp_all

lemma set_range_order [simp]: "set (range_order ks xs) = set xs"
proof (induction ks xs rule: range_order.induct)
  case (3 k ks x xs)
  let ?ys = "x # xs" and ?i = "k mod length (x # xs)"
  have i: "?i < length ?ys" by (rule mod_less_divisor) simp
  have "set ?ys = set (take ?i ?ys @ ?ys ! ?i # drop (Suc ?i) ?ys)"
    using id_take_nth_drop [OF i] by simp
  then show ?case using 3 [OF refl refl] by (auto simp: Let_def)
qed simp_all

lemma distinct_range_order [simp]: "distinct xs \<Longrightarrow> distinct (range_order ks xs)"
  by (rule card_distinct) (simp add: distinct_card)

lemma range_order_eq_Nil [simp]: "range_order ks xs = [] \<longleftrightarrow> xs = []"
  by (metis length_0_conv length_range_order)

lemma range_order_surj:
  assumes "distinct xs" and "distinct ys" and "set ys = set xs"
  shows "\<exists>ks. range_order ks xs = ys"
  using assms
proof (induction ys arbitrary: xs)
  case Nil
  then show ?case by simp
next
  case (Cons y ys)
  then obtain i where i: "i < length xs" and y: "xs ! i = y"
    by (metis in_set_conv_nth list.set_intros(1))
  let ?r = "take i xs @ drop (Suc i) xs"
  have split: "xs = take i xs @ y # drop (Suc i) xs"
    using id_take_nth_drop [OF i] y by simp
  then have "distinct (take i xs @ y # drop (Suc i) xs)" using Cons.prems(1) by simp
  then have "distinct ?r" and "y \<notin> set ?r" by auto
  moreover have "set xs = insert y (set ?r)" using arg_cong [OF split, of set] by auto
  then have "set ys = set ?r" using Cons.prems(2,3) \<open>y \<notin> set ?r\<close> by auto
  ultimately obtain ks where "range_order ks ?r = ys" using Cons.IH Cons.prems(2) by force
  moreover from i obtain a as where "xs = a # as" by (cases xs) auto
  ultimately have "range_order (i # ks) xs = y # ys" using i y by (simp add: Let_def)
  then show ?case by blast
qed

section \<open>Strings as bytes\<close>

definition byte_of :: "char \<Rightarrow> byte" where
  "byte_of c = of_nat (of_char c)"

definition bytes_of :: "string \<Rightarrow> byte list" where
  "bytes_of s = map byte_of s"

definition char_at :: "byte \<Rightarrow> char" where
  "char_at b = char_of (unat b)"

lemma length_bytes_of [simp]: "length (bytes_of s) = length s"
  by (simp add: bytes_of_def)

lemma unat_byte_of: "unat (byte_of c) = of_char c"
proof -
  have "(of_char c :: nat) < 256" by simp
  then show ?thesis by (simp add: byte_of_def unat_of_nat)
qed

lemma char_at_byte_of [simp]: "char_at (byte_of c) = c"
  by (simp add: char_at_def unat_byte_of)

lemma byte_of_inject: "byte_of c = byte_of d \<longleftrightarrow> c = d"
  by (metis char_at_byte_of)

end
