(* ===== verification/Wire.thy ===== *)
theory Wire
  imports Prelude
begin

text \<open>
  The integer and string codecs of the MySQL wire protocol, \<open>mysql/utils.go\<close> lines 487 to
  632: little-endian integers, decimal text, and length-encoded integers and strings. Go's
  \<open>int\<close> is 64 bits wide, so a length read from the wire is a \<open>64 word\<close> whose signed
  reading decides the comparisons and the slice bounds.
\<close>

section \<open>Little-endian integers\<close>

definition uint64ToBytes :: "u64 \<Rightarrow> byte list" where
  "uint64ToBytes n =
     [ucast n, ucast (drop_bit 8 n), ucast (drop_bit 16 n), ucast (drop_bit 24 n),
      ucast (drop_bit 32 n), ucast (drop_bit 40 n), ucast (drop_bit 48 n),
      ucast (drop_bit 56 n)]"

text \<open>
  \<open>binary.LittleEndian.Uint16/32/64\<close> of the standard library: the value of the first two,
  four or eight bytes, with a panic when there are fewer. \<open>to_le k\<close> is the reference
  encoder: the \<open>k\<close> low bytes, lowest first.
\<close>

fun le_bytes :: "byte list \<Rightarrow> 'a::len word" where
  "le_bytes [] = 0"
| "le_bytes (b # bs) = ucast b OR push_bit 8 (le_bytes bs)"

definition le_uint :: "nat \<Rightarrow> byte list \<Rightarrow> 'a::len word res" where
  "le_uint k bs = (if k \<le> length bs then Ok (le_bytes (take k bs)) else Crash IndexOutOfRange)"

fun to_le :: "nat \<Rightarrow> 'a::len word \<Rightarrow> byte list" where
  "to_le 0 n = []"
| "to_le (Suc k) n = ucast n # to_le k (drop_bit 8 n)"

lemma length_to_le [simp]: "length (to_le k n) = k"
  by (induction k arbitrary: n) auto

lemma le_step:
  fixes n :: "'a::len word"
  shows "ucast (ucast n :: byte) OR push_bit 8 (take_bit m (drop_bit 8 n)) = take_bit (m + 8) n"
  by (rule bit_word_eqI) (auto simp: bit_simps)

lemma le_bytes_to_le: "le_bytes (to_le k n) = take_bit (8 * k) n"
proof (induction k arbitrary: n)
  case (Suc k)
  then show ?case using le_step [of n "8 * k"] by (simp add: add.commute)
qed simp

lemma uint64ToBytes_to_le: "uint64ToBytes n = to_le 8 n"
  by (simp add: uint64ToBytes_def numeral_eq_Suc drop_bit_drop_bit)

lemma le_bytes_uint64ToBytes [simp]: "le_bytes (uint64ToBytes n) = n"
  by (simp add: uint64ToBytes_to_le le_bytes_to_le take_bit_word_eq_self)

lemma length_uint64ToBytes [simp]: "length (uint64ToBytes n) = 8"
  by (simp add: uint64ToBytes_def)

section \<open>Decimal text\<close>

text \<open>
  \<open>uint64ToString\<close> fills a 20-byte array from the right. The index is a natural number here;
  writing below index 0 would panic in Go and is a crash in the model.
\<close>

lemma unat_div_10: "unat (n div 10 :: u64) = unat n div 10"
  by (simp add: unat_div)

function u64_digits_loop :: "u64 \<Rightarrow> nat \<Rightarrow> byte list \<Rightarrow> (u64 \<times> nat \<times> byte list) res" where
  "u64_digits_loop n i a =
     (if n \<ge> 10 then
        (case i of
           0 \<Rightarrow> Crash IndexOutOfRange
         | Suc i' \<Rightarrow>
             let q = n div 10
             in u64_digits_loop q i' (a[i' := ucast (n - q * 10) + 0x30]))
      else Ok (n, i, a))"
  by pat_completeness auto

termination
proof (relation "measure (\<lambda>(n, i, a). unat n)")
  fix n :: u64 and i i' :: nat and a :: "byte list" and q
  assume "10 \<le> n" and "q = n div 10"
  then have "10 \<le> unat n" by (simp add: word_le_nat_alt)
  then show "((q, i', a[i' := ucast (n - q * 10) + 0x30]), n, i, a)
      \<in> measure (\<lambda>(n, i, a). unat n)"
    using \<open>q = n div 10\<close> by (simp add: unat_div_10)
qed simp

declare u64_digits_loop.simps [simp del]

definition u64_last_digit :: "u64 \<times> nat \<times> byte list \<Rightarrow> byte list res" where
  "u64_last_digit = (\<lambda>(n, i, a).
     case i of 0 \<Rightarrow> Crash IndexOutOfRange
     | Suc i' \<Rightarrow> Ok (drop i' (a[i' := ucast n + 0x30])))"

definition uint64ToString :: "u64 \<Rightarrow> byte list res" where
  "uint64ToString n = bindR (u64_digits_loop n 20 (replicate 20 0)) u64_last_digit"

text \<open>The reference: decimal digits, most significant first.\<close>

fun decimal :: "nat \<Rightarrow> byte list" where
  "decimal n = (if n < 10 then [of_nat n + 0x30] else decimal (n div 10) @ [of_nat (n mod 10) + 0x30])"

declare decimal.simps [simp del]

lemma length_decimal: "n < 10 ^ k \<Longrightarrow> 0 < k \<Longrightarrow> length (decimal n) \<le> k"
proof (induction n arbitrary: k rule: decimal.induct)
  case (1 n)
  show ?case
  proof (cases "n < 10")
    case True
    with 1 show ?thesis by (simp add: decimal.simps [of n])
  next
    case False
    with 1 obtain k' where k: "k = Suc k'" and "0 < k'"
      by (cases k; cases "k - 1") auto
    moreover have "n div 10 < 10 ^ k'" using 1 k by (simp add: less_mult_imp_div_less mult.commute)
    ultimately have "length (decimal (n div 10)) \<le> k'" using 1 False by blast
    with False k show ?thesis by (simp add: decimal.simps [of n])
  qed
qed

lemma decimal_nonempty [simp]: "decimal n \<noteq> []"
  by (simp add: decimal.simps [of n])

lemma unat_mod_10: "unat (n mod 10 :: u64) = unat n mod 10"
  by (simp add: unat_mod)

lemma u64_digit: "ucast (n - n div 10 * 10 :: u64) = (of_nat (unat n mod 10) :: byte)"
proof -
  have "n - n div 10 * 10 = n mod 10"
    by (metis add_diff_cancel_left' div_mult_mod_eq)
  then show ?thesis by (metis of_nat_unat unat_mod_10)
qed

text \<open>The loop writes the digits that the reference puts in front of the bytes already there.\<close>

lemma u64_digits_loop_decimal:
  "length (decimal (unat n)) \<le> i \<Longrightarrow> i \<le> length a \<Longrightarrow>
   bindR (u64_digits_loop n i a) u64_last_digit = Ok (decimal (unat n) @ drop i a)"
proof (induction n i a rule: u64_digits_loop.induct)
  case (1 n i a)
  have ge: "10 \<le> n \<longleftrightarrow> \<not> unat n < 10" by (auto simp: word_le_nat_alt)
  from 1 obtain i' where i: "i = Suc i'" by (cases i) auto
  show ?case
  proof (cases "10 \<le> n")
    case False
    then show ?thesis using i 1(3) ge
      by (simp add: u64_digits_loop.simps [of n] u64_last_digit_def decimal.simps [of "unat n"]
          drop_update_swap Cons_nth_drop_Suc [symmetric] of_nat_unat)
  next
    case True
    let ?a = "a[i' := ucast (n - n div 10 * 10) + 0x30]"
    have dec: "decimal (unat n) = decimal (unat (n div 10)) @ [of_nat (unat n mod 10) + 0x30]"
      using True ge by (simp add: decimal.simps [of "unat n"] unat_div_10)
    have "bindR (u64_digits_loop (n div 10) i' ?a) u64_last_digit
        = Ok (decimal (unat (n div 10)) @ drop i' ?a)"
      using 1(1) [OF True i refl] 1(2,3) i dec by simp
    then show ?thesis using True i 1(3) dec
      by (simp add: u64_digits_loop.simps [of n] u64_digit drop_update_swap
          Cons_nth_drop_Suc [symmetric])
  qed
qed

lemma uint64ToString_decimal: "uint64ToString n = Ok (decimal (unat n))"
proof -
  have "unat n < 2 ^ 64" using unsigned_less [of n, where 'a = nat] by simp
  then have "unat n < 10 ^ 20" by simp
  then have "length (decimal (unat n)) \<le> 20" by (rule length_decimal) simp
  then show ?thesis unfolding uint64ToString_def
    by (subst u64_digits_loop_decimal) auto
qed

text \<open>
  \<open>stringToInt\<close> has no check at all: the byte difference and the 64-bit sum wrap around.
\<close>

definition stringToInt :: "byte list \<Rightarrow> u64" where
  "stringToInt b = foldl (\<lambda>val c. val * 10 + ucast (c - 0x30)) 0 b"

lemma stringToInt_decimal: "stringToInt (decimal m) = of_nat m"
proof (induction m rule: decimal.induct)
  case (1 m)
  have digit: "ucast (of_nat k :: byte) = (of_nat k :: u64)" if "k < 10" for k
  proof -
    have "unat (of_nat k :: byte) = k" using that by (simp add: unat_of_nat)
    then show ?thesis by (metis of_nat_unat)
  qed
  show ?case
  proof (cases "m < 10")
    case True
    then show ?thesis by (simp add: decimal.simps [of m] stringToInt_def digit)
  next
    case False
    have "(of_nat m :: u64) = of_nat (m div 10) * 10 + of_nat (m mod 10)"
      by (metis div_mult_mod_eq of_nat_add of_nat_mult of_nat_numeral)
    with False 1 show ?thesis by (simp add: decimal.simps [of m] stringToInt_def digit)
  qed
qed

end
