(* ===== verification/LenEnc.thy ===== *)
theory LenEnc
  imports Wire
begin

text \<open>
  Length-encoded integers and strings of the MySQL protocol, \<open>mysql/utils.go\<close> lines 536 to
  619. The readers take the packet bytes \<open>b\<close> and, where Go's slice expression may reach past
  the length, the capacity \<open>c\<close> of the slice. The number of bytes read is Go's 64-bit
  \<open>int\<close>, read signed.
\<close>

section \<open>Slice bounds given as Go integers\<close>

definition slice_int :: "'a list \<Rightarrow> int \<Rightarrow> int \<Rightarrow> 'a list res" where
  "slice_int xs i j =
     (if 0 \<le> i \<and> i \<le> j \<and> j \<le> int (length xs)
      then Ok (take (nat j - nat i) (drop (nat i) xs)) else Crash IndexOutOfRange)"

section \<open>Length-encoded integers\<close>

definition readLengthEncodedInteger :: "byte list \<Rightarrow> (u64 \<times> bool \<times> nat) res" where
  "readLengthEncodedInteger b =
     (case b of
        [] \<Rightarrow> Ok (0, True, 1)
      | b0 # _ \<Rightarrow>
          if b0 = 0xfb then Ok (0, True, 1)
          else if b0 = 0xfc then bindR (slice b 1 3) (\<lambda>v. Ok (le_bytes v, False, 3))
          else if b0 = 0xfd then bindR (slice b 1 4) (\<lambda>v. Ok (le_bytes v, False, 4))
          else if b0 = 0xfe then bindR (slice b 1 9) (\<lambda>v. Ok (le_bytes v, False, 9))
          else Ok (ucast b0, False, 1))"

definition appendLengthEncodedInteger :: "byte list \<Rightarrow> u64 \<Rightarrow> byte list" where
  "appendLengthEncodedInteger b n =
     (if n \<le> 250 then b @ [ucast n]
      else if n \<le> 0xffff then b @ [0xfc, ucast n, ucast (drop_bit 8 n)]
      else if n \<le> 0xffffff then b @ [0xfd, ucast n, ucast (drop_bit 8 n), ucast (drop_bit 16 n)]
      else b @ [0xfe, ucast n, ucast (drop_bit 8 n), ucast (drop_bit 16 n), ucast (drop_bit 24 n),
                ucast (drop_bit 32 n), ucast (drop_bit 40 n), ucast (drop_bit 48 n),
                ucast (drop_bit 56 n)])"

lemma append_lenenc_prefix:
  "appendLengthEncodedInteger b n = b @ appendLengthEncodedInteger [] n"
  by (simp add: appendLengthEncodedInteger_def)

lemma append_lenenc_to_le:
  "appendLengthEncodedInteger [] n =
     (if n \<le> 250 then [ucast n] else if n \<le> 0xffff then 0xfc # to_le 2 n
      else if n \<le> 0xffffff then 0xfd # to_le 3 n else 0xfe # to_le 8 n)"
  by (simp add: appendLengthEncodedInteger_def numeral_eq_Suc drop_bit_drop_bit)

lemma take_bit_unat_small:
  fixes n :: u64
  assumes "unat n < 2 ^ k"
  shows "take_bit k n = n"
  using assms by (simp add: word_unat_eq_iff unsigned_take_bit_eq take_bit_nat_eq_self)

lemma lenenc_byte_small:
  fixes n :: u64
  assumes "n \<le> 250"
  shows "ucast (ucast n :: byte) = n" and "(ucast n :: byte) \<noteq> 0xfb"
    and "(ucast n :: byte) \<noteq> 0xfc" and "(ucast n :: byte) \<noteq> 0xfd" and "(ucast n :: byte) \<noteq> 0xfe"
proof -
  have "unat n \<le> 250" using assms by (simp add: word_le_nat_alt)
  then have u: "unat (ucast n :: byte) = unat n" by (simp add: unsigned_ucast_eq unsigned_take_bit_eq take_bit_nat_eq_self)
  then show "ucast (ucast n :: byte) = n" by (metis of_nat_unat ucast_id)
  show "(ucast n :: byte) \<noteq> 0xfb" "(ucast n :: byte) \<noteq> 0xfc" "(ucast n :: byte) \<noteq> 0xfd"
    "(ucast n :: byte) \<noteq> 0xfe"
    using u \<open>unat n \<le> 250\<close> by auto
qed

lemma read_append_lenenc:
  "readLengthEncodedInteger (appendLengthEncodedInteger [] n @ rest) =
     Ok (n, False, length (appendLengthEncodedInteger [] n))"
proof -
  consider "n \<le> 250" | "\<not> n \<le> 250" "n \<le> 0xffff" | "\<not> n \<le> 250" "\<not> n \<le> 0xffff" "n \<le> 0xffffff"
    | "\<not> n \<le> 250" "\<not> n \<le> 0xffff" "\<not> n \<le> 0xffffff"
    by blast
  then show ?thesis
  proof cases
    case 1
    then show ?thesis
      by (simp add: append_lenenc_to_le readLengthEncodedInteger_def lenenc_byte_small)
  next
    case 2
    then have "take_bit 16 n = n" by (simp add: take_bit_unat_small word_le_nat_alt)
    with 2 show ?thesis
      by (simp add: append_lenenc_to_le readLengthEncodedInteger_def slice_def le_bytes_to_le
          go_simps)
  next
    case 3
    then have "take_bit 24 n = n" by (simp add: take_bit_unat_small word_le_nat_alt)
    with 3 show ?thesis
      by (simp add: append_lenenc_to_le readLengthEncodedInteger_def slice_def le_bytes_to_le
          go_simps)
  next
    case 4
    then show ?thesis
      by (simp add: append_lenenc_to_le readLengthEncodedInteger_def slice_def le_bytes_to_le
          take_bit_word_eq_self go_simps)
  qed
qed

lemma length_append_lenenc: "length (appendLengthEncodedInteger [] n) \<in> {1, 3, 4, 9}"
  by (simp add: append_lenenc_to_le)

lemma read_lenenc_Ok_bounds:
  "readLengthEncodedInteger b = Ok (v, isNull, n) \<Longrightarrow> b \<noteq> [] \<Longrightarrow> 1 \<le> n \<and> n \<le> length b"
  by (auto simp: readLengthEncodedInteger_def slice_def bindR_Ok_iff neq_Nil_conv
      split: if_splits)

section \<open>Length-encoded strings\<close>

text \<open>
  The last component of the result is the error. \<open>n += int(num)\<close> is 64-bit addition, so a
  length prefix with the top bit set makes the end negative or smaller than the start, which
  passes the length check and panics in the slice expression.
\<close>

definition readLengthEncodedString ::
    "byte list \<Rightarrow> nat \<Rightarrow> (byte list \<times> bool \<times> int \<times> gerr option) res" where
  "readLengthEncodedString b c =
     bindR (readLengthEncodedInteger b) (\<lambda>(num, isNull, n).
       if num < 1 then (if n \<le> c then Ok ([], isNull, int n, None) else Crash IndexOutOfRange)
       else
         let m = of_nat n + num
         in if sint m \<le> int (length b)
            then bindR (slice_int b (sint (m - num)) (sint m)) (\<lambda>s. Ok (s, False, sint m, None))
            else Ok ([], False, sint m, Some ErrEOF))"

definition skipLengthEncodedString :: "byte list \<Rightarrow> (int \<times> gerr option) res" where
  "skipLengthEncodedString b =
     bindR (readLengthEncodedInteger b) (\<lambda>(num, _, n).
       if num < 1 then Ok (int n, None)
       else
         let m = of_nat n + num
         in if sint m \<le> int (length b) then Ok (sint m, None) else Ok (sint m, Some ErrEOF))"

lemma sint_of_nat_small: "k < 2 ^ 63 \<Longrightarrow> sint (of_nat k :: u64) = int k"
  by (simp add: signed_of_nat signed_take_bit_int_eq_self)

lemma read_append_lenenc_string:
  assumes "length s < 2 ^ 62"
    and "length (appendLengthEncodedInteger [] (of_nat (length s)) @ s @ rest) \<le> c"
  shows "readLengthEncodedString
           (appendLengthEncodedInteger [] (of_nat (length s)) @ s @ rest) c
         = Ok (s, False, int (length (appendLengthEncodedInteger [] (of_nat (length s)))
                              + length s), None)"
proof -
  let ?h = "appendLengthEncodedInteger [] (of_nat (length s) :: u64)"
  have u: "unat (of_nat (length s) :: u64) = length s" using assms(1) by (simp add: unat_of_nat)
  have h: "length ?h \<le> 9" using length_append_lenenc [of "of_nat (length s)"] by auto
  have lt: "(of_nat (length s) :: u64) < 1 \<longleftrightarrow> s = []"
    using u by (simp add: word_less_nat_alt)
  have m: "(of_nat (length ?h) + of_nat (length s) :: u64) = of_nat (length ?h + length s)"
    by simp
  have sm: "sint (of_nat (length ?h + length s) :: u64) = int (length ?h + length s)"
    using assms(1) h by (intro sint_of_nat_small) simp
  have sh: "sint (of_nat (length ?h) :: u64) = int (length ?h)"
    using h by (intro sint_of_nat_small) simp
  show ?thesis
  proof (cases "s = []")
    case True
    then show ?thesis using assms(2) read_append_lenenc [of 0 rest]
      by (simp add: readLengthEncodedString_def go_simps)
  next
    case False
    then have "\<not> (of_nat (length s) :: u64) < 1" using lt by simp
    then show ?thesis using sm sh
      by (simp add: readLengthEncodedString_def read_append_lenenc go_simps Let_def slice_int_def
          nat_add_distrib)
  qed
qed

lemma skip_agrees_with_read:
  "readLengthEncodedString b c = Ok (s, isNull, n, err) \<Longrightarrow> skipLengthEncodedString b = Ok (n, err)"
  by (auto simp: readLengthEncodedString_def skipLengthEncodedString_def bindR_Ok_iff Let_def
      split: if_splits prod.splits)

end
