(* ===== verification/CodecProps.thy ===== *)
theory CodecProps
  imports LenEnc
begin

text \<open>What the integer and string codecs of \<open>mysql/utils.go\<close> guarantee, and where they panic.\<close>

text \<open>
  What \<open>appendLengthEncodedInteger\<close> appends to a packet is read back by
  \<open>readLengthEncodedInteger\<close>: the same number, not NULL, and exactly the bytes that were
  appended, whatever follows.
\<close>

theorem lenenc_integer_round_trip:
  "readLengthEncodedInteger (drop (length b) (appendLengthEncodedInteger b n @ rest)) =
     Ok (n, False, length (appendLengthEncodedInteger b n) - length b)"
  using read_append_lenenc [of n rest] by (simp add: append_lenenc_prefix [of b])

text \<open>
  A string sent with its length-encoded length is read back whole by
  \<open>readLengthEncodedString\<close>, with no error and the position right behind it, and
  \<open>skipLengthEncodedString\<close> stops at the same place.
\<close>

theorem lenenc_string_round_trip:
  assumes "length s < 2 ^ 62"
    and "packet = appendLengthEncodedInteger [] (of_nat (length s)) @ s @ rest"
    and "length packet \<le> c"
  shows "\<exists>n. readLengthEncodedString packet c = Ok (s, False, n, None)
      \<and> skipLengthEncodedString packet = Ok (n, None) \<and> drop (nat n) packet = rest"
proof -
  let ?h = "appendLengthEncodedInteger [] (of_nat (length s))"
  have r: "readLengthEncodedString packet c = Ok (s, False, int (length ?h + length s), None)"
    using read_append_lenenc_string [OF assms(1), of rest c] assms(2,3) by simp
  from skip_agrees_with_read [OF r] r show ?thesis
    using assms(2) by (intro exI [of _ "int (length ?h + length s)"]) simp
qed

theorem lenenc_string_round_trip_witness:
  "\<exists>n. readLengthEncodedString [2, 0x61, 0x62, 7] 4 = Ok ([0x61, 0x62], False, n, None)
      \<and> skipLengthEncodedString [2, 0x61, 0x62, 7] = Ok (n, None)
      \<and> drop (nat n) [2, 0x61, 0x62, 7 :: byte] = [7]"
  by (rule lenenc_string_round_trip) (simp_all add: appendLengthEncodedInteger_def)

text \<open>
  \<open>uint64ToString\<close> never leaves its array of 20 bytes, and \<open>stringToInt\<close> gives the number
  back (as a bit pattern, so a number of \<open>2 ^ 63\<close> or more comes back negative).
\<close>

theorem uint64ToString_round_trip:
  "\<exists>bs. uint64ToString n = Ok bs \<and> length bs \<le> 20 \<and> stringToInt bs = n"
proof -
  have "unat n < 10 ^ 20" using unsigned_less [of n, where 'a = nat] by simp
  then have "length (decimal (unat n)) \<le> 20" by (rule length_decimal) simp
  then show ?thesis by (simp add: uint64ToString_decimal stringToInt_decimal)
qed

lemma le_read_long_prefix:
  "readLengthEncodedInteger (0xfe # uint64ToBytes n @ rest) = Ok (n, False, 9)"
  by (simp add: readLengthEncodedInteger_def slice_def go_simps)

text \<open>
  A packet whose string length has its top bit set makes \<open>readLengthEncodedString\<close> panic: the
  sum of the length and the position wraps around, passes the length check as a small or negative
  number, and the slice expression gets bounds out of order.
\<close>

theorem malicious_length_panics:
  assumes "sint n < 0"
  shows "readLengthEncodedString (0xfe # uint64ToBytes n @ rest) c = Crash IndexOutOfRange"
proof -
  have n0: "n \<noteq> 0" using assms by auto
  then have ge: "\<not> n < 1" using assms by (auto simp: word_less_nat_alt unat_eq_0)
  have nine: "sint (9 :: u64) = 9" by simp
  have "sint (9 + n) < 9"
  proof -
    have "sint (9 + n) = 9 + sint n"
      using assms nine sint_greater_eq [of n]
      by (simp add: sint_word_ariths signed_take_bit_int_eq_self)
    then show ?thesis using assms by simp
  qed
  then show ?thesis
    by (simp add: readLengthEncodedString_def le_read_long_prefix go_simps ge n0 Let_def slice_int_def)
qed

theorem malicious_length_panics_witness:
  "readLengthEncodedString [0xfe, 0, 0, 0, 0, 0, 0, 0, 0x80] 9 = Crash IndexOutOfRange"
proof -
  have "uint64ToBytes 0x8000000000000000 = [0, 0, 0, 0, 0, 0, 0, 0x80]" by code_simp
  moreover have "sint (0x8000000000000000 :: u64) < 0" by simp
  ultimately show ?thesis using malicious_length_panics [of "0x8000000000000000" "[]" 9] by simp
qed

end
