(* ===== verification/GoStrconv.thy ===== *)
theory GoStrconv
  imports Prelude
begin

text \<open>
  The parts of Go's \<open>strconv\<close> the program uses: decimal formatting and parsing of integers of a
  given width and parsing of booleans. The parser is the loop of \<open>strconv.ParseUint\<close>, so a number
  that is too large is a range error even when garbage follows it.
\<close>

datatype numErr = ErrSyntax | ErrRange

definition digit_char :: "nat \<Rightarrow> char" where
  "digit_char d = char_of (48 + d)"

definition digit_val :: "char \<Rightarrow> nat option" where
  "digit_val c = (let n = of_char c in if 48 \<le> n \<and> n \<le> 57 then Some (n - 48) else None)"

fun formatUint :: "nat \<Rightarrow> string" where
  "formatUint n = (if n < 10 then [digit_char n] else formatUint (n div 10) @ [digit_char (n mod 10)])"

declare formatUint.simps [simp del]

definition formatInt :: "int \<Rightarrow> string" where
  "formatInt i = (if i < 0 then CHR ''-'' # formatUint (nat (- i)) else formatUint (nat i))"

text \<open>One step of the loop is a digit; \<open>1844674407370955162\<close> is \<open>MaxUint64 / 10 + 1\<close>.\<close>

fun parseDigits :: "nat \<Rightarrow> nat \<Rightarrow> string \<Rightarrow> numErr + nat" where
  "parseDigits maxVal n [] = Inr n"
| "parseDigits maxVal n (c # cs) = (case digit_val c of
      None \<Rightarrow> Inl ErrSyntax
    | Some d \<Rightarrow>
        if 1844674407370955162 \<le> n then Inl ErrRange
        else if maxVal < n * 10 + d then Inl ErrRange
        else parseDigits maxVal (n * 10 + d) cs)"

definition parseUint :: "nat \<Rightarrow> string \<Rightarrow> numErr + nat" where
  "parseUint bits s = (if s = [] then Inl ErrSyntax else parseDigits (2 ^ bits - 1) 0 s)"

definition parseInt :: "nat \<Rightarrow> string \<Rightarrow> numErr + int" where
  "parseInt bits s = (case s of
      [] \<Rightarrow> Inl ErrSyntax
    | c # cs \<Rightarrow>
        let neg = (c = CHR ''-''); t = (if c = CHR ''+'' \<or> c = CHR ''-'' then cs else s);
            r = parseUint bits t; cutoff = 2 ^ (bits - 1)
        in case r of
             Inl ErrSyntax \<Rightarrow> Inl ErrSyntax
           | Inl ErrRange \<Rightarrow> Inl ErrRange
           | Inr un \<Rightarrow>
               if \<not> neg \<and> cutoff \<le> un then Inl ErrRange
               else if neg \<and> cutoff < un then Inl ErrRange
               else Inr (if neg then - int un else int un))"

definition parseBool :: "string \<Rightarrow> bool option" where
  "parseBool s =
     (if s \<in> {''1'', ''t'', ''T'', ''TRUE'', ''true'', ''True''} then Some True
      else if s \<in> {''0'', ''f'', ''F'', ''FALSE'', ''false'', ''False''} then Some False
      else None)"

definition formatBool :: "bool \<Rightarrow> string" where
  "formatBool b = (if b then ''true'' else ''false'')"

section \<open>Formatting and parsing are inverse\<close>

lemma digit_val_digit_char [simp]: "d < 10 \<Longrightarrow> digit_val (digit_char d) = Some d"
  by (simp add: digit_val_def digit_char_def)

lemma digit_char_not_sign: "d < 10 \<Longrightarrow> digit_char d \<noteq> CHR ''-'' \<and> digit_char d \<noteq> CHR ''+''"
proof -
  assume "d < 10"
  then have "of_char (digit_char d) = 48 + d" by (simp add: digit_char_def)
  then show ?thesis by auto
qed

lemma parseDigits_append:
  "parseDigits m n (s @ t) = (case parseDigits m n s of Inl e \<Rightarrow> Inl e | Inr k \<Rightarrow> parseDigits m k t)"
  by (induction m n s rule: parseDigits.induct) (simp_all split: option.split)

lemma parse_format:
  assumes "m \<le> 18446744073709551615"
  shows "parseDigits m 0 (formatUint n) = (if n \<le> m then Inr n else Inl ErrRange)"
proof (induction n rule: formatUint.induct)
  case (1 n)
  show ?case
  proof (cases "n < 10")
    case True
    then show ?thesis by (subst formatUint.simps) simp
  next
    case False
    have n: "n = n div 10 * 10 + n mod 10" by simp
    have "parseDigits m 0 (formatUint n) =
        (case (if n div 10 \<le> m then Inr (n div 10) else Inl ErrRange) of Inl e \<Rightarrow> Inl e
         | Inr k \<Rightarrow> parseDigits m k [digit_char (n mod 10)])"
      using False 1 [OF False] by (subst formatUint.simps) (simp add: parseDigits_append)
    also have "\<dots> = (if n \<le> m then Inr n else Inl ErrRange)"
      using n assms by (auto simp: div_le_dividend)
    finally show ?thesis .
  qed
qed

lemma formatUint_nonempty [simp]: "formatUint n \<noteq> []"
  by (subst formatUint.simps) simp

lemma formatUint_head: "hd (formatUint n) \<noteq> CHR ''-'' \<and> hd (formatUint n) \<noteq> CHR ''+''"
proof (induction n rule: formatUint.induct)
  case (1 n)
  then show ?case using digit_char_not_sign [of n]
    by (subst (1 2) formatUint.simps) (simp split: if_splits)
qed

lemma parseUint_format:
  "bits \<le> 64 \<Longrightarrow> parseUint bits (formatUint n) = (if n < 2 ^ bits then Inr n else Inl ErrRange)"
proof -
  assume "bits \<le> 64"
  then have "(2::nat) ^ bits \<le> 2 ^ 64" by (rule power_increasing) simp
  then have "2 ^ bits - 1 \<le> (18446744073709551615::nat)" by simp
  moreover have "n \<le> 2 ^ bits - 1 \<longleftrightarrow> n < 2 ^ bits"
    using Suc_le_eq [of n "2 ^ bits"] zero_less_power [of "2::nat" bits] by linarith
  ultimately show ?thesis by (simp add: parseUint_def parse_format)
qed

lemma parseInt_format:
  assumes "0 < bits" and "bits \<le> 64"
  shows "parseInt bits (formatInt i) =
    (if - (2 ^ (bits - 1)) \<le> i \<and> i < 2 ^ (bits - 1) then Inr i else Inl ErrRange)"
proof -
  let ?c = "2 ^ (bits - 1) :: nat"
  have pow: "(2::nat) ^ bits = 2 * ?c" using assms(1) by (cases bits) simp_all
  have ic: "(2::int) ^ (bits - 1) = int ?c" by simp
  show ?thesis
  proof (cases "i < 0")
    case True
    then obtain m where m: "i = - int m" "0 < m" using neg_int_cases by blast
    let ?n = "nat (- i)"
    have nm: "?n = m" using m by simp
    have "parseInt bits (formatInt i) = (case parseUint bits (formatUint ?n) of Inl e \<Rightarrow> Inl e
        | Inr un \<Rightarrow> if ?c < un then Inl ErrRange else Inr (- int un))"
      using True by (auto simp: parseInt_def formatInt_def Let_def split: sum.split numErr.split)
    also have "\<dots> = (if ?n \<le> ?c then Inr i else Inl ErrRange)"
      using m pow unfolding nm by (simp add: parseUint_format [OF assms(2)])
    finally have res: "parseInt bits (formatInt i) = (if m \<le> ?c then Inr i else Inl ErrRange)"
      unfolding nm .
    have "i < 2 ^ (bits - 1)" using True zero_less_power [of "2::int" "bits - 1"] by linarith
    moreover have "- (2 ^ (bits - 1)) \<le> i \<longleftrightarrow> int m \<le> int ?c" unfolding m(1) ic by linarith
    ultimately show ?thesis using res by (simp only: of_nat_le_iff simp_thms)
  next
    case False
    then obtain m where m: "i = int m" using nonneg_int_cases by (meson not_less)
    let ?n = "nat i"
    have nm: "?n = m" using m by simp
    obtain c cs where f: "formatUint ?n = c # cs" by (cases "formatUint ?n") auto
    then have "c \<noteq> CHR ''-''" "c \<noteq> CHR ''+''" using formatUint_head [of ?n] by auto
    then have "parseInt bits (formatInt i) = (case parseUint bits (formatUint ?n) of Inl e \<Rightarrow> Inl e
        | Inr un \<Rightarrow> if ?c \<le> un then Inl ErrRange else Inr (int un))"
      using False f by (auto simp: parseInt_def formatInt_def Let_def split: sum.split numErr.split)
    also have "\<dots> = (if ?n < ?c then Inr i else Inl ErrRange)"
      using m pow unfolding nm by (simp add: parseUint_format [OF assms(2)])
    finally have res: "parseInt bits (formatInt i) = (if m < ?c then Inr i else Inl ErrRange)"
      unfolding nm .
    have "- (2 ^ (bits - 1)) \<le> i" using m zero_less_power [of "2::int" "bits - 1"] by linarith
    moreover have "i < 2 ^ (bits - 1) \<longleftrightarrow> int m < int ?c" unfolding m(1) ic by linarith
    ultimately show ?thesis using res by (simp only: of_nat_less_iff simp_thms)
  qed
qed

end
