(* ===== verification/Values.thy ===== *)
theory Values
  imports GoStrconv
begin

text \<open>
  The values that pass between the program and a driver (\<open>driver/types.go\<close>), the converters of
  \<open>driver/types.go\<close> and \<open>mysql/statement.go\<close>, the conversion of query arguments, and
  \<open>Scan\<close>'s assignment to a destination (\<open>convert.go\<close>, \<open>valuer_scanner.go\<close>).

  A Go \<open>interface{}\<close> value is a \<open>gval\<close>: its dynamic type as far as type switches and
  \<open>reflect.Kind\<close> look at it. \<open>VDefined v\<close> is a value of a defined type without methods whose
  underlying type is that of \<open>v\<close>. Floats, times and decimals are opaque (a float is the bits of
  its value as a \<open>float64\<close>), and the formatting and parsing of floats, of times and the verb
  \<open>%v\<close>, and the test for a letter at the start of a name, are arguments (\<open>fmtEnv\<close>).
\<close>

datatype ikind = KI | KI8 | KI16 | KI32 | KI64
datatype ukind = KU | KU8 | KU16 | KU32 | KU64
datatype fkind = KF32 | KF64

fun ibits :: "ikind \<Rightarrow> nat" where
  "ibits KI = 64" | "ibits KI8 = 8" | "ibits KI16 = 16" | "ibits KI32 = 32" | "ibits KI64 = 64"

fun ubits :: "ukind \<Rightarrow> nat" where
  "ubits KU = 64" | "ubits KU8 = 8" | "ubits KU16 = 16" | "ubits KU32 = 32" | "ubits KU64 = 64"

datatype gval =
    VNil
  | VBool bool
  | VInt ikind int
  | VUint ukind nat
  | VFloat fkind u64
  | VString string
  | VBytes "byte list option"
  | VTime nat
  | VDecimal nat
  | VDefined gval
  | VJson "byte list"
  | VSlice
  | VPtr "gval option"
  | VValuer bool "gerr + gval"
  | VOther nat

text \<open>The integers a Go value of that type can have.\<close>

fun wellTyped :: "gval \<Rightarrow> bool" where
  "wellTyped (VInt k i) = (- (2 ^ (ibits k - 1)) \<le> i \<and> i < 2 ^ (ibits k - 1))"
| "wellTyped (VUint k n) = (n < 2 ^ ubits k)"
| "wellTyped (VDefined v) = wellTyped v"
| "wellTyped (VPtr (Some v)) = wellTyped v"
| "wellTyped (VValuer b (Inr v)) = wellTyped v"
| "wellTyped _ = True"

record fmtEnv =
  fmtFloat :: "fkind \<Rightarrow> u64 \<Rightarrow> string"
  fmtTime :: "nat \<Rightarrow> string"
  fmtV :: "gval \<Rightarrow> string"
  startsWithLetter :: "string \<Rightarrow> bool"
  parseFloat :: "fkind \<Rightarrow> string \<Rightarrow> numErr + u64"

text \<open>\<open>string(b)\<close> of a byte slice, and what \<open>reflect\<close> reads through a defined type.\<close>

definition stringOf :: "byte list option \<Rightarrow> string" where
  "stringOf b = (case b of None \<Rightarrow> [] | Some xs \<Rightarrow> map char_at xs)"

fun rvInt :: "gval \<Rightarrow> int option" where
  "rvInt (VInt k i) = Some i" | "rvInt (VDefined v) = rvInt v" | "rvInt _ = None"

fun rvUint :: "gval \<Rightarrow> (ukind \<times> nat) option" where
  "rvUint (VUint k n) = Some (k, n)" | "rvUint (VDefined v) = rvUint v" | "rvUint _ = None"

fun rvFloat :: "gval \<Rightarrow> (fkind \<times> u64) option" where
  "rvFloat (VFloat k f) = Some (k, f)" | "rvFloat (VDefined v) = rvFloat v" | "rvFloat _ = None"

fun rvBool :: "gval \<Rightarrow> bool option" where
  "rvBool (VBool b) = Some b" | "rvBool (VDefined v) = rvBool v" | "rvBool _ = None"

fun rvString :: "gval \<Rightarrow> string option" where
  "rvString (VString s) = Some s" | "rvString (VDefined v) = rvString v" | "rvString _ = None"

fun rvBytes :: "gval \<Rightarrow> byte list option option" where
  "rvBytes (VBytes b) = Some b" | "rvBytes (VJson b) = Some (Some b)"
| "rvBytes (VDefined v) = rvBytes v" | "rvBytes _ = None"

fun isSlice :: "gval \<Rightarrow> bool" where
  "isSlice VSlice = True" | "isSlice (VDefined v) = isSlice v" | "isSlice _ = False"

section \<open>The converters of the driver package\<close>

definition IsValue :: "gval \<Rightarrow> bool" where
  "IsValue v = (case v of
       VNil \<Rightarrow> True
     | VBytes _ \<Rightarrow> True | VBool _ \<Rightarrow> True | VFloat k _ \<Rightarrow> k = KF64 | VInt k _ \<Rightarrow> k = KI64
     | VString _ \<Rightarrow> True | VTime _ \<Rightarrow> True
     | VDecimal _ \<Rightarrow> True
     | _ \<Rightarrow> False)"

definition IsScanValue :: "gval \<Rightarrow> bool" where
  "IsScanValue v = IsValue v"

definition boolConvert :: "gval \<Rightarrow> gerr + gval" where
  "boolConvert src = (case src of
       VBool b \<Rightarrow> Inr src
     | VString s \<Rightarrow> (case parseBool s of None \<Rightarrow> Inl (ErrMsg ''sql/driver: couldn't convert %q into type bool'')
                     | Some b \<Rightarrow> Inr (VBool b))
     | VBytes s \<Rightarrow> (case parseBool (stringOf s) of
                       None \<Rightarrow> Inl (ErrMsg ''sql/driver: couldn't convert %q into type bool'')
                     | Some b \<Rightarrow> Inr (VBool b))
     | _ \<Rightarrow> (case rvInt src of
           Some iv \<Rightarrow> if iv = 1 \<or> iv = 0 then Inr (VBool (iv = 1))
                      else Inl (ErrMsg ''sql/driver: couldn't convert %d into type bool'')
         | None \<Rightarrow> (case rvUint src of
             Some (_, uv) \<Rightarrow> if uv = 1 \<or> uv = 0 then Inr (VBool (uv = 1))
                      else Inl (ErrMsg ''sql/driver: couldn't convert %d into type bool'')
           | None \<Rightarrow> Inl (ErrMsg ''sql/driver: couldn't convert %v (%T) into type bool''))))"

text \<open>A string goes through \<open>Atoi\<close>, whose width is 64 bits, and is not checked against 32 bits.\<close>

definition int32Convert :: "gval \<Rightarrow> gerr + gval" where
  "int32Convert v = (case rvInt v of
       Some i64 \<Rightarrow> if i64 > 2 ^ 31 - 1 \<or> i64 < - (2 ^ 31)
                   then Inl (ErrMsg ''sql/driver: value %d overflows int32'') else Inr (VInt KI64 i64)
     | None \<Rightarrow> (case rvUint v of
         Some (_, u64) \<Rightarrow> if u64 > 2 ^ 31 - 1
                   then Inl (ErrMsg ''sql/driver: value %d overflows int32'') else Inr (VInt KI64 (int u64))
       | None \<Rightarrow> (case rvString v of
           Some s \<Rightarrow> (case parseInt 64 s of
               Inl _ \<Rightarrow> Inl (ErrMsg ''sql/driver: value %q can't be converted to int32'')
             | Inr i \<Rightarrow> Inr (VInt KI64 i))
         | None \<Rightarrow> Inl (ErrMsg ''sql/driver: unsupported value %v (type %T) converting to int32''))))"

definition stringConvert :: "fmtEnv \<Rightarrow> gval \<Rightarrow> gerr + gval" where
  "stringConvert F v = (case v of VString _ \<Rightarrow> Inr v | VBytes _ \<Rightarrow> Inr v | _ \<Rightarrow> Inr (VString (fmtV F v)))"

definition nullConvert :: "(gval \<Rightarrow> gerr + gval) \<Rightarrow> gval \<Rightarrow> gerr + gval" where
  "nullConvert conv v = (if v = VNil then Inr VNil else conv v)"

definition notNullConvert :: "(gval \<Rightarrow> gerr + gval) \<Rightarrow> gval \<Rightarrow> gerr + gval" where
  "notNullConvert conv v = (if v = VNil then Inl (ErrMsg ''nil value not allowed'') else conv v)"

text \<open>\<open>callValuerValue\<close>: a nil pointer whose element type has the method counts as nil.\<close>

definition callValuerValue :: "bool \<Rightarrow> gerr + gval \<Rightarrow> gerr + gval" where
  "callValuerValue nilPtr r = (if nilPtr then Inr VNil else r)"

text \<open>The fallback on the kind of the underlying type, shared by the fields of one Go switch.\<close>

definition kindConvert :: "gval \<Rightarrow> gerr + gval" where
  "kindConvert v = (case rvInt v of Some i \<Rightarrow> Inr (VInt KI64 i)
     | None \<Rightarrow> (case rvUint v of
         Some (k, u) \<Rightarrow> if k = KU64 \<and> 2 ^ 63 \<le> u
                        then Inl (ErrMsg ''uint64 values with high bit set are not supported'')
                        else Inr (VInt KI64 (sint (of_nat u :: u64)))
     | None \<Rightarrow> (case rvFloat v of Some (_, f) \<Rightarrow> Inr (VFloat KF64 f)
     | None \<Rightarrow> (case rvBool v of Some b \<Rightarrow> Inr (VBool b)
     | None \<Rightarrow> (case rvBytes v of Some b \<Rightarrow> Inr (VBytes b)
     | None \<Rightarrow> (case rvString v of Some s \<Rightarrow> Inr (VString s)
     | None \<Rightarrow> Inl (if isSlice v then ErrMsg ''unsupported type %T, a slice of %s''
                   else ErrMsg ''unsupported type %T, a %s'')))))))"

fun defaultConvert :: "gval \<Rightarrow> gerr + gval" where
  "defaultConvert v =
     (if IsValue v then Inr v
      else (case v of
        VValuer nilPtr r \<Rightarrow> (case callValuerValue nilPtr r of
            Inl err \<Rightarrow> Inl err
          | Inr sv \<Rightarrow> if \<not> IsValue sv then Inl (ErrMsg ''non-Value type %T returned from Value'') else Inr sv)
      | VPtr None \<Rightarrow> Inr VNil
      | VPtr (Some w) \<Rightarrow> defaultConvert w
      | _ \<Rightarrow> kindConvert v))"

declare defaultConvert.simps [simp del]

text \<open>
  \<open>converter.ConvertValue\<close> of \<open>mysql/statement.go\<close>: the same walk, but every unsigned kind
  becomes a \<open>uint64\<close> and \<open>json.RawMessage\<close> stays what it is.
\<close>

definition mysqlKindConvert :: "gval \<Rightarrow> gerr + gval" where
  "mysqlKindConvert v = (case rvInt v of Some i \<Rightarrow> Inr (VInt KI64 i)
     | None \<Rightarrow> (case rvUint v of Some (_, u) \<Rightarrow> Inr (VUint KU64 u)
     | None \<Rightarrow> (case rvFloat v of Some (_, f) \<Rightarrow> Inr (VFloat KF64 f)
     | None \<Rightarrow> (case rvBool v of Some b \<Rightarrow> Inr (VBool b)
     | None \<Rightarrow> (case v of VJson _ \<Rightarrow> Inr v
     | _ \<Rightarrow> (case rvBytes v of Some b \<Rightarrow> Inr (VBytes b)
     | None \<Rightarrow> (case rvString v of Some s \<Rightarrow> Inr (VString s)
     | None \<Rightarrow> Inl (if isSlice v then ErrMsg ''unsupported type %T, a slice of %s''
                   else ErrMsg ''unsupported type %T, a %s''))))))))"

fun mysqlConvert :: "gval \<Rightarrow> gerr + gval" where
  "mysqlConvert v =
     (if IsValue v then Inr v
      else (case v of
        VValuer nilPtr r \<Rightarrow> (case callValuerValue nilPtr r of
            Inl err \<Rightarrow> Inl err
          | Inr sv \<Rightarrow> if IsValue sv then Inr sv
              else (case sv of VUint KU64 u \<Rightarrow> Inr sv
                    | _ \<Rightarrow> Inl (ErrMsg ''non-Value type %T returned from Value'')))
      | VPtr None \<Rightarrow> Inr VNil
      | VPtr (Some w) \<Rightarrow> mysqlConvert w
      | _ \<Rightarrow> mysqlKindConvert v))"

declare mysqlConvert.simps [simp del]

section \<open>Query arguments\<close>

record namedValue =
  nv_Name :: string
  nv_Ordinal :: nat
  nv_Value :: gval

text \<open>An argument the caller gives: a plain value, or a \<open>NamedArg\<close>.\<close>

datatype garg = Plain gval | Named string gval

type_synonym checker = "namedValue \<Rightarrow> gerr option \<times> namedValue"

definition validateNamedValueName :: "fmtEnv \<Rightarrow> string \<Rightarrow> gerr option" where
  "validateNamedValueName F name =
     (if length name = 0 then None
      else if startsWithLetter F name then None
      else Some (ErrMsg ''name %q does not begin with a letter''))"

text \<open>\<open>ccChecker.CheckNamedValue\<close>; the caller uses it only when there is a column converter.\<close>

definition ccCheckNamedValue :: "(nat \<Rightarrow> gval \<Rightarrow> gerr + gval) option \<Rightarrow> int \<Rightarrow> checker" where
  "ccCheckNamedValue cci want nv = (case cci of
       None \<Rightarrow> (Some ErrSkip, nv)
     | Some cc \<Rightarrow>
         let index = nv_Ordinal nv - 1 in
         if want \<le> int index then (None, nv)
         else
           let r = (case nv_Value nv of
                  VValuer nilPtr r \<Rightarrow> (case callValuerValue nilPtr r of
                      Inl err \<Rightarrow> Inl err
                    | Inr sv \<Rightarrow> if \<not> IsValue sv then Inl (ErrMsg ''non-subset type %T returned from Value'')
                               else Inr sv)
                | arg \<Rightarrow> Inr arg)
           in case r of
                Inl err \<Rightarrow> (Some err, nv)
              | Inr arg \<Rightarrow> (case cc index arg of
                    Inl err \<Rightarrow> (Some err, nv\<lparr>nv_Value := VNil\<rparr>)
                  | Inr v \<Rightarrow>
                      if \<not> IsValue v
                      then (Some (ErrMsg ''driver ColumnConverter error converted %T to unsupported type %T''),
                            nv\<lparr>nv_Value := v\<rparr>)
                      else (None, nv\<lparr>nv_Value := v\<rparr>)))"

text \<open>A failed conversion leaves nil in the value, which a repeated check then accepts.\<close>

definition defaultCheckNamedValue :: checker where
  "defaultCheckNamedValue nv = (case defaultConvert (nv_Value nv) of
       Inl err \<Rightarrow> (Some err, nv\<lparr>nv_Value := VNil\<rparr>)
     | Inr v \<Rightarrow> (None, nv\<lparr>nv_Value := v\<rparr>))"

text \<open>
  The loop at \<open>nextCheck\<close>: each \<open>ErrSkip\<close> passes the argument to the next checker of the route,
  and the default checker is repeated at the end. \<open>checkRoute_total\<close> below shows that two
  defaults are enough: the second never skips after the first did.
\<close>

fun checkRoute :: "checker list \<Rightarrow> checker" where
  "checkRoute [] nv = (Some ErrSkip, nv)"
| "checkRoute (c # cs) nv = (case c nv of
      (Some ErrSkip, nv') \<Rightarrow> checkRoute cs nv'
    | r \<Rightarrow> r)"

definition checkers ::
    "checker option \<Rightarrow> (nat \<Rightarrow> gval \<Rightarrow> gerr + gval) option \<Rightarrow> int \<Rightarrow> checker list" where
  "checkers nvc cci want =
     (case nvc of Some c \<Rightarrow> [c] | None \<Rightarrow> [])
     @ (case cci of Some _ \<Rightarrow> [ccCheckNamedValue cci want] | None \<Rightarrow> [])
     @ [defaultCheckNamedValue, defaultCheckNamedValue]"

definition zeroNV :: namedValue where
  "zeroNV = \<lparr>nv_Name = '''', nv_Ordinal = 0, nv_Value = VNil\<rparr>"

text \<open>
  The loop over the arguments. \<open>slot\<close> is \<open>nvargs[n]\<close>, which a removed argument leaves behind
  for the next one; its name is overwritten only by another named argument.
\<close>

definition takeArg :: "fmtEnv \<Rightarrow> namedValue \<Rightarrow> garg \<Rightarrow> nat \<Rightarrow> gerr + namedValue" where
  "takeArg F slot arg ordinal = (case arg of
       Named name v \<Rightarrow> (case validateNamedValueName F name of
           Some err \<Rightarrow> Inl err
         | None \<Rightarrow> Inr \<lparr>nv_Name = name, nv_Ordinal = ordinal, nv_Value = v\<rparr>)
     | Plain v \<Rightarrow> Inr \<lparr>nv_Name = nv_Name slot, nv_Ordinal = ordinal, nv_Value = v\<rparr>)"

fun argsLoop :: "fmtEnv \<Rightarrow> checker list \<Rightarrow> namedValue \<Rightarrow> garg list \<Rightarrow> namedValue list \<Rightarrow> gerr + namedValue list" where
  "argsLoop F cs slot [] nvargs = Inr nvargs"
| "argsLoop F cs slot (arg # args) nvargs =
     (case takeArg F slot arg (length nvargs + 1) of
        Inl err \<Rightarrow> Inl err
      | Inr nv0 \<Rightarrow> (case checkRoute cs nv0 of
            (None, nv) \<Rightarrow> argsLoop F cs zeroNV args (nvargs @ [nv])
          | (Some err, nv) \<Rightarrow>
              if err = ErrRemoveArgument then argsLoop F cs nv args nvargs
              else Inl (ErrMsg ''sql: converting argument %s type: %v'')))"

text \<open>
  \<open>stmt\<close> is what the driver's statement offers, when there is one: its checker, its column
  converter and its number of placeholders (-1 when it cannot tell).
\<close>

definition driverArgsConnLocked ::
    "fmtEnv \<Rightarrow> checker option \<Rightarrow> (checker option \<times> (nat \<Rightarrow> gval \<Rightarrow> gerr + gval) option \<times> int) option
     \<Rightarrow> garg list \<Rightarrow> gerr + namedValue list" where
  "driverArgsConnLocked F ciChecker stmt args =
     (let want = (case stmt of None \<Rightarrow> -1 | Some (_, _, n) \<Rightarrow> n);
          nvc = (case stmt of Some (Some c, _, _) \<Rightarrow> Some c | _ \<Rightarrow> ciChecker);
          cci = (case stmt of None \<Rightarrow> None | Some (_, cc, _) \<Rightarrow> cc)
      in case argsLoop F (checkers nvc cci want) zeroNV args [] of
           Inl err \<Rightarrow> Inl err
         | Inr nvargs \<Rightarrow>
             if want \<noteq> -1 \<and> int (length nvargs) \<noteq> want
             then Inl (ErrMsg ''sql: expected %d arguments, got %d'') else Inr nvargs)"

text \<open>\<open>namedValueToValue\<close> (\<open>ctxutil.go\<close>) for drivers without named parameters.\<close>

fun namedValueToValue :: "namedValue list \<Rightarrow> gerr + gval list" where
  "namedValueToValue [] = Inr []"
| "namedValueToValue (p # ps) =
     (if 0 < length (nv_Name p)
      then Inl (ErrMsg ''sql: driver does not support the use of Named Parameters'')
      else (case namedValueToValue ps of Inl e \<Rightarrow> Inl e | Inr vs \<Rightarrow> Inr (nv_Value p # vs)))"

section \<open>Assigning to a destination\<close>

text \<open>
  A destination is a pointer, by the type it points to; \<open>isNil\<close> says that it is the nil pointer.
  \<open>DInt\<close>, \<open>DUint\<close>, \<open>DFloat\<close> and \<open>DDefString\<close> stand for the built-in and the defined types
  of that kind, \<open>DPtr\<close> for a pointer to a pointer, \<open>DScanner\<close> for a type with a \<open>Scan\<close>
  method and \<open>DDecimal\<close> for one with \<open>Compose\<close>. Cursors (\<open>*Rows\<close>) are left out, and sources
  are not pointers. The result is what the destination holds afterwards.
\<close>

datatype dkind =
    DString | DBytes | DRawBytes | DBool | DAny | DTime
  | DInt ikind | DUint ukind | DFloat fkind | DDefString
  | DPtr dkind
  | DScanner "gval \<Rightarrow> gval res" | DDecimal "nat \<Rightarrow> gval res"
  | DStruct | DNotPointer

definition asString :: "fmtEnv \<Rightarrow> gval \<Rightarrow> string" where
  "asString F src = (case src of
       VString v \<Rightarrow> v
     | VBytes v \<Rightarrow> stringOf v
     | _ \<Rightarrow> (case rvInt src of Some i \<Rightarrow> formatInt i
       | None \<Rightarrow> (case rvUint src of Some (_, u) \<Rightarrow> formatUint u
       | None \<Rightarrow> (case rvFloat src of Some (k, f) \<Rightarrow> fmtFloat F k f
       | None \<Rightarrow> (case rvBool src of Some b \<Rightarrow> formatBool b
       | None \<Rightarrow> fmtV F src)))))"

definition asBytes :: "fmtEnv \<Rightarrow> gval \<Rightarrow> byte list option" where
  "asBytes F rv = map_option bytes_of
     (case rvInt rv of Some i \<Rightarrow> Some (formatInt i)
       | None \<Rightarrow> (case rvUint rv of Some (_, u) \<Rightarrow> Some (formatUint u)
       | None \<Rightarrow> (case rvFloat rv of Some (k, f) \<Rightarrow> Some (fmtFloat F k f)
       | None \<Rightarrow> (case rvBool rv of Some b \<Rightarrow> Some (formatBool b)
       | None \<Rightarrow> rvString rv))))"

definition store :: "bool \<Rightarrow> gval \<Rightarrow> gval res" where
  "store isNil v = (if isNil then Fail ErrNilPtr else Ok v)"

text \<open>An assignment through the pointer that the code does not guard.\<close>

definition poke :: "bool \<Rightarrow> gval \<Rightarrow> gval res" where
  "poke isNil v = (if isNil then Crash NilDeref else Ok v)"

fun intKind :: "gval \<Rightarrow> (ikind \<times> int) option" where
  "intKind (VInt k i) = Some (k, i)" | "intKind (VDefined v) = intKind v" | "intKind _ = None"

fun rvTime :: "gval \<Rightarrow> nat option" where
  "rvTime (VTime t) = Some t" | "rvTime (VDefined v) = rvTime v" | "rvTime _ = None"

text \<open>The first switch of \<open>convertAssignRows\<close>: the common cases, without reflection.\<close>

definition assignCommon :: "fmtEnv \<Rightarrow> bool \<Rightarrow> dkind \<Rightarrow> gval \<Rightarrow> gval res option" where
  "assignCommon F isNil dest src = (case src of
       VString s \<Rightarrow> (case dest of
           DString \<Rightarrow> Some (store isNil (VString s))
         | DBytes \<Rightarrow> Some (store isNil (VBytes (Some (bytes_of s))))
         | DRawBytes \<Rightarrow> Some (store isNil (VBytes (Some (bytes_of s))))
         | _ \<Rightarrow> None)
     | VBytes s \<Rightarrow> (case dest of
           DString \<Rightarrow> Some (store isNil (VString (stringOf s)))
         | DAny \<Rightarrow> Some (store isNil (VBytes s))
         | DBytes \<Rightarrow> Some (store isNil (VBytes s))
         | DRawBytes \<Rightarrow> Some (store isNil (VBytes s))
         | _ \<Rightarrow> None)
     | VTime t \<Rightarrow> (case dest of
           DTime \<Rightarrow> Some (poke isNil (VTime t))
         | DString \<Rightarrow> Some (poke isNil (VString (fmtTime F t)))
         | DBytes \<Rightarrow> Some (store isNil (VBytes (Some (bytes_of (fmtTime F t)))))
         | DRawBytes \<Rightarrow> Some (store isNil (VBytes (Some (bytes_of (fmtTime F t)))))
         | _ \<Rightarrow> None)
     | VDecimal k \<Rightarrow> (case dest of DDecimal f \<Rightarrow> Some (f k) | _ \<Rightarrow> None)
     | VNil \<Rightarrow> (case dest of
           DAny \<Rightarrow> Some (store isNil VNil)
         | DBytes \<Rightarrow> Some (store isNil (VBytes None))
         | DRawBytes \<Rightarrow> Some (store isNil (VBytes None))
         | _ \<Rightarrow> None)
     | _ \<Rightarrow> None)"

text \<open>The second switch, on the destination's built-in type.\<close>

definition assignBuiltin :: "fmtEnv \<Rightarrow> bool \<Rightarrow> dkind \<Rightarrow> gval \<Rightarrow> gval res option" where
  "assignBuiltin F isNil dest src = (case dest of
       DString \<Rightarrow>
         if rvBool src \<noteq> None \<or> rvInt src \<noteq> None \<or> rvUint src \<noteq> None \<or> rvFloat src \<noteq> None
         then Some (poke isNil (VString (asString F src))) else None
     | DBytes \<Rightarrow> map_option (\<lambda>b. poke isNil (VBytes (Some b))) (asBytes F src)
     | DRawBytes \<Rightarrow> map_option (\<lambda>b. poke isNil (VBytes (Some b))) (asBytes F src)
     | DBool \<Rightarrow> Some (case boolConvert src of Inl err \<Rightarrow> Fail err | Inr bv \<Rightarrow> poke isNil bv)
     | DAny \<Rightarrow> Some (poke isNil src)
     | _ \<Rightarrow> None)"

text \<open>Assignability and conversion between types of the same kind.\<close>

definition assignSame :: "dkind \<Rightarrow> gval \<Rightarrow> gval option" where
  "assignSame dest src = (case dest of
       DString \<Rightarrow> map_option VString (rvString src)
     | DDefString \<Rightarrow> map_option VString (rvString src)
     | DBytes \<Rightarrow> map_option VBytes (rvBytes src)
     | DRawBytes \<Rightarrow> map_option VBytes (rvBytes src)
     | DTime \<Rightarrow> map_option VTime (rvTime src)
     | DInt k \<Rightarrow> (case intKind src of Some (k', i) \<Rightarrow> if k' = k then Some (VInt k i) else None | None \<Rightarrow> None)
     | DUint k \<Rightarrow> (case rvUint src of Some (k', u) \<Rightarrow> if k' = k then Some (VUint k u) else None | None \<Rightarrow> None)
     | DFloat k \<Rightarrow> (case rvFloat src of Some (k', f) \<Rightarrow> if k' = k then Some (VFloat k f) else None | None \<Rightarrow> None)
     | _ \<Rightarrow> None)"

definition errNull :: gerr where
  "errNull = ErrMsg ''converting NULL to %s is unsupported''"

definition errConvert :: gerr where
  "errConvert = ErrMsg ''converting driver.Value type %T (%q) to a %s: %v''"

definition errUnsupported :: gerr where
  "errUnsupported = ErrMsg ''unsupported Scan, storing driver.Value type %T into type %T''"

text \<open>The third switch: through a string to the destination's kind.\<close>

definition assignString :: "gval \<Rightarrow> gval res" where
  "assignString src = (case src of
       VNil \<Rightarrow> Fail errNull
     | VString v \<Rightarrow> Ok (VString v)
     | VBytes v \<Rightarrow> Ok (VString (stringOf v))
     | _ \<Rightarrow> Fail errUnsupported)"

definition assignByKind :: "fmtEnv \<Rightarrow> dkind \<Rightarrow> gval \<Rightarrow> gval res" where
  "assignByKind F dest src = (case dest of
       DInt k \<Rightarrow>
         if src = VNil then Fail errNull
         else (case parseInt (ibits k) (asString F src) of Inl _ \<Rightarrow> Fail errConvert | Inr i \<Rightarrow> Ok (VInt k i))
     | DUint k \<Rightarrow>
         if src = VNil then Fail errNull
         else (case parseUint (ubits k) (asString F src) of Inl _ \<Rightarrow> Fail errConvert | Inr u \<Rightarrow> Ok (VUint k u))
     | DFloat k \<Rightarrow>
         if src = VNil then Fail errNull
         else (case parseFloat F k (asString F src) of Inl _ \<Rightarrow> Fail errConvert | Inr f \<Rightarrow> Ok (VFloat k f))
     | DString \<Rightarrow> assignString src
     | DDefString \<Rightarrow> assignString src
     | _ \<Rightarrow> Fail errUnsupported)"

fun convertAssign :: "fmtEnv \<Rightarrow> bool \<Rightarrow> dkind \<Rightarrow> gval \<Rightarrow> gval res" where
  "convertAssign F isNil dest src = (case assignCommon F isNil dest src of
       Some r \<Rightarrow> r
     | None \<Rightarrow> (case assignBuiltin F isNil dest src of
         Some r \<Rightarrow> r
       | None \<Rightarrow> (case dest of
           DScanner scan \<Rightarrow> scan src
         | DNotPointer \<Rightarrow> Fail (ErrMsg ''destination not a pointer'')
         | DPtr elem \<Rightarrow>
             if isNil then Fail ErrNilPtr
             else if src = VNil then Ok (VPtr None)
             else bindR (convertAssign F False elem src) (\<lambda>v. Ok (VPtr (Some v)))
         | _ \<Rightarrow>
             if isNil then Fail ErrNilPtr
             else (case assignSame dest src of
                 Some v \<Rightarrow> Ok v
               | None \<Rightarrow> assignByKind F dest src))))"

declare convertAssign.simps [simp del]

section \<open>Nullable destinations\<close>

text \<open>
  \<open>Scan\<close> of the nullable types: the value, whether it is valid, and the outcome of the call. A
  failed conversion leaves the old value and a \<open>Valid\<close> that is already set.
\<close>

definition scanNull :: "fmtEnv \<Rightarrow> dkind \<Rightarrow> gval \<Rightarrow> gval \<Rightarrow> (gval \<times> bool, unit) act" where
  "scanNull F dest zero value =
     (if value = VNil then modA (\<lambda>_. (zero, False))
      else (\<lambda>(old, valid). case convertAssign F False dest value of
          Ok v \<Rightarrow> (Ok (), (v, True))
        | Fail e \<Rightarrow> (Fail e, (old, True))
        | Crash h \<Rightarrow> (Crash h, (old, True))))"

definition NullString_Scan :: "fmtEnv \<Rightarrow> gval \<Rightarrow> (gval \<times> bool, unit) act" where
  "NullString_Scan F = scanNull F DString (VString '''')"

definition NullInt64_Scan :: "fmtEnv \<Rightarrow> gval \<Rightarrow> (gval \<times> bool, unit) act" where
  "NullInt64_Scan F = scanNull F (DInt KI64) (VInt KI64 0)"

definition NullInt32_Scan :: "fmtEnv \<Rightarrow> gval \<Rightarrow> (gval \<times> bool, unit) act" where
  "NullInt32_Scan F = scanNull F (DInt KI32) (VInt KI32 0)"

definition NullFloat64_Scan :: "fmtEnv \<Rightarrow> gval \<Rightarrow> (gval \<times> bool, unit) act" where
  "NullFloat64_Scan F = scanNull F (DFloat KF64) (VFloat KF64 0)"

definition NullBool_Scan :: "fmtEnv \<Rightarrow> gval \<Rightarrow> (gval \<times> bool, unit) act" where
  "NullBool_Scan F = scanNull F DBool (VBool False)"

definition NullTime_Scan :: "fmtEnv \<Rightarrow> nat \<Rightarrow> gval \<Rightarrow> (gval \<times> bool, unit) act" where
  "NullTime_Scan F zeroTime = scanNull F DTime (VTime zeroTime)"

definition nullValue :: "gval \<times> bool \<Rightarrow> gval" where
  "nullValue n = (if \<not> snd n then VNil else fst n)"

text \<open>\<open>Value\<close> of \<open>NullInt32\<close> widens to \<open>int64\<close>.\<close>

definition NullInt32_Value :: "gval \<times> bool \<Rightarrow> gval" where
  "NullInt32_Value n = (if \<not> snd n then VNil
     else (case fst n of VInt _ i \<Rightarrow> VInt KI64 i | v \<Rightarrow> v))"

section \<open>What the converters guarantee\<close>

lemma kindConvert_IsValue: "kindConvert v = Inr u \<Longrightarrow> IsValue u"
  by (auto simp: kindConvert_def IsValue_def split: option.splits prod.splits if_splits)

lemma defaultConvert_IsValue: "defaultConvert v = Inr u \<Longrightarrow> IsValue u"
proof (induction v arbitrary: u rule: defaultConvert.induct)
  case (1 v)
  show ?case
  proof (cases "IsValue v")
    case True
    then show ?thesis using 1(2) by (simp add: defaultConvert.simps [of v])
  next
    case nv: False
    show ?thesis
    proof (cases "\<exists>w. v = VPtr w")
      case True
      then obtain w where "v = VPtr w" ..
      then show ?thesis using 1 nv
        by (cases w) (auto simp: defaultConvert.simps [of "VPtr x" for x] IsValue_def [of VNil])
    next
      case False
      show ?thesis
      proof (cases "\<exists>b r. v = VValuer b r")
        case True
        then show ?thesis using 1(2) nv
          by (auto simp: defaultConvert.simps [of "VValuer b r" for b r] split: sum.splits if_splits)
      next
        case plain: False
        then have "defaultConvert v = kindConvert v"
          using False nv by (cases v) (simp_all add: defaultConvert.simps)
        then show ?thesis using 1(2) by (simp add: kindConvert_IsValue)
      qed
    qed
  qed
qed

lemma defaultCheck_IsValue: "defaultCheckNamedValue nv = (None, nv') \<Longrightarrow> IsValue (nv_Value nv')"
  by (auto simp: defaultCheckNamedValue_def dest: defaultConvert_IsValue split: sum.splits)

lemma defaultCheck_nil: "nv_Value nv = VNil \<Longrightarrow> defaultCheckNamedValue nv = (None, nv)"
  by (simp add: defaultCheckNamedValue_def defaultConvert.simps IsValue_def)

lemma defaultCheck_err: "defaultCheckNamedValue nv = (Some e, nv') \<Longrightarrow> nv' = nv\<lparr>nv_Value := VNil\<rparr>"
  by (auto simp: defaultCheckNamedValue_def split: sum.splits)

text \<open>Two defaults end every route: the second finds nil and accepts it.\<close>

lemma two_defaults: "fst (checkRoute [defaultCheckNamedValue, defaultCheckNamedValue] nv) \<noteq> Some ErrSkip"
proof (cases "defaultCheckNamedValue nv")
  case (Pair r nv')
  show ?thesis
  proof (cases "r = Some ErrSkip")
    case True
    then have "nv_Value nv' = VNil" using Pair defaultCheck_err [of nv] by auto
    then show ?thesis using Pair True by (simp add: defaultCheck_nil)
  next
    case False
    then show ?thesis using Pair by (auto split: option.splits gerr.splits)
  qed
qed

lemma checkRoute_append: "fst (checkRoute (cs @ ds) nv) = Some ErrSkip \<Longrightarrow>
    \<exists>nv'. fst (checkRoute ds nv') = Some ErrSkip"
proof (induction cs arbitrary: nv)
  case (Cons c cs)
  then show ?case by (cases "c nv") (auto split: option.splits gerr.splits)
qed auto

lemma checkRoute_total: "fst (checkRoute (checkers nvc cci want) nv) \<noteq> Some ErrSkip"
proof
  assume "fst (checkRoute (checkers nvc cci want) nv) = Some ErrSkip"
  then have "fst (checkRoute (((case nvc of Some c \<Rightarrow> [c] | None \<Rightarrow> [])
     @ (case cci of Some _ \<Rightarrow> [ccCheckNamedValue cci want] | None \<Rightarrow> []))
     @ [defaultCheckNamedValue, defaultCheckNamedValue]) nv) = Some ErrSkip"
    by (simp add: checkers_def)
  from checkRoute_append [OF this] show False using two_defaults by blast
qed

end
