(* ===== verification/ValuesProps.thy ===== *)
theory ValuesProps
  imports Values
begin

text \<open>
  Properties of the argument conversion and of \<open>Scan\<close>'s assignment, for every formatting of
  floats, times and \<open>%v\<close>.
\<close>

definition demoFmt :: fmtEnv where
  "demoFmt = \<lparr>fmtFloat = (\<lambda>_ _. ''0''), fmtTime = (\<lambda>_. ''t''), fmtV = (\<lambda>_. ''?''),
     startsWithLetter = (\<lambda>s. True), parseFloat = (\<lambda>_ _. Inr 0)\<rparr>"

section \<open>Arguments\<close>

text \<open>Without checkers from the driver, only the default one runs.\<close>

lemma argsLoop_default:
  assumes "argsLoop F (checkers None None want) slot args nvargs = Inr nvs"
    and "\<forall>nv \<in> set nvargs. IsValue (nv_Value nv)"
    and "map nv_Ordinal nvargs = [1..<Suc (length nvargs)]"
  shows "(\<forall>nv \<in> set nvs. IsValue (nv_Value nv)) \<and> map nv_Ordinal nvs = [1..<Suc (length nvs)] \<and>
    length nvs \<le> length nvargs + length args"
  using assms
proof (induction args arbitrary: slot nvargs)
  case (Cons arg args)
  obtain nv0 where t: "takeArg F slot arg (length nvargs + 1) = Inr nv0"
    using Cons.prems(1) by (cases "takeArg F slot arg (length nvargs + 1)") auto
  then have ord: "nv_Ordinal nv0 = length nvargs + 1"
    by (auto simp: takeArg_def split: garg.splits option.splits)
  obtain r nv where c: "checkRoute (checkers None None want) nv0 = (r, nv)"
    by (cases "checkRoute (checkers None None want) nv0")
  have good: "IsValue (nv_Value nv) \<and> nv_Ordinal nv = nv_Ordinal nv0" if "r = None"
    using c that
    by (auto simp: checkers_def defaultCheckNamedValue_def dest!: defaultConvert_IsValue
        split: sum.splits gerr.splits option.splits prod.splits)
  show ?case
  proof (cases r)
    case None
    then have "argsLoop F (checkers None None want) zeroNV args (nvargs @ [nv]) = Inr nvs"
      using Cons.prems(1) t c by simp
    from Cons.IH [OF this] show ?thesis using Cons.prems(2,3) good ord None by auto
  next
    case (Some e)
    then have "argsLoop F (checkers None None want) nv args nvargs = Inr nvs"
      using Cons.prems(1) t c by (auto split: if_splits)
    from Cons.IH [OF this Cons.prems(2,3)] show ?thesis by simp
  qed
qed simp

text \<open>
  C36: Without a checker or a statement from the driver, every argument that the conversion passes
  on is one of the driver's value types, and the arguments are numbered from one without gaps.
\<close>

theorem args_are_driver_values:
  assumes "driverArgsConnLocked F None None args = Inr nvs"
  shows "(\<forall>nv \<in> set nvs. IsValue (nv_Value nv)) \<and> map nv_Ordinal nvs = [1..<Suc (length nvs)] \<and>
    length nvs \<le> length args"
proof -
  have "argsLoop F (checkers None None (-1)) zeroNV args [] = Inr nvs"
    using assms by (auto simp: driverArgsConnLocked_def Let_def split: sum.splits)
  from argsLoop_default [OF this] show ?thesis by simp
qed

theorem args_are_driver_values_witness:
  "\<exists>nvs. driverArgsConnLocked demoFmt None None [Plain (VUint KU8 5), Plain (VDefined (VString ''a''))] = Inr nvs \<and>
     (\<forall>nv \<in> set nvs. IsValue (nv_Value nv)) \<and> map nv_Ordinal nvs = [1, 2]"
proof -
  let ?nvs = "[\<lparr>nv_Name = '''', nv_Ordinal = 1, nv_Value = VInt KI64 5\<rparr>,
               \<lparr>nv_Name = '''', nv_Ordinal = 2, nv_Value = VString ''a''\<rparr>]"
  have run: "driverArgsConnLocked demoFmt None None [Plain (VUint KU8 5), Plain (VDefined (VString ''a''))] = Inr ?nvs"
    by (simp add: driverArgsConnLocked_def checkers_def defaultCheckNamedValue_def defaultConvert.simps
        IsValue_def kindConvert_def zeroNV_def takeArg_def)
  from args_are_driver_values [OF this] run show ?thesis by auto
qed

text \<open>
  A checker that removes a named argument leaves its name in the slot, and the next plain
  argument is sent under that name.
\<close>

theorem removed_name_is_inherited:
  assumes "startsWithLetter F name" and "name \<noteq> ''''" and "IsValue v"
    and "\<And>nv. chk nv = (if nv_Value nv = gone then (Some ErrRemoveArgument, nv) else (None, nv))"
    and "v \<noteq> gone"
  shows "driverArgsConnLocked F (Some chk) None [Named name gone, Plain v] =
    Inr [\<lparr>nv_Name = name, nv_Ordinal = 1, nv_Value = v\<rparr>]"
  using assms by (simp add: driverArgsConnLocked_def checkers_def takeArg_def validateNamedValueName_def zeroNV_def)

theorem removed_name_is_inherited_witness:
  "driverArgsConnLocked demoFmt
     (Some (\<lambda>nv. if nv_Value nv = VString ''out'' then (Some ErrRemoveArgument, nv) else (None, nv))) None
     [Named ''p'' (VString ''out''), Plain (VInt KI64 1)] =
   Inr [\<lparr>nv_Name = ''p'', nv_Ordinal = 1, nv_Value = VInt KI64 1\<rparr>]"
  by (rule removed_name_is_inherited) (simp_all add: demoFmt_def IsValue_def)

lemma kind_agree:
  assumes "kindConvert v = Inr u"
  shows "mysqlKindConvert v = Inr u \<or>
    (\<exists>n. mysqlKindConvert v = Inr (VUint KU64 n) \<and> u = VInt KI64 (sint (of_nat n :: u64))) \<or>
    (\<exists>b. mysqlKindConvert v = Inr (VJson b) \<and> u = VBytes (Some b))"
  using assms
  by (cases v) (auto simp: kindConvert_def mysqlKindConvert_def split: option.splits prod.splits if_splits)

text \<open>
  The driver's converter and the default one agree wherever the default one succeeds, except
  that unsigned integers stay unsigned (the default gives the same 64 bits read as a signed
  number) and raw JSON keeps its type.
\<close>

theorem converters_agree:
  assumes "defaultConvert v = Inr u"
  shows "mysqlConvert v = Inr u \<or>
    (\<exists>n. mysqlConvert v = Inr (VUint KU64 n) \<and> u = VInt KI64 (sint (of_nat n :: u64))) \<or>
    (\<exists>b. mysqlConvert v = Inr (VJson b) \<and> u = VBytes (Some b))"
  using assms
proof (induction v arbitrary: u rule: defaultConvert.induct)
  case (1 v)
  show ?case
  proof (cases "IsValue v")
    case True
    then have "defaultConvert v = Inr v" "mysqlConvert v = Inr v"
      by (simp_all add: defaultConvert.simps [of v] mysqlConvert.simps [of v])
    then show ?thesis using 1(2) by simp
  next
    case nv: False
    show ?thesis
    proof (cases "\<exists>w. v = VPtr w")
      case True
      then obtain w where "v = VPtr w" ..
      then show ?thesis using 1 nv
        by (cases w) (auto simp: defaultConvert.simps [of "VPtr x" for x] mysqlConvert.simps [of "VPtr x" for x])
    next
      case noptr: False
      show ?thesis
      proof (cases "\<exists>b r. v = VValuer b r")
        case True
        then show ?thesis using 1(2) nv
          by (auto simp: defaultConvert.simps [of "VValuer b r" for b r]
              mysqlConvert.simps [of "VValuer b r" for b r] split: sum.splits if_splits)
      next
        case False
        then have "defaultConvert v = kindConvert v" "mysqlConvert v = mysqlKindConvert v"
          using noptr nv by (cases v; simp add: defaultConvert.simps mysqlConvert.simps)+
        then show ?thesis using 1(2) kind_agree [of v u] by simp
      qed
    qed
  qed
qed

theorem converters_agree_witness:
  "mysqlConvert (VUint KU (2 ^ 63)) = Inr (VInt KI64 (- (2 ^ 63))) \<or>
    (\<exists>n. mysqlConvert (VUint KU (2 ^ 63)) = Inr (VUint KU64 n) \<and> VInt KI64 (- (2 ^ 63)) = VInt KI64 (sint (of_nat n :: u64))) \<or>
    (\<exists>b. mysqlConvert (VUint KU (2 ^ 63)) = Inr (VJson b) \<and> VInt KI64 (- (2 ^ 63)) = VBytes (Some b))"
  by (rule converters_agree) (simp add: defaultConvert.simps IsValue_def kindConvert_def)

text \<open>
  The default converter checks the high bit of a \<open>uint64\<close> but not of a \<open>uint\<close>, which has
  64 bits too: a \<open>uint\<close> of at least 2 to the 63 is passed to the driver as a negative number,
  while the same number as a \<open>uint64\<close> is an error.
\<close>

theorem uint_wraps_to_negative:
  assumes "2 ^ 63 \<le> n" and "n < 2 ^ 64"
  shows "defaultConvert (VUint KU n) = Inr (VInt KI64 (int n - 2 ^ 64)) \<and>
    (\<exists>e. defaultConvert (VUint KU64 n) = Inl e)"
proof -
  have "sint (of_nat n :: u64) = int n - 2 ^ 64"
  proof -
    have "uint (of_nat n :: u64) = int n" using assms(2) by (simp add: unsigned_of_nat take_bit_nat_eq_self)
    moreover have "int n div 9223372036854775808 = 1"
      using assms by (intro int_div_pos_eq [of _ _ _ "int n - 2 ^ 63"]) auto
    moreover have "take_bit 64 (int n) = int n" using assms by (intro take_bit_int_eq_self) auto
    ultimately show ?thesis using assms
      by (simp add: sint_uint signed_take_bit_eq_if_negative signed_take_bit_eq_take_bit_minus bit_iff_odd)
  qed
  then show ?thesis using assms by (simp add: defaultConvert.simps IsValue_def kindConvert_def)
qed

theorem uint_wraps_to_negative_witness:
  "defaultConvert (VUint KU (2 ^ 63 + 1)) = Inr (VInt KI64 (1 - 2 ^ 63)) \<and>
    (\<exists>e. defaultConvert (VUint KU64 (2 ^ 63 + 1)) = Inl e)"
  using uint_wraps_to_negative [of "2 ^ 63 + 1"] by simp

section \<open>Scanning\<close>

lemma asString_int: "rvInt src = Some i \<Longrightarrow> asString F src = formatInt i"
  by (cases src) (auto simp: asString_def)

lemma asString_uint: "rvInt src = None \<Longrightarrow> rvUint src = Some (k, n) \<Longrightarrow> asString F src = formatUint n"
  by (cases src) (auto simp: asString_def)

lemma formatUint_int: "formatUint n = formatInt (int n)"
  by (simp add: formatInt_def)

lemma formatInt_neg_not_uint: "i < 0 \<Longrightarrow> parseUint bits (formatInt i) = Inl ErrSyntax"
  by (simp add: formatInt_def parseUint_def digit_val_def)

lemma ibits_range: "0 < ibits k \<and> ibits k \<le> 64" by (cases k) simp_all
lemma ubits_range: "ubits k \<le> 64" by (cases k) simp_all

text \<open>The integer a source value holds, signed or unsigned.\<close>

definition holds :: "gval \<Rightarrow> int \<Rightarrow> bool" where
  "holds src i \<longleftrightarrow> rvInt src = Some i \<or> (rvInt src = None \<and> (\<exists>k n. rvUint src = Some (k, n) \<and> i = int n))"

lemma holds_asString: "holds src i \<Longrightarrow> asString F src = formatInt i"
  by (auto simp: holds_def asString_int asString_uint formatUint_int)

lemma holds_not_common: "holds src i \<Longrightarrow> assignCommon F False (DInt k) src = None \<and>
    assignCommon F False (DUint uk) src = None"
  by (cases src) (auto simp: holds_def assignCommon_def)

lemma intKind_facts: "intKind src = Some (k, i) \<Longrightarrow> rvInt src = Some i \<and>
    (wellTyped src \<longrightarrow> - (2 ^ (ibits k - 1)) \<le> i \<and> i < 2 ^ (ibits k - 1))"
  by (induction src rule: intKind.induct) auto

lemma rvUint_facts: "rvUint src = Some (k, n) \<Longrightarrow> wellTyped src \<Longrightarrow> n < 2 ^ ubits k"
  by (induction src rule: rvUint.induct) auto

lemma rvInt_intKind: "rvInt src = None \<Longrightarrow> intKind src = None"
  by (induction src rule: rvInt.induct) auto

lemma scan_int:
  assumes "holds src i" and "wellTyped src"
  shows "convertAssign F False (DInt k) src =
      (if - (2 ^ (ibits k - 1)) \<le> i \<and> i < 2 ^ (ibits k - 1) then Ok (VInt k i) else Fail errConvert)"
proof -
  have "convertAssign F False (DInt k) src = (case assignSame (DInt k) src of
      Some v \<Rightarrow> Ok v | None \<Rightarrow> assignByKind F (DInt k) src)"
    using holds_not_common [OF assms(1)] by (simp add: convertAssign.simps assignBuiltin_def)
  also have "\<dots> = (if - (2 ^ (ibits k - 1)) \<le> i \<and> i < 2 ^ (ibits k - 1) then Ok (VInt k i) else Fail errConvert)"
  proof (cases "assignSame (DInt k) src")
    case None
    have "src \<noteq> VNil" using assms(1) by (auto simp: holds_def)
    then show ?thesis using None ibits_range [of k]
      by (simp add: assignByKind_def holds_asString [OF assms(1)] parseInt_format)
  next
    case (Some v)
    then obtain j where "intKind src = Some (k, j)" "v = VInt k j"
      by (auto simp: assignSame_def split: option.splits if_splits)
    then show ?thesis using Some intKind_facts [of src k j] assms by (auto simp: holds_def)
  qed
  finally show ?thesis .
qed

lemma scan_uint:
  assumes "holds src i" and "wellTyped src"
  shows "convertAssign F False (DUint k) src =
      (if 0 \<le> i \<and> i < 2 ^ ubits k then Ok (VUint k (nat i)) else Fail errConvert)"
proof -
  have "convertAssign F False (DUint k) src = (case assignSame (DUint k) src of
      Some v \<Rightarrow> Ok v | None \<Rightarrow> assignByKind F (DUint k) src)"
    using holds_not_common [OF assms(1)] by (simp add: convertAssign.simps assignBuiltin_def)
  also have "\<dots> = (if 0 \<le> i \<and> i < 2 ^ ubits k then Ok (VUint k (nat i)) else Fail errConvert)"
  proof (cases "assignSame (DUint k) src")
    case None
    have "src \<noteq> VNil" using assms(1) by (auto simp: holds_def)
    show ?thesis
    proof (cases "0 \<le> i")
      case True
      then have "parseUint (ubits k) (formatInt i) = (if nat i < 2 ^ ubits k then Inr (nat i) else Inl ErrRange)"
        using parseUint_format [OF ubits_range, of k "nat i"] by (simp add: formatInt_def)
      moreover have "nat i < 2 ^ ubits k \<longleftrightarrow> i < 2 ^ ubits k" using True by (simp add: nat_less_iff)
      ultimately show ?thesis using None True \<open>src \<noteq> VNil\<close>
        by (simp add: assignByKind_def holds_asString [OF assms(1)])
    next
      case False
      then show ?thesis using None \<open>src \<noteq> VNil\<close>
        by (simp add: assignByKind_def holds_asString [OF assms(1)] formatInt_neg_not_uint)
    qed
  next
    case (Some v)
    then obtain n where "rvUint src = Some (k, n)" "v = VUint k n"
      by (auto simp: assignSame_def split: option.splits if_splits)
    moreover from this have "n < 2 ^ ubits k" using rvUint_facts assms(2) by blast
    moreover have "rvInt src = None" using \<open>rvUint src = Some (k, n)\<close>
      by (induction src rule: rvUint.induct) auto
    ultimately show ?thesis using Some assms(1) by (auto simp: holds_def)
  qed
  finally show ?thesis .
qed

text \<open>
  C38: Scanning a column that holds an integer into an integer destination stores exactly that
  integer when the destination's type can hold it and is an error otherwise: no scan between
  integer types of any widths and signs loses information.
\<close>

theorem scan_int_exact:
  assumes "holds src i" and "wellTyped src"
  shows "convertAssign F False (DInt k) src =
      (if - (2 ^ (ibits k - 1)) \<le> i \<and> i < 2 ^ (ibits k - 1) then Ok (VInt k i) else Fail errConvert) \<and>
    convertAssign F False (DUint uk) src =
      (if 0 \<le> i \<and> i < 2 ^ ubits uk then Ok (VUint uk (nat i)) else Fail errConvert)"
  using scan_int [OF assms] scan_uint [OF assms] by simp

theorem scan_int_exact_witness:
  "convertAssign demoFmt False (DInt KI8) (VInt KI64 300) = Fail errConvert \<and>
    convertAssign demoFmt False (DUint KU16) (VInt KI64 300) = Ok (VUint KU16 300)"
  using scan_int_exact [of "VInt KI64 300" 300 demoFmt KI8 KU16] by (simp add: holds_def)

text \<open>
  What a nullable 64-bit integer gives to the driver it scans back unchanged, the value nil
  included, whatever the destination held before.
\<close>

theorem null_int64_round_trip:
  assumes "n = (VInt KI64 i, True) \<and> wellTyped (VInt KI64 i) \<or> n = (VInt KI64 0, False)"
  shows "NullInt64_Scan F (nullValue n) old = (Ok (), n)"
proof (cases "snd n")
  case True
  then have n: "n = (VInt KI64 i, True)" and wt: "wellTyped (VInt KI64 i)" using assms by auto
  have "holds (VInt KI64 i) i" by (simp add: holds_def)
  from scan_int [OF this wt, of F KI64] wt n show ?thesis
    by (cases old) (simp add: NullInt64_Scan_def scanNull_def nullValue_def)
next
  case False
  then show ?thesis using assms by (auto simp: NullInt64_Scan_def scanNull_def nullValue_def)
qed

theorem null_int64_round_trip_witness:
  "NullInt64_Scan demoFmt (nullValue (VInt KI64 (- 7), True)) (VInt KI64 3, False) = (Ok (), (VInt KI64 (- 7), True))"
  by (rule null_int64_round_trip [where i = "- 7"]) simp

text \<open>
  The 32-bit converter checks integers against 32 bits but not strings: it accepts the decimal
  string of every 64-bit integer and passes on that integer.
\<close>

theorem int32_converter_accepts_wide_strings:
  assumes "- (2 ^ 63) \<le> i" and "i < 2 ^ 63"
  shows "int32Convert (VString (formatInt i)) = Inr (VInt KI64 i) \<and>
    (int32Convert (VInt KI64 i) = Inr (VInt KI64 i) \<longleftrightarrow> - (2 ^ 31) \<le> i \<and> i < 2 ^ 31)"
  using assms parseInt_format [of 64 i] by (auto simp: int32Convert_def)

theorem int32_converter_accepts_wide_strings_witness:
  "int32Convert (VString (formatInt (2 ^ 40))) = Inr (VInt KI64 (2 ^ 40)) \<and>
    int32Convert (VInt KI64 (2 ^ 40)) \<noteq> Inr (VInt KI64 (2 ^ 40))"
  using int32_converter_accepts_wide_strings [of "2 ^ 40"] by simp

end
