(* ===== verification/PoolState.thy ===== *)
theory PoolState
  imports Values "HOL-Library.AList"
begin

text \<open>
  The state of the connection pool: the driver connections (\<open>driver_conn.go\<close>), the
  statements prepared on them (\<open>driver_stmt.go\<close>, \<open>prepared_statement.go\<close>), the pools
  (\<open>conn_pool.go\<close>) and the facade that holds the pools and the common connection limit
  (\<open>conn_pool_facade.go\<close>).

  Pointers are numbers: a connection, a driver statement, a statement, a pool and a channel each
  have an identity and a heap of their own in the world. The world also records which mutexes the
  running goroutine holds: a Go mutex is not reentrant, so locking a held mutex never returns
  (\<open>Crash Deadlock\<close>), and unlocking a free one ends the process (\<open>Crash FatalUnlock\<close>).
  One operation is one goroutine's run through the code with no other goroutine in between; the
  interleavings of several goroutines are in theory \<open>FacadeRace\<close>.
\<close>

type_synonym dcid = nat
type_synonym dsid = nat
type_synonym stid = nat
type_synonym poolid = nat
type_synonym chanid = nat

section \<open>Data\<close>

datatype connReuseStrategy = alwaysNewConn | cachedOrNewConn

record driverConn =
  dc_pool :: poolid
  dc_createdAt :: int
  dc_ci :: "nat option"
  dc_needReset :: bool
  dc_closed :: bool
  dc_finalClosed :: bool
  dc_openStmt :: "dsid list"
  dc_inUse :: bool
  dc_returnedAt :: int
  dc_onPut :: "dsid list"
  dc_dbmuClosed :: bool

record driverStmt =
  ds_locker :: dcid
  ds_si :: nat
  ds_closed :: bool
  ds_closeErr :: "gerr option"

type_synonym txid = nat
type_synonym connid = nat
type_synonym rowsid = nat

text \<open>
  \<open>Stmt\<close> (\<open>prepared_statement.go\<close>). A statement of a transaction or of a single connection
  always takes its connection from there (\<open>cg\<close>); one of a pool keeps the list \<open>css\<close> of the
  connections it is prepared on. Its lock \<open>closemu\<close> is held during one operation only, so
  it is free whenever another operation starts.
\<close>

datatype stmtConnGrabber = GrabTx txid | GrabConn connid

record Stmt =
  st_db :: poolid
  st_query :: string
  st_stickyErr :: "gerr option"
  st_cg :: "stmtConnGrabber option"
  st_cgds :: "dsid option"
  st_parent :: "stid option"
  st_closed :: bool
  st_css :: "(dcid \<times> dsid) list"
  st_lastNumClosed :: u64

text \<open>
  The release functions that travel with a borrowed connection: back to the pool
  (\<open>dc.releaseConn\<close>), the read lock of a transaction or of a single connection, and the closure
  that \<open>Stmt.QueryContext\<close> makes around one of these for its rows.
\<close>

datatype release = RelPut dcid | RelTx txid | RelConn connid | RelRows release stid rowsid

record Tx =
  tx_db :: poolid
  tx_dc :: "dcid option"
  tx_txi :: "nat option"
  tx_release :: release
  tx_done :: bool
  tx_keepConnOnRollback :: bool
  tx_stmts :: "stid list"
  tx_cancelled :: bool
  tx_readers :: nat

record Conn =
  cn_db :: "poolid option"
  cn_dc :: "dcid option"
  cn_done :: bool
  cn_readers :: nat

record Rows =
  rs_dc :: dcid
  rs_release :: release
  rs_rowsi :: "nat option"
  rs_cancel :: bool
  rs_closeStmt :: "dsid option"
  rs_closed :: bool
  rs_lasterr :: "gerr option"
  rs_lastcols :: "gval list option"

text \<open>The calls the program makes on a driver's connection, its statements and transactions.\<close>

datatype drvCall =
    CallPrepare string | CallPrepareContext string
  | CallExec string "gval list" | CallExecContext string "namedValue list"
  | CallQuery string "gval list" | CallQueryContext string "namedValue list"
  | CallStmtExec nat "gval list" | CallStmtExecContext nat "namedValue list"
  | CallStmtQuery nat "gval list" | CallStmtQueryContext nat "namedValue list"
  | CallStmtClose nat | CallPing | CallBegin | CallBeginTx int bool
  | CallCommit nat | CallRollback nat
  | CallRowsColumns nat | CallRowsNext nat | CallNextResultSet nat | CallRowsClose nat

record sess =
  s_nextDs :: dsid
  s_nextSt :: stid
  s_tx :: "txid \<Rightarrow> Tx"
  s_nextTx :: txid
  s_conn :: "connid \<Rightarrow> Conn"
  s_nextConn :: connid
  s_rows :: "rowsid \<Rightarrow> Rows"
  s_nextRows :: rowsid
  s_calls :: "drvCall list"

text \<open>The finalClosers and the values they depend on: connections, statements, rows.\<close>

datatype obj = ODc dcid | OStmt stid | ORows rowsid

record connCreationResponse =
  resp_conn :: "dcid option"
  resp_err :: "gerr option"

text \<open>
  \<open>freeConn\<close>, \<open>connRequests\<close>, the dependency sets and \<open>openStmt\<close> are Go maps used
  as sets or tables: a list without duplicate keys. \<open>cleanerCh\<close> is nil, open with a number of
  messages in its buffer of one, or closed. A connector is the driver's own or a
  \<open>dsnConnector\<close> with its data source name and driver; drivers and their connectors are
  outside the program and are numbers.
\<close>

datatype cleanerChan = NilChan | OpenChan nat | ClosedChan

datatype connector = DsnConnector string nat | DriverConnector nat

record ConnPool =
  cp_connector :: connector
  cp_waitDuration :: int
  cp_numClosed :: u64
  cp_freeConn :: "dcid list"
  cp_connRequests :: "(u64 \<times> chanid) list"
  cp_nextRequest :: u64
  cp_closed :: bool
  cp_dep :: "obj \<Rightarrow> obj list option"
  cp_lastPut :: "dcid list"
  cp_maxLifetime :: int
  cp_maxIdleTime :: int
  cp_cleanerCh :: cleanerChan
  cp_maxIdleClosed :: int
  cp_maxIdleTimeClosed :: int
  cp_maxLifetimeClosed :: int
  cp_stopped :: bool

datatype mutex = FacadeMu | PoolMu poolid | DcMu dcid | StmtMu stid

text \<open>
  The world: the heaps, the state of the session layer (\<open>w_sess\<close>), the channels, the driver connections that were told to close
  (\<open>w_ciClosed\<close>), the registered drivers of \<open>sql.go\<close>, the fields of
  \<open>ConnPoolFacade\<close> (\<open>f_\<close>, with \<open>f_cancelled\<close> for its context) and the held
  mutexes. \<open>'c\<close> is the state of the LRU cache of \<open>hashicorp/golang-lru\<close> and \<open>'m\<close>
  the state of the concurrent map of \<open>orcaman/concurrent-map\<close>, neither of which is part of
  the repository.
\<close>

record ('c, 'm) world =
  w_dc :: "dcid \<Rightarrow> driverConn"
  w_nextDc :: dcid
  w_ds :: "dsid \<Rightarrow> driverStmt"
  w_st :: "stid \<Rightarrow> Stmt"
  w_sess :: sess
  w_pool :: "poolid \<Rightarrow> ConnPool"
  w_nextPool :: poolid
  w_chan :: "chanid \<Rightarrow> connCreationResponse list"
  w_nextChan :: chanid
  w_ciClosed :: "nat list"
  w_drivers :: "(string \<times> nat) list"
  f_driverName :: string
  f_pools :: "'m"
  f_totalMax :: int
  f_numOpened :: int
  f_waitCount :: int
  f_idleTimeout :: int
  f_closed :: bool
  f_cancelled :: bool
  f_openerChannel :: "poolid list"
  f_lruCache :: "'c"
  w_locked :: "mutex set"

text \<open>
  What one operation needs from outside: the operations of the LRU cache and of the concurrent
  map, the driver's answers (\<open>None\<close> where the driver does not implement the optional
  interface), the clock, the state of the context (\<open>Some e\<close> when it is done), and the
  runtime's choices for the next iteration over a map.
\<close>

record ('c, 'm) env =
  lruAdd :: "dcid \<Rightarrow> 'c \<Rightarrow> bool \<times> 'c"
  lruRemove :: "dcid \<Rightarrow> 'c \<Rightarrow> bool \<times> 'c"
  lruRemoveOldest :: "'c \<Rightarrow> dcid option \<times> 'c"
  lruLen :: "'c \<Rightarrow> nat"
  mapHas :: "string \<Rightarrow> 'm \<Rightarrow> bool"
  mapGet :: "string \<Rightarrow> 'm \<Rightarrow> poolid option"
  mapSet :: "string \<Rightarrow> poolid \<Rightarrow> 'm \<Rightarrow> 'm"
  mapIter :: "'m \<Rightarrow> poolid list"
  mapCount :: "'m \<Rightarrow> nat"
  drvOpenConnector :: "nat \<Rightarrow> string \<Rightarrow> (gerr + nat) option"
  drvOpen :: "nat \<Rightarrow> string \<Rightarrow> gerr + nat"
  drvConnect :: "nat \<Rightarrow> gerr + nat"
  drvIsValid :: "nat \<Rightarrow> bool option"
  drvResetSession :: "nat \<Rightarrow> gerr option option"
  drvCloseConn :: "nat \<Rightarrow> gerr option"
  drvCloseStmt :: "nat \<Rightarrow> gerr option"
  nowFunc :: int
  ctxErr :: "gerr option"
  mapOrder :: "nat list"

type_synonym ('c, 'm, 'a) pact = "(('c, 'm) world, 'a) act"

text \<open>\<open>Connect\<close> of a connector; \<open>dsnConnector\<close> (\<open>dsn_connectionr.go\<close>) asks its driver.\<close>

definition connectorConnect :: "('c, 'm) env \<Rightarrow> connector \<Rightarrow> gerr + nat" where
  "connectorConnect E c = (case c of DsnConnector dsn drv \<Rightarrow> drvOpen E drv dsn
     | DriverConnector k \<Rightarrow> drvConnect E k)"

text \<open>\<open>Close\<close> of a driver connection: the call is recorded, the answer is the driver's.\<close>

definition ciClose :: "('c, 'm) env \<Rightarrow> nat \<Rightarrow> ('c, 'm, gerr option) pact" where
  "ciClose E h w = (Ok (drvCloseConn E h), w\<lparr>w_ciClosed := w_ciClosed w @ [h]\<rparr>)"

section \<open>Access to the heaps\<close>

definition updSess :: "(sess \<Rightarrow> sess) \<Rightarrow> ('c, 'm) world \<Rightarrow> ('c, 'm) world" where
  "updSess f w = w\<lparr>w_sess := f (w_sess w)\<rparr>"

text \<open>The calls on driver objects are recorded in their order.\<close>

definition logCall :: "drvCall \<Rightarrow> ('c, 'm) world \<Rightarrow> ('c, 'm) world" where
  "logCall c = updSess (\<lambda>z. z\<lparr>s_calls := s_calls z @ [c]\<rparr>)"

definition updDc :: "dcid \<Rightarrow> (driverConn \<Rightarrow> driverConn) \<Rightarrow> ('c, 'm) world \<Rightarrow> ('c, 'm) world" where
  "updDc d f w = w\<lparr>w_dc := (w_dc w)(d := f (w_dc w d))\<rparr>"

definition updDs :: "dsid \<Rightarrow> (driverStmt \<Rightarrow> driverStmt) \<Rightarrow> ('c, 'm) world \<Rightarrow> ('c, 'm) world" where
  "updDs d f w = w\<lparr>w_ds := (w_ds w)(d := f (w_ds w d))\<rparr>"

definition updSt :: "stid \<Rightarrow> (Stmt \<Rightarrow> Stmt) \<Rightarrow> ('c, 'm) world \<Rightarrow> ('c, 'm) world" where
  "updSt s f w = w\<lparr>w_st := (w_st w)(s := f (w_st w s))\<rparr>"

definition updPool :: "poolid \<Rightarrow> (ConnPool \<Rightarrow> ConnPool) \<Rightarrow> ('c, 'm) world \<Rightarrow> ('c, 'm) world" where
  "updPool p f w = w\<lparr>w_pool := (w_pool w)(p := f (w_pool w p))\<rparr>"

lemmas upd_defs [simp] = updSess_def logCall_def updDc_def updDs_def updSt_def updPool_def

section \<open>Mutexes\<close>

definition lockA :: "mutex \<Rightarrow> ('c, 'm, unit) pact" where
  "lockA m w = (if m \<in> w_locked w then (Crash Deadlock, w)
                else (Ok (), w\<lparr>w_locked := insert m (w_locked w)\<rparr>))"

definition unlockA :: "mutex \<Rightarrow> ('c, 'm, unit) pact" where
  "unlockA m w = (if m \<in> w_locked w then (Ok (), w\<lparr>w_locked := w_locked w - {m}\<rparr>)
                  else (Crash FatalUnlock, w))"

text \<open>
  \<open>withLock lk f\<close> (\<open>sql.go\<close>): the deferred unlock also runs when \<open>f\<close> leaves an error
  in the caller's variable, which is \<open>Fail\<close> here. A goroutine that blocks for ever in \<open>f\<close> never
  gets to the unlock, and its mutex stays locked, as in the code. After a panic in \<open>f\<close> the deferred
  unlock would run; the model leaves the mutex locked then, so the locks of a world after a panic are
  not those of the code. No property speaks of them: what is stated after a crash is about blocking.
\<close>

definition withLock :: "mutex \<Rightarrow> ('c, 'm, 'a) pact \<Rightarrow> ('c, 'm, 'a) pact" where
  "withLock lk f =
     seqA (lockA lk) (thenA (tryA f) (\<lambda>r. seqA (unlockA lk)
       (case r of Inl e \<Rightarrow> fail e | Inr x \<Rightarrow> ret x)))"

lemma lockA_free [simp]:
  "m \<notin> w_locked w \<Longrightarrow> lockA m w = (Ok (), w\<lparr>w_locked := insert m (w_locked w)\<rparr>)"
  by (simp add: lockA_def)

lemma lockA_held [simp]: "m \<in> w_locked w \<Longrightarrow> lockA m w = (Crash Deadlock, w)"
  by (simp add: lockA_def)

lemma unlockA_held [simp]:
  "m \<in> w_locked w \<Longrightarrow> unlockA m w = (Ok (), w\<lparr>w_locked := w_locked w - {m}\<rparr>)"
  by (simp add: unlockA_def)

lemma unlockA_free [simp]: "m \<notin> w_locked w \<Longrightarrow> unlockA m w = (Crash FatalUnlock, w)"
  by (simp add: unlockA_def)

lemma lockA_bind [simp]:
  "m \<notin> w_locked w \<Longrightarrow> seqA (lockA m) f w = f (w\<lparr>w_locked := insert m (w_locked w)\<rparr>)"
  "m \<in> w_locked w \<Longrightarrow> seqA (lockA m) f w = (Crash Deadlock, w)"
  by (simp_all add: act_defs)

lemma unlockA_bind [simp]:
  "m \<in> w_locked w \<Longrightarrow> seqA (unlockA m) f w = f (w\<lparr>w_locked := w_locked w - {m}\<rparr>)"
  "m \<notin> w_locked w \<Longrightarrow> seqA (unlockA m) f w = (Crash FatalUnlock, w)"
  by (simp_all add: act_defs)

text \<open>A critical section run from a state where the mutex is free, ending normally.\<close>

lemma withLock_Ok:
  assumes "lk \<notin> w_locked w"
    and "f (w\<lparr>w_locked := insert lk (w_locked w)\<rparr>) = (Ok x, w')" and "lk \<in> w_locked w'"
  shows "withLock lk f w = (Ok x, w'\<lparr>w_locked := w_locked w' - {lk}\<rparr>)"
  using assms by (simp add: withLock_def act_defs)

section \<open>Contract of the LRU cache\<close>

text \<open>
  The documented behaviour of \<open>hashicorp/golang-lru\<close>. \<open>keys\<close> lists the keys from the
  oldest to the newest; \<open>Add\<close> moves a present key to the newest place and otherwise appends
  it, evicting the oldest key when the size is exceeded; \<open>Remove\<close> tells whether the key was
  present; \<open>RemoveOldest\<close> takes the oldest key, if there is one.
\<close>

locale lru_cache =
  fixes E :: "('c, 'm) env" and keys :: "'c \<Rightarrow> dcid list" and size :: nat
  assumes keys_distinct: "distinct (keys c)"
    and add_evicted: "fst (lruAdd E d c) \<longleftrightarrow> d \<notin> set (keys c) \<and> size \<le> length (keys c)"
    and add_keys: "keys (snd (lruAdd E d c)) =
      (let ks = remove1 d (keys c) @ [d] in if fst (lruAdd E d c) then tl ks else ks)"
    and remove_present: "fst (lruRemove E d c) \<longleftrightarrow> d \<in> set (keys c)"
    and remove_keys: "keys (snd (lruRemove E d c)) = remove1 d (keys c)"
    and oldest: "fst (lruRemoveOldest E c) = (case keys c of [] \<Rightarrow> None | d # _ \<Rightarrow> Some d)"
    and oldest_keys: "keys (snd (lruRemoveOldest E c)) = tl (keys c)"
    and len: "lruLen E c = length (keys c)"
begin

lemma oldest_not_present: "fst (lruRemoveOldest E c) = Some d \<Longrightarrow>
    \<not> fst (lruRemove E d (snd (lruRemoveOldest E c)))"
  using keys_distinct [of c] by (auto simp: oldest oldest_keys remove_present split: list.splits)

lemma oldest_Some: "lruLen E c \<noteq> 0 \<Longrightarrow> \<exists>d. fst (lruRemoveOldest E c) = Some d"
  by (cases "keys c") (auto simp: oldest len)

lemma add_present: "d \<in> set (keys (snd (lruAdd E d c)))" if "\<not> fst (lruAdd E d c)"
  using that by (simp add: add_keys)

lemma add_length: "length (keys c) \<le> size \<Longrightarrow> \<not> fst (lruAdd E d c) \<Longrightarrow>
    length (keys (snd (lruAdd E d c))) \<le> size"
  using length_pos_if_in_set [of d "keys c"]
  by (auto simp: add_evicted add_keys length_remove1 split: if_splits)

lemma remove_set: "set (keys (snd (lruRemove E d c))) = set (keys c) - {d}"
  using keys_distinct by (simp add: remove_keys)

lemma add_set: "\<not> fst (lruAdd E d c) \<Longrightarrow>
    set (keys (snd (lruAdd E d c))) = insert d (set (keys c))"
  using keys_distinct [of c] by (auto simp: add_keys)

end

section \<open>Contract of the concurrent map\<close>

text \<open>
  The documented behaviour of \<open>orcaman/concurrent-map\<close> for one goroutine: a finite map from
  strings; \<open>IterBuffered\<close> sends every entry once, in some order.
\<close>

locale cmap =
  fixes E :: "('c, 'm) env" and contents :: "'m \<Rightarrow> string \<rightharpoonup> poolid"
  assumes has: "mapHas E k m \<longleftrightarrow> contents m k \<noteq> None"
    and get: "mapGet E k m = contents m k"
    and set_contents: "contents (mapSet E k p m) = (contents m)(k \<mapsto> p)"
    and iter: "set (mapIter E m) = ran (contents m)"
    and iter_length: "length (mapIter E m) = mapCount E m"
    and count: "mapCount E m = card (dom (contents m))"
begin

lemma get_set: "mapGet E k (mapSet E k p m) = Some p"
  by (simp add: get set_contents)

lemma get_set_other: "k \<noteq> k' \<Longrightarrow> mapGet E k' (mapSet E k p m) = mapGet E k' m"
  by (simp add: get set_contents)

lemma has_set: "mapHas E k (mapSet E k p m)"
  by (simp add: has set_contents)

lemma has_get: "mapHas E k m \<Longrightarrow> \<exists>p. mapGet E k m = Some p \<and> p \<in> set (mapIter E m)"
  by (auto simp: has get iter ran_def)

end

section \<open>Both contracts on lists\<close>

text \<open>
  Both libraries are outside the repository. \<open>listEnv\<close> gives an environment the simplest
  implementations that meet the contracts: the keys in a list from the oldest to the newest and
  the map as an association list. The concrete runs below are made in it.
\<close>

definition listEnv :: "nat \<Rightarrow> (dcid list, (string \<times> poolid) list) env
    \<Rightarrow> (dcid list, (string \<times> poolid) list) env" where
  "listEnv sz E = E\<lparr>
     lruAdd := (\<lambda>d c. let ks = remdups c; ks' = remove1 d ks @ [d];
                          evicted = (d \<notin> set ks \<and> sz \<le> length ks)
                      in (evicted, if evicted then tl ks' else ks')),
     lruRemove := (\<lambda>d c. (d \<in> set c, remove1 d (remdups c))),
     lruRemoveOldest := (\<lambda>c. case remdups c of [] \<Rightarrow> (None, []) | d # ds \<Rightarrow> (Some d, ds)),
     lruLen := (\<lambda>c. length (remdups c)),
     mapHas := (\<lambda>k m. map_of m k \<noteq> None),
     mapGet := (\<lambda>k m. map_of m k),
     mapSet := (\<lambda>k p m. (k, p) # m),
     mapIter := (\<lambda>m. map snd (AList.clearjunk m)),
     mapCount := (\<lambda>m. length (AList.clearjunk m))\<rparr>"

lemma distinct_snoc_remove1: "distinct ks \<Longrightarrow> distinct (remove1 d ks @ [d])"
  by simp

interpretation list_lru: lru_cache "listEnv sz E" remdups sz
proof
  fix c :: "dcid list" and d
  show "fst (lruAdd (listEnv sz E) d c) \<longleftrightarrow>
      d \<notin> set (remdups c) \<and> sz \<le> length (remdups c)"
    by (simp add: listEnv_def Let_def)
  have "distinct (tl (remove1 d (remdups c) @ [d]))" by (simp add: distinct_tl)
  then show "remdups (snd (lruAdd (listEnv sz E) d c)) =
      (let ks = remove1 d (remdups c) @ [d]
       in if fst (lruAdd (listEnv sz E) d c) then tl ks else ks)"
    by (auto simp: listEnv_def Let_def distinct_remdups_id simp del: remdups.simps)
  show "fst (lruRemoveOldest (listEnv sz E) c) =
      (case remdups c of [] \<Rightarrow> None | d # _ \<Rightarrow> Some d)"
    by (simp add: listEnv_def split: list.split)
  show "remdups (snd (lruRemoveOldest (listEnv sz E) c)) = tl (remdups c)"
    by (auto simp: listEnv_def distinct_remdups_id split: list.split)
      (metis distinct.simps(2) distinct_remdups distinct_remdups_id)
qed (simp_all add: listEnv_def distinct_remdups_id)

interpretation list_cmap: cmap "listEnv sz E" map_of
proof
  fix m :: "(string \<times> poolid) list"
  show "set (mapIter (listEnv sz E) m) = ran (map_of m)"
    by (simp add: listEnv_def ran_map_of)
  show "mapCount (listEnv sz E) m = card (dom (map_of m))"
  proof -
    have "dom (map_of m) = fst ` set (AList.clearjunk m)" by (simp add: dom_clearjunk dom_map_of_conv_image_fst)
    also have "\<dots> = set (map fst (AList.clearjunk m))" by simp
    finally have "card (dom (map_of m)) = card (set (map fst (AList.clearjunk m)))" by simp
    also have "\<dots> = length (AList.clearjunk m)" by (subst distinct_card) simp_all
    finally show ?thesis by (simp add: listEnv_def)
  qed
qed (auto simp: listEnv_def)

end
