(* ===== verification/PoolClose.thy ===== *)
theory PoolClose
  imports PoolState
begin

text \<open>
  Reference counting (\<open>conn_pool_dep.go\<close>), closing of statements and connections
  (\<open>driver_stmt.go\<close>, \<open>driver_conn.go\<close>), the LRU of idle connections
  (\<open>conn_pool_facade_lru.go\<close>) and the opener command (\<open>conn_pool_facade_opener.go\<close>).

  The code is mutually recursive: closing a connection asks for new ones, which may close idle
  connections, which closes a connection. The inner close is a parameter \<open>rec\<close> of the bodies
  and \<open>dcClose\<close> ties the knot with fuel; \<open>dcClose_fuel\<close> shows that depth two is enough,
  because the inner call runs while the facade's mutex is held.
\<close>

section \<open>Dependencies: \<open>addDepLocked\<close>, \<open>removeDepLocked\<close>\<close>

text \<open>The set \<open>connPool.dep[x]\<close>, a fresh one when \<open>x\<close> has none.\<close>

definition depsOf :: "ConnPool \<Rightarrow> obj \<Rightarrow> obj list" where
  "depsOf cp x = (case cp_dep cp x of None \<Rightarrow> [] | Some xdep \<Rightarrow> xdep)"

definition addDepLocked :: "poolid \<Rightarrow> obj \<Rightarrow> obj \<Rightarrow> ('c, 'm, unit) pact" where
  "addDepLocked p x d = modA (updPool p (\<lambda>cp. cp\<lparr>cp_dep := (cp_dep cp)
     (x \<mapsto> List.insert d (depsOf cp x))\<rparr>))"

definition addDep :: "poolid \<Rightarrow> obj \<Rightarrow> obj \<Rightarrow> ('c, 'm, unit) pact" where
  "addDep p x d = seqA (lockA (PoolMu p)) (seqA (addDepLocked p x d) (unlockA (PoolMu p)))"

text \<open>
  The returned function is either \<open>x.finalClose\<close> or the function that returns nil;
  \<open>True\<close> stands for the former.
\<close>

definition removeDepLocked :: "poolid \<Rightarrow> obj \<Rightarrow> obj \<Rightarrow> ('c, 'm, bool) pact" where
  "removeDepLocked p x d = thenA (getA (\<lambda>w. cp_dep (w_pool w p) x)) (\<lambda>xdepO.
     case xdepO of
       None \<Rightarrow> crash (Panic ''unpaired removeDep: no deps'')
     | Some xdep \<Rightarrow>
         let xdep' = remove1 d xdep in
         if length xdep' = length xdep then crash (Panic ''unpaired removeDep: no dep on'')
         else if length xdep' = 0
           then seqA (modA (updPool p (\<lambda>cp. cp\<lparr>cp_dep := (cp_dep cp)(x := None)\<rparr>))) (ret True)
         else seqA (modA (updPool p (\<lambda>cp. cp\<lparr>cp_dep := (cp_dep cp)(x \<mapsto> xdep')\<rparr>))) (ret False))"

section \<open>Driver statements\<close>

definition dsClose :: "('c, 'm) env \<Rightarrow> dsid \<Rightarrow> ('c, 'm, gerr option) pact" where
  "dsClose E ds = thenA (getA (\<lambda>w. DcMu (ds_locker (w_ds w ds)))) (\<lambda>lk.
     seqA (lockA lk) (thenA (getA (\<lambda>w. w_ds w ds)) (\<lambda>s.
       if ds_closed s then seqA (unlockA lk) (ret (ds_closeErr s))
       else
         let e = drvCloseStmt E (ds_si s) in
         seqA (modA (logCall (CallStmtClose (ds_si s))))
        (seqA (modA (updDs ds (\<lambda>s. s\<lparr>ds_closed := True, ds_closeErr := e\<rparr>)))
           (seqA (unlockA lk) (ret e))))))"

fun dsCloseAll :: "('c, 'm) env \<Rightarrow> dsid list \<Rightarrow> ('c, 'm, unit) pact" where
  "dsCloseAll E [] = ret ()"
| "dsCloseAll E (d # ds) = seqA (dsClose E d) (dsCloseAll E ds)"

definition removeOpenStmt :: "dcid \<Rightarrow> dsid \<Rightarrow> ('c, 'm, unit) pact" where
  "removeOpenStmt dc ds = withLock (DcMu dc)
     (modA (updDc dc (\<lambda>c. c\<lparr>dc_openStmt := remove1 ds (dc_openStmt c)\<rparr>)))"

definition noteUnusedDriverStatement ::
    "('c, 'm) env \<Rightarrow> poolid \<Rightarrow> dcid \<Rightarrow> dsid \<Rightarrow> ('c, 'm, unit) pact" where
  "noteUnusedDriverStatement E p c ds =
     seqA (lockA (PoolMu p)) (thenA (getA (\<lambda>w. dc_inUse (w_dc w c))) (\<lambda>inUse.
       if inUse then
         seqA (modA (updDc c (\<lambda>x. x\<lparr>dc_onPut := dc_onPut x @ [ds]\<rparr>))) (unlockA (PoolMu p))
       else
         seqA (lockA (DcMu c)) (thenA (getA (\<lambda>w. dc_finalClosed (w_dc w c))) (\<lambda>fc.
         seqA (unlockA (DcMu c))
           (if \<not> fc then seqA (dsClose E ds) (unlockA (PoolMu p)) else unlockA (PoolMu p))))))"

text \<open>\<open>(*Stmt).finalClose\<close>: every driver statement of the list is given up.\<close>

fun releaseCss :: "('c, 'm) env \<Rightarrow> poolid \<Rightarrow> (dcid \<times> dsid) list \<Rightarrow> ('c, 'm, unit) pact" where
  "releaseCss E p [] = ret ()"
| "releaseCss E p ((dc, ds) # css) =
     seqA (noteUnusedDriverStatement E p dc ds) (seqA (removeOpenStmt dc ds) (releaseCss E p css))"

definition stmtFinalClose :: "('c, 'm) env \<Rightarrow> stid \<Rightarrow> ('c, 'm, unit) pact" where
  "stmtFinalClose E s = withLock (StmtMu s) (thenA (getA (\<lambda>w. w_st w s)) (\<lambda>st.
     seqA (releaseCss E (st_db st) (st_css st)) (modA (updSt s (\<lambda>st. st\<lparr>st_css := []\<rparr>)))))"

section \<open>Facade counters and the LRU of idle connections\<close>

definition incrementNumOpened :: "('c, 'm, unit) pact" where
  "incrementNumOpened = seqA (lockA FacadeMu)
     (seqA (modA (\<lambda>w. w\<lparr>f_numOpened := f_numOpened w + 1\<rparr>)) (unlockA FacadeMu))"

definition decrementNumOpened :: "('c, 'm, unit) pact" where
  "decrementNumOpened = seqA (lockA FacadeMu)
     (seqA (modA (\<lambda>w. w\<lparr>f_numOpened := f_numOpened w - 1\<rparr>)) (unlockA FacadeMu))"

definition canAddNewConn :: "('c, 'm, bool) pact" where
  "canAddNewConn = seqA (lockA FacadeMu)
     (thenA (getA (\<lambda>w. f_numOpened w < f_totalMax w)) (\<lambda>r. seqA (unlockA FacadeMu) (ret r)))"

definition isConnectionLimitExistsLocked :: "('c, 'm, bool) pact" where
  "isConnectionLimitExistsLocked = getA (\<lambda>w. 0 < f_totalMax w)"

definition getNumOfConnRequestsLocked :: "('c, 'm, int) pact" where
  "getNumOfConnRequestsLocked = getA f_waitCount"

definition getNumCanOpenConnectionsLocked :: "('c, 'm, int) pact" where
  "getNumCanOpenConnectionsLocked = getA (\<lambda>w. f_totalMax w - f_numOpened w)"

definition removeConnFromLru :: "('c, 'm) env \<Rightarrow> dcid \<Rightarrow> ('c, 'm, unit) pact" where
  "removeConnFromLru E dc = thenA (getA (\<lambda>w. lruRemove E dc (f_lruCache w))) (\<lambda>(present, c').
     seqA (modA (\<lambda>w. w\<lparr>f_lruCache := c'\<rparr>))
       (if \<not> present then crash (Panic ''lru does not contain connection'') else ret ()))"

definition putConnToLru :: "('c, 'm) env \<Rightarrow> dcid \<Rightarrow> ('c, 'm, unit) pact" where
  "putConnToLru E dc = thenA (getA (\<lambda>w. lruAdd E dc (f_lruCache w))) (\<lambda>(evicted, c').
     seqA (modA (\<lambda>w. w\<lparr>f_lruCache := c'\<rparr>))
       (if evicted then crash (Panic ''lru evicted a connection'') else ret ()))"

definition removeConnFromFree :: "poolid \<Rightarrow> dcid \<Rightarrow> ('c, 'm, bool) pact" where
  "removeConnFromFree p dc = seqA (lockA (PoolMu p))
     (thenA (getA (\<lambda>w. dc \<in> set (cp_freeConn (w_pool w p)))) (\<lambda>ok.
      seqA (modA (updPool p (\<lambda>cp. cp\<lparr>cp_freeConn := remove1 dc (cp_freeConn cp)\<rparr>)))
        (seqA (unlockA (PoolMu p)) (ret ok))))"

definition getWaitCount :: "poolid \<Rightarrow> ('c, 'm, int) pact" where
  "getWaitCount p = seqA (lockA (PoolMu p))
     (thenA (getA (\<lambda>w. int (length (cp_connRequests (w_pool w p))))) (\<lambda>n.
      seqA (unlockA (PoolMu p)) (ret n)))"

text \<open>
  The loop of \<open>closeLruIdleConnectionsLocked\<close>; \<open>rec\<close> is \<open>(*driverConn).Close\<close>. The
  count is a Go \<open>int\<close>, so a negative one means no iteration.
\<close>

fun closeLruLoop :: "('c, 'm) env \<Rightarrow> (dcid \<Rightarrow> ('c, 'm, unit) pact) \<Rightarrow> nat \<Rightarrow> ('c, 'm, unit) pact" where
  "closeLruLoop E rec 0 = ret ()"
| "closeLruLoop E rec (Suc n) =
     thenA (getA (\<lambda>w. lruRemoveOldest E (f_lruCache w))) (\<lambda>(key, c').
     seqA (modA (\<lambda>w. w\<lparr>f_lruCache := c'\<rparr>))
       (case key of
          None \<Rightarrow> crash (Panic ''lru cache is empty'')
        | Some dc \<Rightarrow>
            thenA (getA (\<lambda>w. dc_pool (w_dc w dc))) (\<lambda>p.
            thenA (removeConnFromFree p dc) (\<lambda>ok.
              if \<not> ok then crash (Panic ''connection is not among the free ones'')
              else thenA (tryA (rec dc)) (\<lambda>r. case r of
                  Inl e \<Rightarrow> crash (Panic ''error while closing'')
                | Inr _ \<Rightarrow> closeLruLoop E rec n)))))"

definition closeLruIdleConnectionsLocked ::
    "('c, 'm) env \<Rightarrow> (dcid \<Rightarrow> ('c, 'm, unit) pact) \<Rightarrow> int \<Rightarrow> ('c, 'm, unit) pact" where
  "closeLruIdleConnectionsLocked E rec numConnToClose = closeLruLoop E rec (nat numConnToClose)"

definition maybeCloseIdleConnLocked ::
    "('c, 'm) env \<Rightarrow> (dcid \<Rightarrow> ('c, 'm, unit) pact) \<Rightarrow> int \<Rightarrow> ('c, 'm, unit) pact" where
  "maybeCloseIdleConnLocked E rec numIdleConnToClose =
     thenA (getA (\<lambda>w. int (lruLen E (f_lruCache w)))) (\<lambda>numOfIdleConn.
       closeLruIdleConnectionsLocked E rec
         (if numOfIdleConn < numIdleConnToClose then numOfIdleConn else numIdleConnToClose))"

section \<open>Asking for new connections\<close>

fun collectRequests :: "poolid list \<Rightarrow> int \<Rightarrow> poolid list \<Rightarrow> ('c, 'm, poolid list) pact" where
  "collectRequests [] remaining acc = crash (Panic ''wrong number of waiting connections'')"
| "collectRequests (p # ps) remaining acc =
     thenA (getWaitCount p) (\<lambda>wc.
       if wc = 0 then collectRequests ps remaining acc
       else
         let numOfNewConn = min wc remaining;
             acc' = acc @ replicate (nat numOfNewConn) p;
             remaining' = remaining - numOfNewConn
         in if remaining' = 0 then ret acc' else collectRequests ps remaining' acc')"

definition getConnPoolsThatHaveRequestedNewConnections ::
    "('c, 'm) env \<Rightarrow> int \<Rightarrow> ('c, 'm, poolid list) pact" where
  "getConnPoolsThatHaveRequestedNewConnections E connectionsNum =
     (if connectionsNum = 0 then ret []
      else thenA (getA (\<lambda>w. mapIter E (f_pools w))) (\<lambda>ps. collectRequests ps connectionsNum []))"

text \<open>
  The opener channel holds 1000 commands; a further send blocks, and as the facade's mutex is
  held nobody empties it.
\<close>

definition openerChannelCap :: nat where
  "openerChannelCap = 1000"

fun giveCommandToOpenNewConnections :: "poolid list \<Rightarrow> ('c, 'm, unit) pact" where
  "giveCommandToOpenNewConnections [] = ret ()"
| "giveCommandToOpenNewConnections (p # ps) =
     seqA (modA (\<lambda>w. w\<lparr>f_numOpened := f_numOpened w + 1\<rparr>))
       (thenA (getA (\<lambda>w. (f_closed w, length (f_openerChannel w)))) (\<lambda>(isClosed, n).
          if isClosed then ret ()
          else if n < openerChannelCap
          then seqA (modA (\<lambda>w. w\<lparr>f_openerChannel := f_openerChannel w @ [p]\<rparr>))
                 (giveCommandToOpenNewConnections ps)
          else crash Deadlock))"

definition maybeOpenNewConnectionsB ::
    "('c, 'm) env \<Rightarrow> (dcid \<Rightarrow> ('c, 'm, unit) pact) \<Rightarrow> ('c, 'm, unit) pact" where
  "maybeOpenNewConnectionsB E rec =
     seqA (lockA FacadeMu)
       (thenA getNumOfConnRequestsLocked (\<lambda>numConnectionsRequested.
        thenA getNumCanOpenConnectionsLocked (\<lambda>numCanOpenConnections.
        thenA (if numCanOpenConnections < numConnectionsRequested
               then seqA (maybeCloseIdleConnLocked E rec
                            (numConnectionsRequested - numCanOpenConnections))
                      getNumCanOpenConnectionsLocked
               else ret numCanOpenConnections) (\<lambda>numCanOpenConnections'.
        thenA (getConnPoolsThatHaveRequestedNewConnections E
                 (min numConnectionsRequested numCanOpenConnections')) (\<lambda>ps.
        seqA (giveCommandToOpenNewConnections ps) (unlockA FacadeMu))))))"

section \<open>Closing a connection\<close>

text \<open>
  \<open>(*driverConn).finalClose\<close>. A nil \<open>ci\<close> cannot be closed: calling a method on a nil
  interface panics.
\<close>

definition dcFinalCloseB ::
    "('c, 'm) env \<Rightarrow> (dcid \<Rightarrow> ('c, 'm, unit) pact) \<Rightarrow> dcid \<Rightarrow> ('c, 'm, unit) pact" where
  "dcFinalCloseB E rec dc =
     thenA (withLock (DcMu dc) (thenA (getA (\<lambda>w. dc_openStmt (w_dc w dc))) (\<lambda>os.
              seqA (modA (updDc dc (\<lambda>c. c\<lparr>dc_openStmt := []\<rparr>))) (ret os)))) (\<lambda>openStmt.
     seqA (dsCloseAll E (range_order (mapOrder E) openStmt))
    (thenA (withLock (DcMu dc)
              (seqA (modA (updDc dc (\<lambda>c. c\<lparr>dc_finalClosed := True\<rparr>)))
              (thenA (getA (\<lambda>w. dc_ci (w_dc w dc))) (\<lambda>ci. case ci of
                  None \<Rightarrow> crash NilDeref
                | Some h \<Rightarrow>
                    thenA (ciClose E h) (\<lambda>err.
                    seqA (modA (updDc dc (\<lambda>c. c\<lparr>dc_ci := None\<rparr>))) (ret err)))))) (\<lambda>err.
     seqA decrementNumOpened
    (seqA (maybeOpenNewConnectionsB E rec)
    (thenA (getA (\<lambda>w. dc_pool (w_dc w dc))) (\<lambda>p.
     seqA (modA (updPool p (\<lambda>cp. cp\<lparr>cp_numClosed := cp_numClosed cp + 1\<rparr>)))
       (case err of None \<Rightarrow> ret () | Some e \<Rightarrow> fail e)))))))"

text \<open>\<open>(*driverConn).Close\<close>: the panic about the LRU comes before the check for a second close.\<close>

definition dcCloseB ::
    "('c, 'm) env \<Rightarrow> (dcid \<Rightarrow> ('c, 'm, unit) pact) \<Rightarrow> dcid \<Rightarrow> ('c, 'm, unit) pact" where
  "dcCloseB E rec dc =
     seqA (lockA (DcMu dc))
    (seqA (removeConnFromLru E dc)
    (thenA (getA (\<lambda>w. dc_closed (w_dc w dc))) (\<lambda>isClosed.
       if isClosed then
         seqA (unlockA (DcMu dc)) (fail (ErrMsg ''sql: duplicate driverConn close''))
       else
         seqA (modA (updDc dc (\<lambda>c. c\<lparr>dc_closed := True\<rparr>)))
        (seqA (unlockA (DcMu dc))
        (thenA (getA (\<lambda>w. dc_pool (w_dc w dc))) (\<lambda>p.
         seqA (lockA (PoolMu p))
        (seqA (modA (updDc dc (\<lambda>c. c\<lparr>dc_dbmuClosed := True\<rparr>)))
        (thenA (removeDepLocked p (ODc dc) (ODc dc)) (\<lambda>final.
         seqA (unlockA (PoolMu p))
           (if final then dcFinalCloseB E rec dc else ret ()))))))))))"

fun dcClose :: "nat \<Rightarrow> ('c, 'm) env \<Rightarrow> dcid \<Rightarrow> ('c, 'm, unit) pact" where
  "dcClose 0 E dc = crash (Panic ''out of fuel'')"
| "dcClose (Suc n) E dc = dcCloseB E (dcClose n E) dc"

text \<open>The functions with the recursion closed.\<close>

definition closeConn :: "('c, 'm) env \<Rightarrow> dcid \<Rightarrow> ('c, 'm, unit) pact" where
  "closeConn E dc = dcClose 2 E dc"

definition maybeOpenNewConnections :: "('c, 'm) env \<Rightarrow> ('c, 'm, unit) pact" where
  "maybeOpenNewConnections E = maybeOpenNewConnectionsB E (closeConn E)"

definition dcFinalClose :: "('c, 'm) env \<Rightarrow> dcid \<Rightarrow> ('c, 'm, unit) pact" where
  "dcFinalClose E dc = dcFinalCloseB E (closeConn E) dc"

definition finalClose :: "('c, 'm) env \<Rightarrow> obj \<Rightarrow> ('c, 'm, unit) pact" where
  "finalClose E x = (case x of ODc d \<Rightarrow> dcFinalClose E d | OStmt s \<Rightarrow> stmtFinalClose E s
     | ORows r \<Rightarrow> crash NilDeref)"

definition removeDep :: "('c, 'm) env \<Rightarrow> poolid \<Rightarrow> obj \<Rightarrow> obj \<Rightarrow> ('c, 'm, unit) pact" where
  "removeDep E p x d =
     seqA (lockA (PoolMu p)) (thenA (removeDepLocked p x d) (\<lambda>final.
     seqA (unlockA (PoolMu p)) (if final then finalClose E x else ret ())))"

text \<open>
  \<open>closeDBLocked\<close> returns a function; \<open>Inl\<close> is the one that returns the error, \<open>Inr b\<close>
  the one \<open>removeDepLocked\<close> returned.
\<close>

definition closeDBLocked :: "dcid \<Rightarrow> ('c, 'm, gerr + bool) pact" where
  "closeDBLocked dc =
     seqA (lockA (DcMu dc)) (thenA (getA (\<lambda>w. (dc_closed (w_dc w dc), dc_pool (w_dc w dc))))
       (\<lambda>(isClosed, p).
        if isClosed then
          seqA (unlockA (DcMu dc)) (ret (Inl (ErrMsg ''sql: duplicate driverConn close'')))
        else
          seqA (modA (updDc dc (\<lambda>c. c\<lparr>dc_closed := True\<rparr>)))
            (thenA (removeDepLocked p (ODc dc) (ODc dc)) (\<lambda>final.
             seqA (unlockA (DcMu dc)) (ret (Inr final))))))"

end
