(* ===== verification/PoolOps.thy ===== *)
theory PoolOps
  imports PoolClose
begin

text \<open>
  The operations of one pool: taking a connection (\<open>conn\<close> of \<open>conn_pool.go\<close>), giving it
  back (\<open>conn_pool_put.go\<close>), the idle-time limit and the start of the cleaner (\<open>conn_pool_restrictions.go\<close>, \<open>conn_cleaner.go\<close>).
\<close>

section \<open>Methods of a driver connection\<close>

definition expired :: "('c, 'm) env \<Rightarrow> driverConn \<Rightarrow> int \<Rightarrow> bool" where
  "expired E dc timeout = (if timeout \<le> 0 then False else dc_createdAt dc + timeout < nowFunc E)"

definition resetSession :: "('c, 'm) env \<Rightarrow> dcid \<Rightarrow> ('c, 'm, gerr option) pact" where
  "resetSession E dc = withLock (DcMu dc) (thenA (getA (\<lambda>w. w_dc w dc)) (\<lambda>c.
     if \<not> dc_needReset c then ret None
     else ret (case dc_ci c of None \<Rightarrow> None
                | Some h \<Rightarrow> (case drvResetSession E h of None \<Rightarrow> None | Some r \<Rightarrow> r))))"

definition validateConnection :: "('c, 'm) env \<Rightarrow> dcid \<Rightarrow> bool \<Rightarrow> ('c, 'm, bool) pact" where
  "validateConnection E dc needsReset = withLock (DcMu dc)
     (seqA (if needsReset then modA (updDc dc (\<lambda>c. c\<lparr>dc_needReset := True\<rparr>)) else ret ())
     (thenA (getA (\<lambda>w. dc_ci (w_dc w dc))) (\<lambda>ci.
        ret (case ci of None \<Rightarrow> True
              | Some h \<Rightarrow> (case drvIsValid E h of None \<Rightarrow> True | Some v \<Rightarrow> v)))))"

section \<open>The cleaner's start and its period\<close>

definition shortestIdleTimeLocked :: "ConnPool \<Rightarrow> int" where
  "shortestIdleTimeLocked cp =
     (if cp_maxIdleTime cp \<le> 0 then cp_maxLifetime cp
      else if cp_maxLifetime cp \<le> 0 then cp_maxIdleTime cp
      else if cp_maxIdleTime cp > cp_maxLifetime cp then cp_maxLifetime cp
      else cp_maxIdleTime cp)"

definition startCleanerLocked :: "poolid \<Rightarrow> ('c, 'm, unit) pact" where
  "startCleanerLocked p = modA (updPool p (\<lambda>cp.
     if (0 < cp_maxLifetime cp \<or> 0 < cp_maxIdleTime cp) \<and> cp_cleanerCh cp = NilChan
     then cp\<lparr>cp_cleanerCh := OpenChan 0\<rparr> else cp))"

text \<open>
  The non-blocking send on the cleaner's channel is lost when its buffer of one is full, and
  panics when the channel is closed.
\<close>

definition SetConnMaxIdleTime :: "poolid \<Rightarrow> int \<Rightarrow> ('c, 'm, unit) pact" where
  "SetConnMaxIdleTime p duration =
     (let d = (if duration < 0 then 0 else duration) in
      seqA (lockA (PoolMu p))
     (thenA (getA (\<lambda>w. w_pool w p)) (\<lambda>cp.
      seqA (if 0 < d \<and> d < cp_maxIdleTime cp
            then (case cp_cleanerCh cp of
                    NilChan \<Rightarrow> ret ()
                  | OpenChan n \<Rightarrow>
                      (if n < 1 then modA (updPool p (\<lambda>cp. cp\<lparr>cp_cleanerCh := OpenChan (n + 1)\<rparr>))
                       else ret ())
                  | ClosedChan \<Rightarrow> seqA (unlockA (PoolMu p)) (crash (Panic ''send on closed channel'')))
            else ret ())
     (seqA (modA (updPool p (\<lambda>cp. cp\<lparr>cp_maxIdleTime := d\<rparr>)))
     (seqA (startCleanerLocked p) (unlockA (PoolMu p)))))))"

section \<open>Giving a connection back\<close>

definition isFreeConnectionsNeededLocked :: "poolid \<Rightarrow> ('c, 'm, bool) pact" where
  "isFreeConnectionsNeededLocked p = getA (\<lambda>w. 0 < length (cp_connRequests (w_pool w p)))"

text \<open>
  The request that is served is the first of the runtime's iteration order. Every request has a
  channel of its own with a buffer of one; a send on a full buffer would block.
\<close>

definition returnConnectionOnRequestLocked ::
    "('c, 'm) env \<Rightarrow> poolid \<Rightarrow> dcid option \<Rightarrow> gerr option \<Rightarrow> ('c, 'm, bool) pact" where
  "returnConnectionOnRequestLocked E p dc err =
     thenA (getA (\<lambda>w. range_order (mapOrder E) (cp_connRequests (w_pool w p)))) (\<lambda>reqs.
     case reqs of
       [] \<Rightarrow> crash (Panic ''return connection to nil'')
     | (requestKey, requestChan) # _ \<Rightarrow>
         seqA (modA (updPool p (\<lambda>cp. cp\<lparr>cp_connRequests :=
                 filter (\<lambda>(k, _). k \<noteq> requestKey) (cp_connRequests cp)\<rparr>)))
        (seqA (if err = None
               then (case dc of None \<Rightarrow> crash NilDeref
                      | Some d \<Rightarrow> modA (updDc d (\<lambda>c. c\<lparr>dc_inUse := True\<rparr>)))
               else ret ())
        (thenA (getA (\<lambda>w. length (w_chan w requestChan))) (\<lambda>n.
           if n < 1 then
             seqA (modA (\<lambda>w. w\<lparr>w_chan := (w_chan w)(requestChan :=
                     w_chan w requestChan @ [\<lparr>resp_conn = dc, resp_err = err\<rparr>])\<rparr>))
               (ret True)
           else crash Deadlock))))"

definition tryToSaveConnectionAsIdleLocked ::
    "('c, 'm) env \<Rightarrow> poolid \<Rightarrow> dcid \<Rightarrow> ('c, 'm, bool) pact" where
  "tryToSaveConnectionAsIdleLocked E p dc =
     seqA (putConnToLru E dc)
    (thenA (getA (\<lambda>w. dc \<in> set (cp_freeConn (w_pool w p)))) (\<lambda>ok.
       if ok then crash (Panic ''pool already contains such driver connection'')
       else
         seqA (modA (updPool p (\<lambda>cp. cp\<lparr>cp_freeConn := cp_freeConn cp @ [dc]\<rparr>)))
        (seqA (startCleanerLocked p) (ret True))))"

definition putConnectionConnPoolLocked ::
    "('c, 'm) env \<Rightarrow> poolid \<Rightarrow> dcid option \<Rightarrow> gerr option \<Rightarrow> ('c, 'm, bool) pact" where
  "putConnectionConnPoolLocked E p dc err =
     thenA (getA (\<lambda>w. cp_closed (w_pool w p))) (\<lambda>isClosed.
       if isClosed then ret False
       else thenA (isFreeConnectionsNeededLocked p) (\<lambda>needed.
         if needed then returnConnectionOnRequestLocked E p dc err
         else if err = None
           then (case dc of None \<Rightarrow> crash NilDeref
                  | Some d \<Rightarrow> tryToSaveConnectionAsIdleLocked E p d)
         else ret False))"

text \<open>
  \<open>putConn\<close>. \<open>maybeOpenNewConnections\<close> is called with the pool's mutex held; the error of
  \<open>dc.Close()\<close> is dropped. The debugging record \<open>lastPut\<close> keeps its keys only, and the
  test hook is not set.
\<close>

definition putConn ::
    "('c, 'm) env \<Rightarrow> poolid \<Rightarrow> dcid \<Rightarrow> gerr option \<Rightarrow> bool \<Rightarrow> ('c, 'm, unit) pact" where
  "putConn E p dc err0 reset =
     thenA (if err0 \<noteq> Some ErrBadConn
            then thenA (validateConnection E dc reset) (\<lambda>v.
                   ret (if \<not> v then Some ErrBadConn else err0))
            else ret err0) (\<lambda>err1.
     seqA (lockA (PoolMu p))
    (thenA (getA (\<lambda>w. (w_dc w dc, cp_maxLifetime (w_pool w p)))) (\<lambda>(c, lifetime).
     if \<not> dc_inUse c then
       seqA (unlockA (PoolMu p)) (crash (Panic ''sql: connection returned that was never out''))
     else
       let isExpired = (err1 \<noteq> Some ErrBadConn \<and> expired E c lifetime);
           err = (if isExpired then Some ErrBadConn else err1)
       in
       seqA (if isExpired
             then modA (updPool p (\<lambda>cp. cp\<lparr>cp_maxLifetimeClosed := cp_maxLifetimeClosed cp + 1\<rparr>))
             else ret ())
      (seqA (modA (updPool p (\<lambda>cp. cp\<lparr>cp_lastPut := List.insert dc (cp_lastPut cp)\<rparr>)))
      (seqA (modA (updDc dc (\<lambda>c. c\<lparr>dc_inUse := False, dc_returnedAt := nowFunc E\<rparr>)))
      (seqA (dsCloseAll E (dc_onPut c))
      (seqA (modA (updDc dc (\<lambda>c. c\<lparr>dc_onPut := []\<rparr>)))
        (if err = Some ErrBadConn then
           seqA (maybeOpenNewConnections E)
          (seqA (unlockA (PoolMu p))
          (thenA (tryA (closeConn E dc)) (\<lambda>_. ret ())))
         else
           thenA (putConnectionConnPoolLocked E p (Some dc) None) (\<lambda>added.
           seqA (unlockA (PoolMu p))
             (if \<not> added then thenA (tryA (closeConn E dc)) (\<lambda>_. ret ()) else ret ()))))))))))"

definition releaseConn :: "('c, 'm) env \<Rightarrow> dcid \<Rightarrow> gerr option \<Rightarrow> ('c, 'm, unit) pact" where
  "releaseConn E dc err = thenA (getA (\<lambda>w. dc_pool (w_dc w dc))) (\<lambda>p. putConn E p dc err True)"

section \<open>Taking a connection\<close>

text \<open>
  \<open>conn\<close> up to its \<open>select\<close>: a connection, or a request that waits. The request remembers
  its key, its channel, the lifetime read at the start and the time the wait began.
\<close>

record connWait =
  cw_key :: u64
  cw_chan :: chanid
  cw_lifetime :: int
  cw_start :: int

definition nextRequestKeyLocked :: "poolid \<Rightarrow> ('c, 'm, u64) pact" where
  "nextRequestKeyLocked p = thenA (getA (\<lambda>w. cp_nextRequest (w_pool w p))) (\<lambda>next.
     seqA (modA (updPool p (\<lambda>cp. cp\<lparr>cp_nextRequest := cp_nextRequest cp + 1\<rparr>))) (ret next))"

text \<open>The loop over \<open>freeConn\<close> has no \<open>break\<close>, so it ends with the last entry.\<close>

definition connFromFree :: "('c, 'm) env \<Rightarrow> poolid \<Rightarrow> int \<Rightarrow> ('c, 'm, dcid + connWait) pact" where
  "connFromFree E p lifetime =
     thenA (getA (\<lambda>w. last (range_order (mapOrder E) (cp_freeConn (w_pool w p))))) (\<lambda>conn.
     seqA (modA (updPool p (\<lambda>cp. cp\<lparr>cp_freeConn := remove1 conn (cp_freeConn cp)\<rparr>)))
    (seqA (modA (updDc conn (\<lambda>c. c\<lparr>dc_inUse := True\<rparr>)))
    (thenA (getA (\<lambda>w. expired E (w_dc w conn) lifetime)) (\<lambda>isExpired.
       if isExpired then
         seqA (modA (updPool p (\<lambda>cp. cp\<lparr>cp_maxLifetimeClosed := cp_maxLifetimeClosed cp + 1\<rparr>)))
        (seqA (unlockA (PoolMu p))
        (thenA (tryA (closeConn E conn)) (\<lambda>_. fail ErrBadConn)))
       else
         seqA (unlockA (PoolMu p))
        (thenA (resetSession E conn) (\<lambda>err.
           if err = Some ErrBadConn
           then thenA (tryA (closeConn E conn)) (\<lambda>_. fail ErrBadConn)
           else ret (Inl conn)))))))"

definition connEnqueue :: "('c, 'm) env \<Rightarrow> poolid \<Rightarrow> int \<Rightarrow> ('c, 'm, dcid + connWait) pact" where
  "connEnqueue E p lifetime =
     thenA (getA w_nextChan) (\<lambda>ch.
     seqA (modA (\<lambda>w. w\<lparr>w_nextChan := Suc ch, w_chan := (w_chan w)(ch := [])\<rparr>))
    (seqA (lockA (PoolMu p))
    (thenA (nextRequestKeyLocked p) (\<lambda>reqKey.
     seqA (modA (updPool p (\<lambda>cp. cp\<lparr>cp_connRequests :=
             filter (\<lambda>(k, _). k \<noteq> reqKey) (cp_connRequests cp) @ [(reqKey, ch)]\<rparr>)))
    (seqA (unlockA (PoolMu p))
    (seqA (lockA FacadeMu)
    (seqA (modA (\<lambda>w. w\<lparr>f_waitCount := f_waitCount w + 1\<rparr>))
    (seqA (unlockA FacadeMu)
       (ret (Inr \<lparr>cw_key = reqKey, cw_chan = ch, cw_lifetime = lifetime,
                  cw_start = nowFunc E\<rparr>))))))))))"

definition newDriverConn :: "('c, 'm) env \<Rightarrow> poolid \<Rightarrow> nat \<Rightarrow> bool \<Rightarrow> driverConn" where
  "newDriverConn E p h inUse =
     \<lparr>dc_pool = p, dc_createdAt = nowFunc E, dc_ci = Some h, dc_needReset = False,
      dc_closed = False, dc_finalClosed = False, dc_openStmt = [], dc_inUse = inUse,
      dc_returnedAt = nowFunc E, dc_onPut = [], dc_dbmuClosed = False\<rparr>"

definition allocDc :: "driverConn \<Rightarrow> ('c, 'm, dcid) pact" where
  "allocDc c = thenA (getA w_nextDc) (\<lambda>d.
     seqA (modA (\<lambda>w. w\<lparr>w_nextDc := Suc d, w_dc := (w_dc w)(d := c)\<rparr>)) (ret d))"

definition connOpen :: "('c, 'm) env \<Rightarrow> poolid \<Rightarrow> ('c, 'm, dcid + connWait) pact" where
  "connOpen E p =
     seqA incrementNumOpened
       (thenA (getA (\<lambda>w. cp_connector (w_pool w p))) (\<lambda>c. case connectorConnect E c of
          Inl err \<Rightarrow> seqA decrementNumOpened (seqA (maybeOpenNewConnections E) (fail err))
        | Inr ci \<Rightarrow>
            seqA (lockA (PoolMu p))
           (thenA (allocDc (newDriverConn E p ci True)) (\<lambda>dc.
            seqA (addDepLocked p (ODc dc) (ODc dc))
           (seqA (unlockA (PoolMu p)) (ret (Inl dc)))))))"

definition conn ::
    "('c, 'm) env \<Rightarrow> poolid \<Rightarrow> connReuseStrategy \<Rightarrow> ('c, 'm, dcid + connWait) pact" where
  "conn E p strategy =
     seqA (lockA (PoolMu p))
    (thenA (getA (\<lambda>w. w_pool w p)) (\<lambda>cp.
       if cp_closed cp then seqA (unlockA (PoolMu p)) (fail ErrDBClosed)
       else case ctxErr E of
         Some e \<Rightarrow> seqA (unlockA (PoolMu p)) (fail e)
       | None \<Rightarrow>
           if strategy = cachedOrNewConn \<and> 0 < length (cp_freeConn cp)
           then connFromFree E p (cp_maxLifetime cp)
           else
             seqA (unlockA (PoolMu p))
            (thenA canAddNewConn (\<lambda>can.
               if \<not> can then connEnqueue E p (cp_maxLifetime cp) else connOpen E p))))"

text \<open>
  The two ways out of the \<open>select\<close>. \<open>connCtxDone\<close> is taken when the context is done; a
  response that arrived in between goes back to the pool.
\<close>

definition connCtxDone ::
    "('c, 'm) env \<Rightarrow> poolid \<Rightarrow> connWait \<Rightarrow> gerr \<Rightarrow> ('c, 'm, dcid) pact" where
  "connCtxDone E p cw e =
     seqA (lockA (PoolMu p))
    (seqA (modA (updPool p (\<lambda>cp. cp\<lparr>cp_connRequests :=
             filter (\<lambda>(k, _). k \<noteq> cw_key cw) (cp_connRequests cp)\<rparr>)))
    (seqA (unlockA (PoolMu p))
    (seqA (modA (updPool p (\<lambda>cp. cp\<lparr>cp_waitDuration :=
             cp_waitDuration cp + (nowFunc E - cw_start cw)\<rparr>)))
    (thenA (getA (\<lambda>w. w_chan w (cw_chan cw))) (\<lambda>msgs.
       case msgs of
         [] \<Rightarrow> fail e
       | r # rest \<Rightarrow>
           seqA (modA (\<lambda>w. w\<lparr>w_chan := (w_chan w)(cw_chan cw := rest)\<rparr>))
             (case resp_conn r of
                None \<Rightarrow> fail e
              | Some d \<Rightarrow> seqA (putConn E p d (resp_err r) False) (fail e)))))))"

text \<open>
  \<open>connReceived\<close> is taken when a response is there; an empty channel is not ready. The result
  \<open>None\<close> is the pair of nils, which the code returns for a response without a connection and
  without an error.
\<close>

definition connReceived ::
    "('c, 'm) env \<Rightarrow> poolid \<Rightarrow> connReuseStrategy \<Rightarrow> connWait \<Rightarrow> ('c, 'm, dcid option) pact" where
  "connReceived E p strategy cw =
     thenA (getA (\<lambda>w. w_chan w (cw_chan cw))) (\<lambda>msgs.
     case msgs of
       [] \<Rightarrow> crash Deadlock
     | r # rest \<Rightarrow>
         seqA (modA (\<lambda>w. w\<lparr>w_chan := (w_chan w)(cw_chan cw := rest)\<rparr>))
        (seqA (modA (updPool p (\<lambda>cp. cp\<lparr>cp_waitDuration :=
                 cp_waitDuration cp + (nowFunc E - cw_start cw)\<rparr>)))
           (case (resp_conn r, resp_err r) of
              (None, None) \<Rightarrow>
                if strategy = cachedOrNewConn \<and> 0 < cw_lifetime cw then crash NilDeref else ret None
            | (None, Some e) \<Rightarrow> fail e
            | (Some d, errO) \<Rightarrow>
                thenA (getA (\<lambda>w. strategy = cachedOrNewConn \<and> errO = None \<and>
                         expired E (w_dc w d) (cw_lifetime cw))) (\<lambda>isExpired.
                if isExpired then
                  seqA (lockA (PoolMu p))
                 (seqA (modA (updPool p (\<lambda>cp. cp\<lparr>cp_maxLifetimeClosed :=
                           cp_maxLifetimeClosed cp + 1\<rparr>)))
                 (seqA (unlockA (PoolMu p))
                 (thenA (tryA (closeConn E d)) (\<lambda>_. fail ErrBadConn))))
                else
                  thenA (resetSession E d) (\<lambda>err.
                    if err = Some ErrBadConn
                    then thenA (tryA (closeConn E d)) (\<lambda>_. fail ErrBadConn)
                    else (case errO of None \<Rightarrow> ret (Some d) | Some e \<Rightarrow> fail e))))))"

text \<open>
  The whole of \<open>conn\<close>. While a request waits, other goroutines run: \<open>others\<close> gives the
  world they leave behind, the environment after the wait (the clock has moved on), and the
  branch the \<open>select\<close> takes, \<open>Some e\<close> when the context ended with \<open>e\<close> and
  \<open>None\<close> when the channel was ready.
\<close>

type_synonym ('c, 'm) others =
  "connWait \<Rightarrow> ('c, 'm) world \<Rightarrow> gerr option \<times> ('c, 'm) env \<times> ('c, 'm) world"

definition waitConn ::
    "('c, 'm) others \<Rightarrow> poolid \<Rightarrow> connReuseStrategy \<Rightarrow> connWait \<Rightarrow> ('c, 'm, dcid option) pact" where
  "waitConn others p strategy cw = (\<lambda>w. case others cw w of
     (Some e, E', w') \<Rightarrow> thenA (connCtxDone E' p cw e) (\<lambda>d. ret (Some d)) w'
   | (None, E', w') \<Rightarrow> connReceived E' p strategy cw w')"

definition connGet ::
    "('c, 'm) env \<Rightarrow> ('c, 'm) others \<Rightarrow> poolid \<Rightarrow> connReuseStrategy \<Rightarrow> ('c, 'm, dcid option) pact" where
  "connGet E others p strategy = thenA (conn E p strategy) (\<lambda>r.
     case r of Inl d \<Rightarrow> ret (Some d) | Inr cw \<Rightarrow> waitConn others p strategy cw)"

end
