(* ===== verification/PoolLife.thy ===== *)
theory PoolLife
  imports PoolOps "HOL-Library.List_Lexorder" "HOL-Library.Char_ord"
begin

text \<open>
  The life of a pool beyond one connection: opening on command (\<open>conn_pool_conn_opener.go\<close>,
  \<open>conn_pool_facade_conn_opener.go\<close>), the cleaner (\<open>conn_cleaner.go\<close>), closing
  (\<open>conn_pool.go\<close>), the statistics (\<open>conn_pool_stats.go\<close>,
  \<open>conn_pool_facade_stats.go\<close>), and the facade that creates pools (\<open>conn_pool_facade.go\<close>,
  \<open>open_conn_pool.go\<close>, \<open>credentials.go\<close>) from the registered drivers (\<open>sql.go\<close>,
  \<open>named_args.go\<close>).
\<close>

section \<open>Opening on command\<close>

text \<open>
  The deferred unlock of \<open>openNewConnection\<close> runs on every return, so the branch of a failed
  connect, which unlocks by itself too, ends with the unlock of a free mutex.
\<close>

definition openNewConnection :: "('c, 'm) env \<Rightarrow> poolid \<Rightarrow> ('c, 'm, unit) pact" where
  "openNewConnection E p =
     thenA (getA (\<lambda>w. connectorConnect E (cp_connector (w_pool w p)))) (\<lambda>r.
     seqA (lockA (PoolMu p))
    (thenA (getA (\<lambda>w. cp_closed (w_pool w p))) (\<lambda>isClosed.
     seqA
      (if isClosed then
         seqA (case r of Inr ci \<Rightarrow> thenA (ciClose E ci) (\<lambda>_. ret ()) | Inl _ \<Rightarrow> ret ())
              decrementNumOpened
       else case r of
         Inl err \<Rightarrow>
           seqA decrementNumOpened
          (thenA (putConnectionConnPoolLocked E p None (Some err)) (\<lambda>_.
           seqA (unlockA (PoolMu p)) (maybeOpenNewConnections E)))
       | Inr ci \<Rightarrow>
           thenA (allocDc (newDriverConn E p ci False)) (\<lambda>dc.
           thenA (putConnectionConnPoolLocked E p (Some dc) None) (\<lambda>added.
             if added then addDepLocked p (ODc dc) (ODc dc)
             else seqA decrementNumOpened (thenA (ciClose E ci) (\<lambda>_. ret ())))))
      (unlockA (PoolMu p)))))"

section \<open>Statistics\<close>

record ConnPoolStats =
  OpenConnections :: int
  InUse :: int
  Idle :: int
  WaitCount :: int
  WaitDuration :: int
  MaxIdleClosed :: int
  MaxIdleTimeClosed :: int
  MaxLifetimeClosed :: int

definition Stats :: "poolid \<Rightarrow> ('c, 'm, ConnPoolStats) pact" where
  "Stats p =
     thenA (getA (\<lambda>w. cp_waitDuration (w_pool w p))) (\<lambda>wait.
     seqA (lockA (PoolMu p))
    (thenA (getA (\<lambda>w. w_pool w p)) (\<lambda>cp.
     seqA (unlockA (PoolMu p))
       (ret \<lparr>OpenConnections = 0, InUse = 0, Idle = int (length (cp_freeConn cp)), WaitCount = 0,
             WaitDuration = wait, MaxIdleClosed = cp_maxIdleClosed cp,
             MaxIdleTimeClosed = cp_maxIdleTimeClosed cp,
             MaxLifetimeClosed = cp_maxLifetimeClosed cp\<rparr>))))"

record PoolFacadeStats =
  NumIdle :: int
  NumOpen :: int
  TotalMax :: int
  NumUniqueDSNs :: nat

fun sumIdle :: "poolid list \<Rightarrow> int \<Rightarrow> ('c, 'm, int) pact" where
  "sumIdle [] numIdle = ret numIdle"
| "sumIdle (p # ps) numIdle =
     seqA (lockA (PoolMu p))
    (thenA (getA (\<lambda>w. int (length (cp_freeConn (w_pool w p))))) (\<lambda>n.
     seqA (unlockA (PoolMu p)) (sumIdle ps (numIdle + n))))"

definition facadeStats :: "('c, 'm) env \<Rightarrow> ('c, 'm, PoolFacadeStats) pact" where
  "facadeStats E =
     thenA (getA (\<lambda>w. mapIter E (f_pools w))) (\<lambda>ps.
     thenA (sumIdle ps 0) (\<lambda>numIdle.
     seqA (lockA FacadeMu)
    (thenA (getA (\<lambda>w. \<lparr>NumIdle = numIdle, NumOpen = f_numOpened w, TotalMax = f_totalMax w,
                        NumUniqueDSNs = mapCount E (f_pools w)\<rparr>)) (\<lambda>result.
     seqA (unlockA FacadeMu) (ret result)))))"

fun collectStats :: "poolid list \<Rightarrow> ('c, 'm, ConnPoolStats list) pact" where
  "collectStats [] = ret []"
| "collectStats (p # ps) = thenA (Stats p) (\<lambda>s. thenA (collectStats ps) (\<lambda>ss. ret (s # ss)))"

definition StatsOfAllPools :: "('c, 'm) env \<Rightarrow> ('c, 'm, ConnPoolStats list) pact" where
  "StatsOfAllPools E = thenA (getA (\<lambda>w. mapIter E (f_pools w))) collectStats"

text \<open>
  One turn of the opener goroutine that is not ended by its context: it takes the oldest command,
  prints the statistics and opens. An empty channel is not ready.
\<close>

definition openerStep :: "('c, 'm) env \<Rightarrow> ('c, 'm, unit) pact" where
  "openerStep E = thenA (getA f_openerChannel) (\<lambda>ch. case ch of
       [] \<Rightarrow> crash Deadlock
     | p # rest \<Rightarrow>
         seqA (modA (\<lambda>w. w\<lparr>f_openerChannel := rest\<rparr>))
        (thenA (facadeStats E) (\<lambda>_. openNewConnection E p)))"

section \<open>The cleaner\<close>

definition connectionCleanerRunLocked :: "('c, 'm) env \<Rightarrow> poolid \<Rightarrow> ('c, 'm, dcid list) pact" where
  "connectionCleanerRunLocked E p =
     thenA (getA (\<lambda>w. w_pool w p)) (\<lambda>cp.
     thenA (if 0 < cp_maxLifetime cp then
              thenA (getA (\<lambda>w. filter (\<lambda>c. dc_createdAt (w_dc w c) < nowFunc E - cp_maxLifetime cp)
                        (range_order (mapOrder E) (cp_freeConn cp)))) (\<lambda>old.
              seqA (modA (updPool p (\<lambda>cp. cp\<lparr>
                      cp_freeConn := filter (\<lambda>c. c \<notin> set old) (cp_freeConn cp),
                      cp_maxLifetimeClosed := cp_maxLifetimeClosed cp + int (length old)\<rparr>)))
                (ret old))
            else ret []) (\<lambda>closing.
       if 0 < cp_maxIdleTime cp then
         thenA (getA (\<lambda>w. filter (\<lambda>c. dc_returnedAt (w_dc w c) < nowFunc E - cp_maxIdleTime cp)
                   (range_order (mapOrder E) (cp_freeConn (w_pool w p))))) (\<lambda>idle.
         seqA (modA (updPool p (\<lambda>cp. cp\<lparr>
                 cp_freeConn := filter (\<lambda>c. c \<notin> set idle) (cp_freeConn cp),
                 cp_maxIdleTimeClosed := cp_maxIdleTimeClosed cp + int (length idle)\<rparr>)))
           (ret (closing @ idle)))
       else ret closing))"

fun closeConns :: "('c, 'm) env \<Rightarrow> dcid list \<Rightarrow> ('c, 'm, unit) pact" where
  "closeConns E [] = ret ()"
| "closeConns E (c # cs) = thenA (tryA (closeConn E c)) (\<lambda>_. closeConns E cs)"

definition minInterval :: int where
  "minInterval = 1000000000"

definition clampInterval :: "int \<Rightarrow> int" where
  "clampInterval duration = (if duration < minInterval then minInterval else duration)"

text \<open>
  One turn of \<open>connectionCleaner\<close>, woken by its timer or by a message. The result is the
  duration the timer is set to next, or \<open>None\<close> when the goroutine ends.
\<close>

definition cleanerStep :: "('c, 'm) env \<Rightarrow> poolid \<Rightarrow> bool \<Rightarrow> ('c, 'm, int option) pact" where
  "cleanerStep E p byMessage =
     thenA (getA (\<lambda>w. cp_cleanerCh (w_pool w p))) (\<lambda>ch.
     seqA (if \<not> byMessage then ret () else
             (case ch of
                OpenChan (Suc n) \<Rightarrow> modA (updPool p (\<lambda>cp. cp\<lparr>cp_cleanerCh := OpenChan n\<rparr>))
              | ClosedChan \<Rightarrow> ret ()
              | _ \<Rightarrow> crash Deadlock))
    (seqA (lockA (PoolMu p))
    (thenA (getA (\<lambda>w. w_pool w p)) (\<lambda>cp.
     let duration = shortestIdleTimeLocked cp in
     if cp_closed cp \<or> duration \<le> 0 then
       seqA (modA (updPool p (\<lambda>cp. cp\<lparr>cp_cleanerCh := NilChan\<rparr>)))
      (seqA (unlockA (PoolMu p)) (ret None))
     else
       thenA (connectionCleanerRunLocked E p) (\<lambda>closing.
       seqA (unlockA (PoolMu p))
      (seqA (closeConns E closing) (ret (Some (clampInterval duration)))))))))"

section \<open>Closing a pool\<close>

fun closeDBLockedAll :: "dcid list \<Rightarrow> ('c, 'm, (dcid \<times> (gerr + bool)) list) pact" where
  "closeDBLockedAll [] = ret []"
| "closeDBLockedAll (d # ds) = thenA (closeDBLocked d) (\<lambda>fn.
     thenA (closeDBLockedAll ds) (\<lambda>fns. ret ((d, fn) # fns)))"

fun runCloseFns :: "('c, 'm) env \<Rightarrow> (dcid \<times> (gerr + bool)) list \<Rightarrow> gerr option
    \<Rightarrow> ('c, 'm, gerr option) pact" where
  "runCloseFns E [] err = ret err"
| "runCloseFns E ((d, fn) # fns) err =
     thenA (case fn of
              Inl e \<Rightarrow> ret (Some e)
            | Inr final \<Rightarrow> (if final
                then thenA (tryA (finalClose E (ODc d))) (\<lambda>r.
                       ret (case r of Inl e \<Rightarrow> Some e | Inr _ \<Rightarrow> None))
                else ret None)) (\<lambda>err1.
     runCloseFns E fns (if err1 \<noteq> None then err1 else err))"

definition ConnPool_Close :: "('c, 'm) env \<Rightarrow> poolid \<Rightarrow> ('c, 'm, gerr option) pact" where
  "ConnPool_Close E p =
     seqA (lockA (PoolMu p))
    (thenA (getA (\<lambda>w. w_pool w p)) (\<lambda>cp.
     if cp_closed cp then seqA (unlockA (PoolMu p)) (ret None)
     else
       seqA (if cp_cleanerCh cp \<noteq> NilChan
             then modA (updPool p (\<lambda>cp. cp\<lparr>cp_cleanerCh := ClosedChan\<rparr>)) else ret ())
      (thenA (closeDBLockedAll (range_order (mapOrder E) (cp_freeConn cp))) (\<lambda>fns.
       seqA (modA (updPool p (\<lambda>cp. cp\<lparr>cp_freeConn := [], cp_closed := True\<rparr>)))
      (seqA (unlockA (PoolMu p))
      (thenA (runCloseFns E fns None) (\<lambda>err.
       seqA (modA (updPool p (\<lambda>cp. cp\<lparr>cp_stopped := True\<rparr>))) (ret err))))))))"

section \<open>Drivers\<close>

text \<open>
  A driver is a number and a nil driver is \<open>None\<close>. The registry is a Go map; \<open>driversMu\<close>
  is held by no other function and is left out.
\<close>

definition Register :: "string \<Rightarrow> nat option \<Rightarrow> ('c, 'm, unit) pact" where
  "Register name drv = (case drv of
       None \<Rightarrow> crash (Panic ''sql: Register driver is nil'')
     | Some d \<Rightarrow> thenA (getA (\<lambda>w. map_of (w_drivers w) name)) (\<lambda>dup.
         if dup \<noteq> None then crash (Panic (''sql: Register called twice for driver '' @ name))
         else modA (\<lambda>w. w\<lparr>w_drivers := w_drivers w @ [(name, d)]\<rparr>)))"

definition unregisterAllDrivers :: "('c, 'm, unit) pact" where
  "unregisterAllDrivers = modA (\<lambda>w. w\<lparr>w_drivers := []\<rparr>)"

definition Drivers :: "('c, 'm) env \<Rightarrow> ('c, 'm, string list) pact" where
  "Drivers E = getA (\<lambda>w. sort (range_order (mapOrder E) (map fst (w_drivers w))))"

section \<open>The facade\<close>

record Credentials =
  Username :: string
  Password :: string
  Database :: string

definition GetDataSourceName :: "Credentials \<Rightarrow> string" where
  "GetDataSourceName cr =
     Username cr @ '':'' @ Password cr @ ''@/'' @ Database cr @ ''?interpolateParams=true''"

definition GetId :: "Credentials \<Rightarrow> string" where
  "GetId cr = Username cr @ Password cr @ Database cr"

definition newConnPool :: "connector \<Rightarrow> ConnPool" where
  "newConnPool c =
     \<lparr>cp_connector = c, cp_waitDuration = 0, cp_numClosed = 0, cp_freeConn = [],
      cp_connRequests = [], cp_nextRequest = 0, cp_closed = False, cp_dep = Map.empty,
      cp_lastPut = [], cp_maxLifetime = 0, cp_maxIdleTime = 0, cp_cleanerCh = NilChan,
      cp_maxIdleClosed = 0, cp_maxIdleTimeClosed = 0, cp_maxLifetimeClosed = 0,
      cp_stopped = False\<rparr>"

definition OpenDB :: "connector \<Rightarrow> ('c, 'm, poolid) pact" where
  "OpenDB c = thenA (getA w_nextPool) (\<lambda>p.
     seqA (modA (\<lambda>w. w\<lparr>w_nextPool := Suc p, w_pool := (w_pool w)(p := newConnPool c)\<rparr>)) (ret p))"

definition OpenPool :: "('c, 'm) env \<Rightarrow> string \<Rightarrow> string \<Rightarrow> ('c, 'm, poolid) pact" where
  "OpenPool E driverName dataSourceName =
     thenA (getA (\<lambda>w. map_of (w_drivers w) driverName)) (\<lambda>drv. case drv of
       None \<Rightarrow> fail (ErrMsg ''sql: unknown driver %q (forgotten import?)'')
     | Some d \<Rightarrow> (case drvOpenConnector E d dataSourceName of
           Some (Inl err) \<Rightarrow> fail err
         | Some (Inr k) \<Rightarrow> OpenDB (DriverConnector k)
         | None \<Rightarrow> OpenDB (DsnConnector dataSourceName d)))"

definition getOrCreateConnPool :: "('c, 'm) env \<Rightarrow> Credentials \<Rightarrow> ('c, 'm, poolid) pact" where
  "getOrCreateConnPool E cr =
     thenA (getA (\<lambda>w. (f_closed w, mapHas E (GetId cr) (f_pools w)))) (\<lambda>(isClosed, has).
       if isClosed then fail ErrPoolFacadeClosed
       else if \<not> has then
         thenA (getA f_driverName) (\<lambda>name.
         thenA (OpenPool E name (GetDataSourceName cr)) (\<lambda>p.
         thenA (getA f_idleTimeout) (\<lambda>idle.
         seqA (SetConnMaxIdleTime p idle)
        (seqA (modA (\<lambda>w. w\<lparr>f_pools := mapSet E (GetId cr) p (f_pools w)\<rparr>)) (ret p)))))
       else
         thenA (getA (\<lambda>w. mapGet E (GetId cr) (f_pools w))) (\<lambda>tmp. case tmp of
             Some p \<Rightarrow> ret p
           | None \<Rightarrow> fail ErrUnableToGetPool))"

definition facadeClose :: "('c, 'm, unit) pact" where
  "facadeClose = modA (\<lambda>w. w\<lparr>f_closed := True, f_cancelled := True\<rparr>)"

text \<open>
  \<open>NewPoolFacade\<close>: the fields of a fresh facade. \<open>lru.New\<close> fails for a size below one,
  and the code panics with that error.
\<close>

definition NewPoolFacade :: "(int \<Rightarrow> gerr + 'c) \<Rightarrow> 'm \<Rightarrow> string \<Rightarrow> int \<Rightarrow> int \<Rightarrow> ('c, 'm, unit) pact" where
  "NewPoolFacade lruNew cmapNew driverName connectionLimit idleTimeout =
     (case lruNew connectionLimit of
        Inl err \<Rightarrow> crash (Panic ''lru.New'')
      | Inr c \<Rightarrow> modA (\<lambda>w. w\<lparr>f_driverName := driverName, f_pools := cmapNew,
          f_totalMax := connectionLimit, f_numOpened := 0, f_waitCount := 0,
          f_idleTimeout := idleTimeout, f_closed := False, f_cancelled := False,
          f_openerChannel := [], f_lruCache := c\<rparr>))"

end
