(* ===== verification/PoolGrow.thy ===== *)
theory PoolGrow
  imports PoolLife "HOL-Library.Sublist"
begin

text \<open>
  What no operation of the pool ever takes back: \<open>grow w w'\<close> says that a closed connection or
  pool stays closed, that a connection keeps its pool and its time of creation, that the driver
  connections told to close are only added to, that identities are not reused, and that the
  facade's count of waiting requests never goes down. Every operation keeps it whatever its
  outcome, so it holds along every run.
\<close>

definition dcLater :: "driverConn \<Rightarrow> driverConn \<Rightarrow> bool" where
  "dcLater c c' \<longleftrightarrow> dc_pool c' = dc_pool c \<and> dc_createdAt c' = dc_createdAt c
     \<and> (dc_closed c \<longrightarrow> dc_closed c') \<and> (dc_finalClosed c \<longrightarrow> dc_finalClosed c')
     \<and> (dc_ci c = None \<longrightarrow> dc_ci c' = None)"

text \<open>
  The same for the session layer: transactions stay done, connections and rows stay closed, and
  the calls made on driver objects are only added to.
\<close>

definition sessLater :: "sess \<Rightarrow> sess \<Rightarrow> bool" where
  "sessLater z z' \<longleftrightarrow> s_nextSt z \<le> s_nextSt z' \<and> s_nextTx z \<le> s_nextTx z'
     \<and> s_nextConn z \<le> s_nextConn z' \<and> s_nextRows z \<le> s_nextRows z'
     \<and> prefix (s_calls z) (s_calls z')
     \<and> (\<forall>t < s_nextTx z. tx_done (s_tx z t) \<longrightarrow> tx_done (s_tx z' t))
     \<and> (\<forall>c < s_nextConn z. cn_done (s_conn z c) \<longrightarrow> cn_done (s_conn z' c))
     \<and> (\<forall>r < s_nextRows z. rs_closed (s_rows z r) \<longrightarrow> rs_closed (s_rows z' r))"

lemma sessLater_refl [simp]: "sessLater z z" by (simp add: sessLater_def)

lemma sessLater_calls [simp]: "sessLater z (z\<lparr>s_calls := s_calls z @ cs\<rparr>)"
  by (simp add: sessLater_def)

lemma sessLater_trans: "sessLater a b \<Longrightarrow> sessLater b c \<Longrightarrow> sessLater a c"
  unfolding sessLater_def
  by (intro conjI allI impI) (meson order.strict_trans2 order.trans prefix_order.trans)+

definition stmtLater :: "Stmt \<Rightarrow> Stmt \<Rightarrow> bool" where
  "stmtLater s s' \<longleftrightarrow> (st_closed s \<longrightarrow> st_closed s') \<and> st_cg s' = st_cg s \<and> st_query s' = st_query s
     \<and> st_stickyErr s' = st_stickyErr s \<and> st_db s' = st_db s"

lemma stmtLater_refl [simp]: "stmtLater s s" by (simp add: stmtLater_def)

lemma stmtLater_trans: "stmtLater a b \<Longrightarrow> stmtLater b c \<Longrightarrow> stmtLater a c"
  by (auto simp: stmtLater_def)

definition grow :: "('c, 'm) world \<Rightarrow> ('c, 'm) world \<Rightarrow> bool" where
  "grow w w' \<longleftrightarrow> f_waitCount w \<le> f_waitCount w' \<and> f_totalMax w' = f_totalMax w
     \<and> w_nextDc w \<le> w_nextDc w' \<and> w_nextPool w \<le> w_nextPool w' \<and> w_nextChan w \<le> w_nextChan w'
     \<and> prefix (w_ciClosed w) (w_ciClosed w')
     \<and> sessLater (w_sess w) (w_sess w')
     \<and> (\<forall>s < s_nextSt (w_sess w). stmtLater (w_st w s) (w_st w' s))
     \<and> (\<forall>d < w_nextDc w. dcLater (w_dc w d) (w_dc w' d))
     \<and> (\<forall>p < w_nextPool w. cp_closed (w_pool w p) \<longrightarrow> cp_closed (w_pool w' p))"

lemma dcLater_refl [simp]: "dcLater c c" by (simp add: dcLater_def)

lemma dcLater_trans: "dcLater a b \<Longrightarrow> dcLater b c \<Longrightarrow> dcLater a c" by (auto simp: dcLater_def)

interpretation grow: act_order grow
proof
  fix s t u :: "('c, 'm) world"
  show "grow s s" by (simp add: grow_def)
  assume "grow s t" "grow t u"
  then show "grow s u" unfolding grow_def
    by (intro conjI allI impI)
      (meson dcLater_trans sessLater_trans stmtLater_trans order.strict_trans2 order.trans
        prefix_order.trans sessLater_def [THEN iffD1] | simp)+
qed

lemmas grow_rules [keeps_intro] = grow.keeps_rules

lemma grow_modA [keeps_intro]: "(\<And>s. grow s (f s)) \<Longrightarrow> keeps grow (modA f)"
  by (rule grow.keeps_modA)

lemma grow_lockA [keeps_intro]: "keeps grow (lockA m)" and grow_unlockA [keeps_intro]: "keeps grow (unlockA m)"
  by (auto simp: keeps_def lockA_def unlockA_def grow_def)

lemma grow_withLock [keeps_intro]: "keeps grow f \<Longrightarrow> keeps grow (withLock lk f)"
  unfolding withLock_def by (intro keeps_intro)

lemma grow_ciClose [keeps_intro]: "keeps grow (ciClose E h)"
  by (simp add: keeps_def ciClose_def grow_def)

section \<open>Every operation\<close>

lemma grow_addDepLocked [keeps_intro]: "keeps grow (addDepLocked p x d)"
  unfolding addDepLocked_def by (intro keeps_intro) (simp add: grow_def)

lemma grow_removeDepLocked [keeps_intro]: "keeps grow (removeDepLocked p x d)"
  unfolding removeDepLocked_def by (intro keeps_intro) (simp_all add: grow_def)

lemma grow_addDep [keeps_intro]: "keeps grow (addDep p x d)"
  unfolding addDep_def by (intro keeps_intro)

lemma grow_dsClose [keeps_intro]: "keeps grow (dsClose E ds)"
  unfolding dsClose_def by (intro keeps_intro) (simp_all add: grow_def)

lemma grow_dsCloseAll [keeps_intro]: "keeps grow (dsCloseAll E dss)"
  by (induction dss) (simp_all add: keeps_intro)

lemma grow_removeOpenStmt [keeps_intro]: "keeps grow (removeOpenStmt dc ds)"
  unfolding removeOpenStmt_def by (intro keeps_intro) (simp add: grow_def dcLater_def)

lemma grow_noteUnused [keeps_intro]: "keeps grow (noteUnusedDriverStatement E p c ds)"
  unfolding noteUnusedDriverStatement_def by (intro keeps_intro) (simp add: grow_def dcLater_def)

lemma grow_releaseCss [keeps_intro]: "keeps grow (releaseCss E p css)"
  by (induction css) (auto intro!: keeps_intro)

lemma grow_stmtFinalClose [keeps_intro]: "keeps grow (stmtFinalClose E s)"
  unfolding stmtFinalClose_def by (intro keeps_intro) (simp add: grow_def stmtLater_def)

lemma grow_counters [keeps_intro]:
  "keeps grow incrementNumOpened" "keeps grow decrementNumOpened" "keeps grow canAddNewConn"
  "keeps grow getNumOfConnRequestsLocked" "keeps grow getNumCanOpenConnectionsLocked"
  unfolding incrementNumOpened_def decrementNumOpened_def canAddNewConn_def
    getNumOfConnRequestsLocked_def getNumCanOpenConnectionsLocked_def
  by (intro keeps_intro; simp add: grow_def)+

lemma grow_lru [keeps_intro]:
  "keeps grow (removeConnFromLru E d)" "keeps grow (putConnToLru E d)"
  "keeps grow (removeConnFromFree p d)" "keeps grow (getWaitCount p)"
  unfolding removeConnFromLru_def putConnToLru_def removeConnFromFree_def getWaitCount_def
  by (intro keeps_intro; simp add: grow_def)+

lemma grow_closeLruLoop [keeps_intro]:
  "(\<And>d. keeps grow (rec d)) \<Longrightarrow> keeps grow (closeLruLoop E rec n)"
  by (induction n) (auto intro!: keeps_intro simp: grow_def)

lemma grow_collectRequests [keeps_intro]: "keeps grow (collectRequests ps n acc)"
  by (induction ps arbitrary: n acc) (auto intro!: keeps_intro)

lemma grow_giveCommand [keeps_intro]: "keeps grow (giveCommandToOpenNewConnections ps)"
proof (induction ps)
  case (Cons p ps)
  show ?case unfolding giveCommandToOpenNewConnections.simps
    by (intro keeps_intro Cons) (simp_all add: grow_def)
qed (simp add: keeps_intro)

lemma grow_maybeOpenB [keeps_intro]:
  "(\<And>d. keeps grow (rec d)) \<Longrightarrow> keeps grow (maybeOpenNewConnectionsB E rec)"
  unfolding maybeOpenNewConnectionsB_def maybeCloseIdleConnLocked_def
    closeLruIdleConnectionsLocked_def getConnPoolsThatHaveRequestedNewConnections_def
  by (intro keeps_intro)

lemma grow_dcFinalCloseB [keeps_intro]:
  "(\<And>d. keeps grow (rec d)) \<Longrightarrow> keeps grow (dcFinalCloseB E rec dc)"
  unfolding dcFinalCloseB_def by (intro keeps_intro) (simp_all add: grow_def dcLater_def)

lemma grow_dcCloseB [keeps_intro]:
  "(\<And>d. keeps grow (rec d)) \<Longrightarrow> keeps grow (dcCloseB E rec dc)"
  unfolding dcCloseB_def by (intro keeps_intro) (simp_all add: grow_def dcLater_def)

lemma grow_dcClose [keeps_intro]: "keeps grow (dcClose n E dc)"
  by (induction n arbitrary: dc) (auto intro!: keeps_intro)

lemma grow_closed_recursion [keeps_intro]:
  "keeps grow (closeConn E dc)" "keeps grow (maybeOpenNewConnections E)"
  "keeps grow (dcFinalClose E dc)" "keeps grow (finalClose E x)"
  unfolding closeConn_def maybeOpenNewConnections_def dcFinalClose_def finalClose_def
  by (simp_all add: keeps_intro split: obj.split)

lemma grow_removeDep [keeps_intro]: "keeps grow (removeDep E p x d)"
  unfolding removeDep_def by (intro keeps_intro)

lemma grow_closeDBLocked [keeps_intro]: "keeps grow (closeDBLocked dc)"
  unfolding closeDBLocked_def by (intro keeps_intro) (simp_all add: grow_def dcLater_def)

lemma grow_session [keeps_intro]:
  "keeps grow (resetSession E d)" "keeps grow (validateConnection E d b)"
  unfolding resetSession_def validateConnection_def
  by (intro keeps_intro; simp add: grow_def dcLater_def)+

lemma grow_startCleaner [keeps_intro]: "keeps grow (startCleanerLocked p)"
  unfolding startCleanerLocked_def by (intro keeps_intro) (simp add: grow_def)

lemma keeps_case_cleaner: "keeps R m \<Longrightarrow> (\<And>n. keeps R (f n)) \<Longrightarrow> keeps R k \<Longrightarrow>
    keeps R (case ch of NilChan \<Rightarrow> m | OpenChan n \<Rightarrow> f n | ClosedChan \<Rightarrow> k)"
  by (cases ch) simp_all

lemma grow_SetConnMaxIdleTime [keeps_intro]: "keeps grow (SetConnMaxIdleTime p t)"
  unfolding SetConnMaxIdleTime_def by (intro keeps_intro keeps_case_cleaner) (simp_all add: grow_def)

lemma grow_returnConnection [keeps_intro]: "keeps grow (returnConnectionOnRequestLocked E p dc err)"
  unfolding returnConnectionOnRequestLocked_def
  by (intro keeps_intro) (simp_all add: grow_def dcLater_def)

lemma grow_saveIdle [keeps_intro]: "keeps grow (tryToSaveConnectionAsIdleLocked E p d)"
  unfolding tryToSaveConnectionAsIdleLocked_def by (intro keeps_intro) (simp add: grow_def)

lemma grow_putLocked [keeps_intro]: "keeps grow (putConnectionConnPoolLocked E p dc err)"
  unfolding putConnectionConnPoolLocked_def isFreeConnectionsNeededLocked_def by (intro keeps_intro)

lemma grow_putConn [keeps_intro]: "keeps grow (putConn E p dc err b)"
  unfolding putConn_def by (intro keeps_intro) (simp_all add: grow_def dcLater_def)

lemma grow_releaseConn [keeps_intro]: "keeps grow (releaseConn E dc err)"
  unfolding releaseConn_def by (intro keeps_intro)

lemma grow_connFromFree [keeps_intro]: "keeps grow (connFromFree E p t)"
  unfolding connFromFree_def by (intro keeps_intro) (simp_all add: grow_def dcLater_def)

lemma grow_connEnqueue [keeps_intro]: "keeps grow (connEnqueue E p t)"
  unfolding connEnqueue_def nextRequestKeyLocked_def
  by (rule grow.keeps_get_mod, simp add: grow_def) (intro keeps_intro; simp add: grow_def)

lemma grow_allocDc [keeps_intro]: "keeps grow (allocDc c)"
  by (simp add: keeps_def allocDc_def grow_def)

lemma grow_connOpen [keeps_intro]: "keeps grow (connOpen E p)"
  unfolding connOpen_def by (intro keeps_intro)

lemma grow_conn [keeps_intro]: "keeps grow (conn E p st)"
  unfolding conn_def by (intro keeps_intro)

lemma grow_connCtxDone [keeps_intro]: "keeps grow (connCtxDone E p cw e)"
  unfolding connCtxDone_def by (intro keeps_intro) (simp_all add: grow_def)

lemma grow_connReceived [keeps_intro]: "keeps grow (connReceived E p st cw)"
  unfolding connReceived_def by (intro keeps_intro) (simp_all add: grow_def)

lemma grow_openNewConnection [keeps_intro]: "keeps grow (openNewConnection E p)"
  unfolding openNewConnection_def by (intro keeps_intro)

lemma grow_Stats [keeps_intro]: "keeps grow (Stats p)"
  unfolding Stats_def by (intro keeps_intro)

lemma grow_facadeStats [keeps_intro]: "keeps grow (facadeStats E)"
proof -
  have "keeps grow (sumIdle ps n)" for ps n by (induction ps arbitrary: n) (auto intro!: keeps_intro)
  then show ?thesis unfolding facadeStats_def by (intro keeps_intro)
qed

lemma grow_openerStep [keeps_intro]: "keeps grow (openerStep E)"
  unfolding openerStep_def by (intro keeps_intro) (simp add: grow_def)

lemma grow_cleanerRun [keeps_intro]: "keeps grow (connectionCleanerRunLocked E p)"
  unfolding connectionCleanerRunLocked_def by (intro keeps_intro) (simp_all add: grow_def)

lemma grow_closeConns [keeps_intro]: "keeps grow (closeConns E cs)"
  by (induction cs) (auto intro!: keeps_intro)

lemma grow_cleanerStep [keeps_intro]: "keeps grow (cleanerStep E p b)"
proof -
  have "keeps grow (case ch of OpenChan (Suc n) \<Rightarrow>
        modA (updPool p (\<lambda>cp. cp\<lparr>cp_cleanerCh := OpenChan n\<rparr>))
      | ClosedChan \<Rightarrow> ret () | _ \<Rightarrow> crash Deadlock)" for ch
    by (auto split: cleanerChan.split nat.split intro!: keeps_intro simp: grow_def)
  then show ?thesis unfolding cleanerStep_def by (intro keeps_intro) (simp_all add: grow_def)
qed

lemma grow_closeDBLockedAll [keeps_intro]: "keeps grow (closeDBLockedAll ds)"
  by (induction ds) (auto intro!: keeps_intro)

lemma grow_runCloseFns [keeps_intro]: "keeps grow (runCloseFns E fns err)"
proof (induction fns arbitrary: err)
  case (Cons x fns)
  obtain d fn where "x = (d, fn)" by (cases x)
  then show ?case by (simp only: runCloseFns.simps) (intro keeps_intro Cons)
qed (simp add: keeps_intro)

lemma grow_ConnPool_Close [keeps_intro]: "keeps grow (ConnPool_Close E p)"
  unfolding ConnPool_Close_def by (intro keeps_intro) (simp_all add: grow_def)

lemma grow_getOrCreate [keeps_intro]: "keeps grow (getOrCreateConnPool E cr)"
proof -
  have "keeps grow (OpenDB c)" for c
    unfolding OpenDB_def by (rule grow.keeps_get_mod) (simp_all add: grow_def keeps_intro)
  then show ?thesis unfolding getOrCreateConnPool_def OpenPool_def
    by (intro keeps_intro) (simp_all add: grow_def)
qed

section \<open>Runs of a pool\<close>

text \<open>The operations other goroutines may start, as one datatype, and a run of them.\<close>

datatype ('c, 'm) op =
    OpConn poolid connReuseStrategy
  | OpCtxDone poolid connWait gerr
  | OpReceived poolid connReuseStrategy connWait
  | OpPut dcid "gerr option"
  | OpRemoveDep poolid obj obj
  | OpOpener
  | OpCleaner poolid bool
  | OpSetIdle poolid int
  | OpStats
  | OpClosePool poolid
  | OpGetPool Credentials

definition runOp :: "('c, 'm) env \<Rightarrow> ('c, 'm) op \<Rightarrow> ('c, 'm, unit) pact" where
  "runOp E x = (case x of
       OpConn p st \<Rightarrow> thenA (conn E p st) (\<lambda>_. ret ())
     | OpCtxDone p cw e \<Rightarrow> thenA (connCtxDone E p cw e) (\<lambda>_. ret ())
     | OpReceived p st cw \<Rightarrow> thenA (connReceived E p st cw) (\<lambda>_. ret ())
     | OpPut d e \<Rightarrow> releaseConn E d e
     | OpRemoveDep p y d \<Rightarrow> removeDep E p y d
     | OpOpener \<Rightarrow> openerStep E
     | OpCleaner p b \<Rightarrow> thenA (cleanerStep E p b) (\<lambda>_. ret ())
     | OpSetIdle p t \<Rightarrow> SetConnMaxIdleTime p t
     | OpStats \<Rightarrow> thenA (facadeStats E) (\<lambda>_. ret ())
     | OpClosePool p \<Rightarrow> thenA (ConnPool_Close E p) (\<lambda>_. ret ())
     | OpGetPool cr \<Rightarrow> thenA (getOrCreateConnPool E cr) (\<lambda>_. ret ()))"

text \<open>
  A run: each operation has its own environment. After a panic the world is the one the panic
  left, which is what the other goroutines would see if a caller recovered from it.
\<close>

fun runOps :: "(('c, 'm) env \<times> ('c, 'm) op) list \<Rightarrow> ('c, 'm) world \<Rightarrow> ('c, 'm) world" where
  "runOps [] w = w"
| "runOps ((E, x) # xs) w = runOps xs (snd (runOp E x w))"

lemma grow_runOp [keeps_intro]: "keeps grow (runOp E x)"
  by (cases x) (simp_all add: runOp_def keeps_intro)

lemma grow_runOps: "grow w (runOps xs w)"
  by (induction xs w rule: runOps.induct)
    (auto simp: grow.refl intro: grow.trans keepsD [OF grow_runOp] prod.collapse [symmetric])

end
