(* ===== verification/PoolFuel.thy ===== *)
theory PoolFuel
  imports PoolGrow
begin

text \<open>
  The recursion of \<open>driverConn.Close\<close> through \<open>maybeOpenNewConnections\<close> ends at depth two:
  the inner close runs while the facade's mutex is held, so it stops before it can recurse again.
  The preorder \<open>holdsFacade\<close> says that an operation does not release that mutex.
\<close>

definition holdsFacade :: "('c, 'm) world \<Rightarrow> ('c, 'm) world \<Rightarrow> bool" where
  "holdsFacade w w' \<longleftrightarrow> (FacadeMu \<in> w_locked w \<longrightarrow> FacadeMu \<in> w_locked w')"

interpretation held: act_order holdsFacade
  by standard (auto simp: holdsFacade_def)

lemmas held_rules = held.keeps_rules held.keeps_modA

lemma held_lockA: "keeps holdsFacade (lockA m)"
  by (auto simp: keeps_def holdsFacade_def lockA_def)

lemma held_unlockA: "m \<noteq> FacadeMu \<Longrightarrow> keeps holdsFacade (unlockA m)"
  by (auto simp: keeps_def holdsFacade_def unlockA_def)

lemma held_withLock: "m \<noteq> FacadeMu \<Longrightarrow> keeps holdsFacade f \<Longrightarrow> keeps holdsFacade (withLock m f)"
  unfolding withLock_def by (intro held_rules held_lockA held_unlockA keeps_intro)

lemmas held_intro = held_rules held_lockA held_unlockA held_withLock
  keeps_if keeps_let keeps_case_prod keeps_case_option keeps_case_sum keeps_case_list

lemma held_locked_section: "keeps holdsFacade (seqA (lockA FacadeMu) m)"
  by (auto simp: keeps_def holdsFacade_def)

lemma held_dsCloseAll: "keeps holdsFacade (dsCloseAll E dss)"
proof (induction dss)
  case (Cons d dss)
  have "keeps holdsFacade (dsClose E d)" unfolding dsClose_def
    by (auto simp: keeps_def holdsFacade_def act_defs lockA_def unlockA_def Let_def)
  then show ?case using Cons by (simp add: held.keeps_seqA)
qed (simp add: held_rules)

lemma held_removeDepLocked: "keeps holdsFacade (removeDepLocked p x d)"
  unfolding removeDepLocked_def by (intro held_intro) (simp_all add: holdsFacade_def)

lemma held_removeConnFromLru: "keeps holdsFacade (removeConnFromLru E d)"
  unfolding removeConnFromLru_def by (intro held_intro) (simp add: holdsFacade_def)

lemma held_removeConnFromFree: "keeps holdsFacade (removeConnFromFree p d)"
  unfolding removeConnFromFree_def by (intro held_intro) (simp_all add: holdsFacade_def)

lemma held_maybeOpenB: "keeps holdsFacade (maybeOpenNewConnectionsB E rec)"
  unfolding maybeOpenNewConnectionsB_def by (rule held_locked_section)

lemma held_decrement: "keeps holdsFacade decrementNumOpened"
  unfolding decrementNumOpened_def by (rule held_locked_section)

lemma held_dcFinalCloseB: "keeps holdsFacade (dcFinalCloseB E rec dc)"
proof -
  have "keeps holdsFacade (ciClose E h)" for h by (simp add: keeps_def ciClose_def holdsFacade_def)
  then show ?thesis unfolding dcFinalCloseB_def
    by (intro held_intro held_dsCloseAll held_decrement held_maybeOpenB) (simp_all add: holdsFacade_def)
qed

lemma held_dcCloseB: "keeps holdsFacade (dcCloseB E rec dc)"
  unfolding dcCloseB_def
  by (intro held_intro held_removeConnFromLru held_removeDepLocked held_dcFinalCloseB)
    (simp_all add: holdsFacade_def)

lemma held_dcClose: "keeps holdsFacade (dcClose n E dc)"
  by (cases n) (simp_all add: held_dcCloseB held.keeps_crash)

section \<open>The inner close does not depend on the recursion\<close>

abbreviation facadeHeld :: "('c, 'm) world \<Rightarrow> bool" where
  "facadeHeld w \<equiv> FacadeMu \<in> w_locked w"

text \<open>Two actions that cannot be told apart while the facade's mutex is held.\<close>

definition sameHeld :: "('c, 'm, 'a) pact \<Rightarrow> ('c, 'm, 'a) pact \<Rightarrow> bool" where
  "sameHeld m n \<longleftrightarrow> (\<forall>w. facadeHeld w \<longrightarrow> m w = n w)"

lemma sameHeld_refl [simp]: "sameHeld m m" by (simp add: sameHeld_def)

lemma sameHeld_thenA:
  assumes "sameHeld m n" and "keeps holdsFacade m" and "\<And>x. sameHeld (f x) (g x)"
  shows "sameHeld (thenA m f) (thenA n g)"
  unfolding sameHeld_def
proof (intro allI impI)
  fix w :: "('a, 'b) world"
  assume w: "facadeHeld w"
  obtain r w' where m: "m w = (r, w')" by (cases "m w")
  have "facadeHeld w'" using keepsD [OF assms(2) m] w by (simp add: holdsFacade_def)
  moreover have "n w = (r, w')" using assms(1) w m by (simp add: sameHeld_def)
  ultimately show "thenA m f w = thenA n g w"
    using m assms(3) by (cases r) (simp_all add: thenA_def sameHeld_def)
qed

lemma sameHeld_seqA: "sameHeld m n \<Longrightarrow> keeps holdsFacade m \<Longrightarrow> sameHeld f g \<Longrightarrow>
    sameHeld (seqA m f) (seqA n g)"
  by (simp add: seqA_def sameHeld_thenA)

lemma sameHeld_stuck: "sameHeld (seqA (lockA FacadeMu) m) (seqA (lockA FacadeMu) n)"
  by (simp add: sameHeld_def)

lemma decrement_stuck: "sameHeld (seqA decrementNumOpened m) (seqA decrementNumOpened n)"
  by (simp add: sameHeld_def decrementNumOpened_def seqA_apply thenA_def)

lemma sameHeld_dcFinalCloseB: "sameHeld (dcFinalCloseB E rec dc) (dcFinalCloseB E rec' dc)"
proof -
  have ci: "keeps holdsFacade (ciClose E h)" for h
    by (simp add: keeps_def ciClose_def holdsFacade_def)
  show ?thesis unfolding dcFinalCloseB_def
    by (intro sameHeld_thenA sameHeld_seqA decrement_stuck sameHeld_refl held_intro held_dsCloseAll ci)
      (simp_all add: holdsFacade_def)
qed

lemma sameHeld_if: "sameHeld m m' \<Longrightarrow> sameHeld n n' \<Longrightarrow>
    sameHeld (if b then m else n) (if b then m' else n')"
  by simp

lemma sameHeld_dcCloseB: "sameHeld (dcCloseB E rec dc) (dcCloseB E rec' dc)"
  unfolding dcCloseB_def
  by (intro sameHeld_thenA sameHeld_seqA sameHeld_if sameHeld_dcFinalCloseB sameHeld_refl held_intro
      held_removeConnFromLru held_removeDepLocked) (simp_all add: holdsFacade_def)

lemma sameHeld_dcClose: "sameHeld (dcClose (Suc n) E dc) (dcClose (Suc m) E dc)"
  by (simp add: sameHeld_dcCloseB)

lemma sameHeld_tryA: "sameHeld m n \<Longrightarrow> sameHeld (tryA m) (tryA n)"
  by (simp add: sameHeld_def tryA_def)

lemma sameHeld_case_sum: "(\<And>a. sameHeld (f a) (f' a)) \<Longrightarrow> (\<And>a. sameHeld (g a) (g' a)) \<Longrightarrow>
    sameHeld (case x of Inl a \<Rightarrow> f a | Inr a \<Rightarrow> g a) (case x of Inl a \<Rightarrow> f' a | Inr a \<Rightarrow> g' a)"
  by (cases x) simp_all

lemma sameHeld_case_option: "sameHeld m m' \<Longrightarrow> (\<And>a. sameHeld (f a) (f' a)) \<Longrightarrow>
    sameHeld (case x of None \<Rightarrow> m | Some a \<Rightarrow> f a) (case x of None \<Rightarrow> m' | Some a \<Rightarrow> f' a)"
  by (cases x) simp_all

lemma sameHeld_case_prod: "(\<And>a b. sameHeld (f a b) (f' a b)) \<Longrightarrow>
    sameHeld (case x of (a, b) \<Rightarrow> f a b) (case x of (a, b) \<Rightarrow> f' a b)"
  by (cases x) simp

lemma sameHeld_closeLruLoop:
  assumes "\<And>d. sameHeld (rec d) (rec' d)" and "\<And>d. keeps holdsFacade (rec d)"
  shows "sameHeld (closeLruLoop E rec n) (closeLruLoop E rec' n)"
proof (induction n)
  case (Suc n)
  show ?case unfolding closeLruLoop.simps
    by (intro sameHeld_thenA sameHeld_seqA sameHeld_if sameHeld_case_prod sameHeld_case_option
        sameHeld_case_sum sameHeld_tryA assms Suc sameHeld_refl held_intro held_removeConnFromFree)
      (simp_all add: holdsFacade_def)
qed simp

text \<open>The whole call is the same, as its loop runs inside the critical section.\<close>

lemma maybeOpen_rec:
  assumes "\<And>d. sameHeld (rec d) (rec' d)" and "\<And>d. keeps holdsFacade (rec d)"
  shows "maybeOpenNewConnectionsB E rec = maybeOpenNewConnectionsB E rec'"
proof
  fix w :: "('a, 'b) world"
  let ?w = "w\<lparr>w_locked := insert FacadeMu (w_locked w)\<rparr>"
  have loop: "sameHeld (maybeCloseIdleConnLocked E rec n) (maybeCloseIdleConnLocked E rec' n)" for n
    unfolding maybeCloseIdleConnLocked_def closeLruIdleConnectionsLocked_def
    by (intro sameHeld_thenA sameHeld_refl held_intro sameHeld_closeLruLoop assms)
  have hl: "keeps holdsFacade (maybeCloseIdleConnLocked E rec n)" for n
  proof -
    have "keeps holdsFacade (closeLruLoop E rec k)" for k
    proof (induction k)
      case (Suc k)
      show ?case unfolding closeLruLoop.simps
        by (intro held_intro held_removeConnFromFree assms Suc) (simp add: holdsFacade_def)
    qed (simp add: held_rules)
    then show ?thesis unfolding maybeCloseIdleConnLocked_def closeLruIdleConnectionsLocked_def
      by (intro held_intro)
  qed
  have g: "keeps holdsFacade getNumOfConnRequestsLocked" "keeps holdsFacade getNumCanOpenConnectionsLocked"
    by (simp_all add: getNumOfConnRequestsLocked_def getNumCanOpenConnectionsLocked_def held_rules)
  show "maybeOpenNewConnectionsB E rec w = maybeOpenNewConnectionsB E rec' w"
  proof (cases "facadeHeld w")
    case False
    have "sameHeld
       (thenA getNumOfConnRequestsLocked (\<lambda>k. thenA getNumCanOpenConnectionsLocked (\<lambda>c.
        thenA (if c < k then seqA (maybeCloseIdleConnLocked E rec (k - c))
                 getNumCanOpenConnectionsLocked else ret c) (\<lambda>c'.
        thenA (getConnPoolsThatHaveRequestedNewConnections E (min k c')) (\<lambda>ps.
        seqA (giveCommandToOpenNewConnections ps) (unlockA FacadeMu))))))
       (thenA getNumOfConnRequestsLocked (\<lambda>k. thenA getNumCanOpenConnectionsLocked (\<lambda>c.
        thenA (if c < k then seqA (maybeCloseIdleConnLocked E rec' (k - c))
                 getNumCanOpenConnectionsLocked else ret c) (\<lambda>c'.
        thenA (getConnPoolsThatHaveRequestedNewConnections E (min k c')) (\<lambda>ps.
        seqA (giveCommandToOpenNewConnections ps) (unlockA FacadeMu))))))"
      by (intro sameHeld_thenA sameHeld_seqA sameHeld_if loop hl g sameHeld_refl held_intro)
    then show ?thesis using False by (simp add: maybeOpenNewConnectionsB_def sameHeld_def)
  qed (simp add: maybeOpenNewConnectionsB_def)
qed

lemma dcClose_fuel: "dcClose (Suc (Suc n)) E dc = closeConn E dc"
proof -
  have "maybeOpenNewConnectionsB E (dcClose (Suc n) E) = maybeOpenNewConnectionsB E (dcClose (Suc 0) E)"
    by (intro maybeOpen_rec sameHeld_dcClose held_dcClose)
  then show ?thesis
    unfolding closeConn_def numeral_2_eq_2 dcClose.simps(2) [of "Suc _"] dcCloseB_def dcFinalCloseB_def
    by (simp only:)
qed

text \<open>The equation of the code: \<open>Close\<close> with the recursive call being \<open>Close\<close> itself.\<close>

lemma closeConn_unfold: "closeConn E dc = dcCloseB E (closeConn E) dc"
proof -
  have "closeConn E dc = dcClose (Suc (Suc (Suc 0))) E dc" by (rule dcClose_fuel [symmetric])
  also have "\<dots> = dcCloseB E (closeConn E) dc"
    by (simp only: dcClose.simps(2) [of "Suc (Suc 0)"] closeConn_def [abs_def] numeral_2_eq_2)
  finally show ?thesis .
qed

end
