(* ===== verification/PoolFacts.thy ===== *)
theory PoolFacts
  imports PoolFuel
begin

text \<open>
  What the operations of the pool guarantee, and the states in which they stop. The facts about
  the LRU and the concurrent map rest on their contracts (\<open>lru_cache\<close>, \<open>cmap\<close>).
\<close>

section \<open>Running the operations\<close>

lemmas pool_run = thenA_def seqA_def tryA_def

lemma withLock_run: "withLock lk f w = (if lk \<in> w_locked w then (Crash Deadlock, w) else
    (case f (w\<lparr>w_locked := insert lk (w_locked w)\<rparr>) of
       (Ok x, w') \<Rightarrow> (if lk \<in> w_locked w' then (Ok x, w'\<lparr>w_locked := w_locked w' - {lk}\<rparr>)
                      else (Crash FatalUnlock, w'))
     | (Fail e, w') \<Rightarrow> (if lk \<in> w_locked w' then (Fail e, w'\<lparr>w_locked := w_locked w' - {lk}\<rparr>)
                      else (Crash FatalUnlock, w'))
     | (Crash h, w') \<Rightarrow> (Crash h, w')))"
  by (auto simp: withLock_def pool_run lockA_def unlockA_def split: prod.splits res.splits)

definition crashes :: "('s, 'a) act \<Rightarrow> 's \<Rightarrow> bool" where
  "crashes m s \<longleftrightarrow> (\<exists>h. fst (m s) = Crash h)"

lemma crashes_thenA: "crashes m s \<Longrightarrow> crashes (thenA m f) s"
  by (cases "m s") (auto simp: crashes_def thenA_def)

lemma crashes_seqA: "crashes m s \<Longrightarrow> crashes (seqA m n) s"
  by (simp add: seqA_def crashes_thenA)

lemma crashes_thenA_step:
  assumes "\<And>x s'. m s = (Ok x, s') \<Longrightarrow> crashes (f x) s'" and "\<And>e s'. m s \<noteq> (Fail e, s')"
  shows "crashes (thenA m f) s"
proof (cases "m s")
  case (Pair r s')
  then show ?thesis using assms by (cases r) (auto simp: crashes_def thenA_def)
qed

lemma crashes_tryA: "crashes m s \<Longrightarrow> crashes (tryA m) s"
  by (cases "m s") (auto simp: crashes_def tryA_def)

lemma crashes_locked: "m \<in> w_locked w \<Longrightarrow> crashes (seqA (lockA m) f) w"
  by (simp add: crashes_def)

lemma crashes_Ok: "crashes m s \<Longrightarrow> m s \<noteq> (Ok x, s')"
  by (auto simp: crashes_def)

section \<open>Closing driver statements\<close>

text \<open>What closing a list of driver statements leaves: the statements, and the calls to the driver.\<close>

fun closedDs :: "('c, 'm) env \<Rightarrow> dsid list \<Rightarrow> (dsid \<Rightarrow> driverStmt) \<Rightarrow> dsid \<Rightarrow> driverStmt" where
  "closedDs E [] f = f"
| "closedDs E (d # dss) f = closedDs E dss (if ds_closed (f d) then f
     else f(d := (f d)\<lparr>ds_closed := True, ds_closeErr := drvCloseStmt E (ds_si (f d))\<rparr>))"

fun closedCalls :: "('c, 'm) env \<Rightarrow> dsid list \<Rightarrow> (dsid \<Rightarrow> driverStmt) \<Rightarrow> drvCall list" where
  "closedCalls E [] f = []"
| "closedCalls E (d # dss) f = (if ds_closed (f d) then [] else [CallStmtClose (ds_si (f d))])
     @ closedCalls E dss (closedDs E [d] f)"

definition stmtsClosed :: "('c, 'm) env \<Rightarrow> dsid list \<Rightarrow> ('c, 'm) world \<Rightarrow> ('c, 'm) world" where
  "stmtsClosed E dss w = w\<lparr>w_ds := closedDs E dss (w_ds w),
     w_sess := (w_sess w)\<lparr>s_calls := s_calls (w_sess w) @ closedCalls E dss (w_ds w)\<rparr>\<rparr>"

lemma closedDs_locker: "ds_locker (closedDs E dss f d) = ds_locker (f d)"
  by (induction dss arbitrary: f) simp_all

lemma closedDs_closed: "d \<in> set dss \<or> ds_closed (f d) \<Longrightarrow> ds_closed (closedDs E dss f d)"
  by (induction dss arbitrary: f) auto

lemma dsClose_run:
  assumes "DcMu (ds_locker (w_ds w d)) \<notin> w_locked w"
  shows "\<exists>e. dsClose E d w = (Ok e, stmtsClosed E [d] w)"
proof -
  have "w\<lparr>w_locked := w_locked w\<rparr> = w" "(w_sess w)\<lparr>s_calls := s_calls (w_sess w)\<rparr> = w_sess w" by simp_all
  then show ?thesis using assms
    by (cases w) (auto simp: dsClose_def stmtsClosed_def lockA_def unlockA_def pool_run Let_def)
qed

lemma dsCloseAll_run:
  "\<forall>d \<in> set dss. DcMu (ds_locker (w_ds w d)) \<notin> w_locked w \<Longrightarrow> dsCloseAll E dss w = (Ok (), stmtsClosed E dss w)"
proof (induction dss arbitrary: w)
  case (Cons d dss)
  from Cons.prems dsClose_run obtain e where "dsClose E d w = (Ok e, stmtsClosed E [d] w)" by fastforce
  moreover have "dsCloseAll E dss (stmtsClosed E [d] w) = (Ok (), stmtsClosed E dss (stmtsClosed E [d] w))"
    using Cons.prems by (intro Cons.IH) (simp add: stmtsClosed_def)
  moreover have "stmtsClosed E dss (stmtsClosed E [d] w) = stmtsClosed E (d # dss) w"
    by (simp add: stmtsClosed_def)
  ultimately show ?case by (simp add: pool_run)
qed (simp add: stmtsClosed_def)

section \<open>Closing a connection and the LRU\<close>

context lru_cache
begin

lemma close_absent:
  assumes "d \<notin> set (keys (f_lruCache w))"
  shows "crashes (closeConn E d) w"
proof -
  have "crashes (dcCloseB E (closeConn E) d) w"
  proof (cases "DcMu d \<in> w_locked w")
    case False
    then show ?thesis using assms
      by (simp add: dcCloseB_def crashes_def removeConnFromLru_def remove_present pool_run split_def)
  qed (simp add: dcCloseB_def crashes_locked)
  then show ?thesis by (subst closeConn_unfold)
qed

text \<open>
  The loop takes the oldest connection out of the LRU and then closes it, and closing panics for
  a connection that is not in the LRU.
\<close>

lemma closeLru_crashes:
  assumes "0 < n"
  shows "crashes (closeLruLoop E (closeConn E) n) w"
proof -
  obtain m where n: "n = Suc m" using assms by (cases n) auto
  obtain key c' where k: "lruRemoveOldest E (f_lruCache w) = (key, c')" by (cases "lruRemoveOldest E (f_lruCache w)")
  show ?thesis
  proof (cases key)
    case None
    then show ?thesis using n k by (simp add: crashes_def pool_run)
  next
    case (Some d)
    let ?w = "w\<lparr>f_lruCache := c'\<rparr>" and ?p = "dc_pool (w_dc w d)"
    have "d \<notin> set (keys c')"
      using oldest_not_present [of "f_lruCache w" d] k Some by (simp add: remove_present)
    show ?thesis
    proof (cases "PoolMu ?p \<in> w_locked w")
      case True
      then show ?thesis using n k Some by (simp add: crashes_def pool_run removeConnFromFree_def)
    next
      case False
      let ?w' = "?w\<lparr>w_pool := (w_pool w)(?p := (w_pool w ?p)\<lparr>cp_freeConn := remove1 d (cp_freeConn (w_pool w ?p))\<rparr>),
                    w_locked := w_locked w\<rparr>"
      have free: "removeConnFromFree ?p d ?w =
          (Ok (d \<in> set (cp_freeConn (w_pool w ?p))), ?w')"
        using False by (simp add: removeConnFromFree_def pool_run)
      have "crashes (closeConn E d) ?w'" using \<open>d \<notin> set (keys c')\<close> by (intro close_absent) simp
      then show ?thesis using n k Some free
        by (auto simp: crashes_def pool_run split: prod.splits res.splits)
    qed
  qed
qed

lemma maybeClose_crashes:
  assumes "0 < n" and "keys (f_lruCache w) \<noteq> []"
  shows "crashes (maybeCloseIdleConnLocked E (closeConn E) n) w"
  using assms closeLru_crashes [of "nat (int (lruLen E (f_lruCache w)))" w] closeLru_crashes [of "nat n" w]
  by (auto simp: maybeCloseIdleConnLocked_def closeLruIdleConnectionsLocked_def crashes_def len)

lemma maybeOpen_crashes:
  assumes "f_totalMax w - f_numOpened w < f_waitCount w" and "keys (f_lruCache w) \<noteq> []"
  shows "crashes (maybeOpenNewConnections E) w"
proof (cases "FacadeMu \<in> w_locked w")
  case False
  let ?w = "w\<lparr>w_locked := insert FacadeMu (w_locked w)\<rparr>"
  have "crashes (maybeCloseIdleConnLocked E (closeConn E) (f_waitCount w - (f_totalMax w - f_numOpened w))) ?w"
    using assms by (intro maybeClose_crashes) auto
  then show ?thesis using False assms(1)
    by (auto simp: maybeOpenNewConnections_def maybeOpenNewConnectionsB_def crashes_def pool_run
        getNumOfConnRequestsLocked_def getNumCanOpenConnectionsLocked_def split: prod.splits res.splits)
qed (simp add: maybeOpenNewConnections_def maybeOpenNewConnectionsB_def crashes_locked)

end

section \<open>Asking for new connections\<close>

lemma getWaitCount_run: "getWaitCount p w = (if PoolMu p \<in> w_locked w then (Crash Deadlock, w)
    else (Ok (int (length (cp_connRequests (w_pool w p)))), w))"
  by (simp add: getWaitCount_def pool_run)

text \<open>
  When \<open>collectRequests\<close> returns, it has left the world alone and found as many pools as
  connections were asked for, no pool more often than it has waiting requests.
\<close>

lemma collectRequests_Ok:
  assumes "collectRequests ps n acc w = (Ok xs, w')"
  shows "w' = w \<and> length xs = length acc + nat n \<and> set xs \<subseteq> set acc \<union> set ps \<and>
    (\<forall>p. count_list xs p \<le>
       count_list acc p + count_list ps p * length (cp_connRequests (w_pool w p)))"
  using assms
proof (induction ps arbitrary: n acc)
  case (Cons q ps)
  let ?k = "length (cp_connRequests (w_pool w q))"
  let ?m = "min (int ?k) n"
  let ?acc = "acc @ replicate (nat ?m) q"
  have free: "PoolMu q \<notin> w_locked w"
    using Cons.prems by (auto simp: thenA_def getWaitCount_run split: if_splits)
  have count: "count_list ?acc p \<le> count_list acc p + (if p = q then ?k else 0)" for p
  proof -
    have "count_list (replicate j q) p = (if p = q then j else 0)" for j by (induction j) auto
    then show ?thesis by (auto simp: count_list_append)
  qed
  show ?case
  proof (cases "?k = 0")
    case True
    then have "collectRequests ps n acc w = (Ok xs, w')"
      using Cons.prems free by (simp add: thenA_def getWaitCount_run)
    note IH = Cons.IH [OF this]
    have "count_list xs p \<le> count_list acc p + count_list (q # ps) p * length (cp_connRequests (w_pool w p))" for p
      using IH True by (cases "p = q") (auto dest!: spec [of _ p])
    then show ?thesis using IH by auto
  next
    case k: False
    show ?thesis
    proof (cases "n - ?m = 0")
      case True
      then have "xs = ?acc" "w' = w"
        using Cons.prems free k by (auto simp: thenA_def getWaitCount_run Let_def split: if_splits)
      have "count_list xs p \<le> count_list acc p + count_list (q # ps) p * length (cp_connRequests (w_pool w p))" for p
        using count [of p] unfolding \<open>xs = ?acc\<close> by (cases "p = q") auto
      then show ?thesis using True \<open>xs = ?acc\<close> \<open>w' = w\<close> by auto
    next
      case False
      then have rest: "collectRequests ps (n - ?m) ?acc w = (Ok xs, w')"
        using Cons.prems free k by (auto simp: thenA_def getWaitCount_run Let_def split: if_splits)
      have "0 < n" using False by (auto simp: min_def split: if_splits)
      then have "length xs = length acc + nat n"
        using Cons.IH [OF rest] by (simp add: min_def split: if_splits)
      moreover have "count_list xs p \<le> count_list acc p + count_list (q # ps) p * length (cp_connRequests (w_pool w p))" for p
        using Cons.IH [OF rest] count [of p] by (auto dest!: spec [of _ p] split: if_splits)
      ultimately show ?thesis using Cons.IH [OF rest] by auto
    qed
  qed
qed simp

lemma giveCommand_Ok:
  assumes "giveCommandToOpenNewConnections ps w = (Ok (), w')"
  shows "w' = w\<lparr>f_numOpened := f_numOpened w + (if f_closed w then of_bool (ps \<noteq> []) else int (length ps)),
      f_openerChannel := f_openerChannel w @ (if f_closed w then [] else ps)\<rparr>"
  using assms
proof (induction ps arbitrary: w)
  case (Cons p ps)
  show ?case
  proof (cases "f_closed w")
    case False
    let ?w = "w\<lparr>f_numOpened := f_numOpened w + 1, f_openerChannel := f_openerChannel w @ [p]\<rparr>"
    have "giveCommandToOpenNewConnections ps ?w = (Ok (), w')"
      using Cons.prems False by (auto split: if_splits)
    from Cons.IH [OF this] False show ?thesis by simp
  qed (use Cons.prems in auto)
qed simp

text \<open>What the action of asking for new connections does to the world.\<close>

definition asked :: "poolid list \<Rightarrow> ('c, 'm) world \<Rightarrow> ('c, 'm) world" where
  "asked ps w = w\<lparr>
     f_numOpened := f_numOpened w + (if f_closed w then of_bool (ps \<noteq> []) else int (length ps)),
     f_openerChannel := f_openerChannel w @ (if f_closed w then [] else ps)\<rparr>"

context lru_cache
begin

lemma maybeOpen_asks:
  assumes "maybeOpenNewConnections E w = (Ok (), w')"
  shows "FacadeMu \<notin> w_locked w \<and> (\<exists>ps w2.
    getConnPoolsThatHaveRequestedNewConnections E (min (f_waitCount w) (f_totalMax w - f_numOpened w))
      (w\<lparr>w_locked := insert FacadeMu (w_locked w)\<rparr>) = (Ok ps, w2)
    \<and> seqA (giveCommandToOpenNewConnections ps) (unlockA FacadeMu) w2 = (Ok (), w'))"
proof -
  let ?w = "w\<lparr>w_locked := insert FacadeMu (w_locked w)\<rparr>" and ?can = "f_totalMax w - f_numOpened w"
  let ?room = "if ?can < f_waitCount w
      then seqA (maybeCloseIdleConnLocked E (closeConn E) (f_waitCount w - ?can))
        (getA (\<lambda>w. f_totalMax w - f_numOpened w)) else ret ?can"
  let ?T = "\<lambda>c. thenA (getConnPoolsThatHaveRequestedNewConnections E (min (f_waitCount w) c))
      (\<lambda>ps. seqA (giveCommandToOpenNewConnections ps) (unlockA FacadeMu))"
  have free: "FacadeMu \<notin> w_locked w"
    using assms by (auto simp: maybeOpenNewConnections_def maybeOpenNewConnectionsB_def pool_run lockA_def
        split: if_splits)
  have "keys (f_lruCache w) = []" if "?can < f_waitCount w"
    using assms maybeOpen_crashes [of w] that by (auto simp: crashes_def)
  then have "?room ?w = (Ok ?can, ?w)"
    by (simp add: maybeCloseIdleConnLocked_def closeLruIdleConnectionsLocked_def len pool_run)
  moreover have "thenA ?room ?T ?w = (Ok (), w')"
    using assms free unfolding maybeOpenNewConnections_def maybeOpenNewConnectionsB_def
      getNumOfConnRequestsLocked_def getNumCanOpenConnectionsLocked_def
    by (simp split del: if_split cong del: if_weak_cong)
  ultimately have "?T ?can ?w = (Ok (), w')" unfolding thenA_def [of "if _ then _ else _"] by simp
  with free show ?thesis by (simp only: thenA_Ok_iff simp_thms)
qed

lemma maybeOpen_Ok:
  assumes "maybeOpenNewConnections E w = (Ok (), w')"
  obtains ps where "w' = asked ps w"
    and "length ps = nat (min (f_waitCount w) (f_totalMax w - f_numOpened w))"
    and "set ps \<subseteq> set (mapIter E (f_pools w))"
    and "\<And>p. count_list ps p \<le>
      count_list (mapIter E (f_pools w)) p * length (cp_connRequests (w_pool w p))"
proof -
  let ?w = "w\<lparr>w_locked := insert FacadeMu (w_locked w)\<rparr>"
  let ?num = "min (f_waitCount w) (f_totalMax w - f_numOpened w)"
  from maybeOpen_asks [OF assms] obtain ps w2 where free: "FacadeMu \<notin> w_locked w"
    and g: "getConnPoolsThatHaveRequestedNewConnections E ?num ?w = (Ok ps, w2)"
    and c: "seqA (giveCommandToOpenNewConnections ps) (unlockA FacadeMu) w2 = (Ok (), w')" by blast
  have ps: "w2 = ?w \<and> length ps = nat ?num \<and> set ps \<subseteq> set (mapIter E (f_pools w)) \<and>
      (\<forall>p. count_list ps p \<le> count_list (mapIter E (f_pools w)) p * length (cp_connRequests (w_pool w p)))"
  proof (cases "?num = 0")
    case True
    then show ?thesis using g by (auto simp: getConnPoolsThatHaveRequestedNewConnections_def)
  next
    case False
    then show ?thesis using g collectRequests_Ok [of _ ?num "[]" ?w ps w2]
      by (simp add: getConnPoolsThatHaveRequestedNewConnections_def)
  qed
  obtain w3 where w3: "giveCommandToOpenNewConnections ps w2 = (Ok (), w3)" "unlockA FacadeMu w3 = (Ok (), w')"
    using c by (auto simp: pool_run split: prod.splits res.splits)
  have "w' = asked ps w"
    using giveCommand_Ok [OF w3(1)] w3(2) ps free
    by (cases w) (auto simp: asked_def unlockA_def split: if_splits)
  then show ?thesis using ps that by blast
qed

lemma maybeOpen_frame:
  assumes "maybeOpenNewConnections E w = (Ok (), w')"
  shows "w_locked w' = w_locked w" "f_lruCache w' = f_lruCache w" "w_pool w' = w_pool w"
    "w_dc w' = w_dc w" "f_totalMax w' = f_totalMax w" "w_ciClosed w' = w_ciClosed w"
proof -
  obtain ps where "w' = asked ps w" by (rule maybeOpen_Ok [OF assms])
  then show "w_locked w' = w_locked w" "f_lruCache w' = f_lruCache w" "w_pool w' = w_pool w"
    "w_dc w' = w_dc w" "f_totalMax w' = f_totalMax w" "w_ciClosed w' = w_ciClosed w"
    by (simp_all add: asked_def)
qed

end

end
