(* ===== verification/PoolProps.thy ===== *)
theory PoolProps
  imports PoolFacts
begin

text \<open>
  The properties of the connection pool, each with a run on a concrete world where it has
  hypotheses. The concrete worlds have one pool (number 0), a limit of two connections, and
  connections 0 (in use) and 1 (idle).
\<close>

section \<open>A concrete world\<close>

definition demoEnv :: "(dcid list, (string \<times> poolid) list) env" where
  "demoEnv = listEnv 2
     \<lparr>lruAdd = (\<lambda>d c. (False, c)), lruRemove = (\<lambda>d c. (False, c)),
      lruRemoveOldest = (\<lambda>c. (None, c)), lruLen = length,
      mapHas = (\<lambda>k m. False), mapGet = (\<lambda>k m. None), mapSet = (\<lambda>k p m. m),
      mapIter = (\<lambda>m. []), mapCount = length,
      drvOpenConnector = (\<lambda>d dsn. None), drvOpen = (\<lambda>d dsn. Inr 7), drvConnect = (\<lambda>k. Inr 7),
      drvIsValid = (\<lambda>h. Some True), drvResetSession = (\<lambda>h. Some None),
      drvCloseConn = (\<lambda>h. None), drvCloseStmt = (\<lambda>s. None),
      nowFunc = 100, ctxErr = None, mapOrder = []\<rparr>"

definition demoConn :: "nat \<Rightarrow> bool \<Rightarrow> driverConn" where
  "demoConn h inUse =
     \<lparr>dc_pool = 0, dc_createdAt = 10, dc_ci = Some h, dc_needReset = False, dc_closed = False,
      dc_finalClosed = False, dc_openStmt = [], dc_inUse = inUse, dc_returnedAt = 20,
      dc_onPut = [], dc_dbmuClosed = False\<rparr>"

definition demoWorld :: "(dcid list, (string \<times> poolid) list) world" where
  "demoWorld =
     \<lparr>w_dc = (\<lambda>d. demoConn d (d = 0)), w_nextDc = 2,
      w_ds = (\<lambda>_. \<lparr>ds_locker = 0, ds_si = 0, ds_closed = False, ds_closeErr = None\<rparr>),
      w_st = (\<lambda>_. \<lparr>st_db = 0, st_query = '''', st_stickyErr = None, st_cg = None, st_cgds = None,
          st_parent = None, st_closed = False, st_css = [], st_lastNumClosed = 0\<rparr>),
      w_sess = \<lparr>s_nextDs = 0, s_nextSt = 0,
          s_tx = (\<lambda>_. \<lparr>tx_db = 0, tx_dc = Some 0, tx_txi = Some 5, tx_release = RelPut 0, tx_done = False,
              tx_keepConnOnRollback = True, tx_stmts = [], tx_cancelled = False, tx_readers = 0\<rparr>),
          s_nextTx = 1, s_conn = (\<lambda>_. \<lparr>cn_db = Some 0, cn_dc = Some 0, cn_done = False, cn_readers = 0\<rparr>),
          s_nextConn = 1,
          s_rows = (\<lambda>_. \<lparr>rs_dc = 0, rs_release = RelPut 0, rs_rowsi = Some 0, rs_cancel = False, rs_closeStmt = None,
              rs_closed = False, rs_lasterr = None, rs_lastcols = None\<rparr>), s_nextRows = 1, s_calls = []\<rparr>,
      w_pool = (\<lambda>_. (newConnPool (DriverConnector 0))\<lparr>cp_freeConn := [1],
          cp_dep := [ODc 0 \<mapsto> [ODc 0], ODc 1 \<mapsto> [ODc 1]]\<rparr>),
      w_nextPool = 1, w_chan = (\<lambda>_. []), w_nextChan = 1, w_ciClosed = [], w_drivers = [(''mysql'', 3)],
      f_driverName = ''mysql'', f_pools = [(''upd'', 0)], f_totalMax = 2, f_numOpened = 2,
      f_waitCount = 0, f_idleTimeout = 5, f_closed = False, f_cancelled = False,
      f_openerChannel = [], f_lruCache = [1], w_locked = {}\<rparr>"

text \<open>The same world with a request waiting in the pool.\<close>

definition demoWaiting :: "(dcid list, (string \<times> poolid) list) world" where
  "demoWaiting = demoWorld
     \<lparr>w_pool := (\<lambda>_. (w_pool demoWorld 0)\<lparr>cp_connRequests := [(0, 0)], cp_nextRequest := 1\<rparr>),
      f_waitCount := 1\<rparr>"

lemmas demo_defs = demoEnv_def demoConn_def demoWorld_def demoWaiting_def newConnPool_def

lemma demo_lru: "lru_cache demoEnv remdups 2"
  unfolding demoEnv_def by (rule list_lru.lru_cache_axioms)

lemma demo_cmap: "cmap demoEnv map_of"
  unfolding demoEnv_def by (rule list_cmap.cmap_axioms)

section \<open>Giving a connection back\<close>

lemma validate_run:
  assumes "DcMu d \<notin> w_locked w"
  shows "validateConnection E d reset w =
    (Ok (case dc_ci (w_dc w d) of None \<Rightarrow> True
       | Some h \<Rightarrow> (case drvIsValid E h of None \<Rightarrow> True | Some v \<Rightarrow> v)),
     w\<lparr>w_dc := (w_dc w)(d := (w_dc w d)\<lparr>dc_needReset := dc_needReset (w_dc w d) \<or> reset\<rparr>)\<rparr>)"
  using assms by (cases reset) (auto simp: validateConnection_def withLock_run pool_run fun_upd_idem_iff)

definition isValid :: "('c, 'm) env \<Rightarrow> driverConn \<Rightarrow> bool" where
  "isValid E c = (case dc_ci c of None \<Rightarrow> True
     | Some h \<Rightarrow> (case drvIsValid E h of None \<Rightarrow> True | Some v \<Rightarrow> v))"

lemma expired_reset: "expired E (c\<lparr>dc_needReset := b\<rparr>) t = expired E c t"
  by (simp add: expired_def)

text \<open>
  C5: A connection that is given back in a good state (in use, valid, not older than the
  lifetime limit, not among the free ones, and the LRU has it or has room) to an open pool without
  waiting requests becomes idle: it is among the free connections and in the LRU, no longer in
  use, its time of return is now, the statements that were left to be closed on its return are
  closed, every mutex is free again, and neither the other free connections nor the count of open
  connections change. An error of the last query other than the driver's bad-connection error
  makes no difference.
\<close>

theorem putConn_makes_idle:
  assumes "lru_cache E keys sz"
    and "w_locked w = {}" and "dc_inUse (w_dc w d)"
    and "isValid E (w_dc w d)" and "err \<noteq> Some ErrBadConn"
    and "\<not> expired E (w_dc w d) (cp_maxLifetime (w_pool w p))"
    and "\<not> cp_closed (w_pool w p)" and "cp_connRequests (w_pool w p) = []"
    and "d \<notin> set (cp_freeConn (w_pool w p))"
    and "d \<in> set (keys (f_lruCache w)) \<or> length (keys (f_lruCache w)) < sz"
  shows "\<exists>w'. putConn E p d err reset w = (Ok (), w') \<and>
    cp_freeConn (w_pool w' p) = cp_freeConn (w_pool w p) @ [d] \<and>
    set (keys (f_lruCache w')) = insert d (set (keys (f_lruCache w))) \<and>
    \<not> dc_inUse (w_dc w' d) \<and> dc_returnedAt (w_dc w' d) = nowFunc E \<and>
    (reset \<longrightarrow> dc_needReset (w_dc w' d)) \<and>
    (\<forall>ds. ds \<in> set (dc_onPut (w_dc w d)) \<longrightarrow> ds_closed (w_ds w' ds)) \<and> dc_onPut (w_dc w' d) = [] \<and>
    w_locked w' = {} \<and> f_numOpened w' = f_numOpened w \<and> w_ciClosed w' = w_ciClosed w"
proof -
  have ev: "\<not> fst (lruAdd E d (f_lruCache w))"
    using assms(10) by (auto simp: lru_cache.add_evicted [OF assms(1)])
  obtain c' where add: "lruAdd E d (f_lruCache w) = (False, c')"
    using ev by (cases "lruAdd E d (f_lruCache w)") auto
  have "set (keys c') = insert d (set (keys (f_lruCache w)))"
    using lru_cache.add_set [OF assms(1) ev] add by simp
  then show ?thesis using assms(2-9) add
    by (simp add: putConn_def validate_run isValid_def [symmetric] pool_run putConnectionConnPoolLocked_def
        isFreeConnectionsNeededLocked_def tryToSaveConnectionAsIdleLocked_def putConnToLru_def
        startCleanerLocked_def Let_def expired_reset dsCloseAll_run stmtsClosed_def closedDs_closed)
qed

theorem putConn_makes_idle_witness:
  "\<exists>w'. putConn demoEnv 0 0 (Some (ErrEnv 1)) True demoWorld = (Ok (), w') \<and>
    cp_freeConn (w_pool w' 0) = [1, 0] \<and> \<not> dc_inUse (w_dc w' 0) \<and> dc_returnedAt (w_dc w' 0) = 100"
proof -
  have now: "nowFunc demoEnv = 100" by (simp add: demoEnv_def listEnv_def)
  show ?thesis
    using putConn_makes_idle [OF demo_lru, of demoWorld 0 "Some (ErrEnv 1)" 0 True]
    by (force simp: now demoWorld_def demoConn_def newConnPool_def isValid_def expired_def
        demoEnv_def listEnv_def)
qed

text \<open>
  C24: When requests wait in an open pool and a connection in a good state is given back (in use,
  valid, not older than the lifetime limit, with no error or one other than the driver's
  bad-connection error; a request's channel is empty while it waits), the connection goes to exactly
  one of them: that request leaves the table, its channel gets one message with the connection and
  no error, every other channel is untouched, the connection stays in use, and nothing becomes
  idle. (A broken connection in this place blocks the goroutine, see
  \<open>putConn_broken_deadlocks\<close>.)
\<close>

theorem putConn_serves_request:
  assumes "w_locked w = {}" and "dc_inUse (w_dc w d)"
    and "isValid E (w_dc w d)" and "err \<noteq> Some ErrBadConn"
    and "\<not> expired E (w_dc w d) (cp_maxLifetime (w_pool w p))"
    and "\<not> cp_closed (w_pool w p)" and "cp_connRequests (w_pool w p) \<noteq> []"
    and "\<forall>(k, ch) \<in> set (cp_connRequests (w_pool w p)). w_chan w ch = []"
  shows "\<exists>w' k ch. putConn E p d err reset w = (Ok (), w') \<and>
    (k, ch) \<in> set (cp_connRequests (w_pool w p)) \<and>
    cp_connRequests (w_pool w' p) = filter (\<lambda>(k', _). k' \<noteq> k) (cp_connRequests (w_pool w p)) \<and>
    w_chan w' = (w_chan w)(ch := [\<lparr>resp_conn = Some d, resp_err = None\<rparr>]) \<and>
    dc_inUse (w_dc w' d) \<and> cp_freeConn (w_pool w' p) = cp_freeConn (w_pool w p) \<and>
    f_lruCache w' = f_lruCache w \<and> w_locked w' = {}"
proof -
  obtain k ch rest where r: "range_order (mapOrder E) (cp_connRequests (w_pool w p)) = (k, ch) # rest"
    using assms(7) by (cases "range_order (mapOrder E) (cp_connRequests (w_pool w p))") auto
  have mem: "(k, ch) \<in> set (cp_connRequests (w_pool w p))"
    using r set_range_order [of "mapOrder E" "cp_connRequests (w_pool w p)"] by auto
  then have "w_chan w ch = []" using assms(8) by auto
  then show ?thesis using assms(1-7) r mem
    by (auto simp: putConn_def validate_run isValid_def [symmetric] pool_run putConnectionConnPoolLocked_def
        isFreeConnectionsNeededLocked_def returnConnectionOnRequestLocked_def Let_def expired_reset
        dsCloseAll_run stmtsClosed_def)
qed

theorem putConn_serves_request_witness:
  "\<exists>w'. putConn demoEnv 0 0 None True demoWaiting = (Ok (), w') \<and>
    w_chan w' 0 = [\<lparr>resp_conn = Some 0, resp_err = None\<rparr>] \<and> cp_connRequests (w_pool w' 0) = []"
  using putConn_serves_request [of demoWaiting 0 demoEnv None 0 True]
  by (force simp: demoWaiting_def demoWorld_def demoConn_def newConnPool_def isValid_def expired_def
      demoEnv_def listEnv_def)

text \<open>
  A connection that is not in use cannot be given back: a second \<open>putConn\<close> of the same
  connection always panics with the pool's own message, whatever the error and the flags.
\<close>

theorem putConn_twice_panics:
  assumes "w_locked w = {}" and "\<not> dc_inUse (w_dc w d)"
  shows "fst (putConn E p d err reset w) = Crash (Panic ''sql: connection returned that was never out'')"
  using assms by (simp add: putConn_def validate_run pool_run)

theorem putConn_twice_panics_witness:
  "fst (putConn demoEnv 0 1 None True demoWorld)
     = Crash (Panic ''sql: connection returned that was never out'')"
  by (rule putConn_twice_panics) (simp_all add: demoWorld_def demoConn_def)

section \<open>Closing idle connections for a new one\<close>

text \<open>
  Closing idle connections to make room never succeeds. The loop takes the oldest connection
  out of the LRU and then calls \<open>Close\<close>, which panics because the connection is not in the
  LRU any more; so \<open>maybeOpenNewConnections\<close> stops whenever more connections are asked for
  than the limit leaves and any connection is idle.
\<close>

theorem closing_idle_never_succeeds:
  assumes "lru_cache E keys sz" and "keys (f_lruCache w) \<noteq> []"
    and "f_totalMax w - f_numOpened w < f_waitCount w"
  shows "crashes (maybeOpenNewConnections E) w"
  using lru_cache.maybeOpen_crashes [OF assms(1)] assms(2,3) by blast

theorem closing_idle_never_succeeds_witness:
  "crashes (maybeOpenNewConnections demoEnv) demoWaiting"
  using closing_idle_never_succeeds [OF demo_lru, of demoWaiting]
  by (simp add: demoWaiting_def demoWorld_def)

lemma count_list_distinct: "distinct xs \<Longrightarrow> count_list xs p \<le> 1"
  by (induction xs) (auto simp: count_list_0_iff)

text \<open>
  When \<open>maybeOpenNewConnections\<close> returns, it has given as many open commands as requests
  are counted and the limit leaves (none when either is not positive), only to pools of the map
  that have waiting requests, to none more than it has waiting; it has added the commands to the
  end of the opener channel, counted each as an open connection, and changed nothing else.
\<close>

theorem maybeOpen_gives_commands:
  assumes "lru_cache E keys sz" and "maybeOpenNewConnections E w = (Ok (), w')"
    and "\<not> f_closed w" and "distinct (mapIter E (f_pools w))"
  shows "\<exists>ps. w' = w\<lparr>f_numOpened := f_numOpened w + int (length ps),
        f_openerChannel := f_openerChannel w @ ps\<rparr> \<and>
      length ps = nat (min (f_waitCount w) (f_totalMax w - f_numOpened w)) \<and>
      (\<forall>p. count_list ps p \<le> length (cp_connRequests (w_pool w p)))"
proof -
  obtain ps where ps: "w' = asked ps w"
      "length ps = nat (min (f_waitCount w) (f_totalMax w - f_numOpened w))"
      "\<And>p. count_list ps p \<le>
        count_list (mapIter E (f_pools w)) p * length (cp_connRequests (w_pool w p))"
    by (rule lru_cache.maybeOpen_Ok [OF assms(1,2)]) blast
  have "count_list (mapIter E (f_pools w)) p \<le> 1" for p
    using assms(4) by (rule count_list_distinct)
  then have "count_list ps p \<le> length (cp_connRequests (w_pool w p))" for p
    using ps(3) [of p] by (metis (no_types) le_trans mult_le_mono1 nat_mult_1)
  then show ?thesis using ps(1,2) assms(3) by (intro exI [of _ ps]) (simp add: asked_def)
qed

text \<open>A world with one waiting request and room for one connection.\<close>

definition demoRoom :: "(dcid list, (string \<times> poolid) list) world" where
  "demoRoom = demoWaiting\<lparr>f_numOpened := 1\<rparr>"

theorem maybeOpen_gives_commands_witness:
  "\<exists>w'. maybeOpenNewConnections demoEnv demoRoom = (Ok (), w') \<and> f_numOpened w' = 2 \<and>
    f_openerChannel w' = [0]"
proof -
  let ?w = "demoRoom\<lparr>w_locked := {FacadeMu}\<rparr>"
  have iter: "mapIter demoEnv (f_pools demoRoom) = [0]"
    by (simp add: demoRoom_def demoWaiting_def demoWorld_def demoEnv_def listEnv_def)
  have room: "f_waitCount demoRoom = 1" "f_totalMax demoRoom = 2" "f_numOpened demoRoom = 1"
    "w_locked demoRoom = {}" "cp_connRequests (w_pool demoRoom 0) = [(0, 0)]" "\<not> f_closed demoRoom"
    "f_openerChannel demoRoom = []" "f_pools demoRoom = [(''upd'', 0)]"
    by (simp_all add: demoRoom_def demoWaiting_def demoWorld_def newConnPool_def)
  have "collectRequests [0] 1 [] ?w = (Ok [0], ?w)"
    by (simp add: thenA_def getWaitCount_run room)
  then have run: "maybeOpenNewConnections demoEnv demoRoom = (Ok (), asked [0] demoRoom)"
    using iter room
    by (simp add: maybeOpenNewConnections_def maybeOpenNewConnectionsB_def pool_run unlockA_def
        getNumOfConnRequestsLocked_def getNumCanOpenConnectionsLocked_def asked_def
        getConnPoolsThatHaveRequestedNewConnections_def openerChannelCap_def)
  have "distinct (mapIter demoEnv (f_pools demoRoom))" by (simp add: iter)
  then obtain ps where eq: "asked [0] demoRoom = demoRoom\<lparr>f_numOpened := f_numOpened demoRoom + int (length ps),
        f_openerChannel := f_openerChannel demoRoom @ ps\<rparr>" and "length ps = 1"
    using maybeOpen_gives_commands [OF demo_lru run] room by force
  have "f_numOpened (asked [0] demoRoom) = 2" by (subst eq) (simp add: \<open>length ps = 1\<close> room)
  then show ?thesis using run room by (simp add: asked_def)
qed

section \<open>Broken connections\<close>

lemma collectRequests_deadlock:
  assumes "p \<in> set ps" and "PoolMu p \<in> w_locked w"
    and "\<forall>q \<in> set ps. q \<noteq> p \<longrightarrow> cp_connRequests (w_pool w q) = []"
  shows "collectRequests ps n acc w = (Crash Deadlock, w)"
  using assms by (induction ps arbitrary: n acc) (auto simp: thenA_def getWaitCount_run)

lemma maybeOpen_deadlock:
  assumes "p \<in> set (mapIter E (f_pools w))" and "PoolMu p \<in> w_locked w"
    and "FacadeMu \<notin> w_locked w"
    and "\<forall>q \<in> set (mapIter E (f_pools w)). q \<noteq> p \<longrightarrow> cp_connRequests (w_pool w q) = []"
    and "0 < f_waitCount w" and "f_waitCount w \<le> f_totalMax w - f_numOpened w"
  shows "maybeOpenNewConnections E w = (Crash Deadlock, w\<lparr>w_locked := insert FacadeMu (w_locked w)\<rparr>)"
proof -
  let ?w = "w\<lparr>w_locked := insert FacadeMu (w_locked w)\<rparr>"
  have "collectRequests (mapIter E (f_pools w)) (f_waitCount w) [] ?w = (Crash Deadlock, ?w)"
    using assms(1,2,4) by (intro collectRequests_deadlock [of p]) auto
  then show ?thesis using assms(3,5,6)
    by (auto simp: maybeOpenNewConnections_def maybeOpenNewConnectionsB_def pool_run min_def
        getNumOfConnRequestsLocked_def getNumCanOpenConnectionsLocked_def
        getConnPoolsThatHaveRequestedNewConnections_def split: prod.splits)
qed

text \<open>\<open>maybeOpenNewConnections\<close> has no error result: it returns or it stops.\<close>

definition noFail :: "('s, 'a) act \<Rightarrow> bool" where
  "noFail m \<longleftrightarrow> (\<forall>s e s'. m s \<noteq> (Fail e, s'))"

lemma noFail_basic: "noFail (ret x)" "noFail (Pair (Ok x))" "noFail (crash h)" "noFail (getA f)"
  "noFail (modA g)" "noFail (lockA m)" "noFail (unlockA m)" "noFail (tryA n)"
  by (auto simp: noFail_def lockA_def unlockA_def tryA_def split: prod.splits res.splits)

lemma noFail_thenA: "noFail m \<Longrightarrow> (\<And>x. noFail (f x)) \<Longrightarrow> noFail (thenA m f)"
  by (auto simp: noFail_def thenA_def split: prod.splits res.splits)

lemma noFail_seqA: "noFail m \<Longrightarrow> noFail n \<Longrightarrow> noFail (seqA m n)"
  by (auto simp: seqA_def noFail_thenA)

lemma noFail_branches:
  "noFail m \<Longrightarrow> noFail n \<Longrightarrow> noFail (if b then m else n)"
  "noFail (f x) \<Longrightarrow> noFail (let y = x in f y)"
  "(\<And>a b. noFail (h a b)) \<Longrightarrow> noFail (case z of (a, b) \<Rightarrow> h a b)"
  "noFail m \<Longrightarrow> (\<And>a. noFail (g a)) \<Longrightarrow> noFail (case u of None \<Rightarrow> m | Some a \<Rightarrow> g a)"
  "(\<And>a. noFail (k a)) \<Longrightarrow> (\<And>a. noFail (l a)) \<Longrightarrow> noFail (case v of Inl a \<Rightarrow> k a | Inr a \<Rightarrow> l a)"
  by (simp_all split: prod.split option.split sum.split)

lemmas noFail_rules = noFail_basic noFail_thenA noFail_seqA noFail_branches

lemma noFail_getWaitCount: "noFail (getWaitCount p)"
  unfolding getWaitCount_def by (intro noFail_rules)

lemma noFail_collect: "noFail (collectRequests ps n acc)"
proof (induction ps arbitrary: n acc)
  case (Cons p ps)
  show ?case unfolding collectRequests.simps by (intro noFail_rules noFail_getWaitCount Cons)
qed (simp add: noFail_rules noFail_def)

lemma noFail_give: "noFail (giveCommandToOpenNewConnections ps)"
proof (induction ps)
  case (Cons p ps)
  show ?case unfolding giveCommandToOpenNewConnections.simps by (intro noFail_rules Cons)
qed (simp add: noFail_rules)

lemma noFail_closeLru: "noFail (closeLruLoop E rec n)"
proof (induction n)
  case (Suc n)
  show ?case unfolding closeLruLoop.simps removeConnFromFree_def by (intro noFail_rules Suc)
qed (simp add: noFail_rules)

lemma maybeOpen_no_Fail: "maybeOpenNewConnections E w \<noteq> (Fail e, w')"
proof -
  have "noFail (maybeOpenNewConnections E)"
    unfolding maybeOpenNewConnections_def maybeOpenNewConnectionsB_def maybeCloseIdleConnLocked_def
      closeLruIdleConnectionsLocked_def getNumOfConnRequestsLocked_def getNumCanOpenConnectionsLocked_def
      getConnPoolsThatHaveRequestedNewConnections_def
    by (intro noFail_rules noFail_collect noFail_give noFail_closeLru)
  then show ?thesis by (simp add: noFail_def)
qed

text \<open>The branch of \<open>putConn\<close> for a broken connection, from the world it has prepared.\<close>

definition brokenWorld :: "('c, 'm) env \<Rightarrow> poolid \<Rightarrow> dcid \<Rightarrow> ('c, 'm) world \<Rightarrow> ('c, 'm) world" where
  "brokenWorld E p d w = stmtsClosed E (dc_onPut (w_dc w d)) (w\<lparr>w_locked := {PoolMu p},
     w_pool := (w_pool w)(p := (w_pool w p)\<lparr>cp_lastPut := List.insert d (cp_lastPut (w_pool w p))\<rparr>),
     w_dc := (w_dc w)(d := (w_dc w d)\<lparr>dc_inUse := False, dc_returnedAt := nowFunc E, dc_onPut := []\<rparr>)\<rparr>)"

lemma putConn_broken_run:
  assumes "w_locked w = {}" and "dc_inUse (w_dc w d)"
  shows "putConn E p d (Some ErrBadConn) reset w =
    seqA (maybeOpenNewConnections E) (seqA (unlockA (PoolMu p))
      (thenA (tryA (closeConn E d)) (\<lambda>_. ret ()))) (brokenWorld E p d w)"
  using assms by (cases w) (simp add: putConn_def Let_def brokenWorld_def seqA_Ok [OF dsCloseAll_run] stmtsClosed_def)

lemma brokenWorld_fields [simp]:
  "w_locked (brokenWorld E p d w) = {PoolMu p}" "f_lruCache (brokenWorld E p d w) = f_lruCache w"
  "f_pools (brokenWorld E p d w) = f_pools w" "f_waitCount (brokenWorld E p d w) = f_waitCount w"
  "f_totalMax (brokenWorld E p d w) = f_totalMax w" "f_numOpened (brokenWorld E p d w) = f_numOpened w"
  "cp_connRequests (w_pool (brokenWorld E p d w) q) = cp_connRequests (w_pool w q)"
  "dc_inUse (w_dc (brokenWorld E p d w) d) = False" "dc_closed (w_dc (brokenWorld E p d w) d) = dc_closed (w_dc w d)"
  "w_ciClosed (brokenWorld E p d w) = w_ciClosed w"
  by (simp_all add: brokenWorld_def stmtsClosed_def)

text \<open>
  C40: Giving back a broken connection blocks its own goroutine for ever, with the pool's and the
  facade's mutexes held, when requests are counted, the limit leaves room for them, and no other
  pool has waiting requests: \<open>putConn\<close> calls \<open>maybeOpenNewConnections\<close> with the pool's mutex
  held, which locks the same mutex again to count the pool's requests. The broken connection is
  neither closed nor taken off the count.
\<close>

theorem putConn_broken_deadlocks:
  assumes "w_locked w = {}" and "dc_inUse (w_dc w d)"
    and "p \<in> set (mapIter E (f_pools w))"
    and "\<forall>q \<in> set (mapIter E (f_pools w)). q \<noteq> p \<longrightarrow> cp_connRequests (w_pool w q) = []"
    and "0 < f_waitCount w" and "f_waitCount w \<le> f_totalMax w - f_numOpened w"
  shows "\<exists>w'. putConn E p d (Some ErrBadConn) reset w = (Crash Deadlock, w')
    \<and> w_locked w' = {PoolMu p, FacadeMu} \<and> dc_closed (w_dc w' d) = dc_closed (w_dc w d)
    \<and> w_ciClosed w' = w_ciClosed w \<and> f_numOpened w' = f_numOpened w"
proof -
  let ?w = "brokenWorld E p d w"
  have "maybeOpenNewConnections E ?w = (Crash Deadlock, ?w\<lparr>w_locked := {FacadeMu, PoolMu p}\<rparr>)"
    using maybeOpen_deadlock [of p E ?w] assms(3-6) by simp
  then show ?thesis using assms(1,2) by (simp add: putConn_broken_run seqA_apply thenA_def insert_commute)
qed

theorem putConn_broken_deadlocks_witness:
  "\<exists>w'. putConn demoEnv 0 0 (Some ErrBadConn) True demoRoom = (Crash Deadlock, w') \<and> w_locked w' = {PoolMu 0, FacadeMu}"
  using putConn_broken_deadlocks [of demoRoom 0 0 demoEnv True]
  by (force simp: demoRoom_def demoWaiting_def demoWorld_def demoConn_def newConnPool_def demoEnv_def listEnv_def)

lemma broken_fresh_crashes:
  assumes "lru_cache E keys sz" and "w_locked w = {}" and "dc_inUse (w_dc w d)"
    and "d \<notin> set (keys (f_lruCache w))"
  shows "crashes (putConn E p d (Some ErrBadConn) reset) w"
proof -
  let ?w = "brokenWorld E p d w"
  obtain r w1 where m: "maybeOpenNewConnections E ?w = (r, w1)"
    by (cases "maybeOpenNewConnections E ?w")
  show ?thesis
  proof (cases r)
    case (Ok x)
    then obtain ps where "w1 = asked ps ?w"
      using lru_cache.maybeOpen_Ok [OF assms(1), of ?w w1] m by auto
    then have "PoolMu p \<in> w_locked w1" "f_lruCache w1 = f_lruCache w"
      by (simp_all add: asked_def)
    then show ?thesis
      using m Ok assms(4) lru_cache.close_absent [OF assms(1), of d "w1\<lparr>w_locked := w_locked w1 - {PoolMu p}\<rparr>"]
      by (auto simp: crashes_def putConn_broken_run [OF assms(2,3)] seqA_apply thenA_def tryA_def
          split: prod.splits res.splits)
  next
    case (Fail e)
    then show ?thesis using m maybeOpen_no_Fail by metis
  next
    case (Crash h)
    then show ?thesis using m by (simp add: crashes_def putConn_broken_run [OF assms(2,3)] seqA_apply thenA_def)
  qed
qed

text \<open>
  A broken connection that has never been idle cannot be given back at all: \<open>Close\<close> panics
  because the connection is not in the LRU (or the goroutine stops before that). Connections
  enter the LRU only when they become idle, so this is the end of every connection that breaks in
  its first use.
\<close>

theorem fresh_broken_connection_crashes:
  assumes "lru_cache E keys sz" and "w_locked w = {}" and "dc_inUse (w_dc w d)"
    and "d \<notin> set (keys (f_lruCache w))"
  shows "crashes (putConn E p d (Some ErrBadConn) reset) w"
  using assms by (rule broken_fresh_crashes)

theorem fresh_broken_connection_crashes_witness:
  "crashes (putConn demoEnv 0 0 (Some ErrBadConn) True) demoWorld"
  by (rule fresh_broken_connection_crashes [OF demo_lru]) (simp_all add: demoWorld_def demoConn_def newConnPool_def)

end
