(* ===== verification/PoolLimit.thy ===== *)
theory PoolLimit
  imports PoolGrow
begin

text \<open>
  The limit of the facade along runs of the pool's operations, one after another: \<open>capped w w'\<close> says
  that a count of open connections within the limit stays within it. Every operation keeps it
  whatever its outcome. The count goes up in two places: in \<open>conn\<close> after the check of
  \<open>canAddNewConn\<close>, and in \<open>maybeOpenNewConnections\<close> by no more than what the limit leaves.
\<close>

definition capped :: "('c, 'm) world \<Rightarrow> ('c, 'm) world \<Rightarrow> bool" where
  "capped w w' \<longleftrightarrow> f_totalMax w' = f_totalMax w \<and> (f_numOpened w \<le> f_totalMax w \<longrightarrow> f_numOpened w' \<le> f_totalMax w)"

interpretation capped: act_order capped
  by standard (auto simp: capped_def)

lemmas capped_rules [keeps_intro] = capped.keeps_rules capped.keeps_modA

lemma capped_same: "f_totalMax w' = f_totalMax w \<Longrightarrow> f_numOpened w' = f_numOpened w \<Longrightarrow> capped w w'"
  by (simp add: capped_def)

section \<open>Steps that leave the count alone or lower it\<close>

lemma capped_locks [keeps_intro]:
  "keeps capped (lockA m)" "keeps capped (unlockA m)" "keeps capped (ciClose E h)"
  by (auto simp: keeps_def lockA_def unlockA_def ciClose_def capped_def)

lemma capped_withLock [keeps_intro]: "keeps capped f \<Longrightarrow> keeps capped (withLock lk f)"
  unfolding withLock_def by (intro keeps_intro)

lemma capped_deps [keeps_intro]:
  "keeps capped (addDepLocked p x d)" "keeps capped (removeDepLocked p x d)" "keeps capped (dsClose E ds)"
  "keeps capped (removeOpenStmt dc ds)" "keeps capped (noteUnusedDriverStatement E p c ds)"
  unfolding addDepLocked_def removeDepLocked_def dsClose_def removeOpenStmt_def noteUnusedDriverStatement_def
  by (intro keeps_intro capped_same; simp)+

lemma capped_loops [keeps_intro]:
  "keeps capped (dsCloseAll E dss)" "keeps capped (releaseCss E p css)" "keeps capped (closeDBLockedAll ds)"
proof -
  show "keeps capped (dsCloseAll E dss)" by (induction dss) (simp_all add: keeps_intro)
  show "keeps capped (releaseCss E p css)" by (induction css) (auto intro!: keeps_intro)
  have "keeps capped (closeDBLocked dc)" for dc
    unfolding closeDBLocked_def by (intro keeps_intro capped_same) simp_all
  then show "keeps capped (closeDBLockedAll ds)" by (induction ds) (auto intro!: keeps_intro)
qed

lemma capped_stmtFinalClose [keeps_intro]: "keeps capped (stmtFinalClose E s)"
  unfolding stmtFinalClose_def by (intro keeps_intro capped_same) simp_all

lemma capped_counters [keeps_intro]:
  "keeps capped decrementNumOpened" "keeps capped canAddNewConn"
  "keeps capped getNumOfConnRequestsLocked" "keeps capped getNumCanOpenConnectionsLocked"
  unfolding decrementNumOpened_def canAddNewConn_def getNumOfConnRequestsLocked_def getNumCanOpenConnectionsLocked_def
  by (intro keeps_intro; simp add: capped_def)+

lemma capped_lru [keeps_intro]:
  "keeps capped (removeConnFromLru E d)" "keeps capped (putConnToLru E d)"
  "keeps capped (removeConnFromFree p d)" "keeps capped (getWaitCount p)"
  unfolding removeConnFromLru_def putConnToLru_def removeConnFromFree_def getWaitCount_def
  by (intro keeps_intro; simp add: capped_def)+

lemma capped_closeLruLoop [keeps_intro]: "(\<And>d. keeps capped (rec d)) \<Longrightarrow> keeps capped (closeLruLoop E rec n)"
  by (induction n) (auto intro!: keeps_intro simp: capped_def)

section \<open>Asking for new connections\<close>

text \<open>What the commands add to the count is at most their number, and collecting adds nothing.\<close>

lemma collectRequests_count:
  "collectRequests ps n acc w = (r, w') \<Longrightarrow> n \<noteq> 0 \<Longrightarrow> f_numOpened w' = f_numOpened w \<and> f_totalMax w' = f_totalMax w
    \<and> (\<forall>xs. r = Ok xs \<longrightarrow> int (length xs) = int (length acc) + max 0 n)"
proof (induction ps arbitrary: n acc w)
  case (Cons p ps)
  show ?case
  proof (cases "PoolMu p \<in> w_locked w")
    case True
    then show ?thesis using Cons.prems by (auto simp: getWaitCount_def thenA_def seqA_def lockA_def)
  next
    case False
    let ?wc = "int (length (cp_connRequests (w_pool w p)))"
    have g: "getWaitCount p w = (Ok ?wc, w)" using False
      by (cases w) (simp add: getWaitCount_def thenA_def seqA_def lockA_def unlockA_def)
    consider (none) "?wc = 0" | (last) "?wc \<noteq> 0" "n = min ?wc n" | (more) "?wc \<noteq> 0" "n \<noteq> min ?wc n" by blast
    then show ?thesis
    proof cases
      case none
      then have "collectRequests ps n acc w = (r, w')" using Cons.prems(1) g by (simp add: thenA_def)
      then show ?thesis using Cons.prems(2) by (rule Cons.IH)
    next
      case last
      then have "(r, w') = (Ok (acc @ replicate (nat n) p), w)" using Cons.prems(1) g by (simp add: thenA_def Let_def)
      then show ?thesis by (simp add: max_def)
    next
      case more
      then have "collectRequests ps (n - min ?wc n) (acc @ replicate (nat (min ?wc n)) p) w = (r, w')"
        using Cons.prems(1) g by (auto simp: thenA_def Let_def min_def split: if_splits)
      moreover have "n - min ?wc n \<noteq> 0" using more by simp
      ultimately have "f_numOpened w' = f_numOpened w \<and> f_totalMax w' = f_totalMax w
        \<and> (\<forall>xs. r = Ok xs \<longrightarrow> int (length xs) = int (length (acc @ replicate (nat (min ?wc n)) p)) + max 0 (n - min ?wc n))"
        by (rule Cons.IH)
      then show ?thesis using more by (auto simp: max_def min_def split: if_splits)
    qed
  qed
qed auto

lemma getConnPools_count:
  assumes "getConnPoolsThatHaveRequestedNewConnections E n w = (r, w')"
  shows "f_numOpened w' = f_numOpened w \<and> f_totalMax w' = f_totalMax w
    \<and> (\<forall>xs. r = Ok xs \<longrightarrow> int (length xs) = max 0 n)"
  using assms collectRequests_count [of "mapIter E (f_pools w)" n "[]" w r w']
  by (auto simp: getConnPoolsThatHaveRequestedNewConnections_def split: if_splits)

lemma giveCommand_count:
  "giveCommandToOpenNewConnections ps w = (r, w') \<Longrightarrow>
   f_numOpened w' \<le> f_numOpened w + int (length ps) \<and> f_totalMax w' = f_totalMax w"
proof (induction ps arbitrary: w)
  case (Cons p ps)
  show ?case
  proof (cases "f_closed w \<or> openerChannelCap \<le> length (f_openerChannel w)")
    case True
    then show ?thesis using Cons.prems by (auto simp: thenA_def seqA_def split: if_splits)
  next
    case False
    then have "giveCommandToOpenNewConnections ps
        (w\<lparr>f_numOpened := f_numOpened w + 1, f_openerChannel := f_openerChannel w @ [p]\<rparr>) = (r, w')"
      using Cons.prems by (simp add: thenA_def seqA_def)
    from Cons.IH [OF this] show ?thesis by simp
  qed
qed simp

text \<open>The last part of \<open>maybeOpenNewConnections\<close>, with the number that the limit leaves in hand.\<close>

lemma capped_give:
  assumes "n \<le> f_totalMax w - f_numOpened w \<or> n \<le> 0"
  shows "capped w (snd (thenA (getConnPoolsThatHaveRequestedNewConnections E n)
    (\<lambda>ps. seqA (giveCommandToOpenNewConnections ps) (unlockA FacadeMu)) w))"
proof -
  obtain r w1 where g: "getConnPoolsThatHaveRequestedNewConnections E n w = (r, w1)"
    by (cases "getConnPoolsThatHaveRequestedNewConnections E n w")
  note c = getConnPools_count [OF g]
  show ?thesis
  proof (cases r)
    case (Ok ps)
    obtain r2 w2 where v: "giveCommandToOpenNewConnections ps w1 = (r2, w2)"
      by (cases "giveCommandToOpenNewConnections ps w1")
    have "capped w w2" using giveCommand_count [OF v] c Ok assms by (auto simp: capped_def max_def split: if_splits)
    moreover have "capped w2 (snd (unlockA FacadeMu w2))" by (simp add: unlockA_def capped_def)
    ultimately show ?thesis using g Ok v capped.trans
      by (cases r2) (simp_all add: thenA_def seqA_def, blast)
  qed (use g c in \<open>simp_all add: thenA_def capped_def\<close>)
qed

lemma thenA_seqA: "thenA (seqA m n) f = seqA m (thenA n f)"
  by (auto simp: fun_eq_iff thenA_def seqA_def split: prod.splits res.splits)

lemma capped_maybeOpenB [keeps_intro]:
  assumes "\<And>d. keeps capped (rec d)"
  shows "keeps capped (maybeOpenNewConnectionsB E rec)"
proof -
  let ?give = "\<lambda>n. thenA (getConnPoolsThatHaveRequestedNewConnections E n)
      (\<lambda>ps. seqA (giveCommandToOpenNewConnections ps) (unlockA FacadeMu))"
  have close: "keeps capped (maybeCloseIdleConnLocked E rec n)" for n
    unfolding maybeCloseIdleConnLocked_def closeLruIdleConnectionsLocked_def by (intro keeps_intro assms)
  have room: "keeps capped (thenA (getA (\<lambda>w. f_totalMax w - f_numOpened w)) (\<lambda>c. ?give (min n c)))" for n
    unfolding keeps_def thenA_getA by (intro allI capped_give) simp
  have body: "capped w (snd (thenA getNumOfConnRequestsLocked (\<lambda>n. thenA getNumCanOpenConnectionsLocked (\<lambda>c.
      thenA (if c < n then seqA (maybeCloseIdleConnLocked E rec (n - c)) getNumCanOpenConnectionsLocked else ret c)
        (\<lambda>c. ?give (min n c)))) w))" for w
  proof (cases "f_totalMax w - f_numOpened w < f_waitCount w")
    case True
    have "keeps capped (seqA (maybeCloseIdleConnLocked E rec (f_waitCount w - (f_totalMax w - f_numOpened w)))
        (thenA (getA (\<lambda>w. f_totalMax w - f_numOpened w)) (\<lambda>c. ?give (min (f_waitCount w) c))))"
      by (intro capped.keeps_seqA close room)
    then have "capped w (snd (seqA (maybeCloseIdleConnLocked E rec (f_waitCount w - (f_totalMax w - f_numOpened w)))
        (thenA (getA (\<lambda>w. f_totalMax w - f_numOpened w)) (\<lambda>c. ?give (min (f_waitCount w) c))) w))" by (simp add: keeps_def)
    with True show ?thesis
      by (simp add: getNumOfConnRequestsLocked_def getNumCanOpenConnectionsLocked_def thenA_seqA)
  next
    case False
    have "capped w (snd (?give (min (f_waitCount w) (f_totalMax w - f_numOpened w)) w))" by (rule capped_give) simp
    with False show ?thesis
      by (simp add: getNumOfConnRequestsLocked_def getNumCanOpenConnectionsLocked_def thenA_def)
  qed
  show ?thesis unfolding maybeOpenNewConnectionsB_def
    by (rule capped.keeps_seqA [OF capped_locks(1)], unfold keeps_def, rule allI, rule body)
qed

section \<open>Closing and the operations of the pool\<close>

lemma capped_close [keeps_intro]: "keeps capped (dcClose n E dc)"
proof (induction n arbitrary: dc)
  case (Suc n)
  then show ?case unfolding dcClose.simps dcCloseB_def dcFinalCloseB_def by (intro keeps_intro capped_same) simp_all
qed (simp add: keeps_intro)

lemma capped_closed_recursion [keeps_intro]:
  "keeps capped (closeConn E dc)" "keeps capped (maybeOpenNewConnections E)" "keeps capped (finalClose E x)"
proof -
  show c: "keeps capped (closeConn E dc)" for dc unfolding closeConn_def by (rule capped_close)
  show "keeps capped (maybeOpenNewConnections E)" unfolding maybeOpenNewConnections_def by (intro keeps_intro c)
  have "keeps capped (dcFinalClose E d)" for d
    unfolding dcFinalClose_def dcFinalCloseB_def by (intro keeps_intro capped_same c) simp_all
  then show "keeps capped (finalClose E x)" unfolding finalClose_def by (cases x) (simp_all add: keeps_intro)
qed

lemma capped_removeDep [keeps_intro]: "keeps capped (removeDep E p x d)"
  unfolding removeDep_def by (intro keeps_intro)

lemma capped_session [keeps_intro]:
  "keeps capped (resetSession E d)" "keeps capped (validateConnection E d b)" "keeps capped (startCleanerLocked p)"
  unfolding resetSession_def validateConnection_def startCleanerLocked_def by (intro keeps_intro capped_same; simp)+

lemma capped_SetConnMaxIdleTime [keeps_intro]: "keeps capped (SetConnMaxIdleTime p t)"
  unfolding SetConnMaxIdleTime_def by (intro keeps_intro keeps_case_cleaner capped_same) simp_all

lemma capped_put [keeps_intro]:
  "keeps capped (putConnectionConnPoolLocked E p dc0 err)" "keeps capped (putConn E p dc err b)" "keeps capped (releaseConn E dc err)"
proof -
  show l: "keeps capped (putConnectionConnPoolLocked E p dc0 err)" for p dc0 err
    unfolding putConnectionConnPoolLocked_def isFreeConnectionsNeededLocked_def returnConnectionOnRequestLocked_def
      tryToSaveConnectionAsIdleLocked_def by (intro keeps_intro capped_same) simp_all
  show c: "keeps capped (putConn E p dc err b)" for p b
    unfolding putConn_def by (intro keeps_intro l capped_same) simp_all
  show "keeps capped (releaseConn E dc err)" unfolding releaseConn_def by (intro keeps_intro c)
qed

lemma capped_conn_parts [keeps_intro]:
  "keeps capped (connFromFree E p t)" "keeps capped (connEnqueue E p t)" "keeps capped (allocDc c)"
  unfolding connFromFree_def connEnqueue_def nextRequestKeyLocked_def allocDc_def
  by (intro keeps_intro capped_same; simp)+

text \<open>\<open>connOpen\<close> counts up, but is only called below the limit.\<close>

lemma capped_connOpen:
  assumes "f_numOpened w < f_totalMax w"
  shows "capped w (snd (connOpen E p w))"
proof (cases "FacadeMu \<in> w_locked w")
  case True
  then show ?thesis by (simp add: connOpen_def incrementNumOpened_def seqA_def thenA_def lockA_def capped_def)
next
  case False
  let ?rest = "thenA (getA (\<lambda>w. cp_connector (w_pool w p))) (\<lambda>c. case connectorConnect E c of
      Inl err \<Rightarrow> seqA decrementNumOpened (seqA (maybeOpenNewConnections E) (fail err))
    | Inr ci \<Rightarrow> seqA (lockA (PoolMu p))
       (thenA (allocDc (newDriverConn E p ci True)) (\<lambda>dc.
        seqA (addDepLocked p (ODc dc) (ODc dc)) (seqA (unlockA (PoolMu p)) (ret (Inl dc)))))) :: ('a, 'b, dcid + connWait) pact"
  let ?w = "w\<lparr>f_numOpened := f_numOpened w + 1\<rparr>"
  have "incrementNumOpened w = (Ok (), ?w)"
    using False by (cases w) (simp add: incrementNumOpened_def seqA_def thenA_def lockA_def unlockA_def)
  then have eq: "connOpen E p w = ?rest ?w" by (simp add: connOpen_def seqA_def thenA_Ok)
  have "keeps capped ?rest" by (intro keeps_intro)
  then have "capped ?w (snd (?rest ?w))" unfolding keeps_def by (rule spec)
  then have "capped ?w (snd (connOpen E p w))" by (simp only: eq)
  then show ?thesis using assms by (simp add: capped_def)
qed

lemma capped_conn [keeps_intro]: "keeps capped (conn E p st)"
proof -
  have tail: "keeps capped (thenA canAddNewConn (\<lambda>can. if \<not> can then connEnqueue E p t else connOpen E p))" for t
    unfolding keeps_def
  proof
    fix w
    show "capped w (snd (thenA canAddNewConn (\<lambda>can. if \<not> can then connEnqueue E p t else connOpen E p) w))"
    proof (cases "FacadeMu \<in> w_locked w")
      case True
      then show ?thesis by (simp add: canAddNewConn_def seqA_def thenA_def lockA_def capped_def)
    next
      case False
      then have "canAddNewConn w = (Ok (f_numOpened w < f_totalMax w), w)"
        by (cases w) (simp add: canAddNewConn_def seqA_def thenA_def lockA_def unlockA_def)
      then show ?thesis using capped_connOpen [of w E p] capped_conn_parts(2) [of E p t]
        by (simp add: thenA_Ok keeps_def)
    qed
  qed
  have get: "keeps capped (thenA (getA g) f)" if "\<And>x. keeps capped (f x)" for g and f :: "_ \<Rightarrow> ('a, 'b, 'e) pact"
    using that by (simp add: keeps_def)
  show ?thesis unfolding conn_def
    by (intro tail get keeps_if keeps_case_option capped.keeps_seqA capped.keeps_fail capped_locks capped_conn_parts)
qed

lemma capped_waiting [keeps_intro]:
  "keeps capped (connCtxDone E p cw e)" "keeps capped (connReceived E p st cw)"
  unfolding connCtxDone_def connReceived_def by (intro keeps_intro capped_same; simp)+

lemma capped_sumIdle [keeps_intro]: "keeps capped (sumIdle ps n)"
  by (induction ps arbitrary: n) (auto intro!: keeps_intro)

lemma capped_Stats [keeps_intro]: "keeps capped (facadeStats E)"
  unfolding facadeStats_def by (intro keeps_intro)

lemma capped_opener [keeps_intro]: "keeps capped (openerStep E)"
  unfolding openerStep_def openNewConnection_def by (intro keeps_intro capped_same) simp_all

lemma capped_cleaner [keeps_intro]: "keeps capped (cleanerStep E p b)"
proof -
  have "keeps capped (case ch of OpenChan (Suc n) \<Rightarrow> modA (updPool p (\<lambda>cp. cp\<lparr>cp_cleanerCh := OpenChan n\<rparr>))
      | ClosedChan \<Rightarrow> ret () | _ \<Rightarrow> crash Deadlock)" for ch
    by (auto split: cleanerChan.split nat.split intro!: keeps_intro simp: capped_def)
  moreover have "keeps capped (closeConns E cs)" for cs by (induction cs) (auto intro!: keeps_intro)
  moreover have "keeps capped (connectionCleanerRunLocked E p)"
    unfolding connectionCleanerRunLocked_def by (intro keeps_intro capped_same) simp_all
  ultimately show ?thesis unfolding cleanerStep_def by (intro keeps_intro capped_same) simp_all
qed

lemma capped_ConnPool_Close [keeps_intro]: "keeps capped (ConnPool_Close E p)"
proof -
  have "keeps capped (runCloseFns E fns err)" for fns err
  proof (induction fns arbitrary: err)
    case (Cons x fns)
    obtain d fn where "x = (d, fn)" by (cases x)
    then show ?case by (simp only: runCloseFns.simps) (intro keeps_intro Cons)
  qed (simp add: keeps_intro)
  then show ?thesis unfolding ConnPool_Close_def by (intro keeps_intro capped_same) simp_all
qed

lemma capped_getOrCreate [keeps_intro]: "keeps capped (getOrCreateConnPool E cr)"
proof -
  have "keeps capped (OpenDB c)" for c
    unfolding OpenDB_def by (rule capped.keeps_get_mod) (simp_all add: capped_def keeps_intro)
  then show ?thesis unfolding getOrCreateConnPool_def OpenPool_def by (intro keeps_intro capped_same) simp_all
qed

lemma capped_runOp: "keeps capped (runOp E x)"
  by (cases x) (simp_all add: runOp_def keeps_intro)

lemma capped_runOps: "capped w (runOps xs w)"
  by (induction xs w rule: runOps.induct)
    (auto simp: capped.refl intro: capped.trans keepsD [OF capped_runOp] prod.collapse [symmetric])

end
