(* ===== verification/FacadeProps.thy ===== *)
theory FacadeProps
  imports PoolProps PoolLimit
begin

text \<open>
  Properties of taking and opening connections, of the cleaner, of closing, and of the facade
  that owns the pools. They use the concrete worlds of theory \<open>PoolProps\<close>.
\<close>

section \<open>Taking a connection\<close>

lemma closeConn_fails: "thenA (tryA m) (\<lambda>_. fail e) w \<noteq> (Ok x, w')"
  by (auto simp: thenA_def tryA_def split: prod.splits res.splits)

lemma resetSession_run: "resetSession E d w = (if DcMu d \<in> w_locked w then (Crash Deadlock, w) else
   (Ok (if dc_needReset (w_dc w d) then
          (case dc_ci (w_dc w d) of None \<Rightarrow> None
           | Some h \<Rightarrow> (case drvResetSession E h of None \<Rightarrow> None | Some r \<Rightarrow> r)) else None), w))"
  by (auto simp: resetSession_def withLock_run pool_run)

lemma connFromFree_Ok:
  assumes "connFromFree E p t w = (Ok r, w')" and "cp_freeConn (w_pool w p) \<noteq> []"
  obtains d where "r = Inl d" "d \<in> set (cp_freeConn (w_pool w p))"
    "\<not> expired E (w_dc w d) t" "dc_inUse (w_dc w' d)"
    "cp_freeConn (w_pool w' p) = remove1 d (cp_freeConn (w_pool w p))" "w_nextDc w' = w_nextDc w"
    "f_numOpened w' = f_numOpened w" "f_lruCache w' = f_lruCache w" "w_locked w' = w_locked w - {PoolMu p}"
proof -
  let ?d = "last (range_order (mapOrder E) (cp_freeConn (w_pool w p)))"
  have "range_order (mapOrder E) (cp_freeConn (w_pool w p)) \<noteq> []" using assms(2) by simp
  from last_in_set [OF this] have mem: "?d \<in> set (cp_freeConn (w_pool w p))" by simp
  have e: "expired E ((w_dc w ?d)\<lparr>dc_inUse := True\<rparr>) t = expired E (w_dc w ?d) t"
    by (simp add: expired_def)
  have held: "PoolMu p \<in> w_locked w" and ne: "\<not> expired E (w_dc w ?d) t"
    using assms(1) e by (auto simp: connFromFree_def unlockA_def seqA_apply thenA_def tryA_def
        split: if_splits prod.splits res.splits)
  have "r = Inl ?d \<and> w' = w\<lparr>w_pool := (w_pool w)(p := (w_pool w p)\<lparr>cp_freeConn := remove1 ?d (cp_freeConn (w_pool w p))\<rparr>),
      w_dc := (w_dc w)(?d := (w_dc w ?d)\<lparr>dc_inUse := True\<rparr>), w_locked := w_locked w - {PoolMu p}\<rparr>"
    using assms(1) e ne held
    by (auto simp: connFromFree_def thenA_Ok_iff resetSession_run closeConn_fails split: if_splits)
  then show ?thesis using mem ne by (intro that [of ?d]) auto
qed

lemma connOpen_Ok:
  assumes "connOpen E p w = (Ok r, w')"
  shows "r = Inl (w_nextDc w)" "dc_inUse (w_dc w' (w_nextDc w))"
    "cp_freeConn (w_pool w' p) = cp_freeConn (w_pool w p)" "w_nextDc w' = Suc (w_nextDc w)"
    "f_numOpened w' = f_numOpened w + 1" "f_lruCache w' = f_lruCache w" "w_locked w' = w_locked w"
    "cp_dep (w_pool w' p) (ODc (w_nextDc w)) \<noteq> None"
proof -
  let ?w = "w\<lparr>f_numOpened := f_numOpened w + 1\<rparr>"
  let ?rest = "thenA (getA (\<lambda>w. cp_connector (w_pool w p))) (\<lambda>c. case connectorConnect E c of
      Inl err \<Rightarrow> seqA decrementNumOpened (seqA (maybeOpenNewConnections E) (fail err))
    | Inr ci \<Rightarrow> seqA (lockA (PoolMu p)) (thenA (allocDc (newDriverConn E p ci True)) (\<lambda>dc.
        seqA (addDepLocked p (ODc dc) (ODc dc)) (seqA (unlockA (PoolMu p)) (ret (Inl dc))))))"
  have l1: "FacadeMu \<notin> w_locked w"
    using assms by (auto simp: connOpen_def incrementNumOpened_def pool_run lockA_def split: if_splits)
  have "?rest ?w = (Ok r, w')"
    using assms l1 by (simp add: connOpen_def incrementNumOpened_def seqA_apply [of "seqA _ _"] thenA_def [of "seqA _ _"])
  then have rest: "(case connectorConnect E (cp_connector (w_pool w p)) of
      Inl err \<Rightarrow> seqA decrementNumOpened (seqA (maybeOpenNewConnections E) (fail err))
    | Inr ci \<Rightarrow> seqA (lockA (PoolMu p)) (thenA (allocDc (newDriverConn E p ci True)) (\<lambda>dc.
        seqA (addDepLocked p (ODc dc) (ODc dc)) (seqA (unlockA (PoolMu p)) (ret (Inl dc)))))) ?w = (Ok r, w')"
    by simp
  then obtain ci where c: "connectorConnect E (cp_connector (w_pool w p)) = Inr ci"
    by (auto simp: seqA_Ok_iff split: sum.splits)
  have l: "FacadeMu \<notin> w_locked w" "PoolMu p \<notin> w_locked w"
    using rest c l1 by (auto simp: pool_run lockA_def split: if_splits)
  show "r = Inl (w_nextDc w)" "dc_inUse (w_dc w' (w_nextDc w))"
    "cp_freeConn (w_pool w' p) = cp_freeConn (w_pool w p)" "w_nextDc w' = Suc (w_nextDc w)"
    "f_numOpened w' = f_numOpened w + 1" "f_lruCache w' = f_lruCache w" "w_locked w' = w_locked w"
    "cp_dep (w_pool w' p) (ODc (w_nextDc w)) \<noteq> None"
    using rest c l by (auto simp: pool_run allocDc_def addDepLocked_def newDriverConn_def)
qed

lemma connEnqueue_Ok:
  assumes "connEnqueue E p t w = (Ok r, w')"
  shows "r = Inr \<lparr>cw_key = cp_nextRequest (w_pool w p), cw_chan = w_nextChan w, cw_lifetime = t, cw_start = nowFunc E\<rparr>"
    "f_waitCount w' = f_waitCount w + 1" "f_numOpened w' = f_numOpened w"
    "(cp_nextRequest (w_pool w p), w_nextChan w) \<in> set (cp_connRequests (w_pool w' p))"
    "w_locked w' = w_locked w" "w_chan w' (w_nextChan w) = []"
proof -
  have l: "FacadeMu \<notin> w_locked w" "PoolMu p \<notin> w_locked w"
    using assms by (auto simp: connEnqueue_def nextRequestKeyLocked_def lockA_def unlockA_def pool_run split: if_splits)
  then show "r = Inr \<lparr>cw_key = cp_nextRequest (w_pool w p), cw_chan = w_nextChan w, cw_lifetime = t, cw_start = nowFunc E\<rparr>"
    "f_waitCount w' = f_waitCount w + 1" "f_numOpened w' = f_numOpened w"
    "(cp_nextRequest (w_pool w p), w_nextChan w) \<in> set (cp_connRequests (w_pool w' p))"
    "w_locked w' = w_locked w" "w_chan w' (w_nextChan w) = []"
    using assms by (auto simp: connEnqueue_def nextRequestKeyLocked_def pool_run)
qed

lemma canAddNewConn_run: "FacadeMu \<notin> w_locked w \<Longrightarrow>
    canAddNewConn w = (Ok (f_numOpened w < f_totalMax w), w)"
  by (simp add: canAddNewConn_def pool_run)

text \<open>The branch of \<open>conn\<close> that a result came from.\<close>

lemma conn_Ok:
  assumes "conn E p st w = (Ok r, w')" and "w_locked w = {}"
  shows "\<not> cp_closed (w_pool w p) \<and> ctxErr E = None \<and>
    (if st = cachedOrNewConn \<and> cp_freeConn (w_pool w p) \<noteq> []
     then connFromFree E p (cp_maxLifetime (w_pool w p)) (w\<lparr>w_locked := {PoolMu p}\<rparr>) = (Ok r, w')
     else if f_numOpened w < f_totalMax w then connOpen E p w = (Ok r, w')
     else connEnqueue E p (cp_maxLifetime (w_pool w p)) w = (Ok r, w'))"
proof -
  have [simp]: "w\<lparr>w_locked := {}\<rparr> = w" using assms(2) by (cases w) simp
  show ?thesis using assms
    by (auto simp: conn_def pool_run canAddNewConn_run split: if_splits option.splits)
qed

text \<open>
  C1: A connection that \<open>conn\<close> hands out at once, without waiting for one (a request that waits gets
  its connection by \<open>putConn\<close> or the opener instead), is the caller's alone: it was idle in this pool
  or it is new, afterwards it is in use and not among the free connections, and an idle one was not
  past the pool's lifetime. All mutexes are free again.
\<close>

theorem conn_exclusive:
  assumes "conn E p st w = (Ok (Inl d), w')" and "w_locked w = {}"
    and "distinct (cp_freeConn (w_pool w p))"
    and "\<forall>c \<in> set (cp_freeConn (w_pool w p)). c < w_nextDc w"
  shows "dc_inUse (w_dc w' d) \<and> d \<notin> set (cp_freeConn (w_pool w' p)) \<and> w_locked w' = {} \<and>
    (d = w_nextDc w \<or>
     d \<in> set (cp_freeConn (w_pool w p)) \<and> \<not> expired E (w_dc w d) (cp_maxLifetime (w_pool w p)))"
proof -
  note branch = conn_Ok [OF assms(1,2)]
  consider (cached) "connFromFree E p (cp_maxLifetime (w_pool w p)) (w\<lparr>w_locked := {PoolMu p}\<rparr>) = (Ok (Inl d), w')"
      "cp_freeConn (w_pool w p) \<noteq> []"
    | (new) "connOpen E p w = (Ok (Inl d), w')"
    | (wait) "connEnqueue E p (cp_maxLifetime (w_pool w p)) w = (Ok (Inl d), w')"
    using branch by (auto split: if_splits)
  then show ?thesis
  proof cases
    case cached
    then show ?thesis by (elim connFromFree_Ok) (use assms(3) in auto)
  next
    case new
    then show ?thesis using connOpen_Ok [OF new] assms by auto
  next
    case wait
    then show ?thesis using connEnqueue_Ok(1) by blast
  qed
qed

theorem conn_exclusive_witness:
  "\<exists>w'. conn demoEnv 0 cachedOrNewConn demoWorld = (Ok (Inl 1), w') \<and> dc_inUse (w_dc w' 1) \<and>
    1 \<notin> set (cp_freeConn (w_pool w' 0))"
proof -
  have p: "cp_freeConn (w_pool demoWorld 0) = [1]" "\<not> cp_closed (w_pool demoWorld 0)"
    "cp_maxLifetime (w_pool demoWorld 0) = 0" "w_locked demoWorld = {}" "w_nextDc demoWorld = 2"
    "w_dc demoWorld 1 = demoConn 1 False"
    by (simp_all add: demoWorld_def newConnPool_def)
  have e: "ctxErr demoEnv = None" "mapOrder demoEnv = []" by (simp_all add: demoEnv_def listEnv_def)
  obtain w' where run: "conn demoEnv 0 cachedOrNewConn demoWorld = (Ok (Inl 1), w')"
    using p e by (simp add: conn_def connFromFree_def pool_run resetSession_run expired_def demoConn_def)
  then show ?thesis using conn_exclusive [OF run] p by auto
qed

text \<open>
  C12: operations that run one after another keep the count of open connections within the limit:
  from a count within the limit, any sequence of pool operations (connections asked for, waited
  for, returned, opened by the opener, closed), with any outcomes, leaves
  it there. \<open>conn\<close> after such a sequence, when no mutex is held, opens a connection only below the
  limit; it queues a request only when the limit is exactly reached, and the request is then in the
  pool's table under its key, with an empty channel of its own, and the facade counts it. Goroutines
  that interleave inside \<open>conn\<close> can exceed the limit, by less than their number (theory \<open>FacadeRace\<close>).
\<close>

theorem conn_within_limit:
  assumes "f_numOpened w0 \<le> f_totalMax w0" and "w = runOps xs w0" and "w_locked w = {}"
    and "conn E p st w = (Ok r, w')"
  shows "f_numOpened w \<le> f_totalMax w0 \<and> f_numOpened w' \<le> f_totalMax w0 \<and>
    f_totalMax w' = f_totalMax w0 \<and> w_locked w' = {} \<and>
    (case r of Inl d \<Rightarrow> f_numOpened w < f_numOpened w' \<longrightarrow> f_numOpened w < f_totalMax w0
     | Inr cw \<Rightarrow> f_numOpened w = f_totalMax w0 \<and> f_waitCount w' = f_waitCount w + 1 \<and>
         (cw_key cw, cw_chan cw) \<in> set (cp_connRequests (w_pool w' p)) \<and> w_chan w' (cw_chan cw) = [])"
proof -
  have before: "f_totalMax w = f_totalMax w0" "f_numOpened w \<le> f_totalMax w"
    using capped_runOps [of w0 xs] assms(1,2) by (simp_all add: capped_def)
  have max: "f_totalMax w' = f_totalMax w" "f_numOpened w' \<le> f_totalMax w'"
    using keepsD [OF capped_conn assms(4)] before by (simp_all add: capped_def)
  note branch = conn_Ok [OF assms(4,3)]
  consider (cached) "connFromFree E p (cp_maxLifetime (w_pool w p)) (w\<lparr>w_locked := {PoolMu p}\<rparr>) = (Ok r, w')"
      "cp_freeConn (w_pool w p) \<noteq> []"
    | (new) "connOpen E p w = (Ok r, w')" "f_numOpened w < f_totalMax w"
    | (wait) "connEnqueue E p (cp_maxLifetime (w_pool w p)) w = (Ok r, w')" "\<not> f_numOpened w < f_totalMax w"
    using branch by (auto split: if_splits)
  then show ?thesis
  proof cases
    case cached
    then show ?thesis using max before by (elim connFromFree_Ok) auto
  next
    case new
    then show ?thesis using connOpen_Ok [OF new(1)] max before assms(3) by auto
  next
    case wait
    then show ?thesis using connEnqueue_Ok [OF wait(1)] max before assms(3) by auto
  qed
qed

text \<open>The concrete world with its only idle connection taken, and a first request queued there.\<close>

definition demoFull :: "(dcid list, (string \<times> poolid) list) world" where
  "demoFull = demoWorld\<lparr>w_pool := (\<lambda>_. (w_pool demoWorld 0)\<lparr>cp_freeConn := []\<rparr>)\<rparr>"

theorem conn_within_limit_witness:
  "\<exists>cw w'. conn demoEnv 0 cachedOrNewConn (runOps [(demoEnv, OpConn 0 cachedOrNewConn)] demoFull) = (Ok (Inr cw), w') \<and>
    f_numOpened w' \<le> 2 \<and> f_waitCount w' = 2"
proof -
  have p: "cp_freeConn (w_pool demoFull 0) = []" "\<not> cp_closed (w_pool demoFull 0)"
    "w_locked demoFull = {}" "f_numOpened demoFull = 2" "f_totalMax demoFull = 2" "f_waitCount demoFull = 0"
    by (simp_all add: demoFull_def demoWorld_def newConnPool_def)
  have e: "ctxErr demoEnv = None" by (simp add: demoEnv_def listEnv_def)
  let ?w = "runOps [(demoEnv, OpConn 0 cachedOrNewConn)] demoFull"
  note step = conn_def canAddNewConn_def connEnqueue_def nextRequestKeyLocked_def pool_run
  have w: "cp_freeConn (w_pool ?w 0) = []" "\<not> cp_closed (w_pool ?w 0)" "w_locked ?w = {}"
    "f_numOpened ?w = 2" "f_totalMax ?w = 2" "f_waitCount ?w = 1"
    using p e by (simp_all add: runOp_def step)
  obtain cw w' where run: "conn demoEnv 0 cachedOrNewConn ?w = (Ok (Inr cw), w')"
    using w e by (simp add: step del: runOps.simps)
  have full: "f_numOpened demoFull \<le> f_totalMax demoFull" using p by simp
  show ?thesis using conn_within_limit [OF full refl w(3) run] run w p by auto
qed

section \<open>Opening on command\<close>

text \<open>
  The opener never gets past a failed connect: the branch unlocks the pool's mutex itself and
  the deferred unlock finds it free, which ends the process, unless the goroutine stopped before.
\<close>

theorem failed_connect_stops_opener:
  assumes "lru_cache E keys sz" and "w_locked w = {}" and "\<not> cp_closed (w_pool w p)"
    and "connectorConnect E (cp_connector (w_pool w p)) = Inl err"
  shows "crashes (openNewConnection E p) w"
proof -
  let ?w = "w\<lparr>f_numOpened := f_numOpened w - 1, w_locked := {PoolMu p}\<rparr>"
  let ?tail = "seqA (unlockA (PoolMu p)) (seqA (maybeOpenNewConnections E) (unlockA (PoolMu p)))"
  have tail: "crashes ?tail w'" if "w_locked w' = {PoolMu p}" for w'
  proof -
    let ?v = "w'\<lparr>w_locked := {}\<rparr>"
    obtain r v where m: "maybeOpenNewConnections E ?v = (r, v)" by (cases "maybeOpenNewConnections E ?v")
    show ?thesis
    proof (cases r)
      case (Ok x)
      then have "w_locked v = {}"
        using lru_cache.maybeOpen_frame(1) [OF assms(1), of ?v v] m by simp
      then show ?thesis using m Ok that by (simp add: crashes_def seqA_apply thenA_def)
    next
      case (Fail e)
      then show ?thesis using m maybeOpen_no_Fail by metis
    next
      case (Crash h)
      then show ?thesis using m that by (simp add: crashes_def seqA_apply thenA_def)
    qed
  qed
  have run: "openNewConnection E p w = seqA (thenA (putConnectionConnPoolLocked E p None (Some err))
      (\<lambda>_. seqA (unlockA (PoolMu p)) (maybeOpenNewConnections E))) (unlockA (PoolMu p)) ?w"
    using assms(2-4) by (simp add: openNewConnection_def decrementNumOpened_def seqA_apply thenA_def)
  obtain r w1 where put: "putConnectionConnPoolLocked E p None (Some err) ?w = (r, w1)"
    by (cases "putConnectionConnPoolLocked E p None (Some err) ?w")
  have "w_locked w1 = {PoolMu p}" and "\<And>e. r \<noteq> Fail e"
    using put assms(2,3)
    by (auto simp: putConnectionConnPoolLocked_def isFreeConnectionsNeededLocked_def
        returnConnectionOnRequestLocked_def pool_run split: if_splits list.splits prod.splits)
  then show ?thesis using put tail [of w1] run
    by (cases r) (auto simp: crashes_def seqA_apply thenA_def split: prod.splits res.splits)
qed

definition refusingEnv :: "(dcid list, (string \<times> poolid) list) env" where
  "refusingEnv = demoEnv\<lparr>drvConnect := (\<lambda>k. Inl (ErrEnv 111))\<rparr>"

lemma refusing_lru: "lru_cache refusingEnv remdups 2"
proof -
  have "refusingEnv = listEnv 2 (demoEnv\<lparr>drvConnect := (\<lambda>k. Inl (ErrEnv 111))\<rparr>)"
    by (simp add: refusingEnv_def demoEnv_def listEnv_def)
  then show ?thesis using list_lru.lru_cache_axioms by metis
qed

theorem failed_connect_stops_opener_witness: "crashes (openNewConnection refusingEnv 0) demoWorld"
  by (rule failed_connect_stops_opener [OF refusing_lru, where err = "ErrEnv 111"])
    (simp_all add: demoWorld_def newConnPool_def connectorConnect_def refusingEnv_def)

text \<open>
  C35: A connection opened on command goes to a waiting request, in use, under a fresh identity,
  registered with itself as its dependency, and the count of open connections stays as the command
  left it; if the pool has been closed meanwhile the driver connection is closed and the count
  taken back.
\<close>

theorem opener_delivers_or_closes:
  assumes "w_locked w = {}" and "connectorConnect E (cp_connector (w_pool w p)) = Inr ci"
    and "cp_connRequests (w_pool w p) \<noteq> []"
    and "\<forall>(k, ch) \<in> set (cp_connRequests (w_pool w p)). w_chan w ch = []"
  shows "\<exists>w'. openNewConnection E p w = (Ok (), w') \<and> w_locked w' = {} \<and>
    (if cp_closed (w_pool w p)
     then f_numOpened w' = f_numOpened w - 1 \<and> w_ciClosed w' = w_ciClosed w @ [ci] \<and> w_chan w' = w_chan w
     else f_numOpened w' = f_numOpened w \<and> w_ciClosed w' = w_ciClosed w \<and>
       (\<exists>(k, ch) \<in> set (cp_connRequests (w_pool w p)).
          w_chan w' = (w_chan w)(ch := [\<lparr>resp_conn = Some (w_nextDc w), resp_err = None\<rparr>])) \<and>
       dc_inUse (w_dc w' (w_nextDc w)) \<and> dc_ci (w_dc w' (w_nextDc w)) = Some ci \<and>
       (\<exists>xdep. cp_dep (w_pool w' p) (ODc (w_nextDc w)) = Some xdep \<and> ODc (w_nextDc w) \<in> set xdep))"
proof (cases "cp_closed (w_pool w p)")
  case True
  then show ?thesis using assms(1,2)
    by (simp add: openNewConnection_def decrementNumOpened_def ciClose_def pool_run)
next
  case False
  obtain k ch rest where r: "range_order (mapOrder E) (cp_connRequests (w_pool w p)) = (k, ch) # rest"
    using assms(3) by (cases "range_order (mapOrder E) (cp_connRequests (w_pool w p))") auto
  have mem: "(k, ch) \<in> set (cp_connRequests (w_pool w p))"
    using r set_range_order [of "mapOrder E" "cp_connRequests (w_pool w p)"] by auto
  then have "w_chan w ch = []" using assms(4) by auto
  then show ?thesis using False assms(1-3) r mem
    by (auto simp: openNewConnection_def allocDc_def newDriverConn_def addDepLocked_def pool_run
        putConnectionConnPoolLocked_def isFreeConnectionsNeededLocked_def returnConnectionOnRequestLocked_def
        intro!: bexI [of _ "(k, ch)"])
qed

theorem opener_delivers_or_closes_witness:
  "\<exists>w'. openNewConnection demoEnv 0 demoWaiting = (Ok (), w') \<and> dc_inUse (w_dc w' 2) \<and>
    dc_ci (w_dc w' 2) = Some 7 \<and> f_numOpened w' = 2"
proof -
  have p: "w_locked demoWaiting = {}" "cp_connRequests (w_pool demoWaiting 0) = [(0, 0)]"
    "w_chan demoWaiting 0 = []" "\<not> cp_closed (w_pool demoWaiting 0)" "f_numOpened demoWaiting = 2"
    "w_nextDc demoWaiting = 2"
    by (simp_all add: demoWaiting_def demoWorld_def newConnPool_def)
  have c: "connectorConnect demoEnv (cp_connector (w_pool demoWaiting 0)) = Inr 7"
    by (simp add: demoWaiting_def demoWorld_def newConnPool_def connectorConnect_def demoEnv_def listEnv_def)
  show ?thesis using opener_delivers_or_closes [OF p(1) c] p by auto
qed

section \<open>Runs\<close>

text \<open>
  No sequence of operations, whatever their outcomes, takes back a driver connection that was
  told to close, changes the limit, or lowers the facade's count of waiting requests.
\<close>

theorem runs_only_add:
  "prefix (w_ciClosed w) (w_ciClosed (runOps xs w)) \<and> f_totalMax (runOps xs w) = f_totalMax w
    \<and> f_waitCount w \<le> f_waitCount (runOps xs w)"
  using grow_runOps [of w xs] by (simp add: grow_def)

lemma collectRequests_none:
  "\<forall>q \<in> set ps. cp_connRequests (w_pool w q) = [] \<Longrightarrow> crashes (collectRequests ps n acc) w"
  by (induction ps arbitrary: n acc) (auto simp: crashes_def thenA_def getWaitCount_run)

text \<open>
  The facade's count of waiting requests is never lowered, so once any request has waited,
  every later \<open>maybeOpenNewConnections\<close> stops its goroutine in a world where the limit leaves
  room and no request waits any more.
\<close>

theorem served_waiters_are_still_counted:
  assumes "0 < f_waitCount w" and "w' = runOps xs w" and "f_numOpened w' < f_totalMax w'"
    and "\<forall>q \<in> set (mapIter E (f_pools w')). cp_connRequests (w_pool w' q) = []"
    and "lru_cache E keys sz"
  shows "crashes (maybeOpenNewConnections E) w'"
proof -
  have wait: "0 < f_waitCount w'"
    using grow_runOps [of w xs] assms(1,2) by (simp add: grow_def)
  show ?thesis
  proof (cases "maybeOpenNewConnections E w'")
    case (Pair r v)
    show ?thesis
    proof (cases r)
      case (Ok x)
      then obtain ps where "length ps = nat (min (f_waitCount w') (f_totalMax w' - f_numOpened w'))"
          "\<And>p. count_list ps p \<le> count_list (mapIter E (f_pools w')) p * length (cp_connRequests (w_pool w' p))"
          "set ps \<subseteq> set (mapIter E (f_pools w'))"
        using lru_cache.maybeOpen_Ok [OF assms(5), of w' v] Pair by auto
      moreover from this have "set ps = {}"
        using assms(4) by (metis count_list_0_iff equals0I le_zero_eq list.size(3) mult_0_right subsetD)
      ultimately show ?thesis using wait assms(3) by (auto simp: min_def split: if_splits)
    next
      case (Fail e)
      then show ?thesis using Pair maybeOpen_no_Fail by metis
    next
      case (Crash h)
      then show ?thesis using Pair by (simp add: crashes_def)
    qed
  qed
qed

text \<open>The waiting request is served by giving connection 0 back, and then connection 1 is closed.\<close>

definition demoServed :: "(dcid list, (string \<times> poolid) list) world" where
  "demoServed = demoWorld\<lparr>f_waitCount := 1, f_numOpened := 1\<rparr>"

theorem served_waiters_are_still_counted_witness: "crashes (maybeOpenNewConnections demoEnv) demoServed"
  by (rule served_waiters_are_still_counted [where w = demoServed and xs = "[]", OF _ _ _ _ demo_lru])
    (simp_all add: demoServed_def demoWorld_def newConnPool_def demoEnv_def listEnv_def)

section \<open>The cleaner\<close>

text \<open>A free connection the cleaner must close, by the pool's two limits.\<close>

definition tooOld :: "('c, 'm) env \<Rightarrow> ('c, 'm) world \<Rightarrow> poolid \<Rightarrow> dcid \<Rightarrow> bool" where
  "tooOld E w p c \<longleftrightarrow> 0 < cp_maxLifetime (w_pool w p) \<and>
     dc_createdAt (w_dc w c) < nowFunc E - cp_maxLifetime (w_pool w p)"

definition tooIdle :: "('c, 'm) env \<Rightarrow> ('c, 'm) world \<Rightarrow> poolid \<Rightarrow> dcid \<Rightarrow> bool" where
  "tooIdle E w p c \<longleftrightarrow> 0 < cp_maxIdleTime (w_pool w p) \<and>
     dc_returnedAt (w_dc w c) < nowFunc E - cp_maxIdleTime (w_pool w p)"

lemma length_filter_range:
  assumes "distinct xs"
  shows "length (filter P (range_order ks xs)) = length (filter P xs)"
proof -
  have "length (filter P (range_order ks xs)) = card (set (filter P (range_order ks xs)))"
    using assms by (intro distinct_card [symmetric]) simp
  also have "\<dots> = length (filter P xs)" using assms distinct_card [of "filter P xs"] by simp
  finally show ?thesis .
qed

lemma filter_not_in: "set ys = {c \<in> set xs. P c} \<Longrightarrow>
    filter (\<lambda>c. c \<notin> set ys) xs = filter (\<lambda>c. \<not> P c) xs"
  by (auto intro: filter_cong)

text \<open>The sweep, computed: first those past the lifetime, then those past the idle time.\<close>

lemma cleaner_run:
  fixes E :: "('c, 'm) env" and w :: "('c, 'm) world" and p :: poolid
  defines "fs \<equiv> cp_freeConn (w_pool w p)"
  defines "old \<equiv> filter (tooOld E w p) (range_order (mapOrder E) fs)"
    and "rest \<equiv> filter (\<lambda>c. \<not> tooOld E w p c) fs"
  defines "idle \<equiv> filter (tooIdle E w p) (range_order (mapOrder E) rest)"
  obtains w' where "connectionCleanerRunLocked E p w = (Ok (old @ idle), w')"
    and "cp_freeConn (w_pool w' p) = filter (\<lambda>c. \<not> tooIdle E w p c) rest"
    and "cp_maxLifetimeClosed (w_pool w' p) = cp_maxLifetimeClosed (w_pool w p) + int (length old)"
    and "cp_maxIdleTimeClosed (w_pool w' p) = cp_maxIdleTimeClosed (w_pool w p) + int (length idle)"
    and "w_dc w' = w_dc w" and "w_locked w' = w_locked w"
proof -
  let ?cp = "w_pool w p"
  let ?w1 = "if 0 < cp_maxLifetime ?cp then w\<lparr>w_pool := (w_pool w)(p := ?cp\<lparr>cp_freeConn := rest,
      cp_maxLifetimeClosed := cp_maxLifetimeClosed ?cp + int (length old)\<rparr>)\<rparr> else w"
  let ?w2 = "if 0 < cp_maxIdleTime ?cp then ?w1\<lparr>w_pool := (w_pool ?w1)(p := (w_pool ?w1 p)\<lparr>
      cp_freeConn := filter (\<lambda>c. \<not> tooIdle E w p c) rest,
      cp_maxIdleTimeClosed := cp_maxIdleTimeClosed (w_pool ?w1 p) + int (length idle)\<rparr>)\<rparr> else ?w1"
  have old: "filter (\<lambda>c. dc_createdAt (w_dc w c) < nowFunc E - cp_maxLifetime ?cp)
      (range_order (mapOrder E) (cp_freeConn ?cp)) = old" if "0 < cp_maxLifetime ?cp"
    using that unfolding old_def fs_def by (intro filter_cong) (auto simp: tooOld_def)
  have rest: "filter (\<lambda>c. c \<notin> set old) (cp_freeConn ?cp) = rest"
    unfolding rest_def fs_def by (rule filter_not_in) (auto simp: old_def fs_def)
  have none: "old = []" "rest = cp_freeConn ?cp" if "\<not> 0 < cp_maxLifetime ?cp"
    using that by (auto simp: old_def rest_def fs_def tooOld_def)
  have idle: "filter (\<lambda>c. dc_returnedAt (w_dc w c) < nowFunc E - cp_maxIdleTime ?cp)
      (range_order (mapOrder E) rest) = idle" if "0 < cp_maxIdleTime ?cp"
    using that unfolding idle_def by (intro filter_cong) (auto simp: tooIdle_def)
  have left: "filter (\<lambda>c. c \<notin> set idle) rest = filter (\<lambda>c. \<not> tooIdle E w p c) rest"
    by (rule filter_not_in) (auto simp: idle_def)
  have noidle: "idle = []" "filter (\<lambda>c. \<not> tooIdle E w p c) rest = rest" if "\<not> 0 < cp_maxIdleTime ?cp"
    using that by (auto simp: idle_def tooIdle_def)
  have free1: "cp_freeConn (w_pool ?w1 p) = rest" and dc1: "w_dc ?w1 = w_dc w" using none(2) by auto
  have run1: "(if 0 < cp_maxLifetime ?cp then
              thenA (getA (\<lambda>w. filter (\<lambda>c. dc_createdAt (w_dc w c) < nowFunc E - cp_maxLifetime ?cp)
                        (range_order (mapOrder E) (cp_freeConn ?cp)))) (\<lambda>old.
              seqA (modA (updPool p (\<lambda>cp. cp\<lparr>
                      cp_freeConn := filter (\<lambda>c. c \<notin> set old) (cp_freeConn cp),
                      cp_maxLifetimeClosed := cp_maxLifetimeClosed cp + int (length old)\<rparr>)))
                (ret old))
            else ret []) w = (Ok old, ?w1)"
    using none(1) by (simp add: old rest)
  have "connectionCleanerRunLocked E p w = (Ok (old @ idle), ?w2)"
  proof (cases "0 < cp_maxIdleTime ?cp")
    case True
    then show ?thesis unfolding connectionCleanerRunLocked_def thenA_getA thenA_def [of "if _ then _ else _"] run1
      by (simp only: prod.case res.case if_True thenA_getA free1 dc1 idle [OF True]) (simp add: free1 left)
  next
    case False
    then show ?thesis unfolding connectionCleanerRunLocked_def thenA_getA thenA_def [of "if _ then _ else _"] run1
      by (simp add: noidle)
  qed
  moreover have "cp_freeConn (w_pool ?w2 p) = filter (\<lambda>c. \<not> tooIdle E w p c) rest"
    using noidle(2) free1 by auto
  moreover have "cp_maxLifetimeClosed (w_pool ?w2 p) = cp_maxLifetimeClosed ?cp + int (length old)"
    using none(1) by simp
  moreover have "cp_maxIdleTimeClosed (w_pool ?w2 p) = cp_maxIdleTimeClosed ?cp + int (length idle)"
    using noidle(1) by simp
  ultimately show ?thesis by (rule that) simp_all
qed

text \<open>
  C34: One sweep of the cleaner takes out of the free connections exactly those past the lifetime
  limit or past the idle limit, returns each of them once, leaves the others in their order, and
  adds each to one of the two counters: a connection past both counts as past its lifetime.
\<close>

theorem cleaner_takes_exactly_the_expired:
  assumes "distinct (cp_freeConn (w_pool w p))"
  shows "\<exists>closing w'. connectionCleanerRunLocked E p w = (Ok closing, w') \<and> distinct closing \<and>
    set closing = {c \<in> set (cp_freeConn (w_pool w p)). tooOld E w p c \<or> tooIdle E w p c} \<and>
    cp_freeConn (w_pool w' p) =
      filter (\<lambda>c. \<not> tooOld E w p c \<and> \<not> tooIdle E w p c) (cp_freeConn (w_pool w p)) \<and>
    cp_maxLifetimeClosed (w_pool w' p) = cp_maxLifetimeClosed (w_pool w p)
      + int (length (filter (tooOld E w p) (cp_freeConn (w_pool w p)))) \<and>
    cp_maxIdleTimeClosed (w_pool w' p) = cp_maxIdleTimeClosed (w_pool w p)
      + int (length (filter (\<lambda>c. \<not> tooOld E w p c \<and> tooIdle E w p c) (cp_freeConn (w_pool w p)))) \<and>
    w_dc w' = w_dc w \<and> w_locked w' = w_locked w"
proof -
  let ?fs = "cp_freeConn (w_pool w p)"
  let ?old = "filter (tooOld E w p) (range_order (mapOrder E) ?fs)"
  let ?rest = "filter (\<lambda>c. \<not> tooOld E w p c) ?fs"
  let ?idle = "filter (tooIdle E w p) (range_order (mapOrder E) ?rest)"
  obtain w' where w': "connectionCleanerRunLocked E p w = (Ok (?old @ ?idle), w')"
    "cp_freeConn (w_pool w' p) = filter (\<lambda>c. \<not> tooIdle E w p c) ?rest"
    "cp_maxLifetimeClosed (w_pool w' p) = cp_maxLifetimeClosed (w_pool w p) + int (length ?old)"
    "cp_maxIdleTimeClosed (w_pool w' p) = cp_maxIdleTimeClosed (w_pool w p) + int (length ?idle)"
    "w_dc w' = w_dc w" "w_locked w' = w_locked w"
    by (rule cleaner_run)
  have "distinct ?rest" using assms by simp
  then have len: "length ?old = length (filter (tooOld E w p) ?fs)"
    "length ?idle = length (filter (\<lambda>c. \<not> tooOld E w p c \<and> tooIdle E w p c) ?fs)"
    using assms by (simp_all add: length_filter_range conj_commute)
  have "distinct (?old @ ?idle)" using assms by auto
  moreover have "set (?old @ ?idle) = {c \<in> set ?fs. tooOld E w p c \<or> tooIdle E w p c}" by auto
  moreover have "filter (\<lambda>c. \<not> tooIdle E w p c) ?rest = filter (\<lambda>c. \<not> tooOld E w p c \<and> \<not> tooIdle E w p c) ?fs"
    by (simp add: conj_commute)
  ultimately show ?thesis using w' len by (intro exI [of _ "?old @ ?idle"] exI [of _ w']) simp
qed

definition demoIdle :: "(dcid list, (string \<times> poolid) list) world" where
  "demoIdle = demoWorld\<lparr>w_pool := (\<lambda>_. (w_pool demoWorld 0)\<lparr>cp_maxIdleTime := 5\<rparr>)\<rparr>"

theorem cleaner_takes_exactly_the_expired_witness:
  "\<exists>closing w'. connectionCleanerRunLocked demoEnv 0 demoIdle = (Ok closing, w') \<and> set closing = {1} \<and>
    cp_freeConn (w_pool w' 0) = [] \<and> cp_maxIdleTimeClosed (w_pool w' 0) = 1"
proof -
  have w: "cp_freeConn (w_pool demoIdle 0) = [1]" "cp_maxLifetime (w_pool demoIdle 0) = 0"
    "cp_maxIdleTime (w_pool demoIdle 0) = 5" "cp_maxIdleTimeClosed (w_pool demoIdle 0) = 0"
    "dc_returnedAt (w_dc demoIdle 1) = 20" "nowFunc demoEnv = 100"
    by (simp_all add: demoIdle_def demoWorld_def newConnPool_def demoConn_def demoEnv_def listEnv_def)
  then have "tooIdle demoEnv demoIdle 0 1" "\<not> tooOld demoEnv demoIdle 0 1"
    by (simp_all add: tooIdle_def tooOld_def)
  then show ?thesis using cleaner_takes_exactly_the_expired [of demoIdle 0 demoEnv] w by fastforce
qed

section \<open>Closing\<close>

lemma locked_empty: "w_locked w = {} \<Longrightarrow> w\<lparr>w_locked := {}\<rparr> = w"
  by (cases w) simp

lemma Close_closes:
  assumes "ConnPool_Close E p w = (Ok err, w')" and "p < w_nextPool w"
  shows "cp_closed (w_pool w' p) \<and> p < w_nextPool w'"
proof (cases "cp_closed (w_pool w p)")
  case True
  then show ?thesis using keepsD [OF grow_ConnPool_Close assms(1)] assms(2) by (auto simp: grow_def)
next
  case False
  let ?w = "w\<lparr>w_locked := insert (PoolMu p) (w_locked w)\<rparr>"
  let ?cp = "w_pool w p"
  let ?first = "seqA (if cp_cleanerCh ?cp \<noteq> NilChan
       then modA (updPool p (\<lambda>cp. cp\<lparr>cp_cleanerCh := ClosedChan\<rparr>)) else ret ())
     (closeDBLockedAll (range_order (mapOrder E) (cp_freeConn ?cp)))"
  let ?last = "\<lambda>fns. seqA (unlockA (PoolMu p)) (thenA (runCloseFns E fns None) (\<lambda>err.
       seqA (modA (updPool p (\<lambda>cp. cp\<lparr>cp_stopped := True\<rparr>))) (ret err)))"
  have free: "PoolMu p \<notin> w_locked w"
    using assms(1) by (auto simp: ConnPool_Close_def seqA_Ok_iff lockA_def split: if_splits)
  obtain fns v where first: "?first ?w = (Ok fns, v)"
    and last: "?last fns (v\<lparr>w_pool := (w_pool v)(p := (w_pool v p)\<lparr>cp_freeConn := [], cp_closed := True\<rparr>)\<rparr>) = (Ok err, w')"
    using assms(1) False free
    by (auto simp: ConnPool_Close_def thenA_Ok_iff seqA_Ok_iff split: if_splits)
  have "keeps grow ?first" by (intro keeps_intro) (simp add: grow_def)
  from keepsD [OF this first] have pv: "p < w_nextPool v" using assms(2) by (auto simp: grow_def)
  have "keeps grow (?last fns)" by (intro keeps_intro) (simp add: grow_def)
  from keepsD [OF this last] pv show ?thesis by (auto simp: grow_def)
qed

text \<open>
  C33: Closing a pool is final and idempotent: after \<open>Close\<close> returns, whatever operations run,
  taking a connection gives the database-closed error and a further \<open>Close\<close> gives no error, and
  neither changes anything.
\<close>

theorem closed_pool_stays_closed:
  assumes "ConnPool_Close E p w = (Ok err, w')" and "p < w_nextPool w"
    and "v = runOps xs w'" and "w_locked v = {}"
  shows "conn E' p st v = (Fail ErrDBClosed, v) \<and> ConnPool_Close E' p v = (Ok None, v)"
proof -
  have "cp_closed (w_pool v p)"
    using Close_closes [OF assms(1,2)] grow_runOps [of w' xs] assms(3) by (simp add: grow_def)
  then show ?thesis using assms(4) locked_empty [OF assms(4)]
    by (simp add: conn_def ConnPool_Close_def pool_run)
qed

theorem closed_pool_stays_closed_witness:
  "\<exists>w'. ConnPool_Close demoEnv 0 demoFull = (Ok None, w') \<and>
    conn demoEnv 0 cachedOrNewConn w' = (Fail ErrDBClosed, w')"
proof -
  have "fst (ConnPool_Close demoEnv 0 demoFull) = Ok None" "w_locked (snd (ConnPool_Close demoEnv 0 demoFull)) = {}"
    by (simp_all add: ConnPool_Close_def demoFull_def demoWorld_def newConnPool_def pool_run)
  then obtain w' where run: "ConnPool_Close demoEnv 0 demoFull = (Ok None, w')" "w_locked w' = {}"
    by (cases "ConnPool_Close demoEnv 0 demoFull") auto
  have "0 < w_nextPool demoFull" by (simp add: demoFull_def demoWorld_def)
  from closed_pool_stays_closed [OF run(1) this, of w' "[]" demoEnv cachedOrNewConn] run show ?thesis by simp
qed

text \<open>Steps that leave the LRU alone when they return.\<close>

definition lruKept :: "('c, 'm, 'a) pact \<Rightarrow> bool" where
  "lruKept m \<longleftrightarrow> (\<forall>w x w'. m w = (Ok x, w') \<longrightarrow> f_lruCache w' = f_lruCache w)"

lemma lruKeptD: "lruKept m \<Longrightarrow> m w = (Ok x, w') \<Longrightarrow> f_lruCache w' = f_lruCache w"
  by (simp add: lruKept_def)

lemma lruKept_basic: "lruKept (ret x)" "lruKept (fail e)" "lruKept (crash h)" "lruKept (getA f)"
  "lruKept (lockA m)" "lruKept (unlockA m)" "lruKept (ciClose E ci)" "lruKept (Pair r)"
  by (auto simp: lruKept_def lockA_def unlockA_def ciClose_def split: if_splits)

lemma lruKept_modA: "(\<And>w. f_lruCache (f w) = f_lruCache w) \<Longrightarrow> lruKept (modA f)"
  by (auto simp: lruKept_def)

lemma lruKept_thenA: "lruKept m \<Longrightarrow> (\<And>x. lruKept (f x)) \<Longrightarrow> lruKept (thenA m f)"
  unfolding lruKept_def thenA_Ok_iff by metis

lemma lruKept_seqA: "lruKept m \<Longrightarrow> lruKept n \<Longrightarrow> lruKept (seqA m n)"
  unfolding lruKept_def seqA_Ok_iff by metis

lemma lruKept_withLock: "lruKept f \<Longrightarrow> lruKept (withLock lk f)"
  by (auto simp: lruKept_def withLock_run split: if_splits prod.splits res.splits)

lemma lruKept_branches:
  "lruKept m \<Longrightarrow> lruKept n \<Longrightarrow> lruKept (if b then m else n)"
  "lruKept (f x) \<Longrightarrow> lruKept (let y = x in f y)"
  "lruKept m \<Longrightarrow> (\<And>a. lruKept (g a)) \<Longrightarrow> lruKept (case u of None \<Rightarrow> m | Some a \<Rightarrow> g a)"
  by (simp_all split: option.split)

lemmas lruKept_rules = lruKept_basic lruKept_modA lruKept_thenA lruKept_seqA lruKept_withLock lruKept_branches

lemma after_removal:
  assumes "seqA (lockA m) (seqA (removeConnFromLru E d) rest) w = (Ok x, w')"
  obtains s where "rest s = (Ok x, w')" and "f_lruCache s = snd (lruRemove E d (f_lruCache w))"
  using assms
  by (auto simp: seqA_Ok_iff removeConnFromLru_def thenA_Ok_iff lockA_def split: if_splits prod.splits)

lemma lruKept_dsCloseAll: "lruKept (dsCloseAll E dss)"
proof (induction dss)
  case (Cons d dss)
  have "lruKept (dsClose E d)" unfolding dsClose_def by (intro lruKept_rules) simp_all
  with Cons show ?case by (simp add: lruKept_seqA)
qed (simp add: lruKept_rules)

context lru_cache
begin

lemma lruKept_maybeOpen: "lruKept (maybeOpenNewConnections E)"
  by (auto simp: lruKept_def dest: maybeOpen_frame(2))

lemma lruKept_dcFinalClose: "lruKept (dcFinalCloseB E (closeConn E) d)"
proof -
  have dec: "lruKept decrementNumOpened" unfolding decrementNumOpened_def by (intro lruKept_rules) simp
  show ?thesis unfolding dcFinalCloseB_def maybeOpenNewConnections_def [symmetric]
    by (intro lruKept_rules lruKept_dsCloseAll dec lruKept_maybeOpen) simp_all
qed

lemma closeConn_lru:
  assumes "closeConn E d w = (Ok (), w')"
  shows "f_lruCache w' = snd (lruRemove E d (f_lruCache w))"
proof -
  have rd: "lruKept (removeDepLocked p x y)" for p x y
    unfolding removeDepLocked_def by (intro lruKept_rules) simp_all
  have "\<exists>rest. dcCloseB E (closeConn E) d = seqA (lockA (DcMu d)) (seqA (removeConnFromLru E d) rest)
      \<and> lruKept rest"
    unfolding dcCloseB_def
    by (rule exI, rule conjI, rule refl, intro lruKept_rules rd lruKept_dcFinalClose) simp_all
  then obtain rest where eq: "dcCloseB E (closeConn E) d = seqA (lockA (DcMu d)) (seqA (removeConnFromLru E d) rest)"
    and kept: "lruKept rest" by blast
  have "seqA (lockA (DcMu d)) (seqA (removeConnFromLru E d) rest) w = (Ok (), w')"
    using assms by (simp only: eq [symmetric] closeConn_unfold [symmetric])
  then obtain s where rest: "rest s = (Ok (), w')" and s: "f_lruCache s = snd (lruRemove E d (f_lruCache w))"
    by (rule after_removal)
  from lruKeptD [OF kept rest] s show ?thesis by simp
qed

lemma closeConn_twice:
  assumes "closeConn E d w = (Ok (), w')"
  shows "crashes (closeConn E d) w'"
  by (rule close_absent) (simp add: closeConn_lru [OF assms] remove_set)

end

text \<open>
  A second \<open>Close\<close> of a connection does not give the duplicate-close error the code has for
  it: the first took the connection out of the LRU, and the second panics there before it looks at
  the closed flag.
\<close>

theorem second_close_crashes:
  assumes "lru_cache E keys sz" and "closeConn E d w = (Ok (), w')"
  shows "crashes (closeConn E d) w'"
  by (rule lru_cache.closeConn_twice [OF assms])

lemma maybeOpen_quiet:
  assumes "FacadeMu \<notin> w_locked w" and "f_waitCount w = 0" and "f_numOpened w \<le> f_totalMax w"
  shows "maybeOpenNewConnections E w = (Ok (), w)"
proof -
  have "w\<lparr>w_locked := w_locked w\<rparr> = w" by (cases w) simp
  then show ?thesis using assms
    by (simp add: maybeOpenNewConnections_def maybeOpenNewConnectionsB_def pool_run
        getNumOfConnRequestsLocked_def getNumCanOpenConnectionsLocked_def
        getConnPoolsThatHaveRequestedNewConnections_def)
qed

theorem second_close_crashes_witness:
  "\<exists>w'. closeConn demoEnv 1 demoWorld = (Ok (), w') \<and> crashes (closeConn demoEnv 1) w'"
proof -
  have "fst (closeConn demoEnv 1 demoWorld) = Ok ()"
    by (subst closeConn_unfold)
      (simp add: dcCloseB_def removeConnFromLru_def removeDepLocked_def dcFinalCloseB_def withLock_run
        ciClose_def decrementNumOpened_def pool_run maybeOpen_quiet demoWorld_def demoConn_def
        newConnPool_def demoEnv_def listEnv_def maybeOpenNewConnections_def [symmetric])
  then obtain w' where run: "closeConn demoEnv 1 demoWorld = (Ok (), w')"
    by (cases "closeConn demoEnv 1 demoWorld") auto
  then show ?thesis using second_close_crashes [OF demo_lru run] by auto
qed

text \<open>
  C39: \<open>Close\<close> of an idle connection ends although it calls itself through
  \<open>maybeOpenNewConnections\<close>, and does its whole work: on a connection that is in the LRU, open, and
  used by nothing but its pool, with no request counted and the count within the limit, it closes
  the driver connection once and every statement that is open on it, takes the connection out
  of the LRU, the pool's dependencies and the count, and leaves every mutex free. The driver's error
  is what it returns.
\<close>

theorem close_closes_idle_connection:
  assumes "lru_cache E keys sz" and "w_locked w = {}" and "d \<in> set (keys (f_lruCache w))"
    and "\<not> dc_closed (w_dc w d)" and "dc_ci (w_dc w d) = Some h" and "dc_pool (w_dc w d) = p"
    and "cp_dep (w_pool w p) (ODc d) = Some [ODc d]"
    and "f_waitCount w = 0" and "f_numOpened w \<le> f_totalMax w"
  shows "\<exists>w'. closeConn E d w = (case drvCloseConn E h of None \<Rightarrow> Ok () | Some e \<Rightarrow> Fail e, w')
    \<and> dc_closed (w_dc w' d) \<and> dc_finalClosed (w_dc w' d) \<and> dc_ci (w_dc w' d) = None
    \<and> w_ciClosed w' = w_ciClosed w @ [h] \<and> set (keys (f_lruCache w')) = set (keys (f_lruCache w)) - {d}
    \<and> f_numOpened w' = f_numOpened w - 1 \<and> cp_dep (w_pool w' p) (ODc d) = None
    \<and> cp_numClosed (w_pool w' p) = cp_numClosed (w_pool w p) + 1
    \<and> (\<forall>ds. ds \<in> set (dc_openStmt (w_dc w d)) \<longrightarrow> ds_closed (w_ds w' ds)) \<and> w_locked w' = {}"
proof -
  let ?r = "lruRemove E d (f_lruCache w)"
  have present: "fst ?r" and rest: "set (keys (snd ?r)) = set (keys (f_lruCache w)) - {d}"
    using assms(3) lru_cache.remove_present [OF assms(1)] lru_cache.remove_set [OF assms(1)] by auto
  obtain c where c: "?r = (True, c)" using present by (cases ?r) simp
  show ?thesis using assms(2-9) rest c
    by (subst closeConn_unfold)
      (simp add: dcCloseB_def removeConnFromLru_def removeDepLocked_def dcFinalCloseB_def withLock_run
        ciClose_def decrementNumOpened_def pool_run maybeOpen_quiet dsCloseAll_run stmtsClosed_def closedDs_closed
        set_range_order maybeOpenNewConnections_def [symmetric] split: option.split)
qed

theorem close_closes_idle_connection_witness:
  "\<exists>w'. closeConn demoEnv 1 demoWorld = (Ok (), w') \<and> w_ciClosed w' = [1] \<and> f_numOpened w' = 1"
  using close_closes_idle_connection [OF demo_lru, of demoWorld 1 1 0]
  by (force simp: demoWorld_def demoConn_def newConnPool_def demoEnv_def listEnv_def)

section \<open>The facade's map of pools\<close>

text \<open>The part of the facade that setting a pool's limits leaves alone.\<close>

definition facadeKept :: "('c, 'm) world \<Rightarrow> ('c, 'm) world \<Rightarrow> bool" where
  "facadeKept w w' \<longleftrightarrow> f_closed w' = f_closed w \<and> f_pools w' = f_pools w"

interpretation kept: act_order facadeKept
  by standard (auto simp: facadeKept_def)

lemma kept_SetConnMaxIdleTime: "keeps facadeKept (SetConnMaxIdleTime p t)"
proof -
  have "keeps facadeKept (lockA m)" "keeps facadeKept (unlockA m)" for m
    by (auto simp: keeps_def facadeKept_def lockA_def unlockA_def)
  then show ?thesis unfolding SetConnMaxIdleTime_def startCleanerLocked_def
    by (intro kept.keeps_rules kept.keeps_modA keeps_if keeps_let keeps_case_cleaner)
      (simp_all add: facadeKept_def)
qed

lemma OpenPool_Ok: "OpenPool E name dsn w = (Ok p, w') \<Longrightarrow> f_closed w' = f_closed w \<and> f_pools w' = f_pools w"
  by (auto simp: OpenPool_def OpenDB_def pool_run split: option.splits sum.splits)

text \<open>
  Asking again gives the same pool and changes nothing, and so does asking with any other
  credentials whose user name, password and database concatenate to the same string: the pool,
  and with it the server account, belongs to the concatenation and not to the credentials.
\<close>

theorem credentials_share_pool:
  assumes "cmap E contents" and "getOrCreateConnPool E a w = (Ok p, w')" and "GetId a = GetId b"
  shows "getOrCreateConnPool E b w' = (Ok p, w')"
proof -
  let ?id = "GetId a"
  have open_: "\<not> f_closed w"
    using assms(2) by (auto simp: getOrCreateConnPool_def split: if_splits)
  show ?thesis
  proof (cases "mapHas E ?id (f_pools w)")
    case True
    then have "w' = w" "mapGet E ?id (f_pools w) = Some p"
      using assms(2) open_ by (auto simp: getOrCreateConnPool_def split: if_splits option.splits)
    then show ?thesis using True open_ assms(3) by (simp add: getOrCreateConnPool_def)
  next
    case False
    then obtain s s' where o: "OpenPool E (f_driverName w) (GetDataSourceName a) w = (Ok p, s)"
      and i: "SetConnMaxIdleTime p (f_idleTimeout s) s = (Ok (), s')"
      and w': "w' = s'\<lparr>f_pools := mapSet E ?id p (f_pools s')\<rparr>"
      using assms(2) open_ by (auto simp: getOrCreateConnPool_def thenA_Ok_iff seqA_Ok_iff)
    have "f_closed w' = f_closed w"
      using OpenPool_Ok [OF o] keepsD [OF kept_SetConnMaxIdleTime i] w' by (simp add: facadeKept_def)
    then show ?thesis using w' open_ assms(3) cmap.get_set [OF assms(1)] cmap.has_set [OF assms(1)]
      by (simp add: getOrCreateConnPool_def)
  qed
qed

text \<open>Two accounts on one server whose concatenations agree.\<close>

theorem credentials_share_pool_witness:
  "\<exists>w'. getOrCreateConnPool demoEnv \<lparr>Username = ''u'', Password = ''pd'', Database = ''''\<rparr> demoWorld = (Ok 0, w') \<and>
     getOrCreateConnPool demoEnv \<lparr>Username = ''up'', Password = '''', Database = ''d''\<rparr> w' = (Ok 0, w') \<and>
     GetDataSourceName \<lparr>Username = ''u'', Password = ''pd'', Database = ''''\<rparr>
       \<noteq> GetDataSourceName \<lparr>Username = ''up'', Password = '''', Database = ''d''\<rparr>"
proof -
  let ?a = "\<lparr>Username = ''u'', Password = ''pd'', Database = ''''\<rparr>"
  let ?b = "\<lparr>Username = ''up'', Password = '''', Database = ''d''\<rparr>"
  have run: "getOrCreateConnPool demoEnv ?a demoWorld = (Ok 0, demoWorld)"
    by (simp add: getOrCreateConnPool_def GetId_def demoWorld_def demoEnv_def listEnv_def)
  have "GetId ?a = GetId ?b" by (simp add: GetId_def)
  from credentials_share_pool [OF demo_cmap run this] run show ?thesis by (auto simp: GetDataSourceName_def)
qed

end
