(* ===== verification/FacadeRace.thy ===== *)
theory FacadeRace
  imports FacadeProps
begin

text \<open>
  Goroutines that open connections at the same time. \<open>conn\<close> asks \<open>canAddNewConn\<close> in one
  critical section and counts the new connection in another (\<open>incrementNumOpened\<close>), so other
  goroutines may run in between. A state is the world and the program counter of every goroutine;
  a step is one critical section of one of them. A goroutine calls \<open>conn\<close> any number of times, and
  outside \<open>conn\<close> it may close connections (\<open>decrementNumOpened\<close>) and ask for new connections for the
  waiting requests (\<open>maybeOpenNewConnections\<close>); the opener is one of the goroutines. The other
  parts of \<open>conn\<close> do not touch the count.
\<close>

datatype pc = AtCheck | AtIncrement | AtConnect | Queued | Opened | Failed

inductive race_step :: "('c, 'm) env \<Rightarrow> ('c, 'm) world \<times> pc list \<Rightarrow> ('c, 'm) world \<times> pc list \<Rightarrow> bool"
  for E :: "('c, 'm) env" where
  check: "i < length ts \<Longrightarrow> ts ! i = AtCheck \<Longrightarrow> canAddNewConn w = (Ok b, w') \<Longrightarrow>
    race_step E (w, ts) (w', ts[i := if b then AtIncrement else Queued])"
| increment: "i < length ts \<Longrightarrow> ts ! i = AtIncrement \<Longrightarrow> incrementNumOpened w = (Ok (), w') \<Longrightarrow>
    race_step E (w, ts) (w', ts[i := AtConnect])"
| connected: "i < length ts \<Longrightarrow> ts ! i = AtConnect \<Longrightarrow> race_step E (w, ts) (w, ts[i := Opened])"
| refused: "i < length ts \<Longrightarrow> ts ! i = AtConnect \<Longrightarrow> decrementNumOpened w = (Ok (), w') \<Longrightarrow>
    race_step E (w, ts) (w', ts[i := Failed])"
| again: "i < length ts \<Longrightarrow> ts ! i \<in> {Queued, Opened, Failed} \<Longrightarrow> race_step E (w, ts) (w, ts[i := AtCheck])"
| closing: "i < length ts \<Longrightarrow> ts ! i \<in> {Queued, Opened, Failed} \<Longrightarrow> decrementNumOpened w = (Ok (), w') \<Longrightarrow>
    race_step E (w, ts) (w', ts)"
| ask: "i < length ts \<Longrightarrow> ts ! i \<in> {Queued, Opened, Failed} \<Longrightarrow> maybeOpenNewConnections E w = (Ok (), w') \<Longrightarrow>
    race_step E (w, ts) (w', ts)"

inductive race_reach :: "('c, 'm) env \<Rightarrow> ('c, 'm) world \<times> pc list \<Rightarrow> ('c, 'm) world \<times> pc list \<Rightarrow> bool"
  for E :: "('c, 'm) env" and s0 :: "('c, 'm) world \<times> pc list" where
  start: "race_reach E s0 s0"
| step: "race_reach E s0 s \<Longrightarrow> race_step E s s' \<Longrightarrow> race_reach E s0 s'"

inductive_cases race_stepE: "race_step E (w, ts) s"

definition between :: "pc list \<Rightarrow> nat" where
  "between ts = length (filter (\<lambda>t. t = AtIncrement) ts)"

text \<open>Changing one program counter changes the number of goroutines between the two sections by one.\<close>

lemma between_enter: "i < length ts \<Longrightarrow> ts ! i \<noteq> AtIncrement \<Longrightarrow> between (ts[i := AtIncrement]) = Suc (between ts)"
  by (induction ts arbitrary: i) (auto simp: between_def nth_Cons' split: nat.splits elim!: less_SucE)

lemma between_leave: "i < length ts \<Longrightarrow> ts ! i = AtIncrement \<Longrightarrow> t \<noteq> AtIncrement \<Longrightarrow>
    between ts = Suc (between (ts[i := t]))"
  by (induction ts arbitrary: i) (auto simp: between_def nth_Cons' split: nat.splits)

lemma between_same: "i < length ts \<Longrightarrow> ts ! i \<noteq> AtIncrement \<Longrightarrow> t \<noteq> AtIncrement \<Longrightarrow>
    between (ts[i := t]) = between ts"
  by (induction ts arbitrary: i) (auto simp: between_def nth_Cons' split: nat.splits)

lemma between_le: "between ts \<le> length ts"
  by (simp add: between_def)

lemma between_less: "i < length ts \<Longrightarrow> ts ! i \<noteq> AtIncrement \<Longrightarrow> between ts < length ts"
  unfolding between_def by (rule length_filter_less [OF nth_mem])

definition race_inv :: "int \<Rightarrow> nat \<Rightarrow> ('c, 'm) world \<times> pc list \<Rightarrow> bool" where
  "race_inv limit n s \<longleftrightarrow> f_totalMax (fst s) = limit \<and> length (snd s) = n \<and>
     f_numOpened (fst s) + int (between (snd s)) < limit + int n"

context lru_cache
begin

lemma race_step_inv: "race_step E s s' \<Longrightarrow> race_inv limit n s \<Longrightarrow> race_inv limit n s'"
proof (induction rule: race_step.induct)
  case (check i ts w b w')
  then have b: "b = (f_numOpened w < f_totalMax w)" "w' = w"
    by (auto simp: canAddNewConn_def pool_run lockA_def split: if_splits)
  show ?case
  proof (cases b)
    case True
    have "between (ts[i := AtIncrement]) \<le> n"
      using between_le [of "ts[i := AtIncrement]"] check.prems by (simp add: race_inv_def)
    then show ?thesis using True b check by (simp add: race_inv_def)
  next
    case False
    then show ?thesis using b check between_same [of i ts Queued] by (simp add: race_inv_def)
  qed
next
  case (increment i ts w w')
  then have "f_numOpened w' = f_numOpened w + 1" "f_totalMax w' = f_totalMax w"
    by (auto simp: incrementNumOpened_def pool_run lockA_def split: if_splits)
  then show ?case using increment between_leave [of i ts AtConnect] by (simp add: race_inv_def)
next
  case (connected i ts w)
  then show ?case using between_same [of i ts Opened] by (simp add: race_inv_def)
next
  case (refused i ts w w')
  then have "f_numOpened w' = f_numOpened w - 1" "f_totalMax w' = f_totalMax w"
    by (auto simp: decrementNumOpened_def pool_run lockA_def split: if_splits)
  then show ?case using refused between_same [of i ts Failed] by (simp add: race_inv_def)
next
  case (again i ts w)
  then show ?case using between_same [of i ts AtCheck] by (auto simp: race_inv_def)
next
  case (closing i ts w w')
  then have "f_numOpened w' = f_numOpened w - 1" "f_totalMax w' = f_totalMax w"
    by (auto simp: decrementNumOpened_def pool_run lockA_def split: if_splits)
  then show ?case using closing by (simp add: race_inv_def)
next
  case (ask i ts w w')
  obtain ps where ps: "w' = asked ps w"
      "length ps = nat (min (f_waitCount w) (f_totalMax w - f_numOpened w))"
    by (rule maybeOpen_Ok [OF ask.hyps(3)])
  have "f_numOpened w' \<le> max (f_numOpened w) (f_totalMax w)"
    using ps by (cases ps) (auto simp: asked_def max_def)
  moreover have "f_totalMax w' = f_totalMax w" using ps by (simp add: asked_def)
  moreover have "between ts < n" using between_less [of i ts] ask.hyps(1,2) ask.prems by (auto simp: race_inv_def)
  ultimately show ?case using ask.prems by (auto simp: race_inv_def max_def split: if_splits)
qed

lemma race_reach_inv: "race_reach E s s' \<Longrightarrow> race_inv limit n s \<Longrightarrow> race_inv limit n s'"
  by (induction rule: race_reach.induct) (auto intro: race_step_inv)

end

text \<open>
  C30: With \<open>n\<close> goroutines, each of which may call \<open>conn\<close> again and again, close connections and ask
  for new ones, in any interleaving of their critical sections, the count of open connections
  exceeds the limit by less than \<open>n\<close> at every moment (from a start within the limit at which no
  goroutine is between its check and its count). One goroutine alone keeps the limit; two can
  exceed it by one (\<open>race_exceeds_limit\<close>).
\<close>

theorem race_bounded_overshoot:
  assumes "lru_cache E keys sz" and "race_reach E (w, ts) (w', ts')"
    and "f_numOpened w \<le> f_totalMax w" and "between ts = 0" and "ts \<noteq> []"
  shows "f_numOpened w' < f_totalMax w + int (length ts)"
proof -
  have "race_inv (f_totalMax w) (length ts) (w, ts)" using assms(3-5) by (cases ts) (simp_all add: race_inv_def)
  from lru_cache.race_reach_inv [OF assms(1,2) this] show ?thesis by (simp add: race_inv_def)
qed

text \<open>Two goroutines that both ask before either counts.\<close>

definition raceStart :: "(dcid list, (string \<times> poolid) list) world" where
  "raceStart = demoWorld\<lparr>f_numOpened := 1\<rparr>"

lemma raceStart_run: "race_reach demoEnv (raceStart, [AtCheck, AtCheck])
    (raceStart\<lparr>f_numOpened := 3\<rparr>, [AtConnect, AtConnect])"
proof -
  let ?w = raceStart
  have lk: "w_locked ?w = {}" "f_numOpened ?w = 1" "f_totalMax ?w = 2" by (simp_all add: raceStart_def demoWorld_def)
  have eq: "?w\<lparr>w_locked := {}\<rparr> = ?w" using lk by (intro locked_empty)
  have one: "?w\<lparr>f_numOpened := 1\<rparr> = ?w" by (simp add: raceStart_def)
  have can: "canAddNewConn ?w = (Ok True, ?w)" using lk eq by (simp add: canAddNewConn_def pool_run)
  have inc: "incrementNumOpened (?w\<lparr>f_numOpened := k\<rparr>) = (Ok (), ?w\<lparr>f_numOpened := k + 1\<rparr>)" for k
    using lk by (cases ?w) (simp add: incrementNumOpened_def pool_run)
  have "race_step demoEnv (?w, [AtCheck, AtCheck]) (?w, [AtIncrement, AtCheck])"
    using race_step.check [of 0 "[AtCheck, AtCheck]" ?w True ?w] can by simp
  moreover have "race_step demoEnv (?w, [AtIncrement, AtCheck]) (?w, [AtIncrement, AtIncrement])"
    using race_step.check [of 1 "[AtIncrement, AtCheck]" ?w True ?w] can by simp
  moreover have "race_step demoEnv (?w, [AtIncrement, AtIncrement]) (?w\<lparr>f_numOpened := 2\<rparr>, [AtConnect, AtIncrement])"
    using race_step.increment [of 0 "[AtIncrement, AtIncrement]" ?w "?w\<lparr>f_numOpened := 2\<rparr>"] inc [of 1] one
    by simp
  moreover have "race_step demoEnv (?w\<lparr>f_numOpened := 2\<rparr>, [AtConnect, AtIncrement])
      (?w\<lparr>f_numOpened := 3\<rparr>, [AtConnect, AtConnect])"
    using race_step.increment [of 1 "[AtConnect, AtIncrement]" "?w\<lparr>f_numOpened := 2\<rparr>" "?w\<lparr>f_numOpened := 3\<rparr>"] inc [of 2]
    by simp
  ultimately show ?thesis by (meson race_reach.start race_reach.step)
qed

theorem race_bounded_overshoot_witness:
  "race_reach demoEnv (raceStart, [AtCheck, AtCheck]) (raceStart\<lparr>f_numOpened := 3\<rparr>, [AtConnect, AtConnect])
   \<and> f_numOpened (raceStart\<lparr>f_numOpened := 3\<rparr>) < f_totalMax raceStart + 2"
  using raceStart_run race_bounded_overshoot [OF demo_lru raceStart_run]
  by (simp add: raceStart_def demoWorld_def between_def)

text \<open>
  The limit is not kept: from a world with one connection counted and a limit of two, two
  goroutines that both ask before either counts reach a count of three.
\<close>

theorem race_exceeds_limit:
  "\<exists>w'. race_reach demoEnv (raceStart, [AtCheck, AtCheck]) (w', [AtConnect, AtConnect]) \<and>
     f_numOpened raceStart < f_totalMax raceStart \<and> f_totalMax w' < f_numOpened w'"
  using raceStart_run by (intro exI [of _ "raceStart\<lparr>f_numOpened := 3\<rparr>"]) (simp add: raceStart_def demoWorld_def)

end
