(* ===== verification/DriverCalls.thy ===== *)
theory DriverCalls
  imports PoolOps
begin

text \<open>
  The calls on a driver (\<open>ctxutil.go\<close>): which of the driver's interfaces is used, the checks of
  the context around the older interfaces, and the conversion of the arguments before. The driver
  is outside the program: \<open>drvApi\<close> gives, per driver connection or statement, the optional
  interfaces (\<open>if\<close>, \<open>None\<close> where a type assertion of the code fails) and the answers of the
  methods every driver has (\<open>m\<close>). A call that reaches the driver is recorded in \<open>s_calls\<close>.
\<close>

record drvApi =
  ifPrepareCtx :: "nat \<Rightarrow> (string \<Rightarrow> gerr + nat) option"
  mPrepare :: "nat \<Rightarrow> string \<Rightarrow> gerr + nat"
  ifExecerCtx :: "nat \<Rightarrow> (string \<Rightarrow> namedValue list \<Rightarrow> gerr + nat) option"
  ifExecer :: "nat \<Rightarrow> (string \<Rightarrow> gval list \<Rightarrow> gerr + nat) option"
  ifQueryerCtx :: "nat \<Rightarrow> (string \<Rightarrow> namedValue list \<Rightarrow> gerr + nat) option"
  ifQueryer :: "nat \<Rightarrow> (string \<Rightarrow> gval list \<Rightarrow> gerr + nat) option"
  ifStmtExecCtx :: "nat \<Rightarrow> (namedValue list \<Rightarrow> gerr + nat) option"
  mStmtExec :: "nat \<Rightarrow> gval list \<Rightarrow> gerr + nat"
  ifStmtQueryCtx :: "nat \<Rightarrow> (namedValue list \<Rightarrow> gerr + nat) option"
  mStmtQuery :: "nat \<Rightarrow> gval list \<Rightarrow> gerr + nat"
  ifBeginTx :: "nat \<Rightarrow> (int \<Rightarrow> bool \<Rightarrow> gerr + nat) option"
  mBegin :: "nat \<Rightarrow> gerr + nat"
  ifPinger :: "nat \<Rightarrow> gerr option option"
  mCommit :: "nat \<Rightarrow> gerr option"
  mRollback :: "nat \<Rightarrow> gerr option"
  mRowsClose :: "nat \<Rightarrow> gerr option"
  mRowsColumns :: "nat \<Rightarrow> string list"
  mRowsNext :: "nat \<Rightarrow> gval list \<Rightarrow> gerr option \<times> gval list"
  ifNextResultSet :: "nat \<Rightarrow> (bool \<times> gerr option) option"
  ifColScanType :: "nat \<Rightarrow> (nat \<Rightarrow> string) option"
  ifColDatabaseType :: "nat \<Rightarrow> (nat \<Rightarrow> string) option"
  ifColLength :: "nat \<Rightarrow> (nat \<Rightarrow> int \<times> bool) option"
  ifColNullable :: "nat \<Rightarrow> (nat \<Rightarrow> bool \<times> bool) option"
  ifColPrecisionScale :: "nat \<Rightarrow> (nat \<Rightarrow> int \<times> int \<times> bool) option"
  mLastInsertId :: "nat \<Rightarrow> gerr + int"
  mRowsAffected :: "nat \<Rightarrow> gerr + int"
  ifConnChecker :: "nat \<Rightarrow> checker option"
  ifStmtChecker :: "nat \<Rightarrow> checker option"
  ifColConverter :: "nat \<Rightarrow> (nat \<Rightarrow> gval \<Rightarrow> gerr + gval) option"
  mNumInput :: "nat \<Rightarrow> int"
  apiFmt :: fmtEnv

text \<open>
  What one attempt of an operation needs from outside: the pool's environment, the other
  goroutines while it waits for a connection, what they do while it waits for a transaction's or
  a connection's readers, the driver, the state of the context at the checks around driver calls,
  and whether the context can be done at all (\<open>ctx.Done()\<close> is not nil).
\<close>

record ('c, 'm) req =
  q_env :: "('c, 'm) env"
  q_others :: "('c, 'm) others"
  q_wake :: "('c, 'm) world \<Rightarrow> ('c, 'm) world"
  q_drv :: drvApi
  q_ctxErr :: "gerr option"
  q_ctxHasDone :: bool

definition logA :: "drvCall \<Rightarrow> ('c, 'm, unit) pact" where
  "logA c = modA (logCall c)"

definition ofSum :: "gerr + 'a \<Rightarrow> ('c, 'm, 'a) pact" where
  "ofSum r = (case r of Inl e \<Rightarrow> fail e | Inr x \<Rightarrow> ret x)"

definition ofErr :: "gerr option \<Rightarrow> ('c, 'm, unit) pact" where
  "ofErr r = (case r of None \<Rightarrow> ret () | Some e \<Rightarrow> fail e)"

text \<open>\<open>select { default: case <-ctx.Done(): return nil, ctx.Err() }\<close>\<close>

definition ctxCheck :: "('c, 'm) req \<Rightarrow> ('c, 'm, unit) pact" where
  "ctxCheck Q = ofErr (q_ctxErr Q)"

text \<open>The connection's \<open>ci\<close>, on which a method is called: nil when the connection was closed.\<close>

definition ciOf :: "dcid \<Rightarrow> ('c, 'm, nat) pact" where
  "ciOf dc = thenA (getA (\<lambda>w. dc_ci (w_dc w dc)))
     (\<lambda>ci. case ci of None \<Rightarrow> crash NilDeref | Some h \<Rightarrow> ret h)"

section \<open>Preparing, executing, querying\<close>

definition ctxDriverPrepare :: "('c, 'm) req \<Rightarrow> nat \<Rightarrow> string \<Rightarrow> ('c, 'm, nat) pact" where
  "ctxDriverPrepare Q ci query =
     (case ifPrepareCtx (q_drv Q) ci of
        Some f \<Rightarrow> seqA (logA (CallPrepareContext query)) (ofSum (f query))
      | None \<Rightarrow>
          seqA (logA (CallPrepare query))
         (thenA (ofSum (mPrepare (q_drv Q) ci query)) (\<lambda>si.
            case q_ctxErr Q of
              None \<Rightarrow> ret si
            | Some e \<Rightarrow> seqA (logA (CallStmtClose si)) (fail e))))"

text \<open>
  The interface is the one the caller's type assertions found: \<open>execerCtx\<close>, or else
  \<open>execer\<close>.
\<close>

definition ctxDriverExec :: "('c, 'm) req \<Rightarrow> (string \<Rightarrow> namedValue list \<Rightarrow> gerr + nat) option
    \<Rightarrow> (string \<Rightarrow> gval list \<Rightarrow> gerr + nat) option \<Rightarrow> string \<Rightarrow> namedValue list \<Rightarrow> ('c, 'm, nat) pact" where
  "ctxDriverExec Q execerCtx execer query nvdargs =
     (case execerCtx of
        Some f \<Rightarrow> seqA (logA (CallExecContext query nvdargs)) (ofSum (f query nvdargs))
      | None \<Rightarrow>
          thenA (ofSum (namedValueToValue nvdargs)) (\<lambda>dargs.
          seqA (ctxCheck Q)
            (case execer of
               None \<Rightarrow> crash NilDeref
             | Some g \<Rightarrow> seqA (logA (CallExec query dargs)) (ofSum (g query dargs)))))"

definition ctxDriverQuery :: "('c, 'm) req \<Rightarrow> (string \<Rightarrow> namedValue list \<Rightarrow> gerr + nat) option
    \<Rightarrow> (string \<Rightarrow> gval list \<Rightarrow> gerr + nat) option \<Rightarrow> string \<Rightarrow> namedValue list \<Rightarrow> ('c, 'm, nat) pact" where
  "ctxDriverQuery Q queryerCtx queryer query nvdargs =
     (case queryerCtx of
        Some f \<Rightarrow> seqA (logA (CallQueryContext query nvdargs)) (ofSum (f query nvdargs))
      | None \<Rightarrow>
          thenA (ofSum (namedValueToValue nvdargs)) (\<lambda>dargs.
          seqA (ctxCheck Q)
            (case queryer of
               None \<Rightarrow> crash NilDeref
             | Some g \<Rightarrow> seqA (logA (CallQuery query dargs)) (ofSum (g query dargs)))))"

definition ctxDriverStmtExec :: "('c, 'm) req \<Rightarrow> nat \<Rightarrow> namedValue list \<Rightarrow> ('c, 'm, nat) pact" where
  "ctxDriverStmtExec Q si nvdargs =
     (case ifStmtExecCtx (q_drv Q) si of
        Some f \<Rightarrow> seqA (logA (CallStmtExecContext si nvdargs)) (ofSum (f nvdargs))
      | None \<Rightarrow>
          thenA (ofSum (namedValueToValue nvdargs)) (\<lambda>dargs.
          seqA (ctxCheck Q)
         (seqA (logA (CallStmtExec si dargs)) (ofSum (mStmtExec (q_drv Q) si dargs)))))"

definition ctxDriverStmtQuery :: "('c, 'm) req \<Rightarrow> nat \<Rightarrow> namedValue list \<Rightarrow> ('c, 'm, nat) pact" where
  "ctxDriverStmtQuery Q si nvdargs =
     (case ifStmtQueryCtx (q_drv Q) si of
        Some f \<Rightarrow> seqA (logA (CallStmtQueryContext si nvdargs)) (ofSum (f nvdargs))
      | None \<Rightarrow>
          thenA (ofSum (namedValueToValue nvdargs)) (\<lambda>dargs.
          seqA (ctxCheck Q)
         (seqA (logA (CallStmtQuery si dargs)) (ofSum (mStmtQuery (q_drv Q) si dargs)))))"

section \<open>Beginning a transaction\<close>

text \<open>\<open>TxOptions\<close>, and the isolation levels with their names (\<open>isolation_level.go\<close>).\<close>

record TxOptions =
  opt_Isolation :: int
  opt_ReadOnly :: bool

definition isolationNames :: "string list" where
  "isolationNames = [''Default'', ''Read Uncommitted'', ''Read Committed'', ''Write Committed'',
     ''Repeatable Read'', ''Snapshot'', ''Serializable'', ''Linearizable'']"

definition IsolationLevel_String :: "int \<Rightarrow> string" where
  "IsolationLevel_String i =
     (if 0 \<le> i \<and> i < 8 then isolationNames ! nat i
      else ''IsolationLevel('' @ formatInt i @ '')'')"

definition ctxDriverBegin :: "('c, 'm) req \<Rightarrow> TxOptions option \<Rightarrow> nat \<Rightarrow> ('c, 'm, nat) pact" where
  "ctxDriverBegin Q opts ci =
     (case ifBeginTx (q_drv Q) ci of
        Some f \<Rightarrow>
          let (isolation, readOnly) = (case opts of None \<Rightarrow> (0, False)
                | Some opt \<Rightarrow> (opt_Isolation opt, opt_ReadOnly opt))
          in seqA (logA (CallBeginTx isolation readOnly)) (ofSum (f isolation readOnly))
      | None \<Rightarrow>
          seqA (case opts of
                  None \<Rightarrow> ret ()
                | Some opt \<Rightarrow>
                    if opt_Isolation opt \<noteq> 0
                    then fail (ErrMsg ''sql: driver does not support non-default isolation level'')
                    else if opt_ReadOnly opt
                    then fail (ErrMsg ''sql: driver does not support read-only transactions'')
                    else ret ())
         (seqA (logA CallBegin)
         (if \<not> q_ctxHasDone Q then ofSum (mBegin (q_drv Q) ci)
          else
            thenA (ofSum (mBegin (q_drv Q) ci)) (\<lambda>txi.
              case q_ctxErr Q of
                None \<Rightarrow> ret txi
              | Some e \<Rightarrow> seqA (logA (CallRollback txi)) (fail e)))))"

section \<open>Statements of one connection\<close>

text \<open>A new \<open>driverStmt\<close>, and what it offers for the check of the arguments.\<close>

definition allocDs :: "dcid \<Rightarrow> nat \<Rightarrow> ('c, 'm, dsid) pact" where
  "allocDs dc si = thenA (getA (\<lambda>w. s_nextDs (w_sess w))) (\<lambda>ds.
     seqA (modA (updSess (\<lambda>z. z\<lparr>s_nextDs := Suc ds\<rparr>)))
    (seqA (modA (updDs ds (\<lambda>_. \<lparr>ds_locker = dc, ds_si = si, ds_closed = False, ds_closeErr = None\<rparr>)))
       (ret ds)))"

definition argsFor :: "drvApi \<Rightarrow> nat option \<Rightarrow> nat option \<Rightarrow> garg list \<Rightarrow> gerr + namedValue list" where
  "argsFor D ci si args = driverArgsConnLocked (apiFmt D) (Option.bind ci (ifConnChecker D))
     (map_option (\<lambda>s. (ifStmtChecker D s, ifColConverter D s, mNumInput D s)) si) args"

definition resultFromStatement ::
    "('c, 'm) req \<Rightarrow> nat option \<Rightarrow> dsid \<Rightarrow> garg list \<Rightarrow> ('c, 'm, nat) pact" where
  "resultFromStatement Q ci ds args =
     thenA (getA (\<lambda>w. w_ds w ds)) (\<lambda>s.
     withLock (DcMu (ds_locker s))
       (thenA (ofSum (argsFor (q_drv Q) ci (Some (ds_si s)) args)) (\<lambda>dargs.
        ctxDriverStmtExec Q (ds_si s) dargs)))"

definition rowsiFromStatement ::
    "('c, 'm) req \<Rightarrow> nat option \<Rightarrow> dsid \<Rightarrow> garg list \<Rightarrow> ('c, 'm, nat) pact" where
  "rowsiFromStatement Q ci ds args =
     thenA (getA (\<lambda>w. w_ds w ds)) (\<lambda>s.
     withLock (DcMu (ds_locker s))
       (thenA (ofSum (argsFor (q_drv Q) ci (Some (ds_si s)) args)) (\<lambda>dargs.
        ctxDriverStmtQuery Q (ds_si s) dargs)))"

text \<open>\<open>(*driverConn).prepareLocked\<close>: without a grabber the connection tracks the statement.\<close>

definition prepareLocked ::
    "('c, 'm) req \<Rightarrow> dcid \<Rightarrow> stmtConnGrabber option \<Rightarrow> string \<Rightarrow> ('c, 'm, dsid) pact" where
  "prepareLocked Q dc cg query =
     thenA (ciOf dc) (\<lambda>ci.
     thenA (ctxDriverPrepare Q ci query) (\<lambda>si.
     thenA (allocDs dc si) (\<lambda>ds.
       if cg \<noteq> None then ret ds
       else seqA (modA (updDc dc (\<lambda>c. c\<lparr>dc_openStmt := List.insert ds (dc_openStmt c)\<rparr>)))
              (ret ds))))"

lemmas driver_call_defs = ctxDriverPrepare_def ctxDriverExec_def ctxDriverQuery_def
  ctxDriverStmtExec_def ctxDriverStmtQuery_def ctxDriverBegin_def ctxCheck_def ofSum_def ofErr_def
  logA_def ciOf_def allocDs_def

end
