(* ===== verification/Session.thy ===== *)
theory Session
  imports DriverCalls
begin

text \<open>
  What runs on a borrowed connection: the release functions, prepared statements
  (\<open>prepared_statement.go\<close>), rows being closed (\<open>rows.go\<close>), and the operations on a given
  connection (\<open>execDC\<close>, \<open>queryDC\<close>, \<open>prepareDC\<close>, \<open>beginDC\<close>, \<open>pingDC\<close> of
  \<open>conn_pool_*.go\<close>). An operation gets the connection together with its release function, and
  must call that once.
\<close>

section \<open>Access to transactions, connections and rows\<close>

definition updTx :: "txid \<Rightarrow> (Tx \<Rightarrow> Tx) \<Rightarrow> ('c, 'm) world \<Rightarrow> ('c, 'm) world" where
  "updTx t f = updSess (\<lambda>z. z\<lparr>s_tx := (s_tx z)(t := f (s_tx z t))\<rparr>)"

definition updConn :: "connid \<Rightarrow> (Conn \<Rightarrow> Conn) \<Rightarrow> ('c, 'm) world \<Rightarrow> ('c, 'm) world" where
  "updConn c f = updSess (\<lambda>z. z\<lparr>s_conn := (s_conn z)(c := f (s_conn z c))\<rparr>)"

definition updRows :: "rowsid \<Rightarrow> (Rows \<Rightarrow> Rows) \<Rightarrow> ('c, 'm) world \<Rightarrow> ('c, 'm) world" where
  "updRows r f = updSess (\<lambda>z. z\<lparr>s_rows := (s_rows z)(r := f (s_rows z r))\<rparr>)"

abbreviation txOf :: "('c, 'm) world \<Rightarrow> txid \<Rightarrow> Tx" where
  "txOf w \<equiv> s_tx (w_sess w)"

abbreviation connOf :: "('c, 'm) world \<Rightarrow> connid \<Rightarrow> Conn" where
  "connOf w \<equiv> s_conn (w_sess w)"

abbreviation rowsOf :: "('c, 'm) world \<Rightarrow> rowsid \<Rightarrow> Rows" where
  "rowsOf w \<equiv> s_rows (w_sess w)"

definition failed :: "gerr + 'a \<Rightarrow> gerr option" where
  "failed r = (case r of Inl e \<Rightarrow> Some e | Inr _ \<Rightarrow> None)"

text \<open>
  \<open>closemu.Lock()\<close> of a transaction or a connection waits until the readers are gone. When there
  are some, other goroutines run (\<open>q_wake\<close>); if they never give the lock up, the goroutine blocks.
\<close>

definition awaitReaders :: "('c, 'm) req \<Rightarrow> (('c, 'm) world \<Rightarrow> nat) \<Rightarrow> ('c, 'm, unit) pact" where
  "awaitReaders Q readers = (\<lambda>w.
     if readers w = 0 then (Ok (), w)
     else let w' = q_wake Q w in (if readers w' = 0 then Ok () else Crash Deadlock, w'))"

section \<open>Release functions\<close>

definition Tx_closemuRUnlockRelease :: "txid \<Rightarrow> ('c, 'm, unit) pact" where
  "Tx_closemuRUnlockRelease t = thenA (getA (\<lambda>w. tx_readers (txOf w t))) (\<lambda>n.
     if n = 0 then crash FatalUnlock
     else modA (updTx t (\<lambda>x. x\<lparr>tx_readers := tx_readers x - 1\<rparr>)))"

text \<open>\<open>(*Conn).close\<close> gives the connection back once; \<open>err\<close> is returned as it is.\<close>

definition Conn_close :: "('c, 'm) req \<Rightarrow> connid \<Rightarrow> gerr option \<Rightarrow> ('c, 'm, unit) pact" where
  "Conn_close Q c err = thenA (getA (\<lambda>w. cn_done (connOf w c))) (\<lambda>isDone.
     if isDone then fail ErrConnDone
     else
       seqA (modA (updConn c (\<lambda>x. x\<lparr>cn_done := True\<rparr>)))
      (seqA (awaitReaders Q (\<lambda>w. cn_readers (connOf w c)))
      (thenA (getA (\<lambda>w. cn_dc (connOf w c))) (\<lambda>dcO. case dcO of
          None \<Rightarrow> crash NilDeref
        | Some dc \<Rightarrow>
            seqA (releaseConn (q_env Q) dc err)
           (seqA (modA (updConn c (\<lambda>x. x\<lparr>cn_dc := None, cn_db := None\<rparr>))) (ofErr err))))))"

definition Conn_closemuRUnlockCondReleaseConn ::
    "('c, 'm) req \<Rightarrow> connid \<Rightarrow> gerr option \<Rightarrow> ('c, 'm, unit) pact" where
  "Conn_closemuRUnlockCondReleaseConn Q c err = thenA (getA (\<lambda>w. cn_readers (connOf w c))) (\<lambda>n.
     if n = 0 then crash FatalUnlock
     else
       seqA (modA (updConn c (\<lambda>x. x\<lparr>cn_readers := cn_readers x - 1\<rparr>)))
         (if err = Some ErrBadConn then thenA (tryA (Conn_close Q c err)) (\<lambda>_. ret ()) else ret ()))"

text \<open>
  Calling a release function. The one of a statement's rows also ends their dependency on the
  statement, whose error is dropped.
\<close>

fun runRelease :: "('c, 'm) req \<Rightarrow> release \<Rightarrow> gerr option \<Rightarrow> ('c, 'm, unit) pact" where
  "runRelease Q (RelPut dc) err = releaseConn (q_env Q) dc err"
| "runRelease Q (RelTx t) err = Tx_closemuRUnlockRelease t"
| "runRelease Q (RelConn c) err = Conn_closemuRUnlockCondReleaseConn Q c err"
| "runRelease Q (RelRows rel s r) err =
     seqA (runRelease Q rel err)
    (thenA (getA (\<lambda>w. st_db (w_st w s))) (\<lambda>p.
     thenA (tryA (removeDep (q_env Q) p (OStmt s) (ORows r))) (\<lambda>_. ret ())))"

text \<open>\<open>defer func() { release(err) }()\<close> around a function with the named result \<open>err\<close>.\<close>

definition releasing ::
    "('c, 'm) req \<Rightarrow> release \<Rightarrow> ('c, 'm, 'a) pact \<Rightarrow> ('c, 'm, 'a) pact" where
  "releasing Q rel body = thenA (tryA body) (\<lambda>r. seqA (runRelease Q rel (failed r)) (ofSum r))"

text \<open>A release function called only on the error path: the result owns the connection.\<close>

definition releasingOnError ::
    "('c, 'm) req \<Rightarrow> release \<Rightarrow> ('c, 'm, 'a) pact \<Rightarrow> ('c, 'm, 'a) pact" where
  "releasingOnError Q rel body = thenA (tryA body) (\<lambda>r. case r of
       Inl e \<Rightarrow> seqA (runRelease Q rel (Some e)) (fail e)
     | Inr x \<Rightarrow> ret x)"

section \<open>Rows\<close>

definition allocRows :: "(rowsid \<Rightarrow> Rows) \<Rightarrow> ('c, 'm, rowsid) pact" where
  "allocRows mk = thenA (getA (\<lambda>w. s_nextRows (w_sess w))) (\<lambda>r.
     seqA (modA (updSess (\<lambda>z. z\<lparr>s_nextRows := Suc r, s_rows := (s_rows z)(r := mk r)\<rparr>))) (ret r))"

text \<open>
  \<open>initContextClose\<close> starts \<open>awaitDone\<close> unless neither context can be done; the context of a
  transaction always can.
\<close>

definition initContextClose :: "('c, 'm) req \<Rightarrow> bool \<Rightarrow> rowsid \<Rightarrow> ('c, 'm, unit) pact" where
  "initContextClose Q inTx r = modA (updRows r (\<lambda>x. x\<lparr>rs_cancel := q_ctxHasDone Q \<or> inTx\<rparr>))"

text \<open>
  \<open>(*Rows).close\<close>. Cancelling the context wakes \<open>awaitDone\<close>, which finds the rows closed.
\<close>

definition Rows_close :: "('c, 'm) req \<Rightarrow> rowsid \<Rightarrow> gerr option \<Rightarrow> ('c, 'm, unit) pact" where
  "Rows_close Q r err = thenA (getA (\<lambda>w. rowsOf w r)) (\<lambda>rs.
     if rs_closed rs then ret ()
     else
       seqA (modA (updRows r (\<lambda>x. x\<lparr>rs_closed := True,
               rs_lasterr := (if rs_lasterr rs = None then err else rs_lasterr rs)\<rparr>)))
      (thenA (withLock (DcMu (rs_dc rs)) (case rs_rowsi rs of
                  None \<Rightarrow> crash NilDeref
                | Some h \<Rightarrow> seqA (logA (CallRowsClose h)) (ret (mRowsClose (q_drv Q) h)))) (\<lambda>e.
       seqA (case rs_closeStmt rs of None \<Rightarrow> ret ()
               | Some ds \<Rightarrow> thenA (dsClose (q_env Q) ds) (\<lambda>_. ret ()))
      (seqA (runRelease Q (rs_release rs) e) (ofErr e)))))"

section \<open>Operations on a given connection\<close>

text \<open>
  \<open>execDC\<close>: the connection's own \<open>Exec\<close> if the driver has it and does not skip, otherwise a
  statement that is prepared, executed and closed.
\<close>

definition execPrepared ::
    "('c, 'm) req \<Rightarrow> dcid \<Rightarrow> string \<Rightarrow> garg list \<Rightarrow> ('c, 'm, dcid \<times> nat) pact" where
  "execPrepared Q dc query args =
     thenA (withLock (DcMu dc) (thenA (ciOf dc) (\<lambda>ci. ctxDriverPrepare Q ci query))) (\<lambda>si.
     thenA (allocDs dc si) (\<lambda>ds.
     thenA (getA (\<lambda>w. dc_ci (w_dc w dc))) (\<lambda>ci.
     thenA (tryA (resultFromStatement Q ci ds args)) (\<lambda>r.
     thenA (dsClose (q_env Q) ds) (\<lambda>_.
     thenA (ofSum r) (\<lambda>resi. ret (dc, resi)))))))"

definition execDC :: "('c, 'm) req \<Rightarrow> dcid \<Rightarrow> release \<Rightarrow> string \<Rightarrow> garg list
    \<Rightarrow> ('c, 'm, dcid \<times> nat) pact" where
  "execDC Q dc release query args = releasing Q release
     (thenA (getA (\<lambda>w. dc_ci (w_dc w dc))) (\<lambda>ci.
      let execerCtx = Option.bind ci (ifExecerCtx (q_drv Q));
          execer = (if execerCtx = None then Option.bind ci (ifExecer (q_drv Q)) else None)
      in if execerCtx \<noteq> None \<or> execer \<noteq> None then
           thenA (tryA (withLock (DcMu dc)
                    (thenA (ofSum (argsFor (q_drv Q) ci None args)) (\<lambda>nvdargs.
                     ctxDriverExec Q execerCtx execer query nvdargs)))) (\<lambda>r.
             case r of
               Inr resi \<Rightarrow> ret (dc, resi)
             | Inl e \<Rightarrow> if e \<noteq> ErrSkip then fail e else execPrepared Q dc query args)
         else execPrepared Q dc query args))"

definition queryPrepared :: "('c, 'm) req \<Rightarrow> bool \<Rightarrow> dcid \<Rightarrow> release \<Rightarrow> string \<Rightarrow> garg list
    \<Rightarrow> ('c, 'm, rowsid) pact" where
  "queryPrepared Q inTx dc release query args =
     thenA (releasingOnError Q release
              (withLock (DcMu dc) (thenA (ciOf dc) (\<lambda>ci. ctxDriverPrepare Q ci query)))) (\<lambda>si.
     thenA (allocDs dc si) (\<lambda>ds.
     thenA (getA (\<lambda>w. dc_ci (w_dc w dc))) (\<lambda>ci.
     thenA (tryA (rowsiFromStatement Q ci ds args)) (\<lambda>r. case r of
         Inl e \<Rightarrow> thenA (dsClose (q_env Q) ds) (\<lambda>_. seqA (runRelease Q release (Some e)) (fail e))
       | Inr rowsi \<Rightarrow>
           thenA (allocRows (\<lambda>_. \<lparr>rs_dc = dc, rs_release = release, rs_rowsi = Some rowsi,
                    rs_cancel = False, rs_closeStmt = Some ds, rs_closed = False,
                    rs_lasterr = None, rs_lastcols = None\<rparr>)) (\<lambda>rows.
           seqA (initContextClose Q inTx rows) (ret rows))))))"

definition queryDC :: "('c, 'm) req \<Rightarrow> bool \<Rightarrow> dcid \<Rightarrow> release \<Rightarrow> string \<Rightarrow> garg list
    \<Rightarrow> ('c, 'm, rowsid) pact" where
  "queryDC Q inTx dc release query args =
     thenA (getA (\<lambda>w. dc_ci (w_dc w dc))) (\<lambda>ci.
      let queryerCtx = Option.bind ci (ifQueryerCtx (q_drv Q));
          queryer = (if queryerCtx = None then Option.bind ci (ifQueryer (q_drv Q)) else None)
      in if queryerCtx \<noteq> None \<or> queryer \<noteq> None then
           thenA (tryA (withLock (DcMu dc)
                    (thenA (ofSum (argsFor (q_drv Q) ci None args)) (\<lambda>nvdargs.
                     ctxDriverQuery Q queryerCtx queryer query nvdargs)))) (\<lambda>r.
             case r of
               Inr rowsi \<Rightarrow>
                 thenA (allocRows (\<lambda>_. \<lparr>rs_dc = dc, rs_release = release, rs_rowsi = Some rowsi,
                          rs_cancel = False, rs_closeStmt = None, rs_closed = False,
                          rs_lasterr = None, rs_lastcols = None\<rparr>)) (\<lambda>rows.
                 seqA (initContextClose Q inTx rows) (ret rows))
             | Inl e \<Rightarrow>
                 if e \<noteq> ErrSkip then seqA (runRelease Q release (Some e)) (fail e)
                 else queryPrepared Q inTx dc release query args)
         else queryPrepared Q inTx dc release query args)"

text \<open>\<open>pingDC\<close>: a driver without \<open>Ping\<close> is taken to be alive.\<close>

definition pingDC :: "('c, 'm) req \<Rightarrow> dcid \<Rightarrow> release \<Rightarrow> ('c, 'm, unit) pact" where
  "pingDC Q dc release = releasing Q release
     (thenA (getA (\<lambda>w. dc_ci (w_dc w dc))) (\<lambda>ci. case Option.bind ci (ifPinger (q_drv Q)) of
         None \<Rightarrow> ret ()
       | Some err \<Rightarrow> withLock (DcMu dc) (seqA (logA CallPing) (ofErr err))))"

definition allocSt :: "Stmt \<Rightarrow> ('c, 'm, stid) pact" where
  "allocSt st = thenA (getA (\<lambda>w. s_nextSt (w_sess w))) (\<lambda>s.
     seqA (modA (updSess (\<lambda>z. z\<lparr>s_nextSt := Suc s\<rparr>)))
    (seqA (modA (updSt s (\<lambda>_. st))) (ret s)))"

definition prepareDC :: "('c, 'm) req \<Rightarrow> poolid \<Rightarrow> dcid \<Rightarrow> release \<Rightarrow> stmtConnGrabber option \<Rightarrow> string
    \<Rightarrow> ('c, 'm, stid) pact" where
  "prepareDC Q p dc release cg query = releasing Q release
     (thenA (withLock (DcMu dc) (prepareLocked Q dc cg query)) (\<lambda>ds.
      thenA (getA (\<lambda>w. cp_numClosed (w_pool w p))) (\<lambda>numClosed.
      thenA (allocSt \<lparr>st_db = p, st_query = query, st_stickyErr = None, st_cg = cg, st_cgds = Some ds,
               st_parent = None, st_closed = False,
               st_css = (if cg = None then [(dc, ds)] else []),
               st_lastNumClosed = (if cg = None then numClosed else 0)\<rparr>) (\<lambda>s.
      seqA (if cg = None then addDep p (OStmt s) (OStmt s) else ret ()) (ret s)))))"

definition allocTx :: "Tx \<Rightarrow> ('c, 'm, txid) pact" where
  "allocTx tx = thenA (getA (\<lambda>w. s_nextTx (w_sess w))) (\<lambda>t.
     seqA (modA (updSess (\<lambda>z. z\<lparr>s_nextTx := Suc t, s_tx := (s_tx z)(t := tx)\<rparr>))) (ret t))"

definition beginDC :: "('c, 'm) req \<Rightarrow> poolid \<Rightarrow> dcid \<Rightarrow> release \<Rightarrow> TxOptions option
    \<Rightarrow> ('c, 'm, txid) pact" where
  "beginDC Q p dc release opts =
     thenA (releasingOnError Q release (withLock (DcMu dc) (thenA (ciOf dc) (\<lambda>ci.
        let hasSessionResetter = drvResetSession (q_env Q) ci \<noteq> None;
            hasConnectionValidator = drvIsValid (q_env Q) ci \<noteq> None
        in thenA (ctxDriverBegin Q opts ci) (\<lambda>txi.
             ret (txi, hasSessionResetter \<and> hasConnectionValidator)))))) (\<lambda>(txi, keepConnOnRollback).
     allocTx \<lparr>tx_db = p, tx_dc = Some dc, tx_txi = Some txi, tx_release = release, tx_done = False,
        tx_keepConnOnRollback = keepConnOnRollback, tx_stmts = [], tx_cancelled = False,
        tx_readers = 0\<rparr>)"

section \<open>Prepared statements\<close>

text \<open>
  \<open>removeClosedStmtLocked\<close>: a closed connection's entry is overwritten by the last entry and the
  list shortened, so the order changes.
\<close>

function removeClosedLoop ::
    "(dcid \<Rightarrow> bool) \<Rightarrow> nat \<Rightarrow> (dcid \<times> dsid) list \<Rightarrow> (dcid \<times> dsid) list" where
  "removeClosedLoop isClosed i css =
     (if i < length css then
        if isClosed (fst (css ! i)) then removeClosedLoop isClosed i (butlast (css[i := last css]))
        else removeClosedLoop isClosed (i + 1) css
      else css)"
  by pat_completeness auto
termination by (relation "measure (\<lambda>(_, i, css). length css - i)") auto

declare removeClosedLoop.simps [simp del]

definition removeClosedStmtLocked :: "stid \<Rightarrow> ('c, 'm, unit) pact" where
  "removeClosedStmtLocked s = thenA (getA (\<lambda>w. w_st w s)) (\<lambda>st.
     thenA (getA (\<lambda>w. cp_numClosed (w_pool w (st_db st)))) (\<lambda>dbClosed.
     let t = min (length (st_css st) div 2 + 1) 10 in
     if dbClosed - st_lastNumClosed st < of_nat t then ret ()
     else
       seqA (lockA (PoolMu (st_db st)))
      (thenA (getA (\<lambda>w d. dc_dbmuClosed (w_dc w d))) (\<lambda>isClosed.
       seqA (modA (updSt s (\<lambda>x. x\<lparr>st_css := removeClosedLoop isClosed 0 (st_css x)\<rparr>)))
      (seqA (unlockA (PoolMu (st_db st)))
         (modA (updSt s (\<lambda>x. x\<lparr>st_lastNumClosed := dbClosed\<rparr>))))))))"

definition prepareOnConnLocked :: "('c, 'm) req \<Rightarrow> stid \<Rightarrow> dcid \<Rightarrow> ('c, 'm, dsid) pact" where
  "prepareOnConnLocked Q s dc = thenA (getA (\<lambda>w. w_st w s)) (\<lambda>st.
     thenA (prepareLocked Q dc (st_cg st) (st_query st)) (\<lambda>ds.
     seqA (lockA (StmtMu s))
    (seqA (modA (updSt s (\<lambda>x. x\<lparr>st_css := st_css x @ [(dc, ds)]\<rparr>)))
    (seqA (unlockA (StmtMu s)) (ret ds)))))"

text \<open>
  \<open>grabConn\<close> of a transaction and of a connection. The nil connection a done one would hand out
  is dereferenced by every caller.
\<close>

definition nonNil :: "'a option \<Rightarrow> ('c, 'm, 'a) pact" where
  "nonNil x = (case x of None \<Rightarrow> crash NilDeref | Some y \<Rightarrow> ret y)"

definition Tx_grabConn :: "('c, 'm) req \<Rightarrow> txid \<Rightarrow> ('c, 'm, dcid \<times> release) pact" where
  "Tx_grabConn Q t =
     seqA (ctxCheck Q)
    (seqA (modA (updTx t (\<lambda>x. x\<lparr>tx_readers := tx_readers x + 1\<rparr>)))
    (thenA (getA (\<lambda>w. txOf w t)) (\<lambda>tx.
       if tx_done tx then seqA (Tx_closemuRUnlockRelease t) (fail ErrTxDone)
       else thenA (nonNil (tx_dc tx)) (\<lambda>dc. ret (dc, RelTx t)))))"

definition Conn_grabConn :: "connid \<Rightarrow> ('c, 'm, dcid \<times> release) pact" where
  "Conn_grabConn c = thenA (getA (\<lambda>w. connOf w c)) (\<lambda>cn.
     if cn_done cn then fail ErrConnDone
     else seqA (modA (updConn c (\<lambda>x. x\<lparr>cn_readers := cn_readers x + 1\<rparr>)))
            (thenA (nonNil (cn_dc cn)) (\<lambda>dc. ret (dc, RelConn c))))"

definition grabConn :: "('c, 'm) req \<Rightarrow> stmtConnGrabber \<Rightarrow> ('c, 'm, dcid \<times> release) pact" where
  "grabConn Q cg = (case cg of GrabTx t \<Rightarrow> Tx_grabConn Q t | GrabConn c \<Rightarrow> Conn_grabConn c)"

definition connStmt :: "('c, 'm) req \<Rightarrow> stid \<Rightarrow> connReuseStrategy
    \<Rightarrow> ('c, 'm, dcid \<times> release \<times> dsid) pact" where
  "connStmt Q s strategy =
     seqA (thenA (getA (\<lambda>w. st_stickyErr (w_st w s))) ofErr)
    (seqA (lockA (StmtMu s))
    (thenA (getA (\<lambda>w. w_st w s)) (\<lambda>st.
       if st_closed st then
         seqA (unlockA (StmtMu s)) (fail (ErrMsg ''sql: statement is closed''))
       else (case st_cg st of
         Some cg \<Rightarrow>
           seqA (unlockA (StmtMu s))
          (thenA (grabConn Q cg) (\<lambda>(dc, release).
           thenA (nonNil (st_cgds st)) (\<lambda>ds. ret (dc, release, ds))))
       | None \<Rightarrow>
           seqA (removeClosedStmtLocked s)
          (seqA (unlockA (StmtMu s))
          (thenA (connGet (q_env Q) (q_others Q) (st_db st) strategy) (\<lambda>dcO.
           thenA (nonNil dcO) (\<lambda>dc.
           seqA (lockA (StmtMu s))
          (thenA (getA (\<lambda>w. map_of (st_css (w_st w s)) dc)) (\<lambda>dsO.
           seqA (unlockA (StmtMu s))
             (case dsO of
                Some ds \<Rightarrow> ret (dc, RelPut dc, ds)
              | None \<Rightarrow>
                  thenA (tryA (withLock (DcMu dc) (prepareOnConnLocked Q s dc))) (\<lambda>r. case r of
                      Inl e \<Rightarrow> seqA (releaseConn (q_env Q) dc (Some e)) (fail e)
                    | Inr ds \<Rightarrow> ret (dc, RelPut dc, ds)))))))))))))"

text \<open>The loops of \<open>ExecContext\<close> and \<open>QueryContext\<close>; \<open>Qs i\<close> is attempt \<open>i\<close>.\<close>

definition maxBadConnRetries :: nat where
  "maxBadConnRetries = 2"

definition stmtAttempt :: "('c, 'm) req \<Rightarrow> stid \<Rightarrow> garg list \<Rightarrow> connReuseStrategy
    \<Rightarrow> ('c, 'm, dcid \<times> nat) pact" where
  "stmtAttempt Q s args strategy =
     thenA (connStmt Q s strategy) (\<lambda>(dc, release, ds).
     thenA (getA (\<lambda>w. dc_ci (w_dc w dc))) (\<lambda>ci.
     thenA (tryA (resultFromStatement Q ci ds args)) (\<lambda>r.
     seqA (runRelease Q release (failed r)) (thenA (ofSum r) (\<lambda>resi. ret (dc, resi))))))"

definition stmtQueryAttempt :: "('c, 'm) req \<Rightarrow> stid \<Rightarrow> garg list \<Rightarrow> connReuseStrategy
    \<Rightarrow> ('c, 'm, rowsid) pact" where
  "stmtQueryAttempt Q s args strategy =
     thenA (connStmt Q s strategy) (\<lambda>(dc, release, ds).
     thenA (getA (\<lambda>w. dc_ci (w_dc w dc))) (\<lambda>ci.
     thenA (tryA (rowsiFromStatement Q ci ds args)) (\<lambda>r. case r of
         Inl e \<Rightarrow> seqA (runRelease Q release (Some e)) (fail e)
       | Inr rowsi \<Rightarrow>
           thenA (allocRows (\<lambda>rows. \<lparr>rs_dc = dc, rs_release = RelRows release s rows,
                    rs_rowsi = Some rowsi, rs_cancel = False, rs_closeStmt = None, rs_closed = False,
                    rs_lasterr = None, rs_lastcols = None\<rparr>)) (\<lambda>rows.
           thenA (getA (\<lambda>w. w_st w s)) (\<lambda>st.
           seqA (addDep (st_db st) (OStmt s) (ORows rows))
          (seqA (initContextClose Q (case st_cg st of Some (GrabTx _) \<Rightarrow> True | _ \<Rightarrow> False) rows)
             (ret rows)))))))"

fun stmtLoop :: "(nat \<Rightarrow> connReuseStrategy \<Rightarrow> ('c, 'm, 'a) pact) \<Rightarrow> nat \<Rightarrow> nat \<Rightarrow> ('c, 'm, 'a) pact" where
  "stmtLoop attempt i 0 = fail ErrBadConn"
| "stmtLoop attempt i (Suc n) =
     thenA (tryA (attempt i (if i = maxBadConnRetries then alwaysNewConn else cachedOrNewConn)))
       (\<lambda>r. case r of
          Inl e \<Rightarrow> if e = ErrBadConn then stmtLoop attempt (i + 1) n else fail e
        | Inr x \<Rightarrow> ret x)"

definition Stmt_ExecContext :: "(nat \<Rightarrow> ('c, 'm) req) \<Rightarrow> stid \<Rightarrow> garg list
    \<Rightarrow> ('c, 'm, dcid \<times> nat) pact" where
  "Stmt_ExecContext Qs s args =
     stmtLoop (\<lambda>i strategy. stmtAttempt (Qs i) s args strategy) 0 (maxBadConnRetries + 1)"

definition Stmt_QueryContext :: "(nat \<Rightarrow> ('c, 'm) req) \<Rightarrow> stid \<Rightarrow> garg list
    \<Rightarrow> ('c, 'm, rowsid) pact" where
  "Stmt_QueryContext Qs s args =
     stmtLoop (\<lambda>i strategy. stmtQueryAttempt (Qs i) s args strategy) 0 (maxBadConnRetries + 1)"

definition Stmt_Close :: "('c, 'm) req \<Rightarrow> stid \<Rightarrow> ('c, 'm, unit) pact" where
  "Stmt_Close Q s =
     seqA (thenA (getA (\<lambda>w. st_stickyErr (w_st w s))) ofErr)
    (seqA (lockA (StmtMu s))
    (thenA (getA (\<lambda>w. w_st w s)) (\<lambda>st.
       if st_closed st then unlockA (StmtMu s)
       else
         seqA (modA (updSt s (\<lambda>x. x\<lparr>st_closed := True, st_cgds := None\<rparr>)))
        (seqA (unlockA (StmtMu s))
           (if st_cg st = None then removeDep (q_env Q) (st_db st) (OStmt s) (OStmt s)
            else (case st_parent st of
                    Some ps \<Rightarrow> removeDep (q_env Q) (st_db st) (OStmt ps) (OStmt s)
                  | None \<Rightarrow> thenA (nonNil (st_cgds st)) (\<lambda>txds.
                              thenA (dsClose (q_env Q) txds) ofErr)))))))"

lemmas session_defs = releasing_def releasingOnError_def ofSum_def ofErr_def failed_def

end
