(* ===== verification/SessionApi.thy ===== *)
theory SessionApi
  imports Session
begin

text \<open>
  The operations a program calls: those of a pool with their retries (\<open>conn_pool_exec.go\<close>,
  \<open>conn_pool_query.go\<close>, \<open>conn_pool_prepare.go\<close>, \<open>conn_pool_begin.go\<close>,
  \<open>conn_pool_ping.go\<close>, \<open>Conn\<close> of \<open>conn_pool.go\<close>), those of a single connection (\<open>conn.go\<close>)
  and those of a transaction (\<open>transaction.go\<close>).
\<close>

section \<open>Retries\<close>

text \<open>
  The loop of \<open>maxBadConnRetries\<close> attempts with \<open>cachedOrNewConn\<close> that ends at the first
  result other than \<open>ErrBadConn\<close>; \<open>n\<close> further attempts remain after attempt \<open>i\<close>.
\<close>

fun cachedTries :: "(nat \<Rightarrow> connReuseStrategy \<Rightarrow> ('c, 'm, 'a) pact) \<Rightarrow> nat \<Rightarrow> nat
    \<Rightarrow> ('c, 'm, gerr + 'a) pact" where
  "cachedTries attempt i 0 = tryA (attempt i cachedOrNewConn)"
| "cachedTries attempt i (Suc n) = thenA (tryA (attempt i cachedOrNewConn)) (\<lambda>r. case r of
      Inl e \<Rightarrow> if e = ErrBadConn then cachedTries attempt (i + 1) n else ret r
    | Inr x \<Rightarrow> ret r)"

definition withRetry :: "(nat \<Rightarrow> connReuseStrategy \<Rightarrow> ('c, 'm, 'a) pact) \<Rightarrow> ('c, 'm, 'a) pact" where
  "withRetry attempt = thenA (cachedTries attempt 0 (maxBadConnRetries - 1)) (\<lambda>r. case r of
      Inl e \<Rightarrow> if e = ErrBadConn then attempt maxBadConnRetries alwaysNewConn else fail e
    | Inr x \<Rightarrow> ret x)"

text \<open>\<open>conn\<close> as the callers use it: they dereference the connection.\<close>

definition takeConn :: "('c, 'm) req \<Rightarrow> poolid \<Rightarrow> connReuseStrategy \<Rightarrow> ('c, 'm, dcid) pact" where
  "takeConn Q p strategy = thenA (connGet (q_env Q) (q_others Q) p strategy) nonNil"

section \<open>Operations of a pool\<close>

definition pool_exec :: "poolid \<Rightarrow> string \<Rightarrow> garg list \<Rightarrow> ('c, 'm) req \<Rightarrow> connReuseStrategy
    \<Rightarrow> ('c, 'm, dcid \<times> nat) pact" where
  "pool_exec p query args Q strategy =
     thenA (takeConn Q p strategy) (\<lambda>dc. execDC Q dc (RelPut dc) query args)"

definition pool_query :: "poolid \<Rightarrow> string \<Rightarrow> garg list \<Rightarrow> ('c, 'm) req \<Rightarrow> connReuseStrategy
    \<Rightarrow> ('c, 'm, rowsid) pact" where
  "pool_query p query args Q strategy =
     thenA (takeConn Q p strategy) (\<lambda>dc. queryDC Q False dc (RelPut dc) query args)"

definition pool_prepare :: "poolid \<Rightarrow> string \<Rightarrow> ('c, 'm) req \<Rightarrow> connReuseStrategy
    \<Rightarrow> ('c, 'm, stid) pact" where
  "pool_prepare p query Q strategy =
     thenA (takeConn Q p strategy) (\<lambda>dc. prepareDC Q p dc (RelPut dc) None query)"

definition pool_begin :: "poolid \<Rightarrow> TxOptions option \<Rightarrow> ('c, 'm) req \<Rightarrow> connReuseStrategy
    \<Rightarrow> ('c, 'm, txid) pact" where
  "pool_begin p opts Q strategy =
     thenA (takeConn Q p strategy) (\<lambda>dc. beginDC Q p dc (RelPut dc) opts)"

definition ExecContext :: "(nat \<Rightarrow> ('c, 'm) req) \<Rightarrow> poolid \<Rightarrow> string \<Rightarrow> garg list
    \<Rightarrow> ('c, 'm, dcid \<times> nat) pact" where
  "ExecContext Qs p query args = withRetry (\<lambda>i. pool_exec p query args (Qs i))"

definition QueryContext :: "(nat \<Rightarrow> ('c, 'm) req) \<Rightarrow> poolid \<Rightarrow> string \<Rightarrow> garg list
    \<Rightarrow> ('c, 'm, rowsid) pact" where
  "QueryContext Qs p query args = withRetry (\<lambda>i. pool_query p query args (Qs i))"

definition PrepareContext :: "(nat \<Rightarrow> ('c, 'm) req) \<Rightarrow> poolid \<Rightarrow> string \<Rightarrow> ('c, 'm, stid) pact" where
  "PrepareContext Qs p query = withRetry (\<lambda>i. pool_prepare p query (Qs i))"

definition BeginTx :: "(nat \<Rightarrow> ('c, 'm) req) \<Rightarrow> poolid \<Rightarrow> TxOptions option \<Rightarrow> ('c, 'm, txid) pact" where
  "BeginTx Qs p opts = withRetry (\<lambda>i. pool_begin p opts (Qs i))"

text \<open>Only the taking of the connection is retried here.\<close>

definition PingContext :: "(nat \<Rightarrow> ('c, 'm) req) \<Rightarrow> poolid \<Rightarrow> ('c, 'm, unit) pact" where
  "PingContext Qs p =
     thenA (withRetry (\<lambda>i. connGet (q_env (Qs i)) (q_others (Qs i)) p)) (\<lambda>dcO.
     thenA (nonNil dcO) (\<lambda>dc. pingDC (Qs maxBadConnRetries) dc (RelPut dc)))"

definition allocConn :: "Conn \<Rightarrow> ('c, 'm, connid) pact" where
  "allocConn cn = thenA (getA (\<lambda>w. s_nextConn (w_sess w))) (\<lambda>c.
     seqA (modA (updSess (\<lambda>z. z\<lparr>s_nextConn := Suc c, s_conn := (s_conn z)(c := cn)\<rparr>))) (ret c))"

definition ConnPool_Conn :: "(nat \<Rightarrow> ('c, 'm) req) \<Rightarrow> poolid \<Rightarrow> ('c, 'm, connid) pact" where
  "ConnPool_Conn Qs p =
     thenA (withRetry (\<lambda>i. connGet (q_env (Qs i)) (q_others (Qs i)) p)) (\<lambda>dcO.
     allocConn \<lparr>cn_db = Some p, cn_dc = dcO, cn_done = False, cn_readers = 0\<rparr>)"

section \<open>Operations of a single connection\<close>

definition Conn_PingContext :: "('c, 'm) req \<Rightarrow> connid \<Rightarrow> ('c, 'm, unit) pact" where
  "Conn_PingContext Q c = thenA (Conn_grabConn c) (\<lambda>(dc, release). pingDC Q dc release)"

definition Conn_ExecContext :: "('c, 'm) req \<Rightarrow> connid \<Rightarrow> string \<Rightarrow> garg list
    \<Rightarrow> ('c, 'm, dcid \<times> nat) pact" where
  "Conn_ExecContext Q c query args =
     thenA (Conn_grabConn c) (\<lambda>(dc, release). execDC Q dc release query args)"

definition Conn_QueryContext :: "('c, 'm) req \<Rightarrow> connid \<Rightarrow> string \<Rightarrow> garg list
    \<Rightarrow> ('c, 'm, rowsid) pact" where
  "Conn_QueryContext Q c query args =
     thenA (Conn_grabConn c) (\<lambda>(dc, release). queryDC Q False dc release query args)"

definition Conn_PrepareContext :: "('c, 'm) req \<Rightarrow> connid \<Rightarrow> string \<Rightarrow> ('c, 'm, stid) pact" where
  "Conn_PrepareContext Q c query =
     thenA (Conn_grabConn c) (\<lambda>(dc, release).
     thenA (thenA (getA (\<lambda>w. cn_db (connOf w c))) nonNil) (\<lambda>p.
     prepareDC Q p dc release (Some (GrabConn c)) query))"

definition Conn_BeginTx :: "('c, 'm) req \<Rightarrow> connid \<Rightarrow> TxOptions option \<Rightarrow> ('c, 'm, txid) pact" where
  "Conn_BeginTx Q c opts =
     thenA (Conn_grabConn c) (\<lambda>(dc, release).
     thenA (thenA (getA (\<lambda>w. cn_db (connOf w c))) nonNil) (\<lambda>p. beginDC Q p dc release opts))"

text \<open>
  \<open>Raw\<close> runs the caller's \<open>f\<close> on the driver's connection with its lock held. When \<open>f\<close> panics
  the connection is released as a bad one and the panic goes on.
\<close>

definition Conn_Raw :: "('c, 'm) req \<Rightarrow> connid \<Rightarrow> (nat option \<Rightarrow> unit res) \<Rightarrow> ('c, 'm, unit) pact" where
  "Conn_Raw Q c f =
     thenA (Conn_grabConn c) (\<lambda>(dc, release).
     seqA (lockA (DcMu dc))
    (thenA (getA (\<lambda>w. dc_ci (w_dc w dc))) (\<lambda>ci.
     seqA (unlockA (DcMu dc))
       (case f ci of
          Ok _ \<Rightarrow> runRelease Q release None
        | Fail e \<Rightarrow> seqA (runRelease Q release (Some e)) (fail e)
        | Crash h \<Rightarrow> seqA (runRelease Q release (Some ErrBadConn)) (crash h)))))"

definition Conn_Close :: "('c, 'm) req \<Rightarrow> connid \<Rightarrow> ('c, 'm, unit) pact" where
  "Conn_Close Q c = Conn_close Q c None"

section \<open>Operations of a transaction\<close>

text \<open>Every statement of the transaction is closed; the errors are dropped.\<close>

fun closeStmts :: "('c, 'm) req \<Rightarrow> stid list \<Rightarrow> ('c, 'm, unit) pact" where
  "closeStmts Q [] = ret ()"
| "closeStmts Q (s # ss) = thenA (tryA (Stmt_Close Q s)) (\<lambda>_. closeStmts Q ss)"

definition Tx_closePrepared :: "('c, 'm) req \<Rightarrow> txid \<Rightarrow> ('c, 'm, unit) pact" where
  "Tx_closePrepared Q t = thenA (getA (\<lambda>w. tx_stmts (txOf w t))) (closeStmts Q)"

definition Tx_close :: "('c, 'm) req \<Rightarrow> txid \<Rightarrow> gerr option \<Rightarrow> ('c, 'm, unit) pact" where
  "Tx_close Q t err = thenA (getA (\<lambda>w. tx_release (txOf w t))) (\<lambda>rel.
     seqA (runRelease Q rel err) (modA (updTx t (\<lambda>x. x\<lparr>tx_dc := None, tx_txi := None\<rparr>))))"

text \<open>
  The end shared by \<open>Commit\<close> and \<open>rollback\<close>: the transaction is marked done by the caller;
  its context is cancelled, running queries are awaited, the driver's transaction ends with
  \<open>call\<close>, the prepared statements are closed unless the connection is broken, and the connection
  is released with the error, or with \<open>ErrBadConn\<close> to discard it.
\<close>

definition Tx_finish :: "('c, 'm) req \<Rightarrow> txid \<Rightarrow> (nat \<Rightarrow> drvCall) \<Rightarrow> (nat \<Rightarrow> gerr option) \<Rightarrow> bool
    \<Rightarrow> ('c, 'm, unit) pact" where
  "Tx_finish Q t call answer discardConn =
     seqA (modA (updTx t (\<lambda>x. x\<lparr>tx_cancelled := True\<rparr>)))
    (seqA (awaitReaders Q (\<lambda>w. tx_readers (txOf w t)))
    (thenA (getA (\<lambda>w. txOf w t)) (\<lambda>tx.
     thenA (nonNil (tx_dc tx)) (\<lambda>dc.
     thenA (withLock (DcMu dc) (thenA (nonNil (tx_txi tx)) (\<lambda>txi.
              seqA (logA (call txi)) (ret (answer txi))))) (\<lambda>err.
     seqA (if err \<noteq> Some ErrBadConn then Tx_closePrepared Q t else ret ())
    (let err' = (if discardConn then Some ErrBadConn else err)
     in seqA (Tx_close Q t err') (ofErr err')))))))"

text \<open>
  The transaction's own context is done when the transaction cancelled it, or when the context
  it was begun with is (\<open>q_ctxErr\<close>). \<open>ErrCtx 0\<close> is \<open>context.Canceled\<close>.
\<close>

definition txCtxErr :: "('c, 'm) req \<Rightarrow> Tx \<Rightarrow> gerr option" where
  "txCtxErr Q tx = (if tx_cancelled tx then Some (ErrCtx 0) else q_ctxErr Q)"

definition Tx_Commit :: "('c, 'm) req \<Rightarrow> txid \<Rightarrow> ('c, 'm, unit) pact" where
  "Tx_Commit Q t = thenA (getA (\<lambda>w. txOf w t)) (\<lambda>tx.
     case txCtxErr Q tx of
       Some e \<Rightarrow> if tx_done tx then fail ErrTxDone else fail e
     | None \<Rightarrow>
         if tx_done tx then fail ErrTxDone
         else seqA (modA (updTx t (\<lambda>x. x\<lparr>tx_done := True\<rparr>)))
                (Tx_finish Q t CallCommit (mCommit (q_drv Q)) False))"

definition Tx_rollback :: "('c, 'm) req \<Rightarrow> txid \<Rightarrow> bool \<Rightarrow> ('c, 'm, unit) pact" where
  "Tx_rollback Q t discardConn = thenA (getA (\<lambda>w. tx_done (txOf w t))) (\<lambda>isDone.
     if isDone then fail ErrTxDone
     else seqA (modA (updTx t (\<lambda>x. x\<lparr>tx_done := True\<rparr>)))
            (Tx_finish Q t CallRollback (mRollback (q_drv Q)) discardConn))"

definition Tx_Rollback :: "('c, 'm) req \<Rightarrow> txid \<Rightarrow> ('c, 'm, unit) pact" where
  "Tx_Rollback Q t = Tx_rollback Q t False"

text \<open>\<open>awaitDone\<close> after the context is done: its own goroutine drops the error.\<close>

definition Tx_awaitDone :: "('c, 'm) req \<Rightarrow> txid \<Rightarrow> ('c, 'm, unit) pact" where
  "Tx_awaitDone Q t = thenA (getA (\<lambda>w. tx_keepConnOnRollback (txOf w t))) (\<lambda>keep.
     thenA (tryA (Tx_rollback Q t (\<not> keep))) (\<lambda>_. ret ()))"

definition addTxStmt :: "txid \<Rightarrow> stid \<Rightarrow> ('c, 'm, unit) pact" where
  "addTxStmt t s = modA (updTx t (\<lambda>x. x\<lparr>tx_stmts := tx_stmts x @ [s]\<rparr>))"

definition Tx_PrepareContext :: "('c, 'm) req \<Rightarrow> txid \<Rightarrow> string \<Rightarrow> ('c, 'm, stid) pact" where
  "Tx_PrepareContext Q t query =
     thenA (Tx_grabConn Q t) (\<lambda>(dc, release).
     thenA (getA (\<lambda>w. tx_db (txOf w t))) (\<lambda>p.
     thenA (prepareDC Q p dc release (Some (GrabTx t)) query) (\<lambda>s.
     seqA (addTxStmt t s) (ret s))))"

definition Tx_ExecContext :: "('c, 'm) req \<Rightarrow> txid \<Rightarrow> string \<Rightarrow> garg list
    \<Rightarrow> ('c, 'm, dcid \<times> nat) pact" where
  "Tx_ExecContext Q t query args =
     thenA (Tx_grabConn Q t) (\<lambda>(dc, release). execDC Q dc release query args)"

definition Tx_QueryContext :: "('c, 'm) req \<Rightarrow> txid \<Rightarrow> string \<Rightarrow> garg list
    \<Rightarrow> ('c, 'm, rowsid) pact" where
  "Tx_QueryContext Q t query args =
     thenA (Tx_grabConn Q t) (\<lambda>(dc, release). queryDC Q True dc release query args)"

text \<open>
  \<open>(*Tx).StmtContext\<close>. A statement with a \<open>stickyErr\<close> has no database, so it counts as one of a
  different database. The result is always a statement, with the error in it.
\<close>

definition stickyStmt :: "gerr \<Rightarrow> Stmt" where
  "stickyStmt e = \<lparr>st_db = 0, st_query = '''', st_stickyErr = Some e, st_cg = None, st_cgds = None,
     st_parent = None, st_closed = False, st_css = [], st_lastNumClosed = 0\<rparr>"

text \<open>The driver statement to use, and whether \<open>stmt\<close> becomes the parent.\<close>

definition txDriverStmt :: "('c, 'm) req \<Rightarrow> dcid \<Rightarrow> stid \<Rightarrow> ('c, 'm, nat \<times> stid option) pact" where
  "txDriverStmt Q dc s =
     seqA (lockA (StmtMu s))
    (thenA (getA (\<lambda>w. w_st w s)) (\<lambda>st.
       if st_closed st \<or> st_cg st \<noteq> None then
         seqA (unlockA (StmtMu s))
        (thenA (withLock (DcMu dc) (thenA (ciOf dc) (\<lambda>ci. ctxDriverPrepare Q ci (st_query st))))
          (\<lambda>si. ret (si, None)))
       else
         seqA (removeClosedStmtLocked s)
        (thenA (getA (\<lambda>w. map_option (\<lambda>ds. ds_si (w_ds w ds)) (map_of (st_css (w_st w s)) dc))) (\<lambda>siO.
         seqA (unlockA (StmtMu s))
           (case siO of
              Some si \<Rightarrow> ret (si, Some s)
            | None \<Rightarrow>
                thenA (withLock (DcMu dc) (prepareOnConnLocked Q s dc)) (\<lambda>ds.
                thenA (getA (\<lambda>w. ds_si (w_ds w ds))) (\<lambda>si. ret (si, Some s))))))))"

definition Tx_StmtContext :: "('c, 'm) req \<Rightarrow> txid \<Rightarrow> stid \<Rightarrow> ('c, 'm, stid) pact" where
  "Tx_StmtContext Q t s =
     thenA (tryA (Tx_grabConn Q t)) (\<lambda>g. case g of
       Inl e \<Rightarrow> allocSt (stickyStmt e)
     | Inr (dc, release) \<Rightarrow>
         thenA (getA (\<lambda>w. (tx_db (txOf w t), w_st w s))) (\<lambda>(db, st).
         thenA (if st_stickyErr st \<noteq> None \<or> db \<noteq> st_db st
                then allocSt (stickyStmt (ErrMsg ''sql: Tx.Stmt: statement from different database used''))
                else
                  thenA (tryA (txDriverStmt Q dc s)) (\<lambda>r. case r of
                      Inl e \<Rightarrow> allocSt (stickyStmt e)
                    | Inr (si, parentStmt) \<Rightarrow>
                        thenA (allocDs dc si) (\<lambda>ds.
                        thenA (allocSt \<lparr>st_db = db, st_query = st_query st, st_stickyErr = None,
                                 st_cg = Some (GrabTx t), st_cgds = Some ds, st_parent = parentStmt,
                                 st_closed = False, st_css = [], st_lastNumClosed = 0\<rparr>) (\<lambda>txs.
                        seqA (case parentStmt of None \<Rightarrow> ret ()
                                | Some ps \<Rightarrow> addDep db (OStmt ps) (OStmt txs))
                       (seqA (addTxStmt t txs) (ret txs)))))) (\<lambda>txs.
         seqA (runRelease Q release None) (ret txs))))"

lemmas api_defs = pool_exec_def pool_query_def pool_prepare_def pool_begin_def takeConn_def

end
