(* ===== verification/RowsCursor.thy ===== *)
theory RowsCursor
  imports SessionApi PoolLife
begin

text \<open>
  Reading rows (\<open>rows.go\<close>), the single row of \<open>QueryRow\<close> (\<open>row.go\<close>), column information
  (\<open>column_type.go\<close>), results of an execution (\<open>result.go\<close>), and the facade's own operations
  (\<open>conn_pool_facade.go\<close>), which pick the pool of the credentials.
\<close>

section \<open>The cursor\<close>

definition lasterrOrErrLocked :: "Rows \<Rightarrow> gerr option \<Rightarrow> gerr option" where
  "lasterrOrErrLocked rs err =
     (if rs_lasterr rs \<noteq> None \<and> rs_lasterr rs \<noteq> Some ErrEOF then rs_lasterr rs else err)"

text \<open>
  \<open>nextLocked\<close>: whether to close the rows, and whether there is a row. The driver fills the
  columns in place, also when it returns an error.
\<close>

definition afterNext :: "drvApi \<Rightarrow> nat \<Rightarrow> gerr option \<Rightarrow> bool \<times> bool" where
  "afterNext D h err = (case err of
       None \<Rightarrow> (False, True)
     | Some e \<Rightarrow>
         if e \<noteq> ErrEOF then (True, False)
         else (case ifNextResultSet D h of
                 None \<Rightarrow> (True, False)
               | Some (hasNextResultSet, _) \<Rightarrow> (\<not> hasNextResultSet, False)))"

definition nextLocked :: "('c, 'm) req \<Rightarrow> rowsid \<Rightarrow> ('c, 'm, bool \<times> bool) pact" where
  "nextLocked Q r = thenA (getA (\<lambda>w. rowsOf w r)) (\<lambda>rs.
     if rs_closed rs then ret (False, False)
     else withLock (DcMu (rs_dc rs)) (thenA (nonNil (rs_rowsi rs)) (\<lambda>h.
       thenA (case rs_lastcols rs of
                Some cols \<Rightarrow> ret cols
              | None \<Rightarrow> seqA (logA (CallRowsColumns h))
                         (ret (replicate (length (mRowsColumns (q_drv Q) h)) VNil))) (\<lambda>cols.
       seqA (logA (CallRowsNext h))
      (let (err, cols') = mRowsNext (q_drv Q) h cols
       in seqA (modA (updRows r (\<lambda>x. x\<lparr>rs_lasterr := err, rs_lastcols := Some cols'\<rparr>)))
            (ret (afterNext (q_drv Q) h err)))))))"

definition closeIf :: "('c, 'm) req \<Rightarrow> rowsid \<Rightarrow> bool \<Rightarrow> ('c, 'm, unit) pact" where
  "closeIf Q r doClose =
     (if doClose then thenA (tryA (Rows_close Q r None)) (\<lambda>_. ret ()) else ret ())"

definition Rows_Next :: "('c, 'm) req \<Rightarrow> rowsid \<Rightarrow> ('c, 'm, bool) pact" where
  "Rows_Next Q r = thenA (nextLocked Q r) (\<lambda>(doClose, ok). seqA (closeIf Q r doClose) (ret ok))"

definition Rows_NextResultSet :: "('c, 'm) req \<Rightarrow> rowsid \<Rightarrow> ('c, 'm, bool) pact" where
  "Rows_NextResultSet Q r = thenA (getA (\<lambda>w. rowsOf w r)) (\<lambda>rs.
     if rs_closed rs then ret False
     else
       seqA (modA (updRows r (\<lambda>x. x\<lparr>rs_lastcols := None\<rparr>)))
         (case rs_rowsi rs of
            None \<Rightarrow> seqA (closeIf Q r True) (ret False)
          | Some h \<Rightarrow> (case ifNextResultSet (q_drv Q) h of
              None \<Rightarrow> seqA (closeIf Q r True) (ret False)
            | Some (_, err) \<Rightarrow>
                seqA (withLock (DcMu (rs_dc rs)) (seqA (logA (CallNextResultSet h))
                        (modA (updRows r (\<lambda>x. x\<lparr>rs_lasterr := err\<rparr>)))))
               (seqA (closeIf Q r (err \<noteq> None)) (ret (err = None))))))"

definition Rows_Err :: "rowsid \<Rightarrow> ('c, 'm, gerr option) pact" where
  "Rows_Err r = getA (\<lambda>w. lasterrOrErrLocked (rowsOf w r) None)"

text \<open>\<open>awaitDone\<close> after one of the contexts is done; \<open>err\<close> is \<open>ctx.Err()\<close>.\<close>

definition Rows_awaitDone :: "('c, 'm) req \<Rightarrow> rowsid \<Rightarrow> gerr option \<Rightarrow> ('c, 'm, unit) pact" where
  "Rows_awaitDone Q r err = thenA (tryA (Rows_close Q r err)) (\<lambda>_. ret ())"

section \<open>Columns\<close>

definition openRowsi :: "rowsid \<Rightarrow> ('c, 'm, dcid \<times> nat) pact" where
  "openRowsi r = thenA (getA (\<lambda>w. rowsOf w r)) (\<lambda>rs.
     if rs_closed rs then fail (the (lasterrOrErrLocked rs (Some ErrRowsClosed)))
     else (case rs_rowsi rs of
             None \<Rightarrow> fail (the (lasterrOrErrLocked rs (Some ErrNoRowsAvailable)))
           | Some h \<Rightarrow> ret (rs_dc rs, h)))"

definition Rows_Columns :: "('c, 'm) req \<Rightarrow> rowsid \<Rightarrow> ('c, 'm, string list) pact" where
  "Rows_Columns Q r = thenA (openRowsi r) (\<lambda>(dc, h).
     withLock (DcMu dc) (seqA (logA (CallRowsColumns h)) (ret (mRowsColumns (q_drv Q) h))))"

text \<open>\<open>ColumnType\<close>; the scan type of a driver that gives none is the empty interface.\<close>

record ColumnType =
  ct_name :: string
  ct_hasNullable :: bool
  ct_hasLength :: bool
  ct_hasPrecisionScale :: bool
  ct_nullable :: bool
  ct_length :: int
  ct_databaseType :: string
  ct_precision :: int
  ct_scale :: int
  ct_scanType :: string

definition rowsColumnInfo :: "drvApi \<Rightarrow> nat \<Rightarrow> string \<Rightarrow> nat \<Rightarrow> ColumnType" where
  "rowsColumnInfo D h name i =
     (let (len, hasLen) = (case ifColLength D h of None \<Rightarrow> (0, False) | Some f \<Rightarrow> f i);
          (nullable, hasNullable) = (case ifColNullable D h of None \<Rightarrow> (False, False) | Some f \<Rightarrow> f i);
          (precision, scale, hasPS) =
            (case ifColPrecisionScale D h of None \<Rightarrow> (0, 0, False) | Some f \<Rightarrow> f i)
      in \<lparr>ct_name = name, ct_hasNullable = hasNullable, ct_hasLength = hasLen,
          ct_hasPrecisionScale = hasPS, ct_nullable = nullable, ct_length = len,
          ct_databaseType = (case ifColDatabaseType D h of None \<Rightarrow> '''' | Some f \<Rightarrow> f i),
          ct_precision = precision, ct_scale = scale,
          ct_scanType = (case ifColScanType D h of None \<Rightarrow> ''interface {}'' | Some f \<Rightarrow> f i)\<rparr>)"

definition rowsColumnInfoSetupConnLocked :: "drvApi \<Rightarrow> nat \<Rightarrow> ColumnType list" where
  "rowsColumnInfoSetupConnLocked D h =
     map (\<lambda>(i, name). rowsColumnInfo D h name i) (enumerate 0 (mRowsColumns D h))"

definition Rows_ColumnTypes :: "('c, 'm) req \<Rightarrow> rowsid \<Rightarrow> ('c, 'm, ColumnType list) pact" where
  "Rows_ColumnTypes Q r = thenA (openRowsi r) (\<lambda>(dc, h).
     withLock (DcMu dc) (seqA (logA (CallRowsColumns h))
       (ret (rowsColumnInfoSetupConnLocked (q_drv Q) h))))"

definition ColumnType_Length :: "ColumnType \<Rightarrow> int \<times> bool" where
  "ColumnType_Length ci = (ct_length ci, ct_hasLength ci)"

definition ColumnType_DecimalSize :: "ColumnType \<Rightarrow> int \<times> int \<times> bool" where
  "ColumnType_DecimalSize ci = (ct_precision ci, ct_scale ci, ct_hasPrecisionScale ci)"

definition ColumnType_Nullable :: "ColumnType \<Rightarrow> bool \<times> bool" where
  "ColumnType_Nullable ci = (ct_nullable ci, ct_hasNullable ci)"

section \<open>Scanning a row\<close>

text \<open>
  A destination is a pointer (or the nil pointer) of a kind. The result lists what the
  destinations hold afterwards: those before a failing one have been assigned. The error carries
  the column's name, which the driver is asked for again.
\<close>

fun scanColumns :: "fmtEnv \<Rightarrow> string list \<Rightarrow> nat \<Rightarrow> (bool \<times> dkind) list \<Rightarrow> gval list
    \<Rightarrow> gval list \<times> unit res" where
  "scanColumns F names i ((isNil, d) # dest) (sv # svs) = (case convertAssign F isNil d sv of
       Ok v \<Rightarrow> (case scanColumns F names (i + 1) dest svs of (vs, r) \<Rightarrow> (v # vs, r))
     | Fail e \<Rightarrow>
         ([], if i < length names
              then Fail (ErrMsg ''sql: Scan error on column index %d, name %q: %w'')
              else Crash IndexOutOfRange)
     | Crash h \<Rightarrow> ([], Crash h))"
| "scanColumns F names i dest svs = ([], Ok ())"

definition Rows_Scan :: "('c, 'm) req \<Rightarrow> rowsid \<Rightarrow> (bool \<times> dkind) list
    \<Rightarrow> ('c, 'm, gval list) pact" where
  "Rows_Scan Q r dest = thenA (getA (\<lambda>w. rowsOf w r)) (\<lambda>rs.
     case lasterrOrErrLocked rs None of
       Some e \<Rightarrow> fail e
     | None \<Rightarrow>
         if rs_closed rs then fail ErrRowsClosed
         else (case rs_lastcols rs of
           None \<Rightarrow> fail (ErrMsg ''sql: Scan called without calling Next'')
         | Some cols \<Rightarrow>
             if length dest \<noteq> length cols
             then fail (ErrMsg ''sql: expected %d destination arguments in Scan, not %d'')
             else
               let names = (case rs_rowsi rs of None \<Rightarrow> [] | Some h \<Rightarrow> mRowsColumns (q_drv Q) h)
               in (case scanColumns (apiFmt (q_drv Q)) names 0 dest cols of
                     (vs, Ok _) \<Rightarrow> ret vs
                   | (_, Fail e) \<Rightarrow> fail e
                   | (_, Crash h) \<Rightarrow> crash h)))"

section \<open>A single row\<close>

datatype Row = RowErr gerr | RowOf rowsid

definition QueryRowContext :: "(nat \<Rightarrow> ('c, 'm) req) \<Rightarrow> poolid \<Rightarrow> string \<Rightarrow> garg list
    \<Rightarrow> ('c, 'm, Row) pact" where
  "QueryRowContext Qs p query args = thenA (tryA (QueryContext Qs p query args)) (\<lambda>r.
     ret (case r of Inl e \<Rightarrow> RowErr e | Inr rows \<Rightarrow> RowOf rows))"

definition Conn_QueryRowContext :: "('c, 'm) req \<Rightarrow> connid \<Rightarrow> string \<Rightarrow> garg list
    \<Rightarrow> ('c, 'm, Row) pact" where
  "Conn_QueryRowContext Q c query args = thenA (tryA (Conn_QueryContext Q c query args)) (\<lambda>r.
     ret (case r of Inl e \<Rightarrow> RowErr e | Inr rows \<Rightarrow> RowOf rows))"

definition Tx_QueryRowContext :: "('c, 'm) req \<Rightarrow> txid \<Rightarrow> string \<Rightarrow> garg list
    \<Rightarrow> ('c, 'm, Row) pact" where
  "Tx_QueryRowContext Q t query args = thenA (tryA (Tx_QueryContext Q t query args)) (\<lambda>r.
     ret (case r of Inl e \<Rightarrow> RowErr e | Inr rows \<Rightarrow> RowOf rows))"

definition Stmt_QueryRowContext :: "(nat \<Rightarrow> ('c, 'm) req) \<Rightarrow> stid \<Rightarrow> garg list
    \<Rightarrow> ('c, 'm, Row) pact" where
  "Stmt_QueryRowContext Qs s args = thenA (tryA (Stmt_QueryContext Qs s args)) (\<lambda>r.
     ret (case r of Inl e \<Rightarrow> RowErr e | Inr rows \<Rightarrow> RowOf rows))"

definition isRawBytes :: "dkind \<Rightarrow> bool" where
  "isRawBytes d = (case d of DRawBytes \<Rightarrow> True | _ \<Rightarrow> False)"

text \<open>\<open>(*Row).Scan\<close>; the deferred \<open>Close\<close> runs on every path and its error is dropped.\<close>

definition rowScanBody :: "('c, 'm) req \<Rightarrow> rowsid \<Rightarrow> (bool \<times> dkind) list \<Rightarrow> ('c, 'm, gval list) pact" where
  "rowScanBody Q r dest =
     (if \<exists>d \<in> set dest. isRawBytes (snd d)
      then fail (ErrMsg ''sql: RawBytes isn't allowed on Row.Scan'')
      else thenA (Rows_Next Q r) (\<lambda>ok.
        if \<not> ok then thenA (Rows_Err r) (\<lambda>err. case err of Some e \<Rightarrow> fail e | None \<Rightarrow> fail ErrNoRows)
        else thenA (Rows_Scan Q r dest) (\<lambda>vs. seqA (Rows_close Q r None) (ret vs))))"

definition Row_Scan :: "('c, 'm) req \<Rightarrow> Row \<Rightarrow> (bool \<times> dkind) list \<Rightarrow> ('c, 'm, gval list) pact" where
  "Row_Scan Q row dest = (case row of
       RowErr e \<Rightarrow> fail e
     | RowOf r \<Rightarrow> thenA (tryA (rowScanBody Q r dest)) (\<lambda>res.
                   thenA (tryA (Rows_close Q r None)) (\<lambda>_. ofSum res)))"

definition Row_Err :: "Row \<Rightarrow> gerr option" where
  "Row_Err row = (case row of RowErr e \<Rightarrow> Some e | RowOf _ \<Rightarrow> None)"

section \<open>Results\<close>

text \<open>\<open>driverResult\<close>: the connection, whose lock is held during the call, and the driver's result.\<close>

definition LastInsertId :: "('c, 'm) req \<Rightarrow> dcid \<times> nat \<Rightarrow> ('c, 'm, int) pact" where
  "LastInsertId Q dr = withLock (DcMu (fst dr)) (ofSum (mLastInsertId (q_drv Q) (snd dr)))"

definition RowsAffected :: "('c, 'm) req \<Rightarrow> dcid \<times> nat \<Rightarrow> ('c, 'm, int) pact" where
  "RowsAffected Q dr = withLock (DcMu (fst dr)) (ofSum (mRowsAffected (q_drv Q) (snd dr)))"

section \<open>Operations of the facade\<close>

text \<open>
  \<open>Qs\<close> carries the facade's context, except for \<open>BeginTx\<close>, which uses the background context.
\<close>

definition facade_Exec :: "(nat \<Rightarrow> ('c, 'm) req) \<Rightarrow> Credentials \<Rightarrow> string \<Rightarrow> ('c, 'm, dcid \<times> nat) pact" where
  "facade_Exec Qs credentials sql =
     thenA (getOrCreateConnPool (q_env (Qs 0)) credentials) (\<lambda>p. ExecContext Qs p sql [])"

definition facade_BeginTx :: "(nat \<Rightarrow> ('c, 'm) req) \<Rightarrow> Credentials \<Rightarrow> ('c, 'm, txid) pact" where
  "facade_BeginTx Qs credentials =
     thenA (getOrCreateConnPool (q_env (Qs 0)) credentials) (\<lambda>p. BeginTx Qs p None)"

definition facade_Query :: "(nat \<Rightarrow> ('c, 'm) req) \<Rightarrow> Credentials \<Rightarrow> string \<Rightarrow> ('c, 'm, rowsid) pact" where
  "facade_Query Qs credentials sql =
     thenA (getOrCreateConnPool (q_env (Qs 0)) credentials) (\<lambda>p. QueryContext Qs p sql [])"

definition facade_QueryRow :: "(nat \<Rightarrow> ('c, 'm) req) \<Rightarrow> Credentials \<Rightarrow> string \<Rightarrow> ('c, 'm, Row) pact" where
  "facade_QueryRow Qs credentials sql =
     thenA (getOrCreateConnPool (q_env (Qs 0)) credentials) (\<lambda>p. QueryRowContext Qs p sql [])"

end
