(* ===== verification/SessionGrow.thy ===== *)
theory SessionGrow
  imports RowsCursor PoolGrow
begin

text \<open>
  Every operation of the session layer keeps \<open>grow\<close>: whatever its outcome, a transaction that
  was ended stays ended, closed connections, statements and rows stay closed, and the calls made
  on driver objects are only added to. While an operation waits, other goroutines run; they are
  assumed to run operations that keep \<open>grow\<close> too (\<open>fairReq\<close>).
\<close>

definition fairReq :: "('c, 'm) req \<Rightarrow> bool" where
  "fairReq Q \<longleftrightarrow> (\<forall>cw w. grow w (snd (snd (q_others Q cw w)))) \<and> (\<forall>w. grow w (q_wake Q w))"

lemmas grow_sess_defs = grow_def sessLater_def stmtLater_def

lemma grow_ofSum [keeps_intro]: "keeps grow (ofSum r)" and grow_ofErr [keeps_intro]: "keeps grow (ofErr e)"
  and grow_nonNil [keeps_intro]: "keeps grow (nonNil x)"
  by (auto simp: ofSum_def ofErr_def nonNil_def keeps_intro split: sum.split option.split)

lemma grow_logA [keeps_intro]: "keeps grow (logA c)"
  unfolding logA_def by (intro keeps_intro) (simp add: grow_def)

lemma grow_ctxCheck [keeps_intro]: "keeps grow (ctxCheck Q)" and grow_ciOf [keeps_intro]: "keeps grow (ciOf dc)"
  unfolding ctxCheck_def ciOf_def by (intro keeps_intro)+

lemma grow_ctxDriver [keeps_intro]:
  "keeps grow (ctxDriverPrepare Q ci q)" "keeps grow (ctxDriverExec Q ec ex q nv)"
  "keeps grow (ctxDriverQuery Q ec ex q nv)" "keeps grow (ctxDriverStmtExec Q si nv)"
  "keeps grow (ctxDriverStmtQuery Q si nv)" "keeps grow (ctxDriverBegin Q opts ci)"
  unfolding ctxDriverPrepare_def ctxDriverExec_def ctxDriverQuery_def ctxDriverStmtExec_def
    ctxDriverStmtQuery_def ctxDriverBegin_def Let_def
  by (intro keeps_intro)+

lemma grow_allocDs [keeps_intro]: "keeps grow (allocDs dc si)"
  unfolding allocDs_def by (intro keeps_intro) (simp_all add: grow_sess_defs)

lemma grow_fromStatement [keeps_intro]:
  "keeps grow (resultFromStatement Q ci ds args)" "keeps grow (rowsiFromStatement Q ci ds args)"
  unfolding resultFromStatement_def rowsiFromStatement_def by (intro keeps_intro)+

lemma grow_prepareLocked [keeps_intro]: "keeps grow (prepareLocked Q dc cg q)"
  unfolding prepareLocked_def by (intro keeps_intro) (simp add: grow_def dcLater_def)

lemma grow_allocs [keeps_intro]:
  "keeps grow (allocRows mk)" "keeps grow (allocSt st)" "keeps grow (allocTx tx)" "keeps grow (allocConn cn)"
  by (simp_all add: keeps_def allocRows_def allocSt_def allocTx_def allocConn_def grow_sess_defs)

section \<open>Release functions and rows\<close>

lemma grow_awaitReaders: "fairReq Q \<Longrightarrow> keeps grow (awaitReaders Q f)"
  by (simp add: keeps_def awaitReaders_def fairReq_def Let_def grow.refl)

lemma grow_TxRelease [keeps_intro]: "keeps grow (Tx_closemuRUnlockRelease t)"
  unfolding Tx_closemuRUnlockRelease_def
  by (intro keeps_intro) (simp add: grow_sess_defs updTx_def)

lemma grow_Conn_close: "fairReq Q \<Longrightarrow> keeps grow (Conn_close Q c err)"
  unfolding Conn_close_def
  by (intro keeps_intro grow_awaitReaders) (simp_all add: grow_sess_defs updConn_def)

lemma grow_ConnRelease: "fairReq Q \<Longrightarrow> keeps grow (Conn_closemuRUnlockCondReleaseConn Q c err)"
  unfolding Conn_closemuRUnlockCondReleaseConn_def
  by (intro keeps_intro grow_Conn_close) (simp_all add: grow_sess_defs updConn_def)

lemma grow_runRelease: "fairReq Q \<Longrightarrow> keeps grow (runRelease Q rel err)"
  by (induction Q rel err rule: runRelease.induct)
    (simp_all add: grow_releaseConn grow_TxRelease grow_ConnRelease, intro keeps_intro, simp)

lemma grow_releasing: "fairReq Q \<Longrightarrow> keeps grow m \<Longrightarrow> keeps grow (releasing Q rel m)"
  and grow_releasingOnError: "fairReq Q \<Longrightarrow> keeps grow m \<Longrightarrow> keeps grow (releasingOnError Q rel m)"
  unfolding releasing_def releasingOnError_def by (intro keeps_intro grow_runRelease; assumption)+

lemma grow_initContextClose [keeps_intro]: "keeps grow (initContextClose Q b r)"
  unfolding initContextClose_def by (intro keeps_intro) (simp add: grow_sess_defs updRows_def)

lemma grow_Rows_close: "fairReq Q \<Longrightarrow> keeps grow (Rows_close Q r err)"
  unfolding Rows_close_def
  by (intro keeps_intro grow_runRelease) (simp_all add: grow_sess_defs updRows_def)

section \<open>Operations on a given connection\<close>

lemma grow_execPrepared [keeps_intro]: "keeps grow (execPrepared Q dc q args)"
  unfolding execPrepared_def by (intro keeps_intro)

lemma grow_execDC: "fairReq Q \<Longrightarrow> keeps grow (execDC Q dc rel q args)"
  unfolding execDC_def by (intro grow_releasing keeps_intro)

lemma grow_queryPrepared: "fairReq Q \<Longrightarrow> keeps grow (queryPrepared Q b dc rel q args)"
  unfolding queryPrepared_def by (intro grow_releasingOnError grow_runRelease keeps_intro)

lemma grow_queryDC: "fairReq Q \<Longrightarrow> keeps grow (queryDC Q b dc rel q args)"
  unfolding queryDC_def by (intro grow_queryPrepared grow_runRelease keeps_intro)

lemma grow_pingDC: "fairReq Q \<Longrightarrow> keeps grow (pingDC Q dc rel)"
  unfolding pingDC_def by (intro grow_releasing keeps_intro)

lemma grow_prepareDC: "fairReq Q \<Longrightarrow> keeps grow (prepareDC Q p dc rel cg q)"
  unfolding prepareDC_def by (intro grow_releasing keeps_intro)

lemma grow_beginDC: "fairReq Q \<Longrightarrow> keeps grow (beginDC Q p dc rel opts)"
  unfolding beginDC_def by (intro grow_releasingOnError keeps_intro)

section \<open>Statements\<close>

lemma grow_removeClosed [keeps_intro]: "keeps grow (removeClosedStmtLocked s)"
  unfolding removeClosedStmtLocked_def by (intro keeps_intro) (simp_all add: grow_sess_defs)

lemma grow_prepareOnConn [keeps_intro]: "keeps grow (prepareOnConnLocked Q s dc)"
  unfolding prepareOnConnLocked_def by (intro keeps_intro) (simp_all add: grow_sess_defs)

lemma grow_Tx_grabConn [keeps_intro]: "keeps grow (Tx_grabConn Q t)"
  unfolding Tx_grabConn_def by (intro keeps_intro) (simp_all add: grow_sess_defs updTx_def)

lemma grow_Conn_grabConn [keeps_intro]: "keeps grow (Conn_grabConn c)"
  unfolding Conn_grabConn_def by (intro keeps_intro) (simp_all add: grow_sess_defs updConn_def)

lemma grow_grabConn [keeps_intro]: "keeps grow (grabConn Q cg)"
  by (cases cg) (simp_all add: grabConn_def keeps_intro)

lemma grow_waitConn:
  assumes "\<And>cw w. grow w (snd (snd (others cw w)))"
  shows "keeps grow (waitConn others p st cw)"
  unfolding keeps_def
proof
  fix w
  obtain o1 E' w' where o: "others cw w = (o1, E', w')" by (cases "others cw w")
  then have ww: "grow w w'" using assms [of w cw] by simp
  have a: "keeps grow (thenA (connCtxDone E' p cw e) (\<lambda>d. ret (Some d)))" for e
    by (intro keeps_intro)
  have b: "keeps grow (connReceived E' p st cw)" by (intro keeps_intro)
  show "grow w (snd (waitConn others p st cw w))"
    using o a b by (auto simp: waitConn_def keeps_def intro: grow.trans [OF ww] split: option.split)
qed

lemma grow_connGet: "fairReq Q \<Longrightarrow> keeps grow (connGet E (q_others Q) p st)"
  unfolding connGet_def by (intro keeps_intro grow_waitConn) (simp add: fairReq_def)

lemma grow_connStmt: "fairReq Q \<Longrightarrow> keeps grow (connStmt Q s st)"
  unfolding connStmt_def by (intro keeps_intro grow_connGet)

lemma grow_stmtAttempts:
  "fairReq Q \<Longrightarrow> keeps grow (stmtAttempt Q s args st)"
  "fairReq Q \<Longrightarrow> keeps grow (stmtQueryAttempt Q s args st)"
  unfolding stmtAttempt_def stmtQueryAttempt_def
  by (intro keeps_intro grow_connStmt grow_runRelease; assumption)+

lemma grow_stmtLoop:
  "(\<And>i st. keeps grow (f i st)) \<Longrightarrow> keeps grow (stmtLoop f i n)"
  by (induction n arbitrary: i) (auto intro!: keeps_intro)

lemma grow_Stmt_Close [keeps_intro]: "keeps grow (Stmt_Close Q s)"
  unfolding Stmt_Close_def by (intro keeps_intro) (simp add: grow_sess_defs)

section \<open>Pools, connections, transactions\<close>

lemma grow_cachedTries:
  "(\<And>i st. keeps grow (f i st)) \<Longrightarrow> keeps grow (cachedTries f i n)"
  by (induction n arbitrary: i) (auto intro!: keeps_intro)

lemma grow_withRetry: "(\<And>i st. keeps grow (f i st)) \<Longrightarrow> keeps grow (withRetry f)"
  unfolding withRetry_def by (intro keeps_intro grow_cachedTries)

lemma grow_takeConn: "fairReq Q \<Longrightarrow> keeps grow (takeConn Q p st)"
  unfolding takeConn_def by (intro keeps_intro grow_connGet)

lemma grow_closeStmts [keeps_intro]: "keeps grow (closeStmts Q ss)"
  by (induction ss) (auto intro!: keeps_intro)

lemma grow_Tx_finish: "fairReq Q \<Longrightarrow> keeps grow (Tx_finish Q t call answer b)"
  unfolding Tx_finish_def Tx_closePrepared_def Tx_close_def Let_def
  by (intro keeps_intro grow_awaitReaders grow_runRelease)
    (simp_all add: grow_sess_defs updTx_def)

lemma grow_Tx_end:
  "fairReq Q \<Longrightarrow> keeps grow (Tx_Commit Q t)" "fairReq Q \<Longrightarrow> keeps grow (Tx_rollback Q t b)"
  unfolding Tx_Commit_def Tx_rollback_def
  by (intro keeps_intro grow_Tx_finish; simp add: grow_sess_defs updTx_def)+

lemma grow_addTxStmt [keeps_intro]: "keeps grow (addTxStmt t s)"
  unfolding addTxStmt_def by (intro keeps_intro) (simp add: grow_sess_defs updTx_def)

lemma grow_txDriverStmt [keeps_intro]: "keeps grow (txDriverStmt Q dc s)"
  unfolding txDriverStmt_def by (intro keeps_intro)

lemma grow_Tx_StmtContext: "fairReq Q \<Longrightarrow> keeps grow (Tx_StmtContext Q t s)"
  unfolding Tx_StmtContext_def by (intro keeps_intro grow_runRelease)

section \<open>Cursors\<close>

lemma grow_nextLocked [keeps_intro]: "keeps grow (nextLocked Q r)"
  unfolding nextLocked_def by (intro keeps_intro) (simp add: grow_sess_defs updRows_def)

lemma grow_closeIf: "fairReq Q \<Longrightarrow> keeps grow (closeIf Q r b)"
  unfolding closeIf_def by (intro keeps_intro grow_Rows_close)

lemma grow_Rows_Next: "fairReq Q \<Longrightarrow> keeps grow (Rows_Next Q r)"
  unfolding Rows_Next_def by (intro keeps_intro grow_closeIf)

lemma grow_NextResultSet: "fairReq Q \<Longrightarrow> keeps grow (Rows_NextResultSet Q r)"
  unfolding Rows_NextResultSet_def
  by (intro keeps_intro grow_closeIf) (simp_all add: grow_sess_defs updRows_def)

lemma grow_Columns [keeps_intro]:
  "keeps grow (Rows_Columns Q r)" "keeps grow (Rows_ColumnTypes Q r)" "keeps grow (Rows_Err r)"
  unfolding Rows_Columns_def Rows_ColumnTypes_def openRowsi_def Rows_Err_def
  by (intro keeps_intro)+

lemma keeps_case_res: "(\<And>a. keeps R (f a)) \<Longrightarrow> (\<And>e. keeps R (g e)) \<Longrightarrow> (\<And>h. keeps R (k h)) \<Longrightarrow>
    keeps R (case x of Ok a \<Rightarrow> f a | Fail e \<Rightarrow> g e | Crash h \<Rightarrow> k h)"
  by (cases x) simp_all

lemma grow_Rows_Scan [keeps_intro]: "keeps grow (Rows_Scan Q r dest)"
  unfolding Rows_Scan_def Let_def by (intro keeps_intro keeps_case_res)

lemma grow_rowScanBody: "fairReq Q \<Longrightarrow> keeps grow (rowScanBody Q r dest)"
  unfolding rowScanBody_def by (intro keeps_intro grow_Rows_Next grow_Rows_close)

lemma grow_Row_Scan: "fairReq Q \<Longrightarrow> keeps grow (Row_Scan Q row dest)"
  unfolding Row_Scan_def
  by (cases row) (simp_all, (intro keeps_intro grow_rowScanBody grow_Rows_close; assumption)+)

lemma grow_results [keeps_intro]: "keeps grow (LastInsertId Q dr)" "keeps grow (RowsAffected Q dr)"
  unfolding LastInsertId_def RowsAffected_def by (intro keeps_intro)+

section \<open>Runs of the whole library\<close>

datatype ('c, 'm) sop =
    OpPool "('c, 'm) op"
  | OpExec poolid string "garg list" | OpQuery poolid string "garg list"
  | OpPrepare poolid string | OpBegin poolid "TxOptions option" | OpPing poolid | OpGetConn poolid
  | OpConnExec connid string "garg list" | OpConnQuery connid string "garg list"
  | OpConnPrepare connid string | OpConnBegin connid "TxOptions option" | OpConnPing connid
  | OpConnRaw connid "nat option \<Rightarrow> unit res" | OpConnClose connid
  | OpTxExec txid string "garg list" | OpTxQuery txid string "garg list"
  | OpTxPrepare txid string | OpTxStmt txid stid
  | OpCommit txid | OpRollback txid | OpAwaitDone txid
  | OpStmtExec stid "garg list" | OpStmtQuery stid "garg list" | OpStmtClose stid
  | OpRowsClose rowsid "gerr option" | OpNext rowsid | OpNextResultSet rowsid
  | OpColumns rowsid | OpColumnTypes rowsid | OpScan rowsid "(bool \<times> dkind) list"
  | OpRowScan Row "(bool \<times> dkind) list"
  | OpFacadeExec Credentials string | OpFacadeBegin Credentials | OpFacadeQuery Credentials string

text \<open>\<open>Qs i\<close> is the environment of attempt \<open>i\<close>; an operation that does not retry uses \<open>Qs 0\<close>.\<close>

definition drop_result :: "('c, 'm, 'a) pact \<Rightarrow> ('c, 'm, unit) pact" where
  "drop_result m = thenA m (\<lambda>_. ret ())"

fun runSop :: "(nat \<Rightarrow> ('c, 'm) req) \<Rightarrow> ('c, 'm) sop \<Rightarrow> ('c, 'm, unit) pact" where
  "runSop Qs (OpPool x) = runOp (q_env (Qs 0)) x"
| "runSop Qs (OpExec p q args) = drop_result (ExecContext Qs p q args)"
| "runSop Qs (OpQuery p q args) = drop_result (QueryContext Qs p q args)"
| "runSop Qs (OpPrepare p q) = drop_result (PrepareContext Qs p q)"
| "runSop Qs (OpBegin p opts) = drop_result (BeginTx Qs p opts)"
| "runSop Qs (OpPing p) = PingContext Qs p"
| "runSop Qs (OpGetConn p) = drop_result (ConnPool_Conn Qs p)"
| "runSop Qs (OpConnExec c q args) = drop_result (Conn_ExecContext (Qs 0) c q args)"
| "runSop Qs (OpConnQuery c q args) = drop_result (Conn_QueryContext (Qs 0) c q args)"
| "runSop Qs (OpConnPrepare c q) = drop_result (Conn_PrepareContext (Qs 0) c q)"
| "runSop Qs (OpConnBegin c opts) = drop_result (Conn_BeginTx (Qs 0) c opts)"
| "runSop Qs (OpConnPing c) = Conn_PingContext (Qs 0) c"
| "runSop Qs (OpConnRaw c f) = Conn_Raw (Qs 0) c f"
| "runSop Qs (OpConnClose c) = Conn_Close (Qs 0) c"
| "runSop Qs (OpTxExec t q args) = drop_result (Tx_ExecContext (Qs 0) t q args)"
| "runSop Qs (OpTxQuery t q args) = drop_result (Tx_QueryContext (Qs 0) t q args)"
| "runSop Qs (OpTxPrepare t q) = drop_result (Tx_PrepareContext (Qs 0) t q)"
| "runSop Qs (OpTxStmt t s) = drop_result (Tx_StmtContext (Qs 0) t s)"
| "runSop Qs (OpCommit t) = Tx_Commit (Qs 0) t"
| "runSop Qs (OpRollback t) = Tx_Rollback (Qs 0) t"
| "runSop Qs (OpAwaitDone t) = Tx_awaitDone (Qs 0) t"
| "runSop Qs (OpStmtExec s args) = drop_result (Stmt_ExecContext Qs s args)"
| "runSop Qs (OpStmtQuery s args) = drop_result (Stmt_QueryContext Qs s args)"
| "runSop Qs (OpStmtClose s) = Stmt_Close (Qs 0) s"
| "runSop Qs (OpRowsClose r e) = Rows_close (Qs 0) r e"
| "runSop Qs (OpNext r) = drop_result (Rows_Next (Qs 0) r)"
| "runSop Qs (OpNextResultSet r) = drop_result (Rows_NextResultSet (Qs 0) r)"
| "runSop Qs (OpColumns r) = drop_result (Rows_Columns (Qs 0) r)"
| "runSop Qs (OpColumnTypes r) = drop_result (Rows_ColumnTypes (Qs 0) r)"
| "runSop Qs (OpScan r dest) = drop_result (Rows_Scan (Qs 0) r dest)"
| "runSop Qs (OpRowScan row dest) = drop_result (Row_Scan (Qs 0) row dest)"
| "runSop Qs (OpFacadeExec cr q) = drop_result (facade_Exec Qs cr q)"
| "runSop Qs (OpFacadeBegin cr) = drop_result (facade_BeginTx Qs cr)"
| "runSop Qs (OpFacadeQuery cr q) = drop_result (facade_Query Qs cr q)"

fun runSops :: "((nat \<Rightarrow> ('c, 'm) req) \<times> ('c, 'm) sop) list \<Rightarrow> ('c, 'm) world \<Rightarrow> ('c, 'm) world" where
  "runSops [] w = w"
| "runSops ((Qs, x) # xs) w = runSops xs (snd (runSop Qs x w))"

lemma grow_pool_ops:
  assumes "fairReq Q"
  shows "keeps grow (pool_exec p q args Q st)" "keeps grow (pool_query p q args Q st)"
    "keeps grow (pool_prepare p q Q st)" "keeps grow (pool_begin p opts Q st)"
  unfolding pool_exec_def pool_query_def pool_prepare_def pool_begin_def
  by (intro grow.keeps_thenA grow_takeConn grow_execDC grow_queryDC grow_prepareDC grow_beginDC assms)+

lemmas grow_conditional = grow_withRetry grow_pool_ops grow_connGet grow_stmtLoop grow_stmtAttempts
  grow_pingDC grow_execDC grow_queryDC grow_prepareDC grow_beginDC grow_runRelease grow_Conn_close
  grow_Tx_end grow_Tx_StmtContext grow_Rows_close grow_Rows_Next grow_NextResultSet grow_Row_Scan

lemma grow_runSop:
  assumes "\<And>i. fairReq (Qs i)"
  shows "keeps grow (runSop Qs x)"
  by (cases x; simp only: runSop.simps drop_result_def ExecContext_def QueryContext_def
      PrepareContext_def BeginTx_def PingContext_def ConnPool_Conn_def Conn_ExecContext_def
      Conn_QueryContext_def Conn_PrepareContext_def Conn_BeginTx_def Conn_PingContext_def Conn_Raw_def
      Conn_Close_def Tx_ExecContext_def Tx_QueryContext_def Tx_PrepareContext_def Tx_Rollback_def
      Tx_awaitDone_def Stmt_ExecContext_def Stmt_QueryContext_def facade_Exec_def facade_BeginTx_def
      facade_Query_def;
    intro keeps_intro keeps_case_res grow_runOp grow_conditional assms)

definition fairRun :: "((nat \<Rightarrow> ('c, 'm) req) \<times> ('c, 'm) sop) list \<Rightarrow> bool" where
  "fairRun xs \<longleftrightarrow> (\<forall>(Qs, x) \<in> set xs. \<forall>i. fairReq (Qs i))"

lemma grow_runSops: "fairRun xs \<Longrightarrow> grow w (runSops xs w)"
proof (induction xs w rule: runSops.induct)
  case (2 Qs x xs w)
  obtain r w1 where run: "runSop Qs x w = (r, w1)" by (cases "runSop Qs x w")
  have "keeps grow (runSop Qs x)" using 2(2) by (intro grow_runSop) (simp add: fairRun_def)
  from keepsD [OF this run] have "grow w w1" .
  moreover have "grow w1 (runSops xs w1)" using 2 run by (simp add: fairRun_def)
  ultimately show ?case using run by (auto intro: grow.trans)
qed (simp add: grow.refl)

end
