(* ===== verification/SessionFacts.thy ===== *)
theory SessionFacts
  imports SessionGrow PoolProps
begin

text \<open>
  Facts the properties of the session layer share: operations without an error result (\<open>noFail\<close>),
  and the run of the session's building blocks in a known state.
\<close>

section \<open>Release functions return nothing\<close>

lemma noFail_withLock: "noFail f \<Longrightarrow> noFail (withLock lk f)"
  by (auto simp: noFail_def withLock_run split: prod.splits res.splits)

lemma noFail_dsClose: "noFail (dsClose E ds)"
  unfolding dsClose_def Let_def by (intro noFail_rules)

lemma noFail_dsCloseAll: "noFail (dsCloseAll E dss)"
  by (induction dss) (auto intro!: noFail_rules noFail_dsClose)

lemma noFail_maybeOpen: "noFail (maybeOpenNewConnections E)"
  using maybeOpen_no_Fail by (auto simp: noFail_def)

lemma noFail_validate: "noFail (validateConnection E d b)"
  unfolding validateConnection_def by (intro noFail_withLock noFail_rules)

lemma noFail_putLocked: "noFail (putConnectionConnPoolLocked E p dc err)"
  unfolding putConnectionConnPoolLocked_def isFreeConnectionsNeededLocked_def
    returnConnectionOnRequestLocked_def tryToSaveConnectionAsIdleLocked_def putConnToLru_def
    startCleanerLocked_def
  by (intro noFail_rules keeps_case_list | auto intro!: noFail_rules split: list.split)+

lemma noFail_putConn: "noFail (putConn E p dc err b)"
  unfolding putConn_def
  by (intro noFail_rules noFail_validate noFail_dsCloseAll noFail_maybeOpen noFail_putLocked)

lemma noFail_releaseConn: "noFail (releaseConn E dc err)"
  unfolding releaseConn_def by (intro noFail_rules noFail_putConn)

lemma noFail_runRelease: "noFail (runRelease Q rel err)"
proof (induction Q rel err rule: runRelease.induct)
  case (4 Q rel s r err)
  then show ?case unfolding runRelease.simps by (intro noFail_rules)
qed (simp_all only: runRelease.simps Tx_closemuRUnlockRelease_def
    Conn_closemuRUnlockCondReleaseConn_def noFail_releaseConn, (intro noFail_rules)+)

lemma noFail_closeStmts: "noFail (closeStmts Q ss)"
  by (induction ss) (auto intro!: noFail_rules)

lemma noFail_Tx_close: "noFail (Tx_close Q t err)"
  unfolding Tx_close_def by (intro noFail_rules noFail_runRelease)

lemma noFail_closePrepared: "noFail (Tx_closePrepared Q t)"
  unfolding Tx_closePrepared_def by (intro noFail_rules noFail_closeStmts)

lemma seqA_noFail_result:
  assumes "noFail m" and "seqA m n s = (r, s')" and "\<And>h. r \<noteq> Crash h"
  obtains x t where "m s = (Ok x, t)" and "n t = (r, s')"
  using assms by (cases "m s"; cases "fst (m s)") (auto simp: noFail_def pool_run)

section \<open>Normal runs of the building blocks\<close>

lemma lockA_Ok_iff: "lockA m w = (Ok x, w') \<longleftrightarrow>
    m \<notin> w_locked w \<and> w' = w\<lparr>w_locked := insert m (w_locked w)\<rparr>"
  by (auto simp: lockA_def)

lemma unlockA_Ok_iff: "unlockA m w = (Ok x, w') \<longleftrightarrow>
    m \<in> w_locked w \<and> w' = w\<lparr>w_locked := w_locked w - {m}\<rparr>"
  by (auto simp: unlockA_def)

lemma ofErr_Ok_iff: "ofErr e w = (Ok x, w') \<longleftrightarrow> e = None \<and> w' = w"
  by (auto simp: ofErr_def split: option.splits)

lemma ofSum_Ok_iff: "ofSum r w = (Ok x, w') \<longleftrightarrow> r = Inr x \<and> w' = w"
  by (auto simp: ofSum_def split: sum.splits)

lemma nonNil_Ok_iff: "nonNil y w = (Ok x, w') \<longleftrightarrow> y = Some x \<and> w' = w"
  by (auto simp: nonNil_def split: option.splits)

lemma tryA_Inr_iff: "tryA m w = (Ok (Inr x), w') \<longleftrightarrow> m w = (Ok x, w')"
  by (auto simp: tryA_def split: prod.splits res.splits)

lemma withLock_Ok_iff: "withLock lk f w = (Ok x, w') \<longleftrightarrow> lk \<notin> w_locked w \<and>
    (\<exists>v. f (w\<lparr>w_locked := insert lk (w_locked w)\<rparr>) = (Ok x, v) \<and> lk \<in> w_locked v
       \<and> w' = v\<lparr>w_locked := w_locked v - {lk}\<rparr>)"
  by (auto simp: withLock_run split: prod.splits res.splits if_splits)

lemma releasing_fail_Ok_iff:
  "(case r of Inl e \<Rightarrow> seqA (m e) (fail e) | Inr x \<Rightarrow> f x) w = (Ok y, w') \<longleftrightarrow>
     (\<exists>x. r = Inr x \<and> f x w = (Ok y, w'))"
  by (cases r) (auto simp: seqA_Ok_iff)

lemmas Ok_iffs = releasing_fail_Ok_iff thenA_Ok_iff seqA_Ok_iff lockA_Ok_iff unlockA_Ok_iff ofErr_Ok_iff ofSum_Ok_iff
  nonNil_Ok_iff tryA_Inr_iff withLock_Ok_iff

lemma prepared_in_css:
  "withLock lk (prepareOnConnLocked Q s dc) w = (Ok ds, w') \<Longrightarrow> (dc, ds) \<in> set (st_css (w_st w' s))"
  by (auto simp: prepareOnConnLocked_def Ok_iffs)

lemma removeClosed_keeps_cg:
  "removeClosedStmtLocked s w = (r, w') \<Longrightarrow> st_cg (w_st w' s) = st_cg (w_st w s)"
  by (auto simp: removeClosedStmtLocked_def pool_run Let_def lockA_def unlockA_def
      split: if_splits prod.splits)

end
