(* ===== verification/SessionProps.thy ===== *)
theory SessionProps
  imports SessionFacts "HOL-Library.Multiset"
begin

text \<open>
  What the session layer guarantees: the retries, the end of a transaction, the binding of a
  prepared statement to its connection, and what becomes of a query whose connection is broken.
\<close>

section \<open>Retries\<close>

lemma withRetry_Fail_iff:
  "withRetry f w = (Fail ErrBadConn, w') \<longleftrightarrow>
     (\<exists>w1 w2. f 0 cachedOrNewConn w = (Fail ErrBadConn, w1) \<and>
        f 1 cachedOrNewConn w1 = (Fail ErrBadConn, w2) \<and>
        f 2 alwaysNewConn w2 = (Fail ErrBadConn, w'))"
  by (auto simp: withRetry_def maxBadConnRetries_def pool_run numeral_eq_Suc
      split: prod.splits res.splits sum.splits)

text \<open>
  \<open>ExecContext\<close> ends with the bad-connection error exactly when three attempts in a row did:
  two on a cached or new connection, the last on a connection that is opened for it.
\<close>

theorem exec_fails_after_three_attempts:
  "ExecContext Qs p query args w = (Fail ErrBadConn, w') \<longleftrightarrow>
     (\<exists>w1 w2. pool_exec p query args (Qs 0) cachedOrNewConn w = (Fail ErrBadConn, w1) \<and>
        pool_exec p query args (Qs 1) cachedOrNewConn w1 = (Fail ErrBadConn, w2) \<and>
        pool_exec p query args (Qs 2) alwaysNewConn w2 = (Fail ErrBadConn, w'))"
  unfolding ExecContext_def by (rule withRetry_Fail_iff)

lemma stmtLoop_withRetry: "stmtLoop f 0 (maxBadConnRetries + 1) = withRetry f"
proof
  fix w
  obtain r0 w0 where "f 0 cachedOrNewConn w = (r0, w0)" by fastforce
  moreover obtain r1 w1 where "f 1 cachedOrNewConn w0 = (r1, w1)" by fastforce
  moreover obtain r2 w2 where "f 2 alwaysNewConn w1 = (r2, w2)" by fastforce
  ultimately show "stmtLoop f 0 (maxBadConnRetries + 1) w = withRetry f w"
    by (cases r0; cases r1; cases r2)
      (simp_all add: withRetry_def maxBadConnRetries_def pool_run numeral_eq_Suc)
qed

text \<open>
  C37: The loop of a prepared statement and the retries of a pool are the same strategy: both of the
  statement's operations are \<open>withRetry\<close> of one attempt.
\<close>

theorem statement_retries_like_pool:
  "Stmt_ExecContext Qs s args = withRetry (\<lambda>i. stmtAttempt (Qs i) s args) \<and>
   Stmt_QueryContext Qs s args = withRetry (\<lambda>i. stmtQueryAttempt (Qs i) s args)"
  unfolding Stmt_ExecContext_def Stmt_QueryContext_def by (intro conjI stmtLoop_withRetry)

section \<open>Ended transactions\<close>

lemma done_run:
  assumes "tx_done (txOf w t)"
  shows "Tx_Commit Q t w = (Fail ErrTxDone, w)" and "Tx_rollback Q t b w = (Fail ErrTxDone, w)"
    and "q_ctxErr Q = None \<Longrightarrow> Tx_grabConn Q t w = (Fail ErrTxDone, w)"
  using assms by (auto simp: Tx_Commit_def Tx_rollback_def Tx_grabConn_def pool_run ctxCheck_def
      ofErr_def Tx_closemuRUnlockRelease_def updTx_def fun_upd_idem_iff split: option.split)

text \<open>
  C17: A transaction that was ended stays ended: after any operations of the library, \<open>Commit\<close> and
  \<open>Rollback\<close> return \<open>ErrTxDone\<close> and neither they nor a query in the transaction change
  anything or reach the driver.
\<close>

theorem ended_transaction_stays_ended:
  assumes "tx_done (txOf w t)" and "t < s_nextTx (w_sess w)"
    and "fairRun xs"
    and "w' = runSops xs w" and "q_ctxErr Q = None"
  shows "Tx_Commit Q t w' = (Fail ErrTxDone, w') \<and> Tx_Rollback Q t w' = (Fail ErrTxDone, w')
    \<and> Tx_ExecContext Q t query args w' = (Fail ErrTxDone, w')
    \<and> Tx_QueryContext Q t query args w' = (Fail ErrTxDone, w')"
proof -
  have "grow w w'" using grow_runSops [OF assms(3)] assms(4) by simp
  then have "tx_done (txOf w' t)" using assms(1,2) by (simp add: grow_def sessLater_def)
  then show ?thesis using assms(5)
    by (simp add: done_run Tx_Rollback_def Tx_ExecContext_def Tx_QueryContext_def pool_run)
qed

text \<open>A driver in which everything succeeds, and a request that uses it.\<close>

definition demoDrv :: drvApi where
  "demoDrv = \<lparr>ifPrepareCtx = (\<lambda>h. None), mPrepare = (\<lambda>h q. Inr 3), ifExecerCtx = (\<lambda>h. None),
     ifExecer = (\<lambda>h. None), ifQueryerCtx = (\<lambda>h. None), ifQueryer = (\<lambda>h. None),
     ifStmtExecCtx = (\<lambda>s. None), mStmtExec = (\<lambda>s vs. Inr 8), ifStmtQueryCtx = (\<lambda>s. None),
     mStmtQuery = (\<lambda>s vs. Inr 9), ifBeginTx = (\<lambda>h. None), mBegin = (\<lambda>h. Inr 5),
     ifPinger = (\<lambda>h. None), mCommit = (\<lambda>t. None), mRollback = (\<lambda>t. None),
     mRowsClose = (\<lambda>r. None), mRowsColumns = (\<lambda>r. [''a'']),
     mRowsNext = (\<lambda>r vs. (Some ErrEOF, vs)), ifNextResultSet = (\<lambda>r. None),
     ifColScanType = (\<lambda>r. None), ifColDatabaseType = (\<lambda>r. None), ifColLength = (\<lambda>r. None),
     ifColNullable = (\<lambda>r. None), ifColPrecisionScale = (\<lambda>r. None),
     mLastInsertId = (\<lambda>r. Inr 1), mRowsAffected = (\<lambda>r. Inr 1),
     ifConnChecker = (\<lambda>h. None), ifStmtChecker = (\<lambda>s. None), ifColConverter = (\<lambda>s. None),
     mNumInput = (\<lambda>s. -1),
     apiFmt = \<lparr>fmtFloat = (\<lambda>k f. ''''), fmtTime = (\<lambda>t. ''''), fmtV = (\<lambda>v. ''''),
       startsWithLetter = (\<lambda>s. True), parseFloat = (\<lambda>k s. Inr 0)\<rparr>\<rparr>"

definition demoReq :: "(dcid list, (string \<times> poolid) list) req" where
  "demoReq = \<lparr>q_env = demoEnv, q_others = (\<lambda>cw w. (None, demoEnv, w)), q_wake = id,
     q_drv = demoDrv, q_ctxErr = None, q_ctxHasDone = False\<rparr>"

text \<open>The definitions that run an operation of a session, and those of the concrete world.\<close>

lemmas session_run = Tx_Commit_def Tx_finish_def txCtxErr_def awaitReaders_def pool_run updTx_def
  nonNil_def withLock_def logA_def Tx_closePrepared_def Tx_close_def ofErr_def ofSum_def
  releaseConn_def putConn_def Let_def validateConnection_def expired_def
  putConnectionConnPoolLocked_def isFreeConnectionsNeededLocked_def
  tryToSaveConnectionAsIdleLocked_def putConnToLru_def startCleanerLocked_def

lemmas demo_req_defs = demoReq_def demoDrv_def demoWorld_def demoConn_def demoEnv_def listEnv_def
  newConnPool_def

lemma fair_demoReq: "fairReq demoReq"
  by (simp add: fairReq_def demoReq_def grow.refl)

definition demoEnded :: "(dcid list, (string \<times> poolid) list) world" where
  "demoEnded = updTx 0 (\<lambda>x. x\<lparr>tx_done := True\<rparr>) demoWorld"

theorem ended_transaction_stays_ended_witness:
  "\<exists>w'. Tx_Commit demoReq 0 w' = (Fail ErrTxDone, w') \<and>
     w' = runSops [((\<lambda>_. demoReq), OpExec 0 ''q'' [])] demoEnded"
  using ended_transaction_stays_ended [of demoEnded 0 "[((\<lambda>_. demoReq), OpExec 0 ''q'' [])]" _ demoReq]
    fair_demoReq by (simp add: fairRun_def demoEnded_def updTx_def demoWorld_def demoReq_def)

text \<open>
  C25: What \<open>Commit\<close> returns is what the driver answered: nil only after the driver's commit
  returned nil, another error only as the driver's own; in both cases the driver's commit was
  called. (The transaction is open, its context live and no query of it running.)
\<close>

theorem commit_returns_the_drivers_answer:
  assumes "Tx_Commit Q t w = (r, w')" and "fairReq Q"
    and "\<not> tx_done (txOf w t)" and "txCtxErr Q (txOf w t) = None" and "tx_readers (txOf w t) = 0"
    and "tx_txi (txOf w t) = Some h" and "\<not> (\<exists>c. r = Crash c)"
  shows "r = (case mCommit (q_drv Q) h of None \<Rightarrow> Ok () | Some e \<Rightarrow> Fail e)
    \<and> prefix (s_calls (w_sess w) @ [CallCommit h]) (s_calls (w_sess w'))"
proof -
  let ?w1 = "updTx t (\<lambda>x. x\<lparr>tx_cancelled := True\<rparr>) (updTx t (\<lambda>x. x\<lparr>tx_done := True\<rparr>) w)"
  let ?w2 = "logCall (CallCommit h) ?w1"
  let ?err = "mCommit (q_drv Q) h"
  let ?last = "seqA (if ?err \<noteq> Some ErrBadConn then Tx_closePrepared Q t else ret ())
      (seqA (Tx_close Q t ?err) (ofErr ?err))"
  obtain dc where dc: "tx_dc (txOf w t) = Some dc" and free: "DcMu dc \<notin> w_locked w"
    using assms(1,3-5,7)
    by (cases "tx_dc (txOf w t)")
      (auto simp: Tx_Commit_def Tx_finish_def pool_run awaitReaders_def updTx_def nonNil_def withLock_run
        split: if_splits)
  have run: "Tx_Commit Q t w = ?last ?w2"
    using assms(3-6) dc free
    by (simp add: Tx_Commit_def Tx_finish_def awaitReaders_def updTx_def nonNil_def withLock_def logA_def
        tryA_def thenA_def seqA_def)
  have keep: "keeps grow ?last"
    unfolding Tx_closePrepared_def Tx_close_def
    by (intro keeps_intro grow_runRelease assms(2)) (simp add: grow_sess_defs updTx_def)
  then have "grow ?w2 w'" using run assms(1) by (metis keepsD)
  then have "prefix (s_calls (w_sess w) @ [CallCommit h]) (s_calls (w_sess w'))"
    by (simp add: grow_def sessLater_def updTx_def)
  moreover have "r = (case ?err of None \<Rightarrow> Ok () | Some e \<Rightarrow> Fail e)"
  proof -
    have "noFail (if ?err \<noteq> Some ErrBadConn then Tx_closePrepared Q t else ret ())"
      by (intro noFail_rules noFail_closePrepared)
    then obtain x v where "seqA (Tx_close Q t ?err) (ofErr ?err) v = (r, w')"
      using run assms(1,7) by (metis seqA_noFail_result)
    then obtain v' where "ofErr ?err v' = (r, w')"
      using noFail_Tx_close assms(7) by (metis seqA_noFail_result)
    then show ?thesis by (auto simp: ofErr_def split: option.splits)
  qed
  ultimately show ?thesis by simp
qed

lemma demo_commit: "fst (Tx_Commit demoReq 0 demoWorld) = Ok ()"
  by (simp add: session_run demo_req_defs)

theorem commit_returns_the_drivers_answer_witness:
  "\<exists>w'. Tx_Commit demoReq 0 demoWorld = (Ok (), w') \<and> prefix [CallCommit 5] (s_calls (w_sess w'))"
proof -
  obtain w' where run: "Tx_Commit demoReq 0 demoWorld = (Ok (), w')"
    using demo_commit by (cases "Tx_Commit demoReq 0 demoWorld") simp
  show ?thesis
    using commit_returns_the_drivers_answer [OF run fair_demoReq, of 5] run
    by (simp add: demoWorld_def txCtxErr_def demoReq_def)
qed

section \<open>Broken connections\<close>

text \<open>
  The retry that \<open>ErrBadConn\<close> promises does not happen when a connection breaks in its first
  use: if the driver's \<open>ExecContext\<close> answers \<open>ErrBadConn\<close> on a connection that was never
  idle, \<open>execDC\<close> gives the connection back and the goroutine panics or blocks there.
\<close>

theorem broken_fresh_connection_is_not_retried:
  assumes "lru_cache (q_env Q) keys sz" and "w_locked w = {}" and "dc_inUse (w_dc w d)"
    and "d \<notin> set (keys (f_lruCache w))"
    and "dc_ci (w_dc w d) = Some h" and "ifExecerCtx (q_drv Q) h = Some f"
    and "argsFor (q_drv Q) (Some h) None args = Inr nvdargs" and "f query nvdargs = Inl ErrBadConn"
  shows "crashes (execDC Q d (RelPut d) query args) w"
proof -
  let ?w = "(logCall (CallExecContext query nvdargs) w)\<lparr>w_locked := {}\<rparr>"
  have "crashes (releaseConn (q_env Q) d (Some ErrBadConn)) ?w"
    unfolding releaseConn_def thenA_getA
    using assms(2-4)
    by (simp add: crashes_def releaseConn_def)
      (rule broken_fresh_crashes [OF assms(1), unfolded crashes_def]; simp)
  then obtain c w2 where "releaseConn (q_env Q) d (Some ErrBadConn) ?w = (Crash c, w2)"
    by (metis crashes_def prod.collapse)
  then show ?thesis using assms(2,5-8)
    by (simp add: execDC_def releasing_def withLock_def pool_run ctxDriverExec_def ofSum_def logA_def
        failed_def crashes_def Let_def)
qed

definition brokenDrv :: drvApi where
  "brokenDrv = demoDrv\<lparr>ifExecerCtx := (\<lambda>h. Some (\<lambda>q nv. Inl ErrBadConn))\<rparr>"

theorem broken_fresh_connection_is_not_retried_witness:
  "crashes (execDC (demoReq\<lparr>q_drv := brokenDrv\<rparr>) 0 (RelPut 0) ''q'' []) demoWorld"
proof (rule broken_fresh_connection_is_not_retried)
  show "lru_cache (q_env (demoReq\<lparr>q_drv := brokenDrv\<rparr>)) remdups 2"
    using demo_lru by (simp add: demoReq_def)
  show "argsFor (q_drv (demoReq\<lparr>q_drv := brokenDrv\<rparr>)) (Some 0) None [] = Inr []"
    by (simp add: argsFor_def driverArgsConnLocked_def Let_def)
qed (simp_all add: demoReq_def brokenDrv_def demoWorld_def demoConn_def)

section \<open>Prepared statements\<close>

lemma set_swap_remove: "i < length xs \<Longrightarrow>
    mset (butlast (xs[i := last xs])) = mset xs - {#xs ! i#}"
proof -
  assume i: "i < length xs"
  then obtain ys z where xs: "xs = ys @ [z]" by (cases xs rule: rev_cases) auto
  show ?thesis
  proof (cases "i = length ys")
    case True
    then show ?thesis by (simp add: xs)
  next
    case False
    then have "i < length ys" using i xs by simp
    then show ?thesis
      by (simp add: xs list_update_append nth_append mset_update)
  qed
qed

lemma removeClosedLoop_mset:
  assumes "\<forall>x \<in> set (take i css). \<not> f (fst x)" and "i \<le> length css"
  shows "mset (removeClosedLoop f i css) = filter_mset (\<lambda>x. \<not> f (fst x)) (mset css)"
  using assms
proof (induction f i css rule: removeClosedLoop.induct)
  case (1 f i css)
  show ?case
  proof (cases "i < length css")
    case True
    have drop: "mset css = {#css ! i#} + mset (butlast (css[i := last css]))"
      using set_swap_remove [OF True] True by simp
    show ?thesis
    proof (cases "f (fst (css ! i))")
      case closed: True
      have "take i (butlast (css[i := last css])) = take i css"
        using True by (simp add: take_butlast)
      then show ?thesis
        using 1(1) [OF True closed] 1(3) closed True drop
        by (simp add: removeClosedLoop.simps [of f i css])
    next
      case False
      then show ?thesis using 1(2) [OF True False] 1(3) True
        by (simp add: removeClosedLoop.simps [of f i css] take_Suc_conv_app_nth)
    qed
  next
    case False
    then have "filter (\<lambda>x. \<not> f (fst x)) css = css"
      using 1(3,4) by (simp add: filter_id_conv)
    then show ?thesis using False
      by (metis removeClosedLoop.simps mset_filter)
  qed
qed

text \<open>
  The loop of \<open>removeClosedStmtLocked\<close> always ends; it keeps exactly the entries whose
  connection is not closed, each as often as before, although not in their order.
\<close>

theorem removeClosed_keeps_the_open:
  "mset (removeClosedLoop isClosed 0 css) = mset (filter (\<lambda>(dc, _). \<not> isClosed dc) css)"
  using removeClosedLoop_mset [of 0 css isClosed] by (simp add: case_prod_unfold)

text \<open>
  When \<open>execDC\<close> has to prepare the query itself, the statement it prepared is closed on every
  path: whatever the conversion of the arguments or the execution gives, the driver sees the
  prepare, at most one execution, and the close as the last call; no mutex stays locked and the
  operation returns.
\<close>

theorem exec_closes_its_statement:
  assumes "execPrepared Q d query args w = (r, w')" and "w_locked w = {}"
    and "dc_ci (w_dc w d) = Some h" and "ifPrepareCtx (q_drv Q) h = None"
    and "mPrepare (q_drv Q) h query = Inr si" and "q_ctxErr Q = None"
  shows "\<exists>cs. s_calls (w_sess w') = s_calls (w_sess w) @ [CallPrepare query] @ cs @ [CallStmtClose si]
      \<and> length cs \<le> 1 \<and> w_locked w' = {} \<and> (\<forall>c. r \<noteq> Crash c)"
  using assms
  by (auto simp: execPrepared_def pool_run withLock_run ciOf_def ctxDriverPrepare_def logA_def ofSum_def
      allocDs_def resultFromStatement_def ctxDriverStmtExec_def ctxCheck_def ofErr_def dsClose_def Let_def
      split: sum.splits option.splits)

theorem exec_closes_its_statement_witness:
  "\<exists>cs w'. execPrepared demoReq 0 ''q'' [] demoWorld = (Ok (0, 8), w')
     \<and> s_calls (w_sess w') = [CallPrepare ''q''] @ cs @ [CallStmtClose 3]"
proof -
  have "fst (execPrepared demoReq 0 ''q'' [] demoWorld) = Ok (0, 8)"
    by (simp add: execPrepared_def ciOf_def ctxDriverPrepare_def allocDs_def resultFromStatement_def
        argsFor_def driverArgsConnLocked_def ctxDriverStmtExec_def ctxCheck_def dsClose_def
        session_run demo_req_defs)
  then obtain w' where run: "execPrepared demoReq 0 ''q'' [] demoWorld = (Ok (0, 8), w')"
    by (cases "execPrepared demoReq 0 ''q'' [] demoWorld") simp
  show ?thesis
    using exec_closes_its_statement [OF run, of 0 3] run
    by (auto simp: demoWorld_def demoConn_def demoReq_def demoDrv_def)
qed

text \<open>
  The driver statement that \<open>connStmt\<close> hands out belongs to the connection it hands out: for
  a statement of a pool the pair is in the statement's list \<open>css\<close> and the release function puts
  that connection back; a statement of a transaction or of a single connection only ever uses its
  own driver statement.
\<close>

theorem connStmt_binds_statement_to_connection:
  assumes "connStmt Q s strategy w = (Ok (dc, release, ds), w')"
  shows "(st_cg (w_st w s) = None \<longrightarrow> (dc, ds) \<in> set (st_css (w_st w' s)) \<and> release = RelPut dc)
    \<and> (st_cg (w_st w s) \<noteq> None \<longrightarrow> st_cgds (w_st w s) = Some ds)"
proof (cases "st_cg (w_st w s)")
  case None
  then obtain w1 dc' where r: "(case map_of (st_css (w_st w1 s)) dc' of Some ds \<Rightarrow> ret (dc', RelPut dc', ds)
        | None \<Rightarrow> thenA (tryA (withLock (DcMu dc') (prepareOnConnLocked Q s dc')))
            (\<lambda>r. case r of Inl e \<Rightarrow> seqA (releaseConn (q_env Q) dc' (Some e)) (fail e)
             | Inr ds \<Rightarrow> ret (dc', RelPut dc', ds)))
      (w1\<lparr>w_locked := w_locked w1 - {StmtMu s}\<rparr>) = (Ok (dc, release, ds), w')"
    using assms by (auto simp: connStmt_def Ok_iffs cong: option.case_cong split: if_splits)
  show ?thesis
  proof (cases "map_of (st_css (w_st w1 s)) dc'")
    case None
    then show ?thesis using r \<open>st_cg (w_st w s) = None\<close>
      by (auto simp: Ok_iffs simp del: withLock_Ok_iff dest: prepared_in_css)
  next
    case (Some d)
    then show ?thesis using r \<open>st_cg (w_st w s) = None\<close> by (auto dest: map_of_SomeD)
  qed
next
  case (Some cg)
  then show ?thesis using assms
    by (auto simp: connStmt_def Ok_iffs split: option.splits if_splits prod.splits)
qed

theorem connStmt_binds_statement_to_connection_witness:
  "\<exists>w'. connStmt demoReq 0 cachedOrNewConn demoWorld = (Ok (1, RelPut 1, 0), w')
     \<and> (1, 0) \<in> set (st_css (w_st w' 0))"
proof -
  have "fst (connStmt demoReq 0 cachedOrNewConn demoWorld) = Ok (1, RelPut 1, 0)"
    by (simp add: connStmt_def removeClosedStmtLocked_def connGet_def conn_def connFromFree_def
        resetSession_def prepareOnConnLocked_def prepareLocked_def ciOf_def ctxDriverPrepare_def
        allocDs_def session_run demo_req_defs)
  then obtain w' where run: "connStmt demoReq 0 cachedOrNewConn demoWorld = (Ok (1, RelPut 1, 0), w')"
    by (cases "connStmt demoReq 0 cachedOrNewConn demoWorld") simp
  show ?thesis
    using connStmt_binds_statement_to_connection [OF run] run by (simp add: demoWorld_def)
qed

section \<open>Single connections\<close>

lemma ctxDriverBegin_frame:
  "ctxDriverBegin Q opts ci w = (Ok txi, w') \<Longrightarrow> \<exists>c. w' = logCall c w"
  by (auto simp: ctxDriverBegin_def Ok_iffs logA_def Let_def split: option.splits if_splits)

lemma Conn_BeginTx_run:
  assumes "Conn_BeginTx Q c opts w = (Ok t, w1)"
  shows "\<not> cn_done (connOf w1 c) \<and> cn_readers (connOf w1 c) = Suc (cn_readers (connOf w c))
    \<and> tx_release (txOf w1 t) = RelConn c"
  using assms
  by (auto simp: Conn_BeginTx_def Conn_grabConn_def beginDC_def releasingOnError_def Ok_iffs
    allocTx_def ciOf_def updConn_def Let_def dest!: ctxDriverBegin_frame split: if_splits option.splits prod.splits)

text \<open>
  A transaction begun on a single connection holds that connection: until it ends, \<open>Close\<close> of
  the connection does not give the connection back but waits, for ever if no other goroutine ends
  the transaction. The transaction's end is what releases it (its release function is the
  connection's read unlock).
\<close>

theorem conn_close_waits_for_its_transaction:
  assumes "Conn_BeginTx Q c opts w = (Ok t, w1)"
    and "\<And>v. cn_readers (connOf (q_wake Q1 v) c) = cn_readers (connOf v c)"
  shows "tx_release (txOf w1 t) = RelConn c \<and> fst (Conn_Close Q1 c w1) = Crash Deadlock"
  using Conn_BeginTx_run [OF assms(1)] assms(2)
  by (simp add: Conn_Close_def Conn_close_def awaitReaders_def Let_def pool_run updConn_def)

theorem conn_close_waits_for_its_transaction_witness:
  "\<exists>t w1. Conn_BeginTx demoReq 0 None demoWorld = (Ok t, w1)
     \<and> fst (Conn_Close demoReq 0 w1) = Crash Deadlock"
proof -
  have "fst (Conn_BeginTx demoReq 0 None demoWorld) = Ok 1"
    by (simp add: Conn_BeginTx_def Conn_grabConn_def updConn_def beginDC_def releasingOnError_def
        ciOf_def ctxDriverBegin_def allocTx_def session_run demo_req_defs)
  then obtain w1 where run: "Conn_BeginTx demoReq 0 None demoWorld = (Ok 1, w1)"
    by (cases "Conn_BeginTx demoReq 0 None demoWorld") simp
  show ?thesis
    using conn_close_waits_for_its_transaction [OF run, of demoReq] run by (auto simp: demoReq_def)
qed

end
