(* ===== verification/RowsProps.thy ===== *)
theory RowsProps
  imports SessionProps
begin

text \<open>What reading rows guarantees: rows end once, and the connection goes back on every path.\<close>

text \<open>
  What reading a row leaves alone: pools, connections and the release function of rows, and, when
  \<open>b\<close> holds, whether rows are closed.
\<close>

definition still :: "bool \<Rightarrow> ('c, 'm) world \<Rightarrow> ('c, 'm) world \<Rightarrow> bool" where
  "still b w w' \<longleftrightarrow> w_pool w' = w_pool w \<and> w_dc w' = w_dc w \<and> f_numOpened w' = f_numOpened w
     \<and> (\<forall>r. rs_release (rowsOf w' r) = rs_release (rowsOf w r))
     \<and> (b \<longrightarrow> (\<forall>r. rs_closed (rowsOf w' r) = rs_closed (rowsOf w r)))"

interpretation still: act_order "still b" for b
  by standard (auto simp: still_def)

lemmas still_rules [keeps_intro] = still.keeps_rules still.keeps_modA

lemma still_basic [keeps_intro]:
  "keeps (still b) (lockA m)" "keeps (still b) (unlockA m)" "keeps (still b) (logA c)"
  by (auto simp: keeps_def lockA_def unlockA_def logA_def still_def)

lemma still_parts [keeps_intro]:
  "keeps (still b) f \<Longrightarrow> keeps (still b) (withLock lk f)" "keeps (still b) (dsClose E ds)"
  "keeps (still b) (nonNil x)" "keeps (still b) (nextLocked Q r)" "keeps (still b) (Rows_Scan Q r dest)"
  "keeps (still b) (Rows_Err r)"
  unfolding withLock_def dsClose_def nonNil_def nextLocked_def Rows_Scan_def Let_def Rows_Err_def
  by (intro keeps_intro keeps_case_res; simp add: still_def updRows_def)+

text \<open>
  The connection of open rows is given back: the release function of the rows runs once, as the
  last effect, in a world whose pools and connections are those of the start.
\<close>

definition released :: "('c, 'm) req \<Rightarrow> rowsid \<Rightarrow> ('c, 'm) world \<Rightarrow> ('c, 'm) world \<Rightarrow> bool" where
  "released Q r w w' \<longleftrightarrow> rs_closed (rowsOf w' r) \<and> (\<exists>w1 err. still False w w1 \<and> grow w w1
     \<and> rs_closed (rowsOf w1 r) \<and> runRelease Q (rs_release (rowsOf w r)) err w1 = (Ok (), w'))"

lemma released_later: "still True w v \<Longrightarrow> grow w v \<Longrightarrow> released Q r v w' \<Longrightarrow> released Q r w w'"
  unfolding released_def by (auto simp: still_def intro: grow.trans)

lemma thenA_noFail_result:
  assumes "noFail m" and "thenA m f s = (r, s')" and "\<And>h. r \<noteq> Crash h"
  obtains x t where "m s = (Ok x, t)" and "f x t = (r, s')"
  using assms by (cases "m s"; cases "fst (m s)") (auto simp: noFail_def thenA_def)

lemma Rows_close_releases:
  assumes "Rows_close Q r err w = (res, w')" and "fairReq Q" and "r < s_nextRows (w_sess w)"
    and "\<not> rs_closed (rowsOf w r)" and crash: "\<And>c. res \<noteq> Crash c"
  shows "released Q r w w'"
proof -
  let ?w0 = "updRows r (\<lambda>x. x\<lparr>rs_closed := True,
      rs_lasterr := (if rs_lasterr (rowsOf w r) = None then err else rs_lasterr (rowsOf w r))\<rparr>) w"
  let ?drv = "withLock (DcMu (rs_dc (rowsOf w r))) (case rs_rowsi (rowsOf w r) of
        None \<Rightarrow> crash NilDeref
      | Some h \<Rightarrow> seqA (logA (CallRowsClose h)) (ret (mRowsClose (q_drv Q) h)))"
  let ?stmt = "case rs_closeStmt (rowsOf w r) of None \<Rightarrow> ret ()
      | Some ds \<Rightarrow> thenA (dsClose (q_env Q) ds) (\<lambda>_. ret ())"
  have run: "thenA ?drv (\<lambda>e. seqA ?stmt (seqA (runRelease Q (rs_release (rowsOf w r)) e) (ofErr e))) ?w0 = (res, w')"
    using assms(1,4) by (simp add: Rows_close_def)
  have "noFail ?drv" unfolding logA_def by (intro noFail_withLock noFail_rules)
  from this run crash obtain e v1 where drv: "?drv ?w0 = (Ok e, v1)"
    and run1: "seqA ?stmt (seqA (runRelease Q (rs_release (rowsOf w r)) e) (ofErr e)) v1 = (res, w')"
    by (rule thenA_noFail_result)
  have "noFail ?stmt" by (intro noFail_rules noFail_dsClose)
  from this run1 crash obtain u v2 where stmt: "?stmt v1 = (Ok u, v2)"
    and run2: "seqA (runRelease Q (rs_release (rowsOf w r)) e) (ofErr e) v2 = (res, w')"
    by (rule seqA_noFail_result)
  from noFail_runRelease run2 crash obtain u v3
    where rel: "runRelease Q (rs_release (rowsOf w r)) e v2 = (Ok u, v3)" and "ofErr e v3 = (res, w')"
    by (rule seqA_noFail_result)
  then have rel': "runRelease Q (rs_release (rowsOf w r)) e v2 = (Ok (), w')"
    by (auto simp: ofErr_def split: option.splits)
  have "keeps (still False) ?drv" "keeps (still False) ?stmt" by (intro keeps_intro)+
  from keepsD [OF this(1) drv] keepsD [OF this(2) stmt] have "still False ?w0 v2" by (rule still.trans)
  moreover have "still False w ?w0" by (simp add: still_def updRows_def)
  ultimately have st: "still False w v2" by (rule still.trans [rotated])
  have "keeps grow ?drv" "keeps grow ?stmt" by (intro keeps_intro)+
  from keepsD [OF this(1) drv] keepsD [OF this(2) stmt] have gr: "grow ?w0 v2" by (rule grow.trans)
  have gr0: "grow w ?w0" by (simp add: grow_sess_defs updRows_def)
  have nextr: "r < s_nextRows (w_sess ?w0)" "rs_closed (rowsOf ?w0 r)"
    using assms(3) by (simp_all add: updRows_def)
  then have closed: "rs_closed (rowsOf v2 r)" "r < s_nextRows (w_sess v2)"
    using gr by (auto simp: grow_def sessLater_def)
  moreover have "grow v2 w'" by (rule keepsD [OF grow_runRelease [OF assms(2)] rel'])
  ultimately have "rs_closed (rowsOf w' r)" by (auto simp: grow_def sessLater_def)
  then show ?thesis unfolding released_def using st grow.trans [OF gr0 gr] closed rel' by blast
qed

lemma Rows_close_closed: "rs_closed (rowsOf w r) \<Longrightarrow> Rows_close Q r err w = (Ok (), w)"
  by (simp add: Rows_close_def)

lemma tryClose_releases:
  assumes "thenA (tryA (Rows_close Q r err)) f w = (res, w')" and "fairReq Q" and "r < s_nextRows (w_sess w)"
    and "\<not> rs_closed (rowsOf w r)" and "\<And>c. res \<noteq> Crash c"
  obtains x v where "released Q r w v" and "f x v = (res, w')"
proof -
  obtain q v where run: "Rows_close Q r err w = (q, v)" by fastforce
  then have "q \<noteq> Crash c" for c using assms(1) assms(5) [of c] by (auto simp: thenA_def tryA_def)
  from Rows_close_releases [OF run assms(2-4) this] have "released Q r w v" .
  moreover obtain x where "f x v = (res, w')"
    using assms(1,5) run by (cases q) (auto simp: thenA_def tryA_def)
  ultimately show ?thesis by (rule that)
qed

lemma Rows_Scan_pure: "snd (Rows_Scan Q r dest w) = w"
  by (simp add: Rows_Scan_def Let_def split: option.split prod.split res.split)

definition scanRest :: "('c, 'm) req \<Rightarrow> rowsid \<Rightarrow> (bool \<times> dkind) list \<Rightarrow> bool \<Rightarrow> ('c, 'm, gval list) pact" where
  "scanRest Q r dest ok = (if \<not> ok then thenA (Rows_Err r) (\<lambda>err. case err of Some e \<Rightarrow> fail e | None \<Rightarrow> fail ErrNoRows)
      else thenA (Rows_Scan Q r dest) (\<lambda>vs. seqA (Rows_close Q r None) (ret vs)))"

text \<open>After \<open>Next\<close>: nothing more happens, or the rows are closed.\<close>

lemma scanRest_run:
  assumes "scanRest Q r dest ok v = (res, w')"
  shows "w' = v \<or> (\<exists>q. Rows_close Q r None v = (q, w') \<and> ((\<exists>c. q = Crash c) \<longrightarrow> (\<exists>c. res = Crash c)))"
proof (cases ok)
  case False
  then show ?thesis using assms by (auto simp: scanRest_def Rows_Err_def split: option.splits)
next
  case True
  obtain q1 where sc: "Rows_Scan Q r dest v = (q1, v)"
    using Rows_Scan_pure [of Q r dest v] by (cases "Rows_Scan Q r dest v") simp
  obtain q2 u where cl: "Rows_close Q r None v = (q2, u)" by fastforce
  show ?thesis using assms True sc cl
    by (cases q1; cases q2) (auto simp: scanRest_def thenA_def seqA_def)
qed

lemma rowScanBody_releases:
  assumes "rowScanBody Q r dest w = (res, w')" and "fairReq Q" and "r < s_nextRows (w_sess w)"
    and "\<not> rs_closed (rowsOf w r)" and crash: "\<And>c. res \<noteq> Crash c"
  shows "still True w w' \<and> grow w w' \<or> released Q r w w'"
proof (cases "\<exists>d \<in> set dest. isRawBytes (snd d)")
  case True
  then show ?thesis using assms(1) by (simp add: rowScanBody_def still.refl grow.refl)
next
  case False
  then have run: "thenA (Rows_Next Q r) (scanRest Q r dest) w = (res, w')"
    using assms(1) by (simp add: rowScanBody_def scanRest_def [abs_def])
  obtain q1 v1 where nx: "nextLocked Q r w = (q1, v1)" by fastforce
  have n1: "still True w v1" "grow w v1"
    using keepsD [of "still True" "nextLocked Q r" w q1 v1] keepsD [of grow "nextLocked Q r" w q1 v1] nx
    by (simp_all add: keeps_intro)
  then have v1: "r < s_nextRows (w_sess v1)" "\<not> rs_closed (rowsOf v1 r)"
    using assms(3,4) by (auto simp: still_def grow_def sessLater_def)
  consider (stop) "w' = v1" | (open_) ok where "scanRest Q r dest ok v1 = (res, w')"
    | (close) ok v2 where "released Q r v1 v2" "scanRest Q r dest ok v2 = (res, w')"
  proof (cases q1)
    case (Ok p)
    obtain doClose ok where p: "p = (doClose, ok)" by (cases p)
    show ?thesis
    proof (cases doClose)
      case True
      have "thenA (tryA (Rows_close Q r None)) (\<lambda>_. scanRest Q r dest ok) v1 = (res, w')"
        using run nx Ok p True
        by (auto simp: Rows_Next_def closeIf_def thenA_def seqA_def split: prod.splits res.splits)
      then show ?thesis using tryClose_releases [OF _ assms(2) v1 crash] close by metis
    qed (use run nx Ok p in \<open>auto simp: Rows_Next_def closeIf_def thenA_def seqA_def intro: open_\<close>)
  qed (use run nx in \<open>auto simp: Rows_Next_def thenA_def intro: stop\<close>)
  then have "w' = v1 \<or> released Q r v1 w'"
  proof cases
    case (open_ ok)
    then show ?thesis using scanRest_run [OF open_] Rows_close_releases [OF _ assms(2) v1] crash by metis
  next
    case (close ok v2)
    then have "rs_closed (rowsOf v2 r)" by (simp add: released_def)
    then show ?thesis using scanRest_run [OF close(2)] close(1) by (auto simp: Rows_close_closed)
  qed simp
  then show ?thesis using n1 released_later [OF n1] by auto
qed

lemma Row_Scan_releases:
  assumes "Row_Scan Q (RowOf r) dest w = (res, w')" and "fairReq Q" and "r < s_nextRows (w_sess w)"
    and "\<not> rs_closed (rowsOf w r)" and crash: "\<And>c. res \<noteq> Crash c"
  shows "released Q r w w'"
proof -
  obtain q v where body: "rowScanBody Q r dest w = (q, v)" by fastforce
  have "q \<noteq> Crash c" for c using assms(1) crash [of c] body by (auto simp: Row_Scan_def thenA_def tryA_def)
  note body = rowScanBody_releases [OF body assms(2-4) this] body
  then obtain x where run: "thenA (tryA (Rows_close Q r None)) (\<lambda>_. ofSum x) v = (res, w')"
    using assms(1) crash by (cases q) (auto simp: Row_Scan_def thenA_def tryA_def)
  have pure: "ofSum x u = (res, w') \<Longrightarrow> u = w'" for u by (auto simp: ofSum_def split: sum.splits)
  from body(1) show ?thesis
  proof
    assume v: "still True w v \<and> grow w v"
    then have "r < s_nextRows (w_sess v)" "\<not> rs_closed (rowsOf v r)"
      using assms(3,4) by (auto simp: still_def grow_def sessLater_def)
    from tryClose_releases [OF run assms(2) this crash] have "released Q r v w'" using pure by metis
    then show ?thesis using v released_later by blast
  next
    assume "released Q r w v"
    moreover from this have "v = w'"
      using run pure by (auto simp: released_def Rows_close_closed thenA_def tryA_def)
    ultimately show ?thesis by simp
  qed
qed

text \<open>
  C31: \<open>Row.Scan\<close> on the open rows of a query gives its connection back on every path that
  returns: a wrong destination, no row, a driver error, a failed conversion or success. Its last
  effect is the release function of the rows, called when the rows are marked closed and returning
  normally; until then \<open>Scan\<close> changed no pool, no connection and not the count of open ones. For
  rows of a pool's query this function is \<open>releaseConn\<close> of the connection. What other goroutines
  do while a release waits is arbitrary but for ending nothing backwards (\<open>fairReq\<close>).
\<close>

theorem row_scan_always_closes:
  assumes "Row_Scan Q (RowOf r) dest w = (res, w')" and "fairReq Q"
    and "r < s_nextRows (w_sess w)" and "\<not> rs_closed (rowsOf w r)" and "\<And>c. res \<noteq> Crash c"
  shows "rs_closed (rowsOf w' r) \<and> (\<exists>w1 err. w_pool w1 = w_pool w \<and> w_dc w1 = w_dc w \<and>
      f_numOpened w1 = f_numOpened w \<and> rs_closed (rowsOf w1 r) \<and>
      runRelease Q (rs_release (rowsOf w r)) err w1 = (Ok (), w'))"
  using Row_Scan_releases [OF assms] by (auto simp: released_def still_def)

theorem row_scan_always_closes_witness:
  "\<exists>w'. Row_Scan demoReq (RowOf 0) [] demoWorld = (Fail ErrNoRows, w') \<and> rs_closed (rowsOf w' 0) \<and>
     (\<exists>w1 err. releaseConn demoEnv 0 err w1 = (Ok (), w'))"
proof -
  have "fst (Row_Scan demoReq (RowOf 0) [] demoWorld) = Fail ErrNoRows"
    by (simp add: Row_Scan_def rowScanBody_def Rows_Next_def nextLocked_def closeIf_def Rows_close_def
        Rows_Err_def lasterrOrErrLocked_def afterNext_def updRows_def session_run demo_req_defs)
  then obtain w' where run: "Row_Scan demoReq (RowOf 0) [] demoWorld = (Fail ErrNoRows, w')"
    by (cases "Row_Scan demoReq (RowOf 0) [] demoWorld") simp
  show ?thesis
    using row_scan_always_closes [OF run fair_demoReq] run by (auto simp: demoWorld_def demoReq_def)
qed

text \<open>
  C32: Closed rows stay closed whatever the library does afterwards: \<open>Next\<close> and
  \<open>NextResultSet\<close> report no row and \<open>Close\<close> no error, none of them reaches the driver or
  releases the connection again, and \<open>Scan\<close> fails.
\<close>

theorem closed_rows_stay_closed:
  assumes "rs_closed (rowsOf w r)" and "r < s_nextRows (w_sess w)" and "fairRun xs"
    and "w' = runSops xs w"
  shows "Rows_Next Q r w' = (Ok False, w') \<and> Rows_NextResultSet Q r w' = (Ok False, w')
    \<and> Rows_close Q r err w' = (Ok (), w') \<and> (\<exists>e. Rows_Scan Q r dest w' = (Fail e, w'))"
proof -
  have "grow w w'" using grow_runSops [OF assms(3)] assms(4) by simp
  then have "rs_closed (rowsOf w' r)" using assms(1,2) by (simp add: grow_def sessLater_def)
  then show ?thesis
    by (auto simp: Rows_Next_def nextLocked_def closeIf_def Rows_NextResultSet_def Rows_close_def
        Rows_Scan_def pool_run split: option.split)
qed

definition demoClosedRows :: "(dcid list, (string \<times> poolid) list) world" where
  "demoClosedRows = updRows 0 (\<lambda>x. x\<lparr>rs_closed := True\<rparr>) demoWorld"

theorem closed_rows_stay_closed_witness:
  "\<exists>w'. Rows_Next demoReq 0 w' = (Ok False, w')
     \<and> w' = runSops [((\<lambda>_. demoReq), OpCommit 0)] demoClosedRows"
  using closed_rows_stay_closed [of demoClosedRows 0 "[((\<lambda>_. demoReq), OpCommit 0)]" _ demoReq None "[]"]
    fair_demoReq by (simp add: fairRun_def demoClosedRows_def updRows_def demoWorld_def)

text \<open>
  \<open>Next\<close> on open rows reports a row exactly when the driver gave one; it closes the rows when
  the driver fails, and at the end of a result set only when no further one follows, so that
  \<open>NextResultSet\<close> can go on.
\<close>

theorem next_closes_at_the_end_only:
  assumes "nextLocked Q r w = (Ok (doClose, ok), w')" and "\<not> rs_closed (rowsOf w r)"
    and "rs_rowsi (rowsOf w r) = Some h"
    and "rs_lastcols (rowsOf w r) = Some cols" and "mRowsNext (q_drv Q) h cols = (err, cols')"
  shows "(ok \<longleftrightarrow> err = None) \<and> rs_lasterr (rowsOf w' r) = err \<and> rs_lastcols (rowsOf w' r) = Some cols'
    \<and> (doClose \<longleftrightarrow> err \<noteq> None \<and>
         (err = Some ErrEOF \<longrightarrow> (\<forall>e. ifNextResultSet (q_drv Q) h \<noteq> Some (True, e))))"
  using assms
  by (auto simp: nextLocked_def Ok_iffs logA_def updRows_def afterNext_def
      split: option.splits if_splits)

theorem next_closes_at_the_end_only_witness:
  "\<exists>w'. nextLocked demoReq 0 (updRows 0 (\<lambda>x. x\<lparr>rs_lastcols := Some [VNil]\<rparr>) demoWorld) = (Ok (True, False), w')
     \<and> rs_lasterr (rowsOf w' 0) = Some ErrEOF"
proof -
  let ?w = "updRows 0 (\<lambda>x. x\<lparr>rs_lastcols := Some [VNil]\<rparr>) demoWorld"
  have "fst (nextLocked demoReq 0 ?w) = Ok (True, False)"
    by (simp add: nextLocked_def afterNext_def updRows_def session_run demo_req_defs)
  then obtain w' where run: "nextLocked demoReq 0 ?w = (Ok (True, False), w')"
    by (cases "nextLocked demoReq 0 ?w") simp
  show ?thesis
    using next_closes_at_the_end_only [OF run, of 0 "[VNil]" "Some ErrEOF" "[VNil]"] run
    by (simp add: demoWorld_def updRows_def demoReq_def demoDrv_def)
qed

end
