(* ===== verification/SessionEntry.thy ===== *)
theory SessionEntry
  imports RowsCursor
begin

text \<open>
  The entry points without a context (\<open>Exec\<close>, \<open>Query\<close>, \<open>QueryRow\<close>, \<open>Prepare\<close>, \<open>Begin\<close>, \<open>Ping\<close> and
  \<open>Stmt\<close> of a pool, a transaction and a statement), \<open>Rows.Close\<close>, the remaining accessors, and the
  check of arguments that the MySQL driver offers.
\<close>

section \<open>The background context\<close>

text \<open>
  \<open>context.Background()\<close> has no \<open>Done\<close> channel and never an error: neither a check nor the wait
  for a connection ends because of it.
\<close>

definition background :: "('c, 'm) req \<Rightarrow> ('c, 'm) req" where
  "background Q = Q\<lparr>q_env := (q_env Q)\<lparr>ctxErr := None\<rparr>,
     q_others := (\<lambda>cw w. case q_others Q cw w of (_, E, w) \<Rightarrow> (None, E\<lparr>ctxErr := None\<rparr>, w)),
     q_ctxErr := None, q_ctxHasDone := False\<rparr>"

lemma background_simps [simp]:
  "q_ctxErr (background Q) = None" "\<not> q_ctxHasDone (background Q)" "q_drv (background Q) = q_drv Q"
  "q_wake (background Q) = q_wake Q" "ctxErr (q_env (background Q)) = None"
  by (simp_all add: background_def)

lemma background_idem [simp]: "background (background Q) = background Q"
  by (auto simp: background_def fun_eq_iff split: prod.splits)

lemma ctxCheck_background [simp]: "ctxCheck (background Q) = ret ()"
  by (simp add: ctxCheck_def ofErr_def)

text \<open>The context that ends while the goroutine waits is not seen either: the response is received.\<close>

lemma waitConn_background:
  "waitConn (q_others (background Q)) p strategy cw w
    = (case q_others Q cw w of (_, E, w') \<Rightarrow> connReceived (E\<lparr>ctxErr := None\<rparr>) p strategy cw w')"
  by (simp add: background_def waitConn_def split: prod.splits)

section \<open>A pool\<close>

definition ConnPool_Exec :: "(nat \<Rightarrow> ('c, 'm) req) \<Rightarrow> poolid \<Rightarrow> string \<Rightarrow> garg list
    \<Rightarrow> ('c, 'm, dcid \<times> nat) pact" where
  "ConnPool_Exec Qs = ExecContext (background \<circ> Qs)"

definition ConnPool_Query :: "(nat \<Rightarrow> ('c, 'm) req) \<Rightarrow> poolid \<Rightarrow> string \<Rightarrow> garg list
    \<Rightarrow> ('c, 'm, rowsid) pact" where
  "ConnPool_Query Qs = QueryContext (background \<circ> Qs)"

definition ConnPool_QueryRow :: "(nat \<Rightarrow> ('c, 'm) req) \<Rightarrow> poolid \<Rightarrow> string \<Rightarrow> garg list
    \<Rightarrow> ('c, 'm, Row) pact" where
  "ConnPool_QueryRow Qs = QueryRowContext (background \<circ> Qs)"

definition ConnPool_Prepare :: "(nat \<Rightarrow> ('c, 'm) req) \<Rightarrow> poolid \<Rightarrow> string \<Rightarrow> ('c, 'm, stid) pact" where
  "ConnPool_Prepare Qs = PrepareContext (background \<circ> Qs)"

definition ConnPool_Begin :: "(nat \<Rightarrow> ('c, 'm) req) \<Rightarrow> poolid \<Rightarrow> ('c, 'm, txid) pact" where
  "ConnPool_Begin Qs p = BeginTx (background \<circ> Qs) p None"

definition ConnPool_Ping :: "(nat \<Rightarrow> ('c, 'm) req) \<Rightarrow> poolid \<Rightarrow> ('c, 'm, unit) pact" where
  "ConnPool_Ping Qs = PingContext (background \<circ> Qs)"

section \<open>A transaction\<close>

definition Tx_isDone :: "Tx \<Rightarrow> bool" where
  "Tx_isDone tx = tx_done tx"

definition Tx_Prepare :: "('c, 'm) req \<Rightarrow> txid \<Rightarrow> string \<Rightarrow> ('c, 'm, stid) pact" where
  "Tx_Prepare Q = Tx_PrepareContext (background Q)"

definition Tx_Stmt :: "('c, 'm) req \<Rightarrow> txid \<Rightarrow> stid \<Rightarrow> ('c, 'm, stid) pact" where
  "Tx_Stmt Q = Tx_StmtContext (background Q)"

definition Tx_Exec :: "('c, 'm) req \<Rightarrow> txid \<Rightarrow> string \<Rightarrow> garg list \<Rightarrow> ('c, 'm, dcid \<times> nat) pact" where
  "Tx_Exec Q = Tx_ExecContext (background Q)"

definition Tx_Query :: "('c, 'm) req \<Rightarrow> txid \<Rightarrow> string \<Rightarrow> garg list \<Rightarrow> ('c, 'm, rowsid) pact" where
  "Tx_Query Q = Tx_QueryContext (background Q)"

definition Tx_QueryRow :: "('c, 'm) req \<Rightarrow> txid \<Rightarrow> string \<Rightarrow> garg list \<Rightarrow> ('c, 'm, Row) pact" where
  "Tx_QueryRow Q = Tx_QueryRowContext (background Q)"

section \<open>A statement\<close>

definition Stmt_Exec :: "(nat \<Rightarrow> ('c, 'm) req) \<Rightarrow> stid \<Rightarrow> garg list \<Rightarrow> ('c, 'm, dcid \<times> nat) pact" where
  "Stmt_Exec Qs = Stmt_ExecContext (background \<circ> Qs)"

definition Stmt_Query :: "(nat \<Rightarrow> ('c, 'm) req) \<Rightarrow> stid \<Rightarrow> garg list \<Rightarrow> ('c, 'm, rowsid) pact" where
  "Stmt_Query Qs = Stmt_QueryContext (background \<circ> Qs)"

definition Stmt_QueryRow :: "(nat \<Rightarrow> ('c, 'm) req) \<Rightarrow> stid \<Rightarrow> garg list \<Rightarrow> ('c, 'm, Row) pact" where
  "Stmt_QueryRow Qs = Stmt_QueryRowContext (background \<circ> Qs)"

section \<open>Rows, columns, nullable values\<close>

definition Rows_Close :: "('c, 'm) req \<Rightarrow> rowsid \<Rightarrow> ('c, 'm, unit) pact" where
  "Rows_Close Q r = Rows_close Q r None"

definition ColumnType_Name :: "ColumnType \<Rightarrow> string" where
  "ColumnType_Name ci = ct_name ci"

definition ColumnType_ScanType :: "ColumnType \<Rightarrow> string" where
  "ColumnType_ScanType ci = ct_scanType ci"

definition ColumnType_DatabaseTypeName :: "ColumnType \<Rightarrow> string" where
  "ColumnType_DatabaseTypeName ci = ct_databaseType ci"

definition NullString_Value :: "gval \<times> bool \<Rightarrow> gval" where
  "NullString_Value ns = (if \<not> snd ns then VNil else fst ns)"

definition NullFloat64_Value :: "gval \<times> bool \<Rightarrow> gval" where
  "NullFloat64_Value n = (if \<not> snd n then VNil else fst n)"

definition NullBool_Value :: "gval \<times> bool \<Rightarrow> gval" where
  "NullBool_Value n = (if \<not> snd n then VNil else fst n)"

definition NullTime_Value :: "gval \<times> bool \<Rightarrow> gval" where
  "NullTime_Value n = (if \<not> snd n then VNil else fst n)"

section \<open>The argument check of the MySQL driver\<close>

text \<open>A failed conversion leaves nil in the value, as in \<open>defaultCheckNamedValue\<close>.\<close>

definition mysqlConn_CheckNamedValue :: checker where
  "mysqlConn_CheckNamedValue nv = (case mysqlConvert (nv_Value nv) of
       Inl err \<Rightarrow> (Some err, nv\<lparr>nv_Value := VNil\<rparr>)
     | Inr v \<Rightarrow> (None, nv\<lparr>nv_Value := v\<rparr>))"

definition mysqlStmt_CheckNamedValue :: checker where
  "mysqlStmt_CheckNamedValue nv = (case mysqlConvert (nv_Value nv) of
       Inl err \<Rightarrow> (Some err, nv\<lparr>nv_Value := VNil\<rparr>)
     | Inr v \<Rightarrow> (None, nv\<lparr>nv_Value := v\<rparr>))"

end
