(* ===== verification/TimeCodec.thy ===== *)
theory TimeCodec
  imports Wire
begin

text \<open>
  Dates and times of the MySQL protocol, \<open>mysql/utils.go\<close> lines 90 to 486: the text forms, the
  binary forms and the conversion between them. A \<open>time.Time\<close> is its clock reading with the
  offset of its location (a \<open>*time.Location\<close> is its offset from UTC in seconds; zones that change
  their offset are outside the model).
\<close>

section \<open>time.Time\<close>

record gotime =
  t_year :: int
  t_month :: int
  t_day :: int
  t_hour :: int
  t_min :: int
  t_sec :: int
  t_nsec :: int
  t_off :: int

definition isLeap :: "int \<Rightarrow> bool" where
  "isLeap y \<longleftrightarrow> y mod 4 = 0 \<and> (y mod 100 \<noteq> 0 \<or> y mod 400 = 0)"

definition daysIn :: "int \<Rightarrow> int \<Rightarrow> int" where
  "daysIn m y = (if m = 2 then (if isLeap y then 29 else 28)
     else if m = 4 \<or> m = 6 \<or> m = 9 \<or> m = 11 then 30 else 31)"

lemma daysIn_bounds: "28 \<le> daysIn m y" "daysIn m y \<le> 31"
  by (auto simp: daysIn_def)

text \<open>A day outside its month moves to the neighbouring months, as \<open>time.Date\<close> promises.\<close>

function dayNorm :: "int \<Rightarrow> int \<Rightarrow> int \<Rightarrow> int \<times> int \<times> int" where
  "dayNorm y m d =
     (if d < 1 then
        (let y' = (if m = 1 then y - 1 else y); m' = (if m = 1 then 12 else m - 1)
         in dayNorm y' m' (d + daysIn m' y'))
      else if d > daysIn m y then
        (if m = 12 then dayNorm (y + 1) 1 (d - daysIn m y) else dayNorm y (m + 1) (d - daysIn m y))
      else (y, m, d))"
  by pat_completeness auto

termination
proof (relation "measure (\<lambda>(y, m, d). if d < 1 then 32 + nat (1 - d) else nat d)", goal_cases)
  case (2 y m d y' m')
  then show ?case using daysIn_bounds [of m' y'] by auto
next
  case (3 y m d)
  then show ?case using daysIn_bounds [of m y] by auto
next
  case (4 y m d)
  then show ?case using daysIn_bounds [of m y] by auto
qed simp

declare dayNorm.simps [simp del]

definition time_Date ::
    "int \<Rightarrow> int \<Rightarrow> int \<Rightarrow> int \<Rightarrow> int \<Rightarrow> int \<Rightarrow> int \<Rightarrow> int \<Rightarrow> gotime" where
  "time_Date year month day hour minute sec nsec off =
     (let sec = sec + nsec div 1000000000; nsec = nsec mod 1000000000;
          minute = minute + sec div 60; sec = sec mod 60;
          hour = hour + minute div 60; minute = minute mod 60;
          day = day + hour div 24; hour = hour mod 24;
          year = year + (month - 1) div 12; month = (month - 1) mod 12 + 1;
          (y, m, d) = dayNorm year month day
      in \<lparr>t_year = y, t_month = m, t_day = d, t_hour = hour, t_min = minute, t_sec = sec,
          t_nsec = nsec, t_off = off\<rparr>)"

definition time_AddNsec :: "gotime \<Rightarrow> int \<Rightarrow> gotime" where
  "time_AddNsec t n = time_Date (t_year t) (t_month t) (t_day t) (t_hour t) (t_min t) (t_sec t)
     (t_nsec t + n) (t_off t)"

definition time_In :: "gotime \<Rightarrow> int \<Rightarrow> gotime" where
  "time_In t off = time_Date (t_year t) (t_month t) (t_day t) (t_hour t) (t_min t)
     (t_sec t + (off - t_off t)) (t_nsec t) off"

definition zeroTime :: gotime where
  "zeroTime = \<lparr>t_year = 1, t_month = 1, t_day = 1, t_hour = 0, t_min = 0, t_sec = 0, t_nsec = 0,
     t_off = 0\<rparr>"

definition time_IsZero :: "gotime \<Rightarrow> bool" where
  "time_IsZero t \<longleftrightarrow> time_In t 0 = zeroTime"

text \<open>The clock readings that exist: what \<open>time.Date\<close> returns and the other operations keep.\<close>

definition wf_time :: "gotime \<Rightarrow> bool" where
  "wf_time t \<longleftrightarrow> 1 \<le> t_month t \<and> t_month t \<le> 12 \<and> 1 \<le> t_day t \<and> t_day t \<le> daysIn (t_month t) (t_year t)
     \<and> 0 \<le> t_hour t \<and> t_hour t < 24 \<and> 0 \<le> t_min t \<and> t_min t < 60 \<and> 0 \<le> t_sec t \<and> t_sec t < 60
     \<and> 0 \<le> t_nsec t \<and> t_nsec t < 1000000000"

lemma dayNorm_in: "1 \<le> d \<Longrightarrow> d \<le> daysIn m y \<Longrightarrow> dayNorm y m d = (y, m, d)"
  by (subst dayNorm.simps) simp

lemma dayNorm_wf:
  "1 \<le> m \<Longrightarrow> m \<le> 12 \<Longrightarrow> dayNorm y m d = (y', m', d') \<Longrightarrow>
   1 \<le> m' \<and> m' \<le> 12 \<and> 1 \<le> d' \<and> d' \<le> daysIn m' y'"
proof (induction y m d rule: dayNorm.induct)
  case (1 y m d)
  consider "d < 1" | "\<not> d < 1" "d > daysIn m y" "m = 12" | "\<not> d < 1" "d > daysIn m y" "m \<noteq> 12"
    | "\<not> d < 1" "\<not> d > daysIn m y"
    by blast
  then show ?case
  proof cases
    case 1
    from 1 have "dayNorm (if m = 1 then y - 1 else y) (if m = 1 then 12 else m - 1)
        (d + daysIn (if m = 1 then 12 else m - 1) (if m = 1 then y - 1 else y)) = (y', m', d')"
      using "1.prems"(3) by (simp add: dayNorm.simps [of y m d] Let_def)
    then show ?thesis using "1.IH"(1) [OF 1 refl refl] "1.prems"(1,2) by auto
  next
    case 2
    then show ?thesis using "1.IH"(2) [OF 2] "1.prems" by (simp add: dayNorm.simps [of y 12 d])
  next
    case 3
    then show ?thesis using "1.IH"(3) [OF 3] "1.prems" by (simp add: dayNorm.simps [of y m d])
  next
    case 4
    then show ?thesis using "1.prems" by (simp add: dayNorm.simps [of y m d])
  qed
qed

lemma time_Date_wf: "wf_time (time_Date y m d h mi s ns off)"
proof -
  let ?m = "(m - 1) mod 12 + 1"
  have "1 \<le> ?m" "?m \<le> 12" using pos_mod_bound [of 12 "m - 1"] pos_mod_sign [of 12 "m - 1"] by linarith+
  note dayNorm_wf [OF this]
  then show ?thesis by (auto simp: time_Date_def wf_time_def Let_def split: prod.splits)
qed

lemma time_Date_valid:
  assumes "1 \<le> m" "m \<le> 12" "1 \<le> d" "d \<le> daysIn m y" "0 \<le> h" "h < 24" "0 \<le> mi" "mi < 60"
    "0 \<le> s" "s < 60" "0 \<le> ns" "ns < 1000000000"
  shows "time_Date y m d h mi s ns off =
    \<lparr>t_year = y, t_month = m, t_day = d, t_hour = h, t_min = mi, t_sec = s, t_nsec = ns, t_off = off\<rparr>"
proof -
  have "(m - 1) div 12 = 0" "(m - 1) mod 12 = m - 1" using assms by (auto intro: div_pos_pos_trivial)
  then show ?thesis using assms
    by (simp add: time_Date_def Let_def div_pos_pos_trivial mod_pos_pos_trivial dayNorm_in)
qed

lemma time_Date_fields:
  "wf_time t \<Longrightarrow> time_Date (t_year t) (t_month t) (t_day t) (t_hour t) (t_min t) (t_sec t) (t_nsec t)
     (t_off t) = t"
  by (subst time_Date_valid) (auto simp: wf_time_def)

section \<open>Parsing\<close>

text \<open>\<open>readBool\<close>: the value and whether the input is a boolean.\<close>

definition readBool :: "string \<Rightarrow> bool \<times> bool" where
  "readBool input =
     (if input \<in> {''1'', ''true'', ''TRUE'', ''True''} then (True, True)
      else if input \<in> {''0'', ''false'', ''FALSE'', ''False''} then (False, True)
      else (False, False))"

definition bToi :: "byte \<Rightarrow> int res" where
  "bToi b = (if b < 0x30 \<or> b > 0x39 then Fail (ErrMsg ''not [0-9]'') else Ok (uint (b - 0x30)))"

fun yearLoop :: "byte list \<Rightarrow> int \<Rightarrow> int \<Rightarrow> int res" where
  "yearLoop [] year n = Ok year"
| "yearLoop (b # bs) year n = bindR (bToi b) (\<lambda>v. yearLoop bs (year + v * n) (n div 10))"

definition parseByteYear :: "byte list \<Rightarrow> int res" where
  "parseByteYear b = bindR (slice b 0 4) (\<lambda>b. yearLoop b 0 1000)"

definition parseByte2Digits :: "byte \<Rightarrow> byte \<Rightarrow> int res" where
  "parseByte2Digits b1 b2 = bindR (bToi b1) (\<lambda>d1. bindR (bToi b2) (\<lambda>d2. Ok (d1 * 10 + d2)))"

fun nanoLoop :: "byte list \<Rightarrow> int \<Rightarrow> int \<Rightarrow> int res" where
  "nanoLoop [] ns digit = Ok ns"
| "nanoLoop (b # bs) ns digit = bindR (bToi b) (\<lambda>v. nanoLoop bs (ns + v * digit) (digit div 10))"

definition parseByteNanoSec :: "byte list \<Rightarrow> int res" where
  "parseByteNanoSec b = bindR (nanoLoop b 0 100000) (\<lambda>ns. Ok (ns * 1000))"

definition zeroDateTime :: "byte list" where
  "zeroDateTime = bytes_of ''0000-00-00 00:00:00.000000''"

definition expectByte :: "byte list \<Rightarrow> nat \<Rightarrow> byte \<Rightarrow> 'a res \<Rightarrow> 'a res" where
  "expectByte b i c k = (if b ! i \<noteq> c then Fail (ErrMsg ''bad value for field: `%c`'') else k)"

definition parseClock :: "byte list \<Rightarrow> (int \<Rightarrow> int \<Rightarrow> int \<Rightarrow> 'a res) \<Rightarrow> 'a res" where
  "parseClock b k =
     expectByte b 10 0x20 (bindR (parseByte2Digits (b ! 11) (b ! 12)) (\<lambda>hour.
     expectByte b 13 0x3a (bindR (parseByte2Digits (b ! 14) (b ! 15)) (\<lambda>minute.
     expectByte b 16 0x3a (bindR (parseByte2Digits (b ! 17) (b ! 18)) (\<lambda>sec.
     k hour minute sec))))))"

definition parseDateTime :: "byte list \<Rightarrow> int \<Rightarrow> gotime res" where
  "parseDateTime b loc =
     (if length b \<in> {10, 19, 21, 22, 23, 24, 25, 26} then
        if b = take (length b) zeroDateTime then Ok zeroTime
        else
          bindR (parseByteYear b) (\<lambda>year. let year = (if year \<le> 0 then 1 else year) in
          expectByte b 4 0x2d (bindR (parseByte2Digits (b ! 5) (b ! 6)) (\<lambda>m.
            let month = (if m \<le> 0 then 1 else m) in
          expectByte b 7 0x2d (bindR (parseByte2Digits (b ! 8) (b ! 9)) (\<lambda>day.
            let day = (if day \<le> 0 then 1 else day) in
          if length b = 10 then Ok (time_Date year month day 0 0 0 0 loc)
          else parseClock b (\<lambda>hour minute sec.
            if length b = 19 then Ok (time_Date year month day hour minute sec 0 loc)
            else expectByte b 19 0x2e (bindR (parseByteNanoSec (drop 20 b)) (\<lambda>nsec.
              Ok (time_Date year month day hour minute sec nsec loc)))))))))
      else Fail (ErrMsg ''invalid time bytes: %s''))"

definition le16 :: "byte list \<Rightarrow> int res" where
  "le16 b = bindR (le_uint 2 b) (\<lambda>v. Ok (uint (v :: u16)))"

definition le32 :: "byte list \<Rightarrow> u32 res" where
  "le32 b = le_uint 4 b"

definition byteI :: "byte list \<Rightarrow> nat \<Rightarrow> int res" where
  "byteI b i = bindR (idx b i) (\<lambda>v. Ok (uint v))"

text \<open>
  \<open>parseBinaryDateTime\<close>: \<open>num\<close> is the length prefix of the value, \<open>data\<close> the rest of the packet and
  \<open>spare\<close> what lies behind it in the read buffer, which the slice expression for the microseconds
  can reach.
\<close>

definition parseBinaryDateTime :: "u64 \<Rightarrow> byte list \<Rightarrow> byte list \<Rightarrow> int \<Rightarrow> gotime res" where
  "parseBinaryDateTime num data spare loc =
     (if num = 0 then Ok zeroTime
      else if num = 4 \<or> num = 7 \<or> num = 11 then
        bindR (le16 data) (\<lambda>year. bindR (byteI data 2) (\<lambda>month. bindR (byteI data 3) (\<lambda>day.
        if num = 4 then Ok (time_Date year month day 0 0 0 0 loc)
        else
          bindR (byteI data 4) (\<lambda>hour. bindR (byteI data 5) (\<lambda>minute. bindR (byteI data 6) (\<lambda>sec.
          if num = 7 then Ok (time_Date year month day hour minute sec 0 loc)
          else bindR (bindR (slice (data @ spare) 7 11) le32) (\<lambda>micro.
            Ok (time_Date year month day hour minute sec (uint micro * 1000) loc))))))))
      else Fail (ErrMsg ''invalid DATETIME packet length %d''))"

section \<open>Formatting\<close>

definition digits01 :: "byte list" where
  "digits01 = bytes_of ''0123456789012345678901234567890123456789012345678901234567890123456789012345678901234567890123456789''"

definition digits10 :: "byte list" where
  "digits10 = bytes_of ''0000000000111111111122222222223333333333444444444455555555556666666666777777777788888888889999999999''"

definition idxI :: "'a list \<Rightarrow> int \<Rightarrow> 'a res" where
  "idxI xs i = (if 0 \<le> i then idx xs (nat i) else Crash IndexOutOfRange)"

definition pair :: "int \<Rightarrow> byte list res" where
  "pair i = bindR (idxI digits10 i) (\<lambda>a. bindR (idxI digits01 i) (\<lambda>b. Ok [a, b]))"

definition pairs3 :: "int \<Rightarrow> byte \<Rightarrow> int \<Rightarrow> byte \<Rightarrow> int \<Rightarrow> byte list res" where
  "pairs3 i c j d k =
     bindR (pair i) (\<lambda>a. bindR (pair j) (\<lambda>b. bindR (pair k) (\<lambda>e. Ok (a @ [c] @ b @ [d] @ e))))"

definition appendDateTime :: "byte list \<Rightarrow> gotime \<Rightarrow> byte list res" where
  "appendDateTime buf t0 =
     (let t = (if t_nsec t0 mod 1000 \<ge> 500 then time_AddNsec t0 500 else t0);
          year = t_year t; micro = t_nsec t div 1000
      in if year < 1 \<or> year > 9999 then Fail (ErrMsg ''year is not in the range [1, 9999]: '')
      else
        bindR (pair (year div 100)) (\<lambda>y100.
        bindR (pairs3 (year mod 100) 0x2d (t_month t) 0x2d (t_day t)) (\<lambda>ymd.
        if t_hour t = 0 \<and> t_min t = 0 \<and> t_sec t = 0 \<and> micro = 0 then Ok (buf @ y100 @ ymd)
        else
          bindR (pairs3 (t_hour t) 0x3a (t_min t) 0x3a (t_sec t)) (\<lambda>hms.
          if micro = 0 then Ok (buf @ y100 @ ymd @ [0x20] @ hms)
          else
            bindR (pair (micro div 10000)) (\<lambda>a. bindR (pair (micro div 100 mod 100)) (\<lambda>b.
            bindR (pair (micro mod 100)) (\<lambda>c.
            Ok (buf @ y100 @ ymd @ [0x20] @ hms @ [0x2e] @ a @ b @ c))))))))"

text \<open>
  \<open>p1\<close>, \<open>p2\<close> and \<open>p3\<close> are bytes: a number of microseconds of a million or more does not fit the
  tables of 100 digits, or wraps.
\<close>

definition appendMicrosecs :: "byte list \<Rightarrow> byte list \<Rightarrow> int \<Rightarrow> byte list res" where
  "appendMicrosecs dst src decimals =
     (if decimals \<le> 0 then Ok dst
      else if src = [] then bindR (slice (bytes_of ''.000000'') 0 (nat decimals + 1)) (\<lambda>s. Ok (dst @ s))
      else
        bindR (bindR (slice src 0 4) le32) (\<lambda>microsecs.
        let p1 = ucast (microsecs div 10000) :: byte; m1 = microsecs - 10000 * ucast p1;
            p2 = ucast (m1 div 100) :: byte; m2 = m1 - 100 * ucast p2;
            p3 = ucast m2 :: byte
        in bindR (idxI digits10 (uint p1)) (\<lambda>a.
           if decimals = 1 then Ok (dst @ [0x2e, a])
           else bindR (idxI digits01 (uint p1)) (\<lambda>b.
           if decimals = 2 then Ok (dst @ [0x2e, a, b])
           else bindR (idxI digits10 (uint p2)) (\<lambda>c.
           if decimals = 3 then Ok (dst @ [0x2e, a, b, c])
           else bindR (idxI digits01 (uint p2)) (\<lambda>d.
           if decimals = 4 then Ok (dst @ [0x2e, a, b, c, d])
           else bindR (idxI digits10 (uint p3)) (\<lambda>e.
           if decimals = 5 then Ok (dst @ [0x2e, a, b, c, d, e])
           else bindR (idxI digits01 (uint p3)) (\<lambda>f. Ok (dst @ [0x2e, a, b, c, d, e, f])))))))))"

definition formatBinaryDateTime :: "byte list \<Rightarrow> byte \<Rightarrow> byte list res" where
  "formatBinaryDateTime src len =
     (if src = [] then slice zeroDateTime 0 (unat len)
      else if unat len \<notin> {10, 19, 21, 22, 23, 24, 25, 26} then Fail (ErrMsg ''illegal %s length %d'')
      else if length src \<notin> {4, 7, 11} then Fail (ErrMsg ''illegal %s packet length %d'')
      else
        bindR (le16 src) (\<lambda>year. bindR (byteI src 2) (\<lambda>month. bindR (byteI src 3) (\<lambda>day.
        bindR (pair (year div 100)) (\<lambda>y100.
        bindR (pairs3 (year mod 100) 0x2d month 0x2d day) (\<lambda>ymd.
        let dst = y100 @ ymd in
        if len = 10 then Ok dst
        else if length src = 4 then bindR (slice zeroDateTime 10 (unat len)) (\<lambda>z. Ok (dst @ z))
        else
          bindR (byteI src 4) (\<lambda>hour. bindR (byteI src 5) (\<lambda>minute. bindR (byteI src 6) (\<lambda>sec.
          bindR (pairs3 hour 0x3a minute 0x3a sec) (\<lambda>hms.
          appendMicrosecs (dst @ [0x20] @ hms) (drop 7 src) (uint len - 20)))))))))))"

definition formatBinaryTime :: "byte list \<Rightarrow> byte \<Rightarrow> byte list res" where
  "formatBinaryTime src len =
     (if src = [] then slice zeroDateTime 11 (unat (11 + len))
      else if unat len \<notin> {8, 10, 11, 12, 13, 14, 15} then Fail (ErrMsg ''illegal TIME length %d'')
      else if length src \<notin> {8, 12} then Fail (ErrMsg ''invalid TIME packet length %d'')
      else
        bindR (bindR (slice src 1 5) le32) (\<lambda>days. bindR (byteI src 5) (\<lambda>h.
        let sign = (if src ! 0 = 1 then [0x2d] else []); hours = uint days * 24 + h in
        bindR (if hours \<ge> 100 then Ok (decimal (nat hours)) else pair hours) (\<lambda>hh.
        bindR (byteI src 6) (\<lambda>minute. bindR (byteI src 7) (\<lambda>sec.
        bindR (pair minute) (\<lambda>mm. bindR (pair sec) (\<lambda>ss.
        appendMicrosecs (sign @ hh @ [0x3a] @ mm @ [0x3a] @ ss) (drop 8 src) (uint len - 9)))))))))"

end
