(* ===== verification/TimeProps.thy ===== *)
theory TimeProps
  imports TimeCodec
begin

text \<open>What the time codecs guarantee, where the two protocols disagree, and where they panic.\<close>

section \<open>Digit pairs\<close>

definition dig :: "int \<Rightarrow> byte" where
  "dig k = 0x30 + of_int k"

definition two :: "int \<Rightarrow> byte list" where
  "two i = [dig (i div 10), dig (i mod 10)]"

lemma digits_tables:
  "digits10 = map (\<lambda>i. dig (int i div 10)) [0..<100]" "digits01 = map (\<lambda>i. dig (int i mod 10)) [0..<100]"
  by code_simp+

lemma length_tables: "length digits01 = 100" "length digits10 = 100"
  by (simp_all only: digits_tables length_map length_upt)

lemma idx_digits:
  "0 \<le> i \<Longrightarrow> i < 100 \<Longrightarrow> idxI digits10 i = Ok (dig (i div 10))"
  "0 \<le> i \<Longrightarrow> i < 100 \<Longrightarrow> idxI digits01 i = Ok (dig (i mod 10))"
  by (simp_all add: idxI_def idx_def length_tables) (simp_all add: digits_tables del: upt_Suc upt_rec_numeral)

lemma pair_two: "0 \<le> i \<Longrightarrow> i < 100 \<Longrightarrow> pair i = Ok (two i)"
  by (simp add: pair_def idx_digits two_def bindR.simps)

lemma pair_panics: "100 \<le> i \<Longrightarrow> pair i = Crash IndexOutOfRange"
  by (simp add: pair_def idxI_def idx_def bindR.simps length_tables)

lemma bToi_dig:
  assumes "0 \<le> k" and "k < 10"
  shows "bToi (dig k) = Ok k"
proof -
  have "k = 0 \<or> k = 1 \<or> k = 2 \<or> k = 3 \<or> k = 4 \<or> k = 5 \<or> k = 6 \<or> k = 7 \<or> k = 8 \<or> k = 9"
    using assms by arith
  then show ?thesis by (auto simp: bToi_def dig_def)
qed

lemma bToi_digits:
  assumes "0 \<le> i" and "i < 100"
  shows "bToi (dig (i div 10)) = Ok (i div 10)" "bToi (dig (i mod 10)) = Ok (i mod 10)"
  using assms by (auto intro!: bToi_dig)

lemma parse_two: "0 \<le> i \<Longrightarrow> i < 100 \<Longrightarrow> parseByte2Digits (two i ! 0) (two i ! 1) = Ok i"
  by (simp add: parseByte2Digits_def two_def bToi_digits bindR.simps)

lemma digits_value:
  fixes x :: int
  shows "x = x div 10 * 10 + x mod 10" "x = x div 100 * 100 + x mod 100"
  by simp_all

lemma parse_year_two:
  assumes "0 \<le> a" "a < 100" "0 \<le> b" "b < 100"
  shows "parseByteYear (two a @ two b @ rest) = Ok (a * 100 + b)"
  using assms by (simp add: parseByteYear_def slice_def two_def bToi_digits bindR.simps)
    (use digits_value(1) [of a] digits_value(1) [of b] in linarith)

lemma parse_year:
  assumes "0 \<le> y" and "y < 10000"
  shows "parseByteYear (two (y div 100) @ two (y mod 100) @ rest) = Ok y"
  using parse_year_two [of "y div 100" "y mod 100"] assms by simp

lemma parse_micro_two:
  assumes "0 \<le> a" "a < 100" "0 \<le> b" "b < 100" "0 \<le> c" "c < 100"
  shows "parseByteNanoSec (two a @ two b @ two c) = Ok ((a * 10000 + b * 100 + c) * 1000)"
  using assms by (simp add: parseByteNanoSec_def two_def bToi_digits bindR.simps)
    (use digits_value(1) [of a] digits_value(1) [of b] digits_value(1) [of c] in linarith)

lemma parse_micro:
  assumes "0 \<le> m" and "m < 1000000"
  shows "parseByteNanoSec (two (m div 10000) @ two (m div 100 mod 100) @ two (m mod 100)) = Ok (m * 1000)"
proof -
  have "m div 100 div 100 = m div 10000" by (simp add: zdiv_zmult2_eq [symmetric])
  then have "m div 10000 * 10000 + m div 100 mod 100 * 100 + m mod 100 = m"
    using digits_value(2) [of "m div 100"] digits_value(2) [of m] by linarith
  then show ?thesis
    using parse_micro_two [of "m div 10000" "m div 100 mod 100" "m mod 100"] assms by simp
qed

lemma decimals_cases:
  assumes "1 \<le> d" and "d \<le> 6"
  obtains "d = 1" | "d = 2" | "d = 3" | "d = 4" | "d = 5" | "d = (6 :: nat)"
  using assms by linarith

lemma micro_digits:
  fixes m :: int
  assumes "a = m div 10000" and "b = m div 100 mod 100" and "c = m mod 100"
  shows "m div 100000 = a div 10" "m div 1000 = a * 10 + b div 10" "m div 100 = a * 100 + b"
    "m div 10 = a * 1000 + b * 10 + c div 10" "m = a * 10000 + b * 100 + c"
proof -
  have h: "m = m div 100 * 100 + c" "m div 100 = m div 100 div 100 * 100 + b" using assms by simp_all
  have a: "a = m div 100 div 100" using assms(1) by (simp add: zdiv_zmult2_eq [symmetric])
  have ten: "(x * 100 + y) div 10 = x * 10 + y div 10" for x y :: int
    using div_mult_self1 [of 10 y "x * 10"] by (simp add: algebra_simps)
  show e: "m div 100 = a * 100 + b" using h(2) a by simp
  then show "m = a * 10000 + b * 100 + c" using h(1) by simp
  show "m div 100000 = a div 10" using assms(1) by (simp add: zdiv_zmult2_eq [symmetric])
  have "m div 1000 = m div 100 div 10" by (simp add: zdiv_zmult2_eq [symmetric])
  then show "m div 1000 = a * 10 + b div 10" using e ten by simp
  have "m div 10 = m div 100 * 10 + c div 10" using ten [of "m div 100" c] h(1) by simp
  then show "m div 10 = a * 1000 + b * 10 + c div 10" using e by simp
qed

text \<open>The first \<open>d\<close> decimals: the microseconds rounded down.\<close>

lemma parse_micro_take:
  assumes "0 \<le> m" and "m < 1000000" and "1 \<le> d" and "d \<le> 6"
  shows "parseByteNanoSec (take d (two (m div 10000) @ two (m div 100 mod 100) @ two (m mod 100)))
    = Ok (m div 10 ^ (6 - d) * 10 ^ (6 - d) * 1000)"
proof -
  define a b c where "a = m div 10000" "b = m div 100 mod 100" "c = m mod 100"
  have r: "0 \<le> a" "a < 100" "0 \<le> b" "b < 100" "0 \<le> c" "c < 100" using assms by (simp_all add: a_b_c_def)
  note q = micro_digits [OF a_b_c_def] a_b_c_def(1) [symmetric]
  obtain a1 a2 b1 b2 c1 c2 where ds: "a div 10 = a1" "a mod 10 = a2" "b div 10 = b1" "b mod 10 = b2"
    "c div 10 = c1" "c mod 10 = c2" by blast
  then have abc: "a = a1 * 10 + a2" "b = b1 * 10 + b2" "c = c1 * 10 + c2"
    using digits_value(1) by metis+
  have dr: "0 \<le> a1" "a1 < 10" "0 \<le> a2" "a2 < 10" "0 \<le> b1" "b1 < 10" "0 \<le> b2" "b2 < 10"
    "0 \<le> c1" "c1 < 10" "0 \<le> c2" "c2 < 10"
    using r by (auto simp: ds [symmetric])
  note q = micro_digits [OF a_b_c_def, unfolded ds] a_b_c_def(1) [symmetric]
  have "parseByteNanoSec (take d (two a @ two b @ two c)) = Ok (m div 10 ^ (6 - d) * 10 ^ (6 - d) * 1000)"
    unfolding two_def ds using assms(3,4)
    by (cases rule: decimals_cases)
      (simp_all add: parseByteNanoSec_def bToi_dig bindR.simps dr q(1-4,6), simp_all add: abc q(5))
  then show ?thesis by (simp only: a_b_c_def)
qed

section \<open>The text of a clock reading\<close>

definition dateText :: "gotime \<Rightarrow> byte list" where
  "dateText t = two (t_year t div 100) @ two (t_year t mod 100) @ [0x2d] @ two (t_month t) @ [0x2d]
     @ two (t_day t)"

definition clockText :: "gotime \<Rightarrow> byte list" where
  "clockText t = two (t_hour t) @ [0x3a] @ two (t_min t) @ [0x3a] @ two (t_sec t)"

definition microText :: "int \<Rightarrow> byte list" where
  "microText m = two (m div 10000) @ two (m div 100 mod 100) @ two (m mod 100)"

definition sqlText :: "gotime \<Rightarrow> byte list" where
  "sqlText t =
     (if t_hour t = 0 \<and> t_min t = 0 \<and> t_sec t = 0 \<and> t_nsec t div 1000 = 0 then dateText t
      else if t_nsec t div 1000 = 0 then dateText t @ [0x20] @ clockText t
      else dateText t @ [0x20] @ clockText t @ [0x2e] @ microText (t_nsec t div 1000))"

lemma length_texts [simp]:
  "length (two i) = 2" "length (dateText t) = 10" "length (clockText t) = 8" "length (microText m) = 6"
  by (simp_all add: two_def dateText_def clockText_def microText_def)

lemma wf_time_small:
  "wf_time t \<Longrightarrow> 0 \<le> t_month t \<and> t_month t < 100 \<and> 0 \<le> t_day t \<and> t_day t < 100
     \<and> 0 \<le> t_hour t \<and> t_hour t < 100 \<and> 0 \<le> t_min t \<and> t_min t < 100 \<and> 0 \<le> t_sec t \<and> t_sec t < 100"
  using daysIn_bounds [of "t_month t" "t_year t"] by (auto simp: wf_time_def)

lemma parse_date_text:
  assumes "wf_time t" and "1 \<le> t_year t" and "t_year t \<le> 9999" and "b = dateText t @ rest"
  shows "parseByteYear b = Ok (t_year t)" "b ! 4 = 0x2d" "parseByte2Digits (b ! 5) (b ! 6) = Ok (t_month t)"
    "b ! 7 = 0x2d" "parseByte2Digits (b ! 8) (b ! 9) = Ok (t_day t)" "b \<noteq> take (length b) zeroDateTime"
proof -
  show y: "parseByteYear b = Ok (t_year t)"
    using assms parse_year [of "t_year t"] by (simp add: dateText_def)
  show "b ! 4 = 0x2d" "b ! 7 = 0x2d" using assms(4) by (simp_all add: dateText_def two_def)
  show "parseByte2Digits (b ! 5) (b ! 6) = Ok (t_month t)" "parseByte2Digits (b ! 8) (b ! 9) = Ok (t_day t)"
    using assms(4) wf_time_small [OF assms(1)] parse_two [of "t_month t"] parse_two [of "t_day t"]
    by (simp_all add: dateText_def two_def)
  have "parseByteYear (take (length b) zeroDateTime) = Ok 0"
  proof -
    have "length b = Suc (Suc (Suc (Suc (length b - 4))))" using assms(4) by simp
    moreover have "zeroDateTime = 0x30 # 0x30 # 0x30 # 0x30 # drop 4 zeroDateTime" by code_simp
    ultimately have "take (length b) zeroDateTime
        = 0x30 # 0x30 # 0x30 # 0x30 # take (length b - 4) (drop 4 zeroDateTime)"
      by (metis take_Suc_Cons)
    then show ?thesis by (simp add: parseByteYear_def slice_def bToi_def bindR.simps)
  qed
  then show "b \<noteq> take (length b) zeroDateTime" using y assms(2) by auto
qed

lemma parse_clock_text:
  assumes "wf_time t" and "b = dateText d @ [0x20] @ clockText t @ rest"
  shows "parseClock b k = k (t_hour t) (t_min t) (t_sec t)"
proof -
  have n: "b ! 10 = 0x20" "b ! 13 = 0x3a" "b ! 16 = 0x3a" "b ! 11 = two (t_hour t) ! 0"
    "b ! 12 = two (t_hour t) ! 1" "b ! 14 = two (t_min t) ! 0" "b ! 15 = two (t_min t) ! 1"
    "b ! 17 = two (t_sec t) ! 0" "b ! 18 = two (t_sec t) ! 1"
    using assms(2) by (simp_all add: nth_append clockText_def two_def)
  show ?thesis using wf_time_small [OF assms(1)]
    by (simp add: parseClock_def expectByte_def n parse_two bindR.simps del: One_nat_def)
qed

text \<open>
  The text with all six decimals; a column shows its first 10, 19 or 21 to 26 characters, which
  is the clock reading \<open>shown\<close>.
\<close>

definition fullText :: "gotime \<Rightarrow> byte list" where
  "fullText t = dateText t @ [0x20] @ clockText t @ [0x2e] @ microText (t_nsec t div 1000)"

definition shown :: "nat \<Rightarrow> gotime \<Rightarrow> gotime" where
  "shown n t = (if n = 10 then t\<lparr>t_hour := 0, t_min := 0, t_sec := 0, t_nsec := 0\<rparr>
     else if n = 19 then t\<lparr>t_nsec := 0\<rparr>
     else t\<lparr>t_nsec := t_nsec t div 10 ^ (29 - n) * 10 ^ (29 - n)\<rparr>)"

lemma take_fullText:
  "take 10 (fullText t) = dateText t @ []" "take 19 (fullText t) = dateText t @ [0x20] @ clockText t @ []"
  "take (20 + d) (fullText t)
    = dateText t @ [0x20] @ clockText t @ [0x2e] @ take d (microText (t_nsec t div 1000))"
proof -
  have eq: "fullText t = (dateText t @ [0x20] @ clockText t @ [0x2e]) @ microText (t_nsec t div 1000)"
    by (simp add: fullText_def)
  show "take (20 + d) (fullText t) = dateText t @ [0x20] @ clockText t @ [0x2e] @ take d (microText (t_nsec t div 1000))"
    unfolding eq by (subst take_append) simp
qed (simp_all add: fullText_def)

lemma decimals_of_length:
  assumes "n \<in> {10, 19, 21, 22, 23, 24, 25, 26}"
  obtains "n = 10" | "n = 19" | d where "n = 20 + d" "1 \<le> d" "d \<le> (6 :: nat)"
  using assms that(3) [of "n - 20"] by auto

lemma parse_shown_text:
  assumes "wf_time t" and "1 \<le> t_year t" and "t_year t \<le> 9999" and "n \<in> {10, 19, 21, 22, 23, 24, 25, 26}"
  shows "parseDateTime (take n (fullText t)) loc = Ok ((shown n t)\<lparr>t_off := loc\<rparr>)"
proof -
  let ?m = "t_nsec t div 1000"
  have m: "0 \<le> ?m" "?m < 1000000" using assms(1) by (auto simp: wf_time_def)
  have pos: "0 < t_month t" "0 < t_day t" "0 < t_year t" using assms by (auto simp: wf_time_def)
  have w: "1 \<le> t_month t" "t_month t \<le> 12" "1 \<le> t_day t" "t_day t \<le> daysIn (t_month t) (t_year t)"
    "0 \<le> t_hour t" "t_hour t < 24" "0 \<le> t_min t" "t_min t < 60" "0 \<le> t_sec t" "t_sec t < 60"
    using assms(1) by (simp_all add: wf_time_def)
  from assms(4) show ?thesis
  proof (cases rule: decimals_of_length)
    case 1
    note b = take_fullText(1) [of t]
    show ?thesis unfolding 1 using parse_date_text [OF assms(1-3) b] pos b time_Date_valid [OF w(1-4), of 0 0 0 0 loc]
      by (simp add: parseDateTime_def expectByte_def bindR.simps Let_def shown_def)
  next
    case 2
    note b = take_fullText(2) [of t]
    show ?thesis unfolding 2
      using parse_date_text [OF assms(1-3) b] parse_clock_text [where 'a = gotime, OF assms(1) b] pos b
        time_Date_valid [OF w, of 0 loc]
      by (simp add: parseDateTime_def expectByte_def bindR.simps Let_def shown_def)
  next
    case (3 d)
    let ?ns = "?m div 10 ^ (6 - d) * 10 ^ (6 - d) * 1000"
    note b = take_fullText(3) [of d t]
    have at: "take (20 + d) (fullText t) ! 19 = 0x2e"
      "drop 20 (take (20 + d) (fullText t)) = take d (microText ?m)"
      "length (take (20 + d) (fullText t)) = 20 + d"
      using 3(2,3) by (simp_all add: b nth_append)
    have e: "(10 :: int) ^ (29 - (20 + d)) = 1000 * 10 ^ (6 - d)"
      using 3(2,3) by (cases rule: decimals_cases) simp_all
    have ns: "t_nsec t div 10 ^ (29 - (20 + d)) * 10 ^ (29 - (20 + d)) = ?ns"
      unfolding e by (simp add: zdiv_zmult2_eq)
    have le: "?m div 10 ^ (6 - d) * 10 ^ (6 - d) \<le> ?m"
      by (metis add_le_cancel_left add.right_neutral div_mult_mod_eq pos_mod_sign zero_less_numeral zero_less_power)
    have ge: "0 \<le> ?m div 10 ^ (6 - d) * 10 ^ (6 - d)" using m(1) by (simp add: pos_imp_zdiv_nonneg_iff)
    have "?ns < 1000000000" "0 \<le> ?ns" using le ge m(2) by linarith+
    then have date: "time_Date (t_year t) (t_month t) (t_day t) (t_hour t) (t_min t) (t_sec t) ?ns loc
        = (shown (20 + d) t)\<lparr>t_off := loc\<rparr>"
      using 3(2) by (subst time_Date_valid [OF w]) (simp_all add: shown_def ns [simplified] del: power_Suc)
    have len: "20 + d \<in> {10, 19, 21, 22, 23, 24, 25, 26}" "20 + d \<noteq> 10" "20 + d \<noteq> 19"
      using assms(4) 3 by auto
    show ?thesis unfolding 3(1)
      using parse_date_text [OF assms(1-3) b] parse_clock_text [where 'a = gotime, OF assms(1) b]
        parse_micro_take [OF m 3(2,3)] pos at date len
      by (simp add: parseDateTime_def expectByte_def bindR.simps Let_def microText_def del: insert_iff)
  qed
qed

lemma parse_sql_text:
  assumes "wf_time t" and "1 \<le> t_year t" and "t_year t \<le> 9999"
  shows "parseDateTime (sqlText t) loc = Ok (t\<lparr>t_nsec := t_nsec t div 1000 * 1000, t_off := loc\<rparr>)"
proof -
  let ?m = "t_nsec t div 1000"
  have pos: "0 < t_month t" "0 < t_day t" "0 < t_year t" using assms by (auto simp: wf_time_def)
  have date: "time_Date (t_year t) (t_month t) (t_day t) (t_hour t) (t_min t) (t_sec t) 0 loc
      = t\<lparr>t_nsec := 0, t_off := loc\<rparr>"
    using assms(1) by (subst time_Date_valid) (auto simp: wf_time_def)
  consider "t_hour t = 0" "t_min t = 0" "t_sec t = 0" "?m = 0"
    | "\<not> (t_hour t = 0 \<and> t_min t = 0 \<and> t_sec t = 0)" "?m = 0" | "?m \<noteq> 0" by blast
  then show ?thesis
  proof cases
    case 1
    then have b: "sqlText t = dateText t @ []" by (simp add: sqlText_def)
    then show ?thesis using parse_date_text [OF assms b] date pos 1
      by (simp add: parseDateTime_def expectByte_def bindR.simps Let_def)
  next
    case 2
    then have b: "sqlText t = dateText t @ [0x20] @ clockText t @ []" by (auto simp: sqlText_def)
    then show ?thesis
      using parse_date_text [OF assms b] parse_clock_text [where 'a = gotime, OF assms(1) b] date pos 2
      by (simp add: parseDateTime_def expectByte_def bindR.simps Let_def)
  next
    case 3
    then show ?thesis using parse_shown_text [OF assms, of 26] by (auto simp: sqlText_def shown_def fullText_def)
  qed
qed

definition roundMicro :: "gotime \<Rightarrow> gotime" where
  "roundMicro t = (if t_nsec t mod 1000 \<ge> 500 then time_AddNsec t 500 else t)"

lemma wf_roundMicro: "wf_time t \<Longrightarrow> wf_time (roundMicro t)"
  by (simp add: roundMicro_def time_AddNsec_def time_Date_wf)

lemma append_sql_text:
  assumes "wf_time t" and "1 \<le> t_year (roundMicro t)" and "t_year (roundMicro t) \<le> 9999"
  shows "appendDateTime buf t = Ok (buf @ sqlText (roundMicro t))"
proof -
  let ?r = "roundMicro t"
  have w: "wf_time ?r" using assms(1) by (rule wf_roundMicro)
  have m: "0 \<le> t_nsec ?r div 1000" "t_nsec ?r div 1000 < 1000000" using w by (auto simp: wf_time_def)
  have y: "0 \<le> t_year ?r div 100" "t_year ?r div 100 < 100" using assms(2,3) by auto
  have r: "(if 500 \<le> t_nsec t mod 1000 then time_AddNsec t 500 else t) = ?r"
    by (simp add: roundMicro_def)
  show ?thesis using m y assms(2,3) wf_time_small [OF w]
    by (simp add: appendDateTime_def Let_def r pairs3_def pair_two bindR.simps sqlText_def dateText_def
        clockText_def microText_def)
qed

section \<open>The binary form\<close>

text \<open>How a server sends a clock reading: without the parts that are zero.\<close>

definition serverTime :: "gotime \<Rightarrow> byte list" where
  "serverTime t =
     (let date = to_le 2 (of_int (t_year t) :: u16) @ [of_int (t_month t), of_int (t_day t)];
          clock = [of_int (t_hour t), of_int (t_min t), of_int (t_sec t)];
          micro = t_nsec t div 1000
      in if t_hour t = 0 \<and> t_min t = 0 \<and> t_sec t = 0 \<and> micro = 0 then date
         else if micro = 0 then date @ clock
         else date @ clock @ to_le 4 (of_int micro :: u32))"

lemma uint_of_int_byte: "0 \<le> x \<Longrightarrow> x < 256 \<Longrightarrow> uint (of_int x :: byte) = x"
  by (simp add: uint_word_of_int)

lemma le16_server: "0 \<le> y \<Longrightarrow> y < 65536 \<Longrightarrow> le16 (to_le 2 (of_int y :: u16) @ rest) = Ok y"
  by (simp add: le16_def le_uint_def le_bytes_to_le take_bit_word_eq_self bindR.simps uint_word_of_int)

lemma le32_server: "le32 (to_le 4 (m :: u32) @ rest) = Ok m"
  by (simp add: le32_def le_uint_def le_bytes_to_le take_bit_word_eq_self bindR.simps)

text \<open>Reading the fields off a date, a date with a clock and one with microseconds.\<close>

lemma server_fields:
  assumes "wf_time t" and "0 \<le> t_year t" and "t_year t < 65536"
    and "src = to_le 2 (of_int (t_year t) :: u16) @ [of_int (t_month t), of_int (t_day t)] @ rest"
  shows "le16 src = Ok (t_year t)" "byteI src 2 = Ok (t_month t)" "byteI src 3 = Ok (t_day t)"
  using assms wf_time_small [OF assms(1)]
  by (simp_all add: le16_server byteI_def idx_def nth_append bindR.simps uint_of_int_byte)

lemma server_clock:
  assumes "wf_time t"
    and "src = to_le 2 (y :: u16) @ [m, d] @ [of_int (t_hour t), of_int (t_min t), of_int (t_sec t)] @ rest"
  shows "byteI src 4 = Ok (t_hour t)" "byteI src 5 = Ok (t_min t)" "byteI src 6 = Ok (t_sec t)"
    "drop 7 src = rest"
  using assms wf_time_small [OF assms(1)]
  by (simp_all add: byteI_def idx_def nth_append bindR.simps uint_of_int_byte)

lemma micro_step:
  fixes w D :: u32
  assumes "uint w < 256 * uint D" and "0 < uint D"
  shows "uint (ucast (w div D) :: byte) = uint w div uint D"
    and "uint (w - D * ucast (ucast (w div D) :: byte)) = uint w mod uint D"
proof -
  let ?q = "uint w div uint D"
  have "\<not> 256 \<le> ?q"
  proof
    assume "256 \<le> ?q"
    then have "256 * uint D \<le> ?q * uint D" using assms(2) by (intro mult_right_mono) simp_all
    also have "\<dots> \<le> uint w" using div_mult_mod_eq [of "uint w" "uint D"] pos_mod_sign [OF assms(2)]
      by (metis add_increasing2 order_refl)
    finally show False using assms(1) by simp
  qed
  then have q: "?q < 256" "0 \<le> ?q" using assms(2) by (simp_all add: pos_imp_zdiv_nonneg_iff)
  show p: "uint (ucast (w div D) :: byte) = ?q"
    using q by (simp add: uint_div unsigned_ucast_eq take_bit_int_eq_self)
  then have "(ucast (ucast (w div D) :: byte) :: u32) = of_int ?q" by (metis of_int_uint)
  then have "w - D * ucast (ucast (w div D) :: byte) = of_int (uint w) - of_int (uint D) * of_int ?q"
    by simp
  also have "\<dots> = of_int (uint w mod uint D)"
    by (simp only: of_int_mult [symmetric] of_int_diff [symmetric] minus_mult_div_eq_mod)
  finally have e: "w - D * ucast (ucast (w div D) :: byte) = of_int (uint w mod uint D)" .
  have "0 \<le> uint w mod uint D" "uint w mod uint D < 2 ^ 32"
    using pos_mod_sign [OF assms(2)] pos_mod_bound [OF assms(2), of "uint w"]
      unsigned_less [of D, where 'a = int] by simp_all
  then show "uint (w - D * ucast (ucast (w div D) :: byte)) = uint w mod uint D"
    unfolding e by (simp add: uint_word_of_int)
qed

lemma microsecs_pairs:
  assumes "0 \<le> m" and "m < 1000000" and "1 \<le> n" and "n \<le> 6"
  shows "appendMicrosecs dst (to_le 4 (of_int m :: u32)) (int n) = Ok (dst @ [0x2e] @ take n (microText m))"
proof -
  let ?w = "of_int m :: u32"
  have w: "uint ?w = m" using assms by (simp add: uint_word_of_int)
  define p1 where "p1 = (ucast (?w div 10000) :: byte)"
  define m1 where "m1 = ?w - 10000 * ucast p1"
  define p2 where "p2 = (ucast (m1 div 100) :: byte)"
  define m2 where "m2 = m1 - 100 * ucast p2"
  define p3 where "p3 = (ucast m2 :: byte)"
  have p1: "uint p1 = m div 10000" and m1: "uint m1 = m mod 10000"
    using micro_step [of ?w 10000] assms by (simp_all add: w p1_def m1_def)
  then have p2: "uint p2 = m mod 10000 div 100" and "uint m2 = m mod 10000 mod 100"
    using micro_step [of m1 100] by (simp_all add: p2_def m2_def)
  then have p3: "uint p3 = m mod 100"
    by (simp add: p3_def unsigned_ucast_eq take_bit_int_eq_self mod_mod_cancel)
  have p2': "uint p2 = m div 100 mod 100" using p2 by (simp add: zmod_zmult2_eq [of 100 m 100, simplified])
  have ne: "to_le 4 ?w \<noteq> []" using length_to_le [of 4 ?w] by (metis list.size(3) zero_neq_numeral)
  have rd: "bindR (slice (to_le 4 ?w) 0 4) le32 = Ok ?w"
    using le32_server [of ?w "[]"] by (simp add: slice_def bindR.simps)
  have a: "uint p1 < 100" "0 \<le> uint p2" "uint p2 < 100" "0 \<le> uint p3" "uint p3 < 100"
    using p1 p2' p3 assms by auto
  have "appendMicrosecs dst (to_le 4 ?w) (int n)
      = Ok (dst @ [0x2e] @ take n (two (uint p1) @ two (uint p2) @ two (uint p3)))"
    unfolding appendMicrosecs_def rd bindR.simps Let_def
      p1_def [symmetric] m1_def [symmetric] p2_def [symmetric] m2_def [symmetric] p3_def [symmetric]
    using assms(3,4) by (cases rule: decimals_cases) (use ne a in \<open>simp_all add: idx_digits bindR.simps two_def\<close>)
  then show ?thesis using p1 p2' p3 by (simp add: microText_def)
qed

text \<open>The three lengths of a server's value.\<close>

lemma serverTime_cases:
  obtains (date) "t_hour t = 0" "t_min t = 0" "t_sec t = 0" "t_nsec t div 1000 = 0"
      "serverTime t = to_le 2 (of_int (t_year t) :: u16) @ [of_int (t_month t), of_int (t_day t)]"
  | (clock) "t_nsec t div 1000 = 0"
      "serverTime t = to_le 2 (of_int (t_year t) :: u16) @ [of_int (t_month t), of_int (t_day t)]
         @ [of_int (t_hour t), of_int (t_min t), of_int (t_sec t)]"
  | (micro) "serverTime t = to_le 2 (of_int (t_year t) :: u16) @ [of_int (t_month t), of_int (t_day t)]
         @ [of_int (t_hour t), of_int (t_min t), of_int (t_sec t)]
         @ to_le 4 (of_int (t_nsec t div 1000) :: u32)"
  by (cases "t_nsec t div 1000 = 0"; cases "t_hour t = 0 \<and> t_min t = 0 \<and> t_sec t = 0")
    (auto simp: serverTime_def Let_def)

lemma server_binary:
  assumes t: "wf_time t" "1 \<le> t_year t" "t_year t \<le> 9999" and ns: "t_nsec t mod 1000 = 0"
  shows "parseBinaryDateTime (of_nat (length (serverTime t))) (serverTime t @ rest) spare loc = Ok (t\<lparr>t_off := loc\<rparr>)"
proof -
  have y: "0 \<le> t_year t" "t_year t < 65536" using t by auto
  have n: "t_nsec t div 1000 * 1000 = t_nsec t" using ns by (metis add.right_neutral div_mult_mod_eq)
  have m: "0 \<le> t_nsec t div 1000" "t_nsec t div 1000 < 1000000" using t by (auto simp: wf_time_def)
  have date: "time_Date (t_year t) (t_month t) (t_day t) (t_hour t) (t_min t) (t_sec t) (t_nsec t) loc
      = t\<lparr>t_off := loc\<rparr>"
    using t by (subst time_Date_valid) (auto simp: wf_time_def)
  show ?thesis
  proof (cases rule: serverTime_cases [of t])
    case date
    then show ?thesis using server_fields [OF t(1) y, of _ rest] \<open>time_Date _ _ _ _ _ _ _ _ = _\<close> n
      by (simp add: parseBinaryDateTime_def bindR.simps)
  next
    case clock
    let ?src = "serverTime t @ rest"
    have "?src = to_le 2 (of_int (t_year t) :: u16) @ [of_int (t_month t), of_int (t_day t)]
        @ [of_int (t_hour t), of_int (t_min t), of_int (t_sec t)] @ rest" by (simp add: clock)
    note f = server_fields [OF t(1) y this] server_clock [OF t(1) this]
    show ?thesis using f \<open>time_Date _ _ _ _ _ _ _ _ = _\<close> n clock
      by (simp add: parseBinaryDateTime_def bindR.simps)
  next
    case micro
    let ?src = "serverTime t @ rest" and ?m = "to_le 4 (of_int (t_nsec t div 1000) :: u32)"
    have "?src = to_le 2 (of_int (t_year t) :: u16) @ [of_int (t_month t), of_int (t_day t)]
        @ [of_int (t_hour t), of_int (t_min t), of_int (t_sec t)] @ ?m @ rest" by (simp add: micro)
    note f = server_fields [OF t(1) y this] server_clock [OF t(1) this]
    have "slice (?src @ spare) 7 11 = Ok ?m" using f(7) by (simp add: slice_def micro)
    moreover have "le32 ?m = Ok (of_int (t_nsec t div 1000))" using le32_server [of _ "[]"] by simp
    moreover have "uint (of_int (t_nsec t div 1000) :: u32) = t_nsec t div 1000"
      using m by (simp add: uint_word_of_int)
    moreover have "length (serverTime t) = 11" by (simp add: micro)
    ultimately show ?thesis using f \<open>time_Date _ _ _ _ _ _ _ _ = _\<close> n
      by (simp add: parseBinaryDateTime_def bindR.simps)
  qed
qed

lemma zero_micro:
  assumes "1 \<le> n" and "n \<le> 6"
  shows "appendMicrosecs dst [] (int n) = Ok (dst @ [0x2e] @ take n (microText 0))"
proof -
  have "slice (bytes_of ''.000000'') 0 (nat (int n) + 1) = Ok ([0x2e] @ take n (microText 0))"
    using assms by (cases rule: decimals_cases) (simp_all, code_simp+)
  then show ?thesis using assms by (simp add: appendMicrosecs_def bindR.simps)
qed

lemma server_text:
  assumes t: "wf_time t" "1 \<le> t_year t" "t_year t \<le> 9999"
    and len: "unat len \<in> {10, 19, 21, 22, 23, 24, 25, 26}"
  shows "formatBinaryDateTime (serverTime t) len = Ok (take (unat len) (fullText t))"
proof -
  let ?m = "t_nsec t div 1000" and ?n = "unat len"
  have y: "0 \<le> t_year t" "t_year t < 65536" "0 \<le> t_year t div 100" "t_year t div 100 < 100"
    using t by auto
  have m: "0 \<le> ?m" "?m < 1000000" using t by (auto simp: wf_time_def)
  have u: "uint len = int ?n" by (rule uint_nat)
  have len10: "len = 10 \<longleftrightarrow> ?n = 10" by (simp add: word_unat_eq_iff)
  note small = wf_time_small [OF t(1)]
  have z: "slice zeroDateTime 10 ?n = Ok (drop 10 (take ?n (fullText t)))"
    if "t_hour t = 0" "t_min t = 0" "t_sec t = 0" "?m = 0"
  proof -
    have "drop 10 zeroDateTime = [0x20] @ clockText t @ [0x2e] @ microText 0"
      unfolding clockText_def that by code_simp
    then have "drop 10 zeroDateTime = drop 10 (fullText t)" by (simp add: fullText_def that)
    moreover have "?n \<le> length zeroDateTime" "10 \<le> ?n" using len by (auto simp: zeroDateTime_def)
    ultimately show ?thesis by (simp add: slice_def drop_take)
  qed
  have mic: "appendMicrosecs (dateText t @ [0x20] @ clockText t) src (int ?n - 20) = Ok (take ?n (fullText t))"
    if "?n \<noteq> 10" and "src = [] \<and> ?m = 0 \<or> src = to_le 4 (of_int ?m :: u32)" for src
    using len
  proof (cases rule: decimals_of_length)
    case 2
    then show ?thesis by (simp add: appendMicrosecs_def take_fullText)
  next
    case (3 d)
    then show ?thesis using that(2) microsecs_pairs [OF m 3(2,3)] zero_micro [OF 3(2,3)] take_fullText(3) [of d t]
      by auto
  qed (use that in simp)
  have ten: "dateText t = take 10 (fullText t)" by (simp add: take_fullText)
  have front: "dateText t @ drop 10 (take ?n (fullText t)) = take ?n (fullText t)"
  proof -
    have "10 \<le> ?n" using len by auto
    then have "dateText t = take 10 (take ?n (fullText t))" by (simp add: ten min_absorb1)
    then show ?thesis by (metis append_take_drop_id)
  qed
  show ?thesis
  proof (cases rule: serverTime_cases [of t])
    case date
    then have src: "serverTime t = to_le 2 (of_int (t_year t) :: u16) @ [of_int (t_month t), of_int (t_day t)] @ []"
      by simp
    note f = server_fields [OF t(1) y(1,2) src]
    have "length (serverTime t) = 4" "serverTime t \<noteq> []" by (simp_all add: date)
    then have "formatBinaryDateTime (serverTime t) len
        = (if len = 10 then Ok (dateText t) else bindR (slice zeroDateTime 10 ?n) (\<lambda>z. Ok (dateText t @ z)))"
      using f y small len
      by (simp add: formatBinaryDateTime_def pairs3_def pair_two bindR.simps Let_def dateText_def)
    then show ?thesis using z date(1-4) front ten len10 by (simp add: bindR.simps)
  next
    case clock
    then have src: "serverTime t = to_le 2 (of_int (t_year t) :: u16) @ [of_int (t_month t), of_int (t_day t)]
        @ [of_int (t_hour t), of_int (t_min t), of_int (t_sec t)] @ []" by simp
    note f = server_fields [OF t(1) y(1,2) src] server_clock [OF t(1) src]
    have "length (serverTime t) = 7" "serverTime t \<noteq> []" by (simp_all add: clock)
    then have "formatBinaryDateTime (serverTime t) len = (if len = 10 then Ok (dateText t)
        else appendMicrosecs (dateText t @ [0x20] @ clockText t) [] (uint len - 20))"
      using f y small len by (simp add: formatBinaryDateTime_def pairs3_def pair_two bindR.simps Let_def
          dateText_def clockText_def)
    then show ?thesis using mic [of "[]", folded u] clock(1) ten len10 by auto
  next
    case micro
    note f = server_fields [OF t(1) y(1,2) micro] server_clock [OF t(1) micro]
    have "length (serverTime t) = 11" "serverTime t \<noteq> []" by (simp_all add: micro)
    then have "formatBinaryDateTime (serverTime t) len = (if len = 10 then Ok (dateText t)
        else appendMicrosecs (dateText t @ [0x20] @ clockText t) (to_le 4 (of_int ?m :: u32)) (uint len - 20))"
      using f y small len by (simp add: formatBinaryDateTime_def pairs3_def pair_two bindR.simps Let_def
          dateText_def clockText_def)
    then show ?thesis using mic [of "to_le 4 (of_int ?m :: u32)", folded u] ten len10 by auto
  qed
qed

section \<open>Properties\<close>

text \<open>
  C27: What \<open>appendDateTime\<close> writes into a query is what \<open>parseDateTime\<close> reads back: the clock
  reading rounded to a microsecond, whichever of the three forms (date, seconds, microseconds)
  it takes. The only failure is a year outside 1 to 9999.
\<close>

theorem date_time_round_trip:
  assumes "wf_time t"
  shows "if 1 \<le> t_year (roundMicro t) \<and> t_year (roundMicro t) \<le> 9999
    then \<exists>text. appendDateTime buf t = Ok (buf @ text)
      \<and> parseDateTime text (t_off t)
          = Ok ((roundMicro t)\<lparr>t_nsec := t_nsec (roundMicro t) div 1000 * 1000, t_off := t_off t\<rparr>)
    else \<exists>msg. appendDateTime buf t = Fail (ErrMsg msg)"
  using append_sql_text [OF assms] parse_sql_text [OF wf_roundMicro [OF assms]]
  by (auto simp: appendDateTime_def roundMicro_def Let_def)

theorem date_time_round_trip_witness:
  "\<exists>text. appendDateTime [0x27] \<lparr>t_year = 2021, t_month = 12, t_day = 31, t_hour = 23, t_min = 59,
       t_sec = 59, t_nsec = 999999500, t_off = 0\<rparr> = Ok ([0x27] @ text)
     \<and> parseDateTime text 0 = Ok \<lparr>t_year = 2022, t_month = 1, t_day = 1, t_hour = 0, t_min = 0,
       t_sec = 0, t_nsec = 0, t_off = 0\<rparr>"
proof -
  let ?t = "\<lparr>t_year = 2021, t_month = 12, t_day = 31, t_hour = 23, t_min = 59,
       t_sec = 59, t_nsec = 999999500, t_off = 0\<rparr> :: gotime"
  have "wf_time ?t" by code_simp
  moreover have "roundMicro ?t = \<lparr>t_year = 2022, t_month = 1, t_day = 1, t_hour = 0, t_min = 0,
       t_sec = 0, t_nsec = 0, t_off = 0\<rparr>" by code_simp
  ultimately show ?thesis using date_time_round_trip [of ?t "[0x27]"] by simp
qed

text \<open>
  C28: The text and the binary protocol agree. A valid clock reading (month and day from 1 on, a year
  from 1 to 9999) that a server sends in binary form is decoded to the same value directly
  (\<open>parseBinaryDateTime\<close>, used with \<open>parseTime=true\<close>) and through the text that
  \<open>formatBinaryDateTime\<close> makes of it, for every length of a DATE, DATETIME or TIMESTAMP column: the
  text has that length and stands for the part of the value the column shows (the date, the
  seconds, or 1 to 6 decimals), which is all of it for a value of the column's type. The zero date
  is the zero time both ways. (Dates with a zero month or day only: see \<open>zero_month_disagrees\<close>.)
\<close>

theorem binary_and_text_agree:
  assumes "wf_time t" "1 \<le> t_year t" "t_year t \<le> 9999" "t_nsec t mod 1000 = 0"
    and "unat len \<in> {10, 19, 21, 22, 23, 24, 25, 26}"
  shows "parseBinaryDateTime (of_nat (length (serverTime t))) (serverTime t @ rest) spare loc
      = Ok (t\<lparr>t_off := loc\<rparr>)
    \<and> (\<exists>text. formatBinaryDateTime (serverTime t) len = Ok text \<and> length text = unat len
          \<and> parseDateTime text loc = Ok ((shown (unat len) t)\<lparr>t_off := loc\<rparr>))
    \<and> parseBinaryDateTime 0 rest spare loc = Ok zeroTime
    \<and> (\<exists>text. formatBinaryDateTime [] len = Ok text \<and> length text = unat len
          \<and> parseDateTime text loc = Ok zeroTime)"
proof -
  have zero: "unat len \<le> length zeroDateTime" using assms(5) by (auto simp: zeroDateTime_def)
  then have "formatBinaryDateTime [] len = Ok (take (unat len) zeroDateTime)"
    by (simp add: formatBinaryDateTime_def slice_def)
  moreover have "parseDateTime (take (unat len) zeroDateTime) loc = Ok zeroTime"
    using assms(5) zero by (simp add: parseDateTime_def min_absorb2 del: insert_iff)
  moreover have "length (take (unat len) (fullText t)) = unat len" using assms(5) by (auto simp: fullText_def)
  moreover have "length (take (unat len) zeroDateTime) = unat len" using zero by simp
  ultimately show ?thesis
    using server_binary [OF assms(1-4)] server_text [OF assms(1-3,5)] parse_shown_text [OF assms(1-3,5)]
    by (simp add: parseBinaryDateTime_def)
qed

theorem binary_and_text_agree_witness:
  "let t = \<lparr>t_year = 2020, t_month = 2, t_day = 29, t_hour = 0, t_min = 0, t_sec = 1,
       t_nsec = 500000000, t_off = 0\<rparr>
   in parseBinaryDateTime (of_nat (length (serverTime t))) (serverTime t @ [9]) [] 3600 = Ok (t\<lparr>t_off := 3600\<rparr>)
    \<and> (\<exists>text. formatBinaryDateTime (serverTime t) 21 = Ok text
          \<and> parseDateTime text 3600 = Ok (t\<lparr>t_off := 3600\<rparr>))"
  using binary_and_text_agree [of "\<lparr>t_year = 2020, t_month = 2, t_day = 29, t_hour = 0, t_min = 0, t_sec = 1,
       t_nsec = 500000000, t_off = 0\<rparr>" 21 "[9]" "[]" 3600]
  by (auto simp: wf_time_def daysIn_def isLeap_def shown_def)

text \<open>
  The two protocols do not agree on dates with a zero month or day, which MySQL allows: the text
  parser takes 0 for 1, the binary one hands the zero to \<open>time.Date\<close>, which goes back a month or a
  day. The same column of the same row is 2020-01-15 in one and 2019-12-15 in the other.
\<close>

theorem zero_month_disagrees:
  "parseDateTime (bytes_of ''2020-00-15'') 0 = Ok (time_Date 2020 1 15 0 0 0 0 0)
   \<and> formatBinaryDateTime [0xe4, 0x07, 0, 15] 10 = Ok (bytes_of ''2020-00-15'')
   \<and> parseBinaryDateTime 4 [0xe4, 0x07, 0, 15] [] 0 = Ok (time_Date 2019 12 15 0 0 0 0 0)"
  by (intro conjI; code_simp)

lemma pairs3_Ok_iff:
  assumes "0 \<le> i" "0 \<le> j" "0 \<le> k"
  shows "pairs3 i c j d k = (if i < 100 \<and> j < 100 \<and> k < 100
    then Ok (two i @ [c] @ two j @ [d] @ two k) else Crash IndexOutOfRange)"
  using assms
  by (cases "i < 100"; cases "j < 100"; cases "k < 100")
    (simp_all add: pairs3_def pair_two pair_panics bindR.simps)

text \<open>
  \<open>formatBinaryDateTime\<close> trusts the server: a field of 100 or more, or a year of 10000 or more,
  panics in the tables of digits instead of returning an error; these are the only panics for a
  value of seven bytes.
\<close>

theorem binary_date_panics:
  assumes "length src = 7"
  shows "formatBinaryDateTime src 19 =
    (let year = uint (le_bytes (take 2 src) :: u16) in
     if year < 10000 \<and> (\<forall>i \<in> {2, 3, 4, 5, 6}. src ! i < 100)
     then Ok (two (year div 100) @ two (year mod 100) @ [0x2d] @ two (uint (src ! 2)) @ [0x2d]
              @ two (uint (src ! 3)) @ [0x20] @ two (uint (src ! 4)) @ [0x3a]
              @ two (uint (src ! 5)) @ [0x3a] @ two (uint (src ! 6)))
     else Crash IndexOutOfRange)"
proof -
  have "src \<noteq> []" using assms by auto
  have y: "pair (y div 100) = (if y < 10000 then Ok (two (y div 100)) else Crash IndexOutOfRange)"
    if "0 \<le> y" for y
    using that by (cases "y < 10000") (simp_all add: pair_two pair_panics)
  show ?thesis using assms \<open>src \<noteq> []\<close>
    by (simp add: formatBinaryDateTime_def le16_def le_uint_def byteI_def bindR.simps Let_def y
        pairs3_Ok_iff word_less_def appendMicrosecs_def)
qed

theorem binary_date_panics_witness:
  "formatBinaryDateTime [0xe4, 0x07, 1, 15, 100, 0, 0] 19 = Crash IndexOutOfRange"
  using binary_date_panics [of "[0xe4, 0x07, 1, 15, 100, 0, 0]"] by (simp add: Let_def)

end
