(* ===== verification/SqlEscape.thy ===== *)
theory SqlEscape
  imports Prelude
begin

text \<open>
  Escaping of strings for SQL literals, \<open>mysql/utils.go\<close> lines 623 to 763. A Go slice that is
  written to appears with its spare capacity: the pair of its contents and the bytes between its
  length and its capacity. The loops write byte by byte through the bounds check; the lemmas show
  that the reserved room is always enough, whatever the capacity. The last part is a reader of
  string literals, the reference the escaping is judged by.
\<close>

section \<open>Room for the result\<close>

type_synonym slice = "byte list \<times> byte list"

definition reserveBuffer :: "slice \<Rightarrow> nat \<Rightarrow> slice" where
  "reserveBuffer = (\<lambda>(buf, spare) appendSize.
     let newSize = length buf + appendSize;
         all = (if length buf + length spare < newSize
                then copy_at (replicate (length buf * 2 + appendSize) 0) 0 buf
                else buf @ spare)
     in (take newSize all, drop newSize all))"

lemma reserveBuffer_contents:
  "reserveBuffer (buf, spare) n = (c, sp) \<Longrightarrow> \<exists>room. c = buf @ room \<and> length room = n"
  by (auto simp: reserveBuffer_def Let_def copy_at_def split: if_splits)

section \<open>The loops\<close>

definition putB :: "byte list \<Rightarrow> nat \<Rightarrow> byte \<Rightarrow> byte list res" where
  "putB buf pos c = (if pos < length buf then Ok (buf[pos := c]) else Crash IndexOutOfRange)"

definition put2 :: "byte list \<Rightarrow> nat \<Rightarrow> byte \<Rightarrow> byte \<Rightarrow> (byte list \<times> nat) res" where
  "put2 buf pos c d =
     bindR (putB buf pos c) (\<lambda>buf. bindR (putB buf (pos + 1) d) (\<lambda>buf. Ok (buf, pos + 2)))"

definition put1 :: "byte list \<Rightarrow> nat \<Rightarrow> byte \<Rightarrow> (byte list \<times> nat) res" where
  "put1 buf pos c = bindR (putB buf pos c) (\<lambda>buf. Ok (buf, pos + 1))"

definition escByteBackslash :: "byte list \<Rightarrow> nat \<Rightarrow> byte \<Rightarrow> (byte list \<times> nat) res" where
  "escByteBackslash buf pos c =
     (if c = 0x00 then put2 buf pos 0x5c 0x30
      else if c = 0x0a then put2 buf pos 0x5c 0x6e
      else if c = 0x0d then put2 buf pos 0x5c 0x72
      else if c = 0x1a then put2 buf pos 0x5c 0x5a
      else if c = 0x27 then put2 buf pos 0x5c 0x27
      else if c = 0x22 then put2 buf pos 0x5c 0x22
      else if c = 0x5c then put2 buf pos 0x5c 0x5c
      else put1 buf pos c)"

definition escByteQuotes :: "byte list \<Rightarrow> nat \<Rightarrow> byte \<Rightarrow> (byte list \<times> nat) res" where
  "escByteQuotes buf pos c = (if c = 0x27 then put2 buf pos 0x27 0x27 else put1 buf pos c)"

text \<open>The byte-slice versions range over the bytes; the string versions count an index.\<close>

fun escBytesLoop ::
    "(byte list \<Rightarrow> nat \<Rightarrow> byte \<Rightarrow> (byte list \<times> nat) res) \<Rightarrow> byte list \<times> nat \<Rightarrow> byte list \<Rightarrow> (byte list \<times> nat) res"
where
  "escBytesLoop step (buf, pos) [] = Ok (buf, pos)"
| "escBytesLoop step (buf, pos) (c # v) = bindR (step buf pos c) (\<lambda>r. escBytesLoop step r v)"

function escStringLoop ::
    "(byte list \<Rightarrow> nat \<Rightarrow> byte \<Rightarrow> (byte list \<times> nat) res) \<Rightarrow> byte list \<times> nat \<Rightarrow> byte list \<Rightarrow> nat \<Rightarrow> (byte list \<times> nat) res"
where
  "escStringLoop step (buf, pos) v i =
     (if i < length v then bindR (step buf pos (v ! i)) (\<lambda>r. escStringLoop step r v (i + 1))
      else Ok (buf, pos))"
  by pat_completeness auto

termination by (relation "measure (\<lambda>(step, r, v, i). length v - i)") auto

declare escStringLoop.simps [simp del]

definition finishEscape :: "byte list \<Rightarrow> (byte list \<times> nat) res \<Rightarrow> slice res" where
  "finishEscape spare r =
     bindR r (\<lambda>(buf, pos). bindR (slice buf 0 pos) (\<lambda>s. Ok (s, drop pos buf @ spare)))"

definition escapeBytesBackslash :: "slice \<Rightarrow> byte list \<Rightarrow> slice res" where
  "escapeBytesBackslash b v =
     (let (buf, spare) = reserveBuffer b (length v * 2)
      in finishEscape spare (escBytesLoop escByteBackslash (buf, length (fst b)) v))"

definition escapeStringBackslash :: "slice \<Rightarrow> byte list \<Rightarrow> slice res" where
  "escapeStringBackslash b v =
     (let (buf, spare) = reserveBuffer b (length v * 2)
      in finishEscape spare (escStringLoop escByteBackslash (buf, length (fst b)) v 0))"

definition escapeBytesQuotes :: "slice \<Rightarrow> byte list \<Rightarrow> slice res" where
  "escapeBytesQuotes b v =
     (let (buf, spare) = reserveBuffer b (length v * 2)
      in finishEscape spare (escBytesLoop escByteQuotes (buf, length (fst b)) v))"

definition escapeStringQuotes :: "slice \<Rightarrow> byte list \<Rightarrow> slice res" where
  "escapeStringQuotes b v =
     (let (buf, spare) = reserveBuffer b (length v * 2)
      in finishEscape spare (escStringLoop escByteQuotes (buf, length (fst b)) v 0))"

section \<open>What the loops write\<close>

text \<open>The reference encoders: what one byte becomes in a literal.\<close>

definition encBackslash :: "byte \<Rightarrow> byte list" where
  "encBackslash c =
     (if c = 0x00 then [0x5c, 0x30] else if c = 0x0a then [0x5c, 0x6e]
      else if c = 0x0d then [0x5c, 0x72] else if c = 0x1a then [0x5c, 0x5a]
      else if c = 0x27 \<or> c = 0x22 \<or> c = 0x5c then [0x5c, c] else [c])"

definition encQuotes :: "byte \<Rightarrow> byte list" where
  "encQuotes c = (if c = 0x27 then [0x27, 0x27] else [c])"

text \<open>
  A step implements an encoder that makes at most two bytes of one when, with two bytes of room
  behind the position, it puts exactly these bytes there. The rest of the proof needs nothing
  else of the two encodings.
\<close>

locale escape_step =
  fixes step :: "byte list \<Rightarrow> nat \<Rightarrow> byte \<Rightarrow> (byte list \<times> nat) res"
    and enc :: "byte \<Rightarrow> byte list"
  assumes writes: "length (enc c) \<le> length room \<Longrightarrow>
      step (pre @ room) (length pre) c = Ok (pre @ enc c @ drop (length (enc c)) room, length pre + length (enc c))"
    and short: "length (enc c) \<le> 2"
begin

lemma encoded_short: "length (concat (map enc v)) \<le> length v * 2"
proof (induction v)
  case (Cons c v)
  then show ?case using short [of c] by simp
qed simp

lemma loop_writes:
  "length (concat (map enc v)) \<le> length room \<Longrightarrow>
   escBytesLoop step (pre @ room, length pre) v =
     Ok (pre @ concat (map enc v) @ drop (length (concat (map enc v))) room,
         length pre + length (concat (map enc v)))"
proof (induction v arbitrary: pre room)
  case (Cons c v)
  let ?room = "drop (length (enc c)) room"
  have "escBytesLoop step (pre @ room, length pre) (c # v)
      = escBytesLoop step ((pre @ enc c) @ ?room, length (pre @ enc c)) v"
    using Cons.prems by (simp add: writes bindR.simps)
  also have "\<dots> = Ok ((pre @ enc c) @ concat (map enc v) @ drop (length (concat (map enc v))) ?room,
      length (pre @ enc c) + length (concat (map enc v)))"
    using Cons.prems by (intro Cons.IH) simp
  finally show ?case by (simp add: add.commute add.left_commute)
qed simp

lemma string_loop_is_bytes_loop:
  "escStringLoop step r v i = escBytesLoop step r (drop i v)"
proof (induction step r v i rule: escStringLoop.induct)
  case (1 step buf pos v i)
  show ?case
  proof (cases "i < length v")
    case True
    then have "drop i v = v ! i # drop (Suc i) v" by (simp add: Cons_nth_drop_Suc)
    with True 1 show ?thesis
      by (subst escStringLoop.simps) (cases "step buf pos (v ! i)"; simp add: bindR.simps)
  qed (simp add: escStringLoop.simps)
qed

lemma escape_contents:
  assumes "reserveBuffer (b, spare) (length v * 2) = (buf, sp)"
  shows "\<exists>rest. finishEscape sp (escBytesLoop step (buf, length b) v)
      = Ok (b @ concat (map enc v), rest)"
proof -
  from reserveBuffer_contents [OF assms]
  obtain room where buf: "buf = b @ room" and room: "length room = length v * 2" by blast
  then show ?thesis using encoded_short [of v]
    by (simp add: loop_writes finishEscape_def slice_def bindR.simps)
qed

end

lemma put2_room:
  "room \<noteq> [] \<Longrightarrow> tl room \<noteq> [] \<Longrightarrow>
   put2 (d @ room) (length d) x y = Ok (d @ x # y # drop 2 room, length d + 2)"
  by (cases room; cases "tl room")
    (auto simp: put2_def putB_def bindR.simps nth_append list_update_append)

lemma put1_room:
  "room \<noteq> [] \<Longrightarrow> put1 (d @ room) (length d) x = Ok (d @ x # drop 1 room, length d + 1)"
  by (cases room) (auto simp: put1_def putB_def bindR.simps nth_append list_update_append)

interpretation bs: escape_step escByteBackslash encBackslash
proof
  fix c :: byte and room d :: "byte list"
  assume "length (encBackslash c) \<le> length room"
  then show "escByteBackslash (d @ room) (length d) c =
      Ok (d @ encBackslash c @ drop (length (encBackslash c)) room, length d + length (encBackslash c))"
    by (cases room; cases "tl room")
      (auto simp: escByteBackslash_def encBackslash_def put2_room put1_room split: if_splits)
qed (simp add: encBackslash_def)

interpretation qs: escape_step escByteQuotes encQuotes
proof
  fix c :: byte and room d :: "byte list"
  assume "length (encQuotes c) \<le> length room"
  then show "escByteQuotes (d @ room) (length d) c =
      Ok (d @ encQuotes c @ drop (length (encQuotes c)) room, length d + length (encQuotes c))"
    by (cases room; cases "tl room")
      (auto simp: escByteQuotes_def encQuotes_def put2_room put1_room split: if_splits)
qed (simp add: encQuotes_def)

lemma escape_backslash_contents:
  "\<exists>rest. escapeBytesBackslash (b, spare) v = Ok (b @ concat (map encBackslash v), rest)"
  "escapeStringBackslash (b, spare) v = escapeBytesBackslash (b, spare) v"
  using bs.escape_contents [of b spare v]
  by (auto simp: escapeBytesBackslash_def escapeStringBackslash_def bs.string_loop_is_bytes_loop
      split: prod.splits)

lemma escape_quotes_contents:
  "\<exists>rest. escapeBytesQuotes (b, spare) v = Ok (b @ concat (map encQuotes v), rest)"
  "escapeStringQuotes (b, spare) v = escapeBytesQuotes (b, spare) v"
  using qs.escape_contents [of b spare v]
  by (auto simp: escapeBytesQuotes_def escapeStringQuotes_def qs.string_loop_is_bytes_loop
      split: prod.splits)

section \<open>How a server reads a literal\<close>

text \<open>
  The reader is started behind the opening quote. With backslash escapes on, a backslash and a
  letter stand for one byte; in both modes a doubled quote is a quote and a single one ends the
  literal. The result is the text of the literal and what follows the closing quote; \<open>None\<close> is a
  literal that does not end.
\<close>

definition unescape :: "byte \<Rightarrow> byte" where
  "unescape c = (if c = 0x30 then 0x00 else if c = 0x6e then 0x0a else if c = 0x72 then 0x0d
     else if c = 0x5a then 0x1a else if c = 0x62 then 0x08 else if c = 0x74 then 0x09 else c)"

fun readLiteral :: "bool \<Rightarrow> byte list \<Rightarrow> (byte list \<times> byte list) option" where
  "readLiteral noBackslash [] = None"
| "readLiteral noBackslash (c # s) =
     (if c = 0x5c \<and> \<not> noBackslash then
        (case s of [] \<Rightarrow> None
         | d # t \<Rightarrow> map_option (\<lambda>(v, r). (unescape d # v, r)) (readLiteral noBackslash t))
      else if c = 0x27 then
        (case s of
           d # t \<Rightarrow> if d = 0x27 then map_option (\<lambda>(v, r). (0x27 # v, r)) (readLiteral noBackslash t)
                    else Some ([], s)
         | [] \<Rightarrow> Some ([], []))
      else map_option (\<lambda>(v, r). (c # v, r)) (readLiteral noBackslash s))"

lemma read_end: "take 1 rest \<noteq> [0x27] \<Longrightarrow> readLiteral nb (0x27 # rest) = Some ([], rest)"
  by (cases rest) auto

lemma read_encBackslash:
  "readLiteral False (encBackslash c @ s) = map_option (\<lambda>(v, r). (c # v, r)) (readLiteral False s)"
  by (auto simp: encBackslash_def unescape_def)

lemma read_encQuotes:
  "readLiteral True (encQuotes c @ s) = map_option (\<lambda>(v, r). (c # v, r)) (readLiteral True s)"
  by (auto simp: encQuotes_def)

lemma read_escaped_backslash:
  "take 1 rest \<noteq> [0x27] \<Longrightarrow>
   readLiteral False (concat (map encBackslash v) @ 0x27 # rest) = Some (v, rest)"
  by (induction v) (simp_all add: read_end read_encBackslash del: readLiteral.simps)

lemma read_escaped_quotes:
  "take 1 rest \<noteq> [0x27] \<Longrightarrow>
   readLiteral True (concat (map encQuotes v) @ 0x27 # rest) = Some (v, rest)"
  by (induction v) (simp_all add: read_end read_encQuotes del: readLiteral.simps)

end
