(* ===== verification/Interpolate.thy ===== *)
theory Interpolate
  imports SqlEscape TimeCodec
begin

text \<open>
  Client-side interpolation of parameters, \<open>interpolateParams\<close> of \<open>mysql/connection.go\<close>: every
  \<open>?\<close> of the query is replaced by the text of its argument. The settings it reads from the
  connection are a record of their own; the connection fills it in (theory \<open>MysqlConn\<close>).
\<close>

text \<open>
  The argument as the type switch sees it. A float is its bits, and its shortest text
  (\<open>strconv.AppendFloat\<close>) is a parameter.
\<close>

datatype marg =
    ANull
  | AInt64 u64
  | AUint64 u64
  | AFloat64 u64
  | ABool bool
  | ATime gotime
  | AJson "byte list option"
  | ABytes "byte list option"
  | AString "byte list"
  | AOther

record interpCfg =
  ic_fmtFloat :: "u64 \<Rightarrow> byte list"
  ic_loc :: int
  ic_noBackslash :: bool
  ic_maxAllowedPacket :: int

definition appendS :: "slice \<Rightarrow> byte list \<Rightarrow> slice" where
  "appendS = (\<lambda>(buf, spare) xs. (buf @ xs, drop (length xs) spare))"

text \<open>A nil slice has no bytes.\<close>

definition bytesOf :: "byte list option \<Rightarrow> byte list" where
  "bytesOf v = (case v of None \<Rightarrow> [] | Some b \<Rightarrow> b)"

definition appendInt :: "u64 \<Rightarrow> byte list" where
  "appendInt v = (if sint v < 0 then 0x2d # decimal (nat (- sint v)) else decimal (nat (sint v)))"

text \<open>A quoted literal: the opening quote (or \<open>_binary'\<close>), the escaped bytes, the closing quote.\<close>

definition appendQuoted ::
    "(slice \<Rightarrow> byte list \<Rightarrow> slice res) \<Rightarrow> slice \<Rightarrow> byte list \<Rightarrow> byte list \<Rightarrow> slice res" where
  "appendQuoted escape buf open v =
     bindR (escape (appendS buf open) v) (\<lambda>buf. Ok (appendS buf [0x27]))"

definition checkSize :: "interpCfg \<Rightarrow> slice \<Rightarrow> slice res" where
  "checkSize C buf = (if int (length (fst buf)) + 4 > ic_maxAllowedPacket C then Fail ErrSkip else Ok buf)"

definition appendArg :: "interpCfg \<Rightarrow> slice \<Rightarrow> marg \<Rightarrow> slice res" where
  "appendArg C buf arg =
     (case arg of
        ANull \<Rightarrow> Ok (appendS buf (bytes_of ''NULL''))
      | AInt64 v \<Rightarrow> checkSize C (appendS buf (appendInt v))
      | AUint64 v \<Rightarrow> checkSize C (appendS buf (decimal (unat v)))
      | AFloat64 v \<Rightarrow> checkSize C (appendS buf (ic_fmtFloat C v))
      | ABool v \<Rightarrow> checkSize C (appendS buf (if v then [0x31] else [0x30]))
      | ATime v \<Rightarrow>
          if time_IsZero v then checkSize C (appendS buf ([0x27] @ bytes_of ''0000-00-00'' @ [0x27]))
          else
            let (b, spare) = appendS buf [0x27]
            in bindR (appendDateTime b (time_In v (ic_loc C))) (\<lambda>b.
               checkSize C (appendS (b, spare) [0x27]))
      | AJson v \<Rightarrow>
          bindR (appendQuoted (if \<not> ic_noBackslash C then escapeBytesBackslash else escapeBytesQuotes)
            buf [0x27] (bytesOf v)) (checkSize C)
      | ABytes None \<Rightarrow> checkSize C (appendS buf (bytes_of ''NULL''))
      | ABytes (Some v) \<Rightarrow>
          bindR (appendQuoted (if \<not> ic_noBackslash C then escapeBytesBackslash else escapeBytesQuotes)
            buf (bytes_of ''_binary'' @ [0x27]) v) (checkSize C)
      | AString v \<Rightarrow>
          bindR (appendQuoted (if \<not> ic_noBackslash C then escapeStringBackslash else escapeStringQuotes)
            buf [0x27] v) (checkSize C)
      | AOther \<Rightarrow> Fail ErrSkip)"

text \<open>\<open>strings.IndexByte\<close> and \<open>strings.Count\<close> for one byte.\<close>

fun indexByte :: "byte list \<Rightarrow> byte \<Rightarrow> nat option" where
  "indexByte [] c = None"
| "indexByte (x # xs) c = (if x = c then Some 0 else map_option Suc (indexByte xs c))"

definition countByte :: "byte list \<Rightarrow> byte \<Rightarrow> nat" where
  "countByte s c = length (filter (\<lambda>x. x = c) s)"

lemma indexByte_Some: "indexByte s c = Some q \<Longrightarrow> q < length s \<and> s = take q s @ c # drop (Suc q) s"
  by (induction s arbitrary: q) (auto split: if_splits)

lemma indexByte_countByte:
  "indexByte s c = None \<Longrightarrow> countByte s c = 0"
  "indexByte s c = Some q \<Longrightarrow> countByte s c = Suc (countByte (drop (Suc q) s) c)"
  by (induction s arbitrary: q) (auto simp: countByte_def split: if_splits)

text \<open>The loop, on the part of the query that is left.\<close>

function interpLoop :: "interpCfg \<Rightarrow> marg list \<Rightarrow> byte list \<Rightarrow> nat \<Rightarrow> slice \<Rightarrow> (slice \<times> nat) res" where
  "interpLoop C args query argPos buf =
     (if query = [] then Ok (buf, argPos)
      else case indexByte query 0x3f of
        None \<Rightarrow> Ok (appendS buf query, argPos)
      | Some q \<Rightarrow>
          bindR (idx args argPos) (\<lambda>arg.
          bindR (appendArg C (appendS buf (take q query)) arg) (\<lambda>buf.
          interpLoop C args (drop (Suc q) query) (Suc argPos) buf)))"
  by pat_completeness auto

termination
  by (relation "measure (\<lambda>(C, args, query, argPos, buf). length query)") auto

declare interpLoop.simps [simp del]

text \<open>
  \<open>takeBuf\<close> is the outcome of \<open>takeCompleteBuffer\<close>: the whole write buffer, of which only the
  capacity is used, or the error of a busy buffer.
\<close>

definition interpolateParams ::
    "interpCfg \<Rightarrow> byte list res \<Rightarrow> byte list \<Rightarrow> marg list \<Rightarrow> byte list res" where
  "interpolateParams C takeBuf query args =
     (if countByte query 0x3f \<noteq> length args then Fail ErrSkip
      else case takeBuf of
        Fail e \<Rightarrow> Fail ErrInvalidConn
      | Crash h \<Rightarrow> Crash h
      | Ok buf \<Rightarrow>
          bindR (interpLoop C args query 0 ([], buf)) (\<lambda>((buf, spare), argPos).
          if argPos \<noteq> length args then Fail ErrSkip else Ok buf))"

end
