(* ===== verification/InterpolateProps.thy ===== *)
theory InterpolateProps
  imports Interpolate
begin

text \<open>
  What an interpolated query is: the pieces of the query between the placeholders with the texts of
  the arguments between them, and each text is one literal for the server, whatever bytes the
  argument holds.
\<close>

section \<open>The text of an argument\<close>

definition encodeBytes :: "bool \<Rightarrow> byte list \<Rightarrow> byte list" where
  "encodeBytes noBackslash v = concat (map (if noBackslash then encQuotes else encBackslash) v)"

definition quoted :: "bool \<Rightarrow> byte list \<Rightarrow> byte list" where
  "quoted noBackslash v = [0x27] @ encodeBytes noBackslash v @ [0x27]"

fun argText :: "interpCfg \<Rightarrow> marg \<Rightarrow> byte list res" where
  "argText C ANull = Ok (bytes_of ''NULL'')"
| "argText C (AInt64 v) = Ok (appendInt v)"
| "argText C (AUint64 v) = Ok (decimal (unat v))"
| "argText C (AFloat64 v) = Ok (ic_fmtFloat C v)"
| "argText C (ABool v) = Ok (if v then [0x31] else [0x30])"
| "argText C (ATime v) =
     (if time_IsZero v then Ok ([0x27] @ bytes_of ''0000-00-00'' @ [0x27])
      else bindR (appendDateTime [] (time_In v (ic_loc C))) (\<lambda>s. Ok ([0x27] @ s @ [0x27])))"
| "argText C (AJson v) = Ok (quoted (ic_noBackslash C) (bytesOf v))"
| "argText C (ABytes None) = Ok (bytes_of ''NULL'')"
| "argText C (ABytes (Some v)) = Ok (bytes_of ''_binary'' @ quoted (ic_noBackslash C) v)"
| "argText C (AString v) = Ok (quoted (ic_noBackslash C) v)"
| "argText C AOther = Fail ErrSkip"

text \<open>The bytes an argument stands for and the length of what precedes them in its text.\<close>

fun argBytes :: "marg \<Rightarrow> (nat \<times> byte list) option" where
  "argBytes (AJson v) = Some (1, bytesOf v)"
| "argBytes (ABytes (Some v)) = Some (8, v)"
| "argBytes (AString v) = Some (1, v)"
| "argBytes _ = None"

lemma bindR_if: "bindR (if b then m else n) f = (if b then bindR m f else bindR n f)"
  by simp

lemma appendDateTime_prefix:
  "appendDateTime buf t = bindR (appendDateTime [] t) (\<lambda>s. Ok (buf @ s))"
  by (simp add: appendDateTime_def Let_def bindR_if bindR_assoc bindR.simps cong: if_cong)

lemma escape_text:
  "\<exists>sp. (if \<not> nb then escapeBytesBackslash else escapeBytesQuotes) (b, spare) v
      = Ok (b @ encodeBytes nb v, sp)"
  "\<exists>sp. (if \<not> nb then escapeStringBackslash else escapeStringQuotes) (b, spare) v
      = Ok (b @ encodeBytes nb v, sp)"
  using escape_backslash_contents [of b spare v] escape_quotes_contents [of b spare v]
  by (auto simp: encodeBytes_def)

lemma appendQuoted_text:
  "\<exists>sp. appendQuoted (if \<not> nb then escapeBytesBackslash else escapeBytesQuotes) (b, spare) open v
      = Ok (b @ open @ encodeBytes nb v @ [0x27], sp)"
  "\<exists>sp. appendQuoted (if \<not> nb then escapeStringBackslash else escapeStringQuotes) (b, spare) open v
      = Ok (b @ open @ encodeBytes nb v @ [0x27], sp)"
  using escape_text [of nb "b @ open" "drop (length open) spare" v]
  by (auto simp: appendQuoted_def appendS_def bindR.simps simp del: if_not_P)

lemma appendArg_text:
  "\<exists>sp. appendArg C (b, spare) a = bindR (argText C a) (\<lambda>t.
     if a \<noteq> ANull \<and> int (length (b @ t)) + 4 > ic_maxAllowedPacket C then Fail ErrSkip
     else Ok (b @ t, sp))"
proof (cases a)
  case (ATime v)
  show ?thesis
  proof (cases "time_IsZero v")
    case True
    then show ?thesis by (simp add: ATime appendArg_def checkSize_def appendS_def bindR.simps)
  next
    case False
    then show ?thesis
      by (cases "appendDateTime [] (time_In v (ic_loc C))")
        (simp_all add: ATime appendArg_def checkSize_def appendS_def bindR.simps
          appendDateTime_prefix [of "b @ [0x27]"])
  qed
next
  case (AJson v)
  obtain sp where "appendQuoted (if \<not> ic_noBackslash C then escapeBytesBackslash else escapeBytesQuotes)
      (b, spare) [0x27] (bytesOf v)
        = Ok (b @ [0x27] @ encodeBytes (ic_noBackslash C) (bytesOf v) @ [0x27], sp)"
    using appendQuoted_text(1) by blast
  then show ?thesis
    by (simp add: AJson appendArg_def checkSize_def bindR.simps quoted_def del: if_not_P)
next
  case (ABytes w)
  show ?thesis
  proof (cases w)
    case None
    then show ?thesis by (simp add: ABytes appendArg_def checkSize_def appendS_def bindR.simps)
  next
    case (Some v)
    obtain sp where "appendQuoted (if \<not> ic_noBackslash C then escapeBytesBackslash else escapeBytesQuotes)
        (b, spare) (bytes_of ''_binary'' @ [0x27]) v
        = Ok (b @ (bytes_of ''_binary'' @ [0x27]) @ encodeBytes (ic_noBackslash C) v @ [0x27], sp)"
      using appendQuoted_text(1) by blast
    then show ?thesis
      by (simp add: ABytes Some appendArg_def checkSize_def bindR.simps quoted_def)
  qed
next
  case (AString v)
  obtain sp where "appendQuoted (if \<not> ic_noBackslash C then escapeStringBackslash else escapeStringQuotes)
      (b, spare) [0x27] v = Ok (b @ [0x27] @ encodeBytes (ic_noBackslash C) v @ [0x27], sp)"
    using appendQuoted_text(2) by blast
  then show ?thesis
    by (simp add: AString appendArg_def checkSize_def bindR.simps quoted_def)
qed (simp_all add: appendArg_def checkSize_def appendS_def bindR.simps)

lemma appendArg_Ok:
  assumes "appendArg C (b, spare) a = Ok r"
  shows "\<exists>t sp. argText C a = Ok t \<and> r = (b @ t, sp)"
proof -
  obtain sp where "appendArg C (b, spare) a = bindR (argText C a) (\<lambda>t.
     if a \<noteq> ANull \<and> int (length (b @ t)) + 4 > ic_maxAllowedPacket C then Fail ErrSkip
     else Ok (b @ t, sp))" using appendArg_text by blast
  then show ?thesis using assms
    by (cases "argText C a") (auto simp: bindR.simps split: if_splits)
qed

section \<open>The pieces of a query\<close>

fun pieces :: "byte list \<Rightarrow> byte list list" where
  "pieces [] = [[]]"
| "pieces (c # s) = (if c = 0x3f then [] # pieces s else
     (case pieces s of [] \<Rightarrow> [[c]] | p # ps \<Rightarrow> (c # p) # ps))"

fun merge :: "byte list list \<Rightarrow> byte list list \<Rightarrow> byte list" where
  "merge (p # ps) (t # ts) = p @ t @ merge ps ts"
| "merge (p # ps) [] = p"
| "merge [] ts = []"

lemma pieces_nonempty [simp]: "pieces s \<noteq> []"
  by (cases s) (auto split: list.splits)

lemma pieces_index:
  "pieces s = (case indexByte s 0x3f of None \<Rightarrow> [s] | Some q \<Rightarrow> take q s # pieces (drop (Suc q) s))"
  by (induction s) (auto split: option.splits)

lemma length_pieces: "length (pieces s) = Suc (countByte s 0x3f)"
  by (induction s) (auto simp: countByte_def split: list.splits)

text \<open>The texts of a list of arguments, in order.\<close>

fun argTexts :: "interpCfg \<Rightarrow> marg list \<Rightarrow> byte list list res" where
  "argTexts C [] = Ok []"
| "argTexts C (a # as) = bindR (argText C a) (\<lambda>t. bindR (argTexts C as) (\<lambda>ts. Ok (t # ts)))"

lemma argTexts_Ok:
  "argTexts C as = Ok ts \<Longrightarrow> length ts = length as \<and> (\<forall>i < length as. argText C (as ! i) = Ok (ts ! i))"
  by (induction as arbitrary: ts) (auto simp: bindR_Ok_iff nth_Cons split: nat.splits)

lemma interpLoop_merge:
  "interpLoop C args query n (b, spare) = Ok ((s, sp), m) \<Longrightarrow> n + countByte query 0x3f = length args \<Longrightarrow>
   m = length args \<and> (\<exists>ts. argTexts C (drop n args) = Ok ts \<and> s = b @ merge (pieces query) ts)"
proof (induction C args query n "(b, spare)" arbitrary: b spare rule: interpLoop.induct)
  case (1 C args query n b spare)
  show ?case
  proof (cases "indexByte query 0x3f")
    case None
    then have "drop n args = []" using 1(3) indexByte_countByte(1) [OF None] by simp
    then show ?thesis using 1(2,3) None indexByte_countByte(1) [OF None]
      by (auto simp: interpLoop.simps [of C args query] appendS_def pieces_index [of query]
          split: if_splits)
  next
    case (Some q)
    let ?rest = "drop (Suc q) query"
    have ne: "query \<noteq> []" using Some by auto
    have n: "n < length args" "Suc n + countByte ?rest 0x3f = length args"
      using 1(3) indexByte_countByte(2) [OF Some] by auto
    obtain r where r: "appendArg C (b @ take q query, drop q spare) (args ! n) = Ok r"
      and loop: "interpLoop C args ?rest (Suc n) r = Ok ((s, sp), m)"
      using 1(2) ne Some n indexByte_Some [OF Some]
      by (auto simp: interpLoop.simps [of C args query] appendS_def bindR_Ok_iff)
    obtain t sp1 where t: "argText C (args ! n) = Ok t" and r1: "r = (b @ take q query @ t, sp1)"
      using appendArg_Ok [OF r] by auto
    have a: "appendArg C (appendS (b, spare) (take q query)) (args ! n) = Ok (b @ take q query @ t, sp1)"
      using r r1 indexByte_Some [OF Some] by (simp add: appendS_def)
    have "m = length args \<and> (\<exists>ts. argTexts C (drop (Suc n) args) = Ok ts
        \<and> s = (b @ take q query @ t) @ merge (pieces ?rest) ts)"
      using 1(1) [OF ne Some loop [unfolded r1] n(2)] by simp
    then show ?thesis using t n(1) Some
      by (auto simp: pieces_index [of query] Cons_nth_drop_Suc [symmetric] bindR.simps)
  qed
qed

lemma interpolate_Ok:
  assumes "interpolateParams C takeBuf query args = Ok s"
  shows "countByte query 0x3f = length args
    \<and> (\<exists>ts. argTexts C args = Ok ts \<and> s = merge (pieces query) ts)"
proof -
  have n: "countByte query 0x3f = length args"
    using assms by (simp add: interpolateParams_def split: if_splits)
  then obtain buf sp m where loop: "interpLoop C args query 0 ([], buf) = Ok ((s, sp), m)"
    using assms by (auto simp: interpolateParams_def bindR_Ok_iff split: if_splits res.splits prod.splits)
  from interpLoop_merge [OF this] n show ?thesis by simp
qed

text \<open>Splitting a merge at one of the texts.\<close>

lemma merge_split:
  assumes "length ps = Suc (length ts)" and "i < length ts"
  shows "merge ps ts = merge (take (Suc i) ps) (take i ts) @ ts ! i @ merge (drop (Suc i) ps) (drop (Suc i) ts)"
  using assms
proof (induction ps ts arbitrary: i rule: merge.induct)
  case (1 p ps t ts)
  then show ?case by (cases i; cases ps; cases ts) auto
qed auto

lemma argText_literal:
  assumes "argBytes a = Some (k, v)" and "argText C a = Ok t" and "take 1 rest \<noteq> [0x27]"
  shows "readLiteral (ic_noBackslash C) (drop k (t @ rest)) = Some (v, rest)"
proof -
  have "readLiteral (ic_noBackslash C) (drop 1 (quoted (ic_noBackslash C) v @ rest)) = Some (v, rest)"
    using read_escaped_backslash [OF assms(3), of v] read_escaped_quotes [OF assms(3), of v]
    by (cases "ic_noBackslash C") (simp_all add: quoted_def encodeBytes_def)
  moreover have "drop 8 (bytes_of ''_binary'' @ x) = drop 1 x" if "x = [0x27] @ y" for x y
    using that by (simp add: bytes_of_def)
  ultimately show ?thesis using assms(1,2)
    by (cases a rule: argBytes.cases) (auto simp: quoted_def)
qed

section \<open>Properties\<close>

text \<open>
  C16: In an interpolated query every string, byte slice and JSON argument is one SQL literal that a
  server reads back as exactly the bytes of the argument, in the quoting mode the server is in, and
  the literal ends where the text of the query goes on: no content of an argument can end its
  literal early. What stands before and after is the query with the other arguments in place. (The
  condition: the query does not go on with a quote right behind the placeholder.)
\<close>

theorem interpolated_argument_reads_back:
  assumes "interpolateParams C takeBuf query args = Ok s"
    and "i < length args" and "argBytes (args ! i) = Some (k, v)"
    and "argTexts C args = Ok ts"
    and "rest = merge (drop (Suc i) (pieces query)) (drop (Suc i) ts)"
    and "take 1 rest \<noteq> [0x27]"
  shows "\<exists>pre. s = pre @ ts ! i @ rest
    \<and> pre = merge (take (Suc i) (pieces query)) (take i ts)
    \<and> readLiteral (ic_noBackslash C) (drop (length pre + k) s) = Some (v, rest)"
proof -
  let ?pre = "merge (take (Suc i) (pieces query)) (take i ts)"
  from interpolate_Ok [OF assms(1)] assms(4)
  have s: "s = merge (pieces query) ts" and n: "countByte query 0x3f = length args" by auto
  have ts: "length ts = length args" "argText C (args ! i) = Ok (ts ! i)"
    using argTexts_Ok [OF assms(4)] assms(2) by auto
  have "s = ?pre @ ts ! i @ rest"
    unfolding s assms(5) using merge_split [of "pieces query" ts i] length_pieces [of query] n ts assms(2)
    by simp
  moreover from this have "drop (length ?pre + k) s = drop k (ts ! i @ rest)" by simp
  ultimately show ?thesis using argText_literal [OF assms(3) ts(2) assms(6)] by auto
qed

theorem interpolated_argument_reads_back_witness:
  "let C = \<lparr>ic_fmtFloat = \<lambda>_. [], ic_loc = 0, ic_noBackslash = False, ic_maxAllowedPacket = 100\<rparr>;
       arg = bytes_of [CHR 0x27, CHR '' '', CHR ''O'', CHR ''R'', CHR '' '', CHR 0x5c];
       s = bytes_of ''a = '' @ [0x27, 0x5c, 0x27] @ bytes_of '' OR '' @ [0x5c, 0x5c, 0x27] @ bytes_of '' x''
   in \<exists>pre. s = pre @ quoted False arg @ bytes_of '' x'' \<and> pre = bytes_of ''a = ''
      \<and> readLiteral False (drop (length pre + 1) s) = Some (arg, bytes_of '' x'')"
proof -
  let ?C = "\<lparr>ic_fmtFloat = \<lambda>_. [], ic_loc = 0, ic_noBackslash = False, ic_maxAllowedPacket = 100\<rparr>"
  let ?arg = "bytes_of [CHR 0x27, CHR '' '', CHR ''O'', CHR ''R'', CHR '' '', CHR 0x5c]"
  let ?s = "bytes_of ''a = '' @ [0x27, 0x5c, 0x27] @ bytes_of '' OR '' @ [0x5c, 0x5c, 0x27] @ bytes_of '' x''"
  have run: "interpolateParams ?C (Ok [0, 0]) (bytes_of ''a = ? x'') [AString ?arg] = Ok ?s"
    by code_simp
  have p: "pieces (bytes_of ''a = ? x'') = [bytes_of ''a = '', bytes_of '' x'']" by code_simp
  show ?thesis unfolding Let_def
    using interpolated_argument_reads_back [OF run, of 0 1 ?arg "[quoted False ?arg]" "bytes_of '' x''"]
    by (simp add: p bindR.simps bytes_of_def byte_of_def)
qed

text \<open>
  C29: Interpolation only replaces placeholders: on success there is exactly one argument for each, and
  the result is the pieces of the query with the texts in their order. It never gives up for a
  wrong count after it has started, so the last check of the function never fails.
\<close>

theorem interpolation_replaces_placeholders:
  "if countByte query 0x3f \<noteq> length args then interpolateParams C takeBuf query args = Fail ErrSkip
   else (\<forall>s. interpolateParams C takeBuf query args = Ok s \<longrightarrow>
           (\<exists>ts. argTexts C args = Ok ts \<and> length ts = length args \<and> s = merge (pieces query) ts))
     \<and> (\<forall>spare buf sp n. interpLoop C args query 0 ([], spare) = Ok ((buf, sp), n) \<longrightarrow> n = length args)"
proof (cases "countByte query 0x3f = length args")
  case True
  have "\<exists>ts. argTexts C args = Ok ts \<and> length ts = length args \<and> s = merge (pieces query) ts"
    if "interpolateParams C takeBuf query args = Ok s" for s
    using interpolate_Ok [OF that] argTexts_Ok by blast
  moreover have "n = length args" if "interpLoop C args query 0 ([], spare) = Ok ((buf, sp), n)"
    for spare buf sp n
    using interpLoop_merge [OF that] True by simp
  ultimately show ?thesis using True by simp
qed (simp add: interpolateParams_def)

theorem interpolation_replaces_placeholders_witness:
  "let C = \<lparr>ic_fmtFloat = \<lambda>_. [], ic_loc = 0, ic_noBackslash = True, ic_maxAllowedPacket = 100\<rparr>;
       query = bytes_of ''a=?,b=?''
   in \<exists>ts. argTexts C [AInt64 (-7), ANull] = Ok ts \<and> length ts = 2
      \<and> bytes_of ''a=-7,b=NULL'' = merge (pieces query) ts"
proof -
  let ?C = "\<lparr>ic_fmtFloat = \<lambda>_. [], ic_loc = 0, ic_noBackslash = True, ic_maxAllowedPacket = 100\<rparr>"
  have "interpolateParams ?C (Ok []) (bytes_of ''a=?,b=?'') [AInt64 (-7), ANull] = Ok (bytes_of ''a=-7,b=NULL'')"
    by code_simp
  moreover have "countByte (bytes_of ''a=?,b=?'') 0x3f = 2" by code_simp
  ultimately show ?thesis
    using interpolation_replaces_placeholders [of "bytes_of ''a=?,b=?''" "[AInt64 (-7), ANull]" ?C "Ok []"]
    by (simp add: Let_def)
qed

end
