(* ===== verification/MysqlConfig.thy ===== *)
theory MysqlConfig
  imports Prelude
begin

text \<open>
  The configuration of a connection, \<open>Config\<close> of \<open>mysql/dsn.go\<close>. A location is its name and its
  offset from UTC in seconds; an RSA key and the part of a TLS configuration that the driver does
  not look into are numbers; durations are nanoseconds. The map of further parameters is an
  association list with distinct keys.
\<close>

type_synonym location = "string \<times> int"

definition UTC :: location where
  "UTC = (''UTC'', 0)"

record tlsConfig =
  tls_ServerName :: string
  tls_InsecureSkipVerify :: bool
  tls_other :: nat

record Config =
  cfg_User :: string
  cfg_Passwd :: string
  cfg_Net :: string
  cfg_Addr :: string
  cfg_DBName :: string
  cfg_Params :: "(string \<times> string) list"
  cfg_Collation :: string
  cfg_Loc :: "location option"
  cfg_MaxAllowedPacket :: int
  cfg_ServerPubKey :: string
  cfg_pubKey :: "nat option"
  cfg_TLSConfig :: string
  cfg_tls :: "tlsConfig option"
  cfg_Timeout :: int
  cfg_ReadTimeout :: int
  cfg_WriteTimeout :: int
  cfg_AllowAllFiles :: bool
  cfg_AllowCleartextPasswords :: bool
  cfg_AllowNativePasswords :: bool
  cfg_AllowOldPasswords :: bool
  cfg_CheckConnLiveness :: bool
  cfg_ClientFoundRows :: bool
  cfg_ColumnsWithAlias :: bool
  cfg_InterpolateParams :: bool
  cfg_MultiStatements :: bool
  cfg_ParseTime :: bool
  cfg_RejectReadOnly :: bool

definition defaultCollation :: string where
  "defaultCollation = ''utf8mb4_general_ci''"

definition defaultMaxAllowedPacket :: int where
  "defaultMaxAllowedPacket = 4 * 2 ^ 20"

definition NewConfig :: Config where
  "NewConfig = \<lparr>cfg_User = [], cfg_Passwd = [], cfg_Net = [], cfg_Addr = [], cfg_DBName = [],
     cfg_Params = [], cfg_Collation = defaultCollation, cfg_Loc = Some UTC,
     cfg_MaxAllowedPacket = defaultMaxAllowedPacket, cfg_ServerPubKey = [], cfg_pubKey = None,
     cfg_TLSConfig = [], cfg_tls = None, cfg_Timeout = 0, cfg_ReadTimeout = 0, cfg_WriteTimeout = 0,
     cfg_AllowAllFiles = False, cfg_AllowCleartextPasswords = False, cfg_AllowNativePasswords = True,
     cfg_AllowOldPasswords = False, cfg_CheckConnLiveness = True, cfg_ClientFoundRows = False,
     cfg_ColumnsWithAlias = False, cfg_InterpolateParams = False, cfg_MultiStatements = False,
     cfg_ParseTime = False, cfg_RejectReadOnly = False\<rparr>"

text \<open>\<open>Clone\<close> copies the structure deeply; on values that is the identity.\<close>

definition Config_Clone :: "Config \<Rightarrow> Config" where
  "Config_Clone cfg = cfg\<lparr>cfg_tls := map_option id (cfg_tls cfg), cfg_Params := map id (cfg_Params cfg),
     cfg_pubKey := map_option id (cfg_pubKey cfg)\<rparr>"

text \<open>
  The offset the time codecs work with. A nil location makes the calls of package \<open>time\<close> panic;
  \<open>ParseDSN\<close> and \<open>NewConfig\<close> always set one.
\<close>

definition locOff :: "Config \<Rightarrow> int" where
  "locOff cfg = (case cfg_Loc cfg of Some l \<Rightarrow> snd l | None \<Rightarrow> 0)"

end
