(* ===== verification/MysqlBuffer.thy ===== *)
theory MysqlBuffer
  imports SqlEscape
begin

text \<open>
  The read and write buffer of a connection, \<open>mysql/buffer.go\<close>. The two byte slices of the double
  buffering share their arrays with the slices handed to callers, so arrays have identities here: a
  slice is the number of its array, an offset and a length. The network is the sequence of answers
  its calls give.
\<close>

section \<open>The network\<close>

text \<open>
  \<open>n_in\<close>: what \<open>Read\<close> returns in turn (bytes and an error value); a chunk larger than the room the
  caller offers is delivered in parts, and after the last one comes the end of the stream.
  \<open>n_wres\<close>: the answers of \<open>Write\<close> that are not complete writes, in turn. \<open>n_readDl\<close>, \<open>n_writeDl\<close>:
  answers of the deadline setters (nil when the list is used up). \<open>n_out\<close>: the bytes written.
\<close>

record net =
  n_in :: "(byte list \<times> gerr option) list"
  n_wres :: "(nat \<times> gerr option) option list"
  n_readDl :: "gerr option list"
  n_writeDl :: "gerr option list"
  n_check :: "gerr option"
  n_out :: "byte list"
  n_closed :: bool

definition errNetClosed :: gerr where
  "errNetClosed = ErrMsg ''use of closed network connection''"

fun netRead :: "nat \<Rightarrow> net \<Rightarrow> (byte list \<times> gerr option) \<times> net" where
  "netRead room c =
     (if n_closed c then (([], Some errNetClosed), c)
      else if room = 0 then (([], None), c)
      else case n_in c of
        [] \<Rightarrow> (([], Some ErrEOF), c)
      | (bs, e) # rest \<Rightarrow>
          if length bs \<le> room then ((bs, e), c\<lparr>n_in := rest\<rparr>)
          else ((take room bs, None), c\<lparr>n_in := (drop room bs, e) # rest\<rparr>))"

declare netRead.simps [simp del]

definition setReadDeadline :: "net \<Rightarrow> gerr option \<times> net" where
  "setReadDeadline c = (case n_readDl c of [] \<Rightarrow> (None, c) | e # es \<Rightarrow> (e, c\<lparr>n_readDl := es\<rparr>))"

definition setWriteDeadline :: "net \<Rightarrow> gerr option \<times> net" where
  "setWriteDeadline c = (case n_writeDl c of [] \<Rightarrow> (None, c) | e # es \<Rightarrow> (e, c\<lparr>n_writeDl := es\<rparr>))"

text \<open>A write that is cut short or fails has put the bytes it reports on the wire.\<close>

definition netWrite :: "byte list \<Rightarrow> net \<Rightarrow> (nat \<times> gerr option) \<times> net" where
  "netWrite data c =
     (if n_closed c then ((0, Some errNetClosed), c)
      else case n_wres c of
        [] \<Rightarrow> ((length data, None), c\<lparr>n_out := n_out c @ data\<rparr>)
      | None # rs \<Rightarrow> ((length data, None), c\<lparr>n_out := n_out c @ data, n_wres := rs\<rparr>)
      | Some (k, e) # rs \<Rightarrow>
          ((min k (length data), e), c\<lparr>n_out := n_out c @ take k data, n_wres := rs\<rparr>))"

definition pending :: "net \<Rightarrow> nat" where
  "pending c = sum_list (map (\<lambda>(bs, _). Suc (length bs)) (n_in c))"

lemma netRead_pending:
  "netRead room c = ((bs, None), c') \<Longrightarrow> room \<noteq> 0 \<Longrightarrow> pending c' < pending c"
  by (auto simp: netRead.simps pending_def split: if_splits list.splits)

lemma netRead_room: "netRead room c = ((bs, e), c') \<Longrightarrow> length bs \<le> room"
  by (auto simp: netRead.simps split: if_splits list.splits)

lemma setReadDeadline_keeps: "setReadDeadline c = (e, c') \<Longrightarrow> pending c' = pending c \<and> n_in c' = n_in c"
  by (auto simp: setReadDeadline_def pending_def split: list.splits)

section \<open>The buffer\<close>

definition defaultBufSize :: nat where "defaultBufSize = 4096"
definition maxCachedBufSize :: nat where "maxCachedBufSize = 256 * 1024"
definition maxPacketSize :: nat where "maxPacketSize = 2 ^ 24 - 1"

record buffer =
  b_arrs :: "byte list list"
  b_buf :: nat
  b_nc :: net
  b_idx :: nat
  b_length :: nat
  b_timeout :: int
  b_dbuf :: "nat \<times> nat"
  b_flipcnt :: u64

type_synonym bslice = "nat \<times> nat \<times> nat"

definition arr :: "buffer \<Rightarrow> nat \<Rightarrow> byte list" where
  "arr b a = b_arrs b ! a"

definition bytesAt :: "buffer \<Rightarrow> bslice \<Rightarrow> byte list" where
  "bytesAt b = (\<lambda>(a, off, len). take len (drop off (arr b a)))"

text \<open>Array 1 is the nil slice that stands for the second buffer before it is first used.\<close>

definition newBuffer :: "net \<Rightarrow> buffer" where
  "newBuffer nc = \<lparr>b_arrs = [replicate defaultBufSize 0, []], b_buf = 0, b_nc = nc, b_idx = 0,
     b_length = 0, b_timeout = 0, b_dbuf = (0, 1), b_flipcnt = 0\<rparr>"

definition flip :: "buffer \<Rightarrow> buffer" where
  "flip b = b\<lparr>b_flipcnt := b_flipcnt b + 1\<rparr>"

definition makeArr :: "byte list \<Rightarrow> buffer \<Rightarrow> nat \<times> buffer" where
  "makeArr xs b = (length (b_arrs b), b\<lparr>b_arrs := b_arrs b @ [xs]\<rparr>)"

definition setArr :: "nat \<Rightarrow> byte list \<Rightarrow> buffer \<Rightarrow> buffer" where
  "setArr a xs b = b\<lparr>b_arrs := (b_arrs b)[a := xs]\<rparr>"

definition dbufAt :: "buffer \<Rightarrow> nat" where
  "dbufAt b = (if bit (b_flipcnt b) 0 then snd (b_dbuf b) else fst (b_dbuf b))"

definition setDbuf :: "nat \<Rightarrow> buffer \<Rightarrow> buffer" where
  "setDbuf a b = (if bit (b_flipcnt b) 0 then b\<lparr>b_dbuf := (fst (b_dbuf b), a)\<rparr>
     else b\<lparr>b_dbuf := (a, snd (b_dbuf b))\<rparr>)"

text \<open>
  The loop of \<open>fill\<close>. When the buffer has no room for what is still needed the read returns no
  bytes and no error for ever: the loop makes no progress.
\<close>

definition armRead :: "buffer \<Rightarrow> gerr option \<times> buffer" where
  "armRead b = (if b_timeout b > 0
     then (case setReadDeadline (b_nc b) of (e, c) \<Rightarrow> (e, b\<lparr>b_nc := c\<rparr>)) else (None, b))"

definition readInto :: "nat \<Rightarrow> buffer \<Rightarrow> (nat \<times> gerr option) \<times> buffer" where
  "readInto n b =
     (case netRead (length (arr b (b_buf b)) - n) (b_nc b) of ((bs, e), c) \<Rightarrow>
        ((length bs, e), setArr (b_buf b) (copy_at (arr b (b_buf b)) n bs) (b\<lparr>b_nc := c\<rparr>)))"

function fillLoop :: "nat \<Rightarrow> nat \<Rightarrow> buffer \<Rightarrow> unit res \<times> buffer" where
  "fillLoop need n b =
     (case armRead b of
        (Some e, b) \<Rightarrow> (Fail e, b)
      | (None, b) \<Rightarrow>
          (case readInto n b of ((nn, err), b') \<Rightarrow>
             (case err of
                None \<Rightarrow>
                  if n + nn < need
                  then if length (arr b (b_buf b)) \<le> n then (Crash Deadlock, b')
                       else fillLoop need (n + nn) b'
                  else (Ok (), b'\<lparr>b_length := n + nn\<rparr>)
              | Some e \<Rightarrow>
                  if e = ErrEOF then
                    if n + nn \<ge> need then (Ok (), b'\<lparr>b_length := n + nn\<rparr>)
                    else (Fail ErrUnexpectedEOF, b')
                  else (Fail e, b'))))"
  by pat_completeness auto

termination
proof (relation "measure (\<lambda>(need, n, b). pending (b_nc b))", goal_cases)
  case (2 need n b e b1 r b' nn err)
  have "pending (b_nc b1) = pending (b_nc b)"
    using 2(1,2) setReadDeadline_keeps [of "b_nc b"]
    by (auto simp: armRead_def split: if_splits prod.splits)
  moreover have "pending (b_nc b') < pending (b_nc b1)"
    using 2 netRead_pending [of "length (arr b1 (b_buf b1)) - n" "b_nc b1"]
    by (auto simp: readInto_def setArr_def split: prod.splits)
  ultimately show ?case by simp
qed simp

declare fillLoop.simps [simp del]

definition growDest :: "nat \<Rightarrow> buffer \<Rightarrow> nat \<times> buffer" where
  "growDest need b =
     (let dest = dbufAt b
      in if need > length (arr b dest) then
           let size = (need div defaultBufSize + 1) * defaultBufSize;
               (dest, b) = makeArr (replicate size 0) b
           in (dest, if size \<le> maxCachedBufSize then setDbuf dest b else b)
         else (dest, b))"

definition moveUnread :: "nat \<Rightarrow> buffer \<Rightarrow> buffer res" where
  "moveUnread dest b =
     (if b_length b > 0 then
        if b_length b \<le> length (arr b dest)
        then Ok (setArr dest (copy_at (arr b dest) 0
                   (take (b_length b) (drop (b_idx b) (arr b (b_buf b))))) b)
        else Crash IndexOutOfRange
      else Ok b)"

definition fill :: "nat \<Rightarrow> (buffer, unit) act" where
  "fill need = (\<lambda>b.
     (case growDest need b of (dest, b1) \<Rightarrow>
        (case moveUnread dest b1 of
           Ok b2 \<Rightarrow> fillLoop need (b_length b2) (b2\<lparr>b_buf := dest, b_idx := 0\<rparr>)
         | Fail e \<Rightarrow> (Fail e, b1)
         | Crash h \<Rightarrow> (Crash h, b1))))"

definition cutBuf :: "nat \<Rightarrow> nat \<Rightarrow> (buffer, bslice) act" where
  "cutBuf off len = (\<lambda>b.
     if off + len \<le> length (arr b (b_buf b)) then (Ok (b_buf b, off, len), b)
     else (Crash IndexOutOfRange, b))"

definition readNext :: "nat \<Rightarrow> (buffer, bslice) act" where
  "readNext need =
     thenA (getA b_length) (\<lambda>n.
     seqA (if n < need then fill need else ret ())
    (thenA (getA b_idx) (\<lambda>offset.
     seqA (modA (\<lambda>b. b\<lparr>b_idx := b_idx b + need, b_length := b_length b - need\<rparr>))
    (cutBuf offset need))))"

definition takeBuffer :: "nat \<Rightarrow> (buffer, bslice) act" where
  "takeBuffer len = (\<lambda>b.
     if b_length b > 0 then (Fail ErrBusyBuffer, b)
     else if len \<le> length (arr b (b_buf b)) then (Ok (b_buf b, 0, len), b)
     else case makeArr (replicate len 0) b of (a, b) \<Rightarrow>
       (Ok (a, 0, len), if len < maxPacketSize then b\<lparr>b_buf := a\<rparr> else b))"

definition takeSmallBuffer :: "nat \<Rightarrow> (buffer, bslice) act" where
  "takeSmallBuffer len = (\<lambda>b. if b_length b > 0 then (Fail ErrBusyBuffer, b) else cutBuf 0 len b)"

definition takeCompleteBuffer :: "(buffer, bslice) act" where
  "takeCompleteBuffer = (\<lambda>b.
     if b_length b > 0 then (Fail ErrBusyBuffer, b) else (Ok (b_buf b, 0, length (arr b (b_buf b))), b))"

definition storeBuf :: "slice \<Rightarrow> (buffer, unit) act" where
  "storeBuf = (\<lambda>(buf, spare) b.
     let c = length buf + length spare
     in if b_length b > 0 then (Fail ErrBusyBuffer, b)
        else if c \<le> maxPacketSize \<and> c > length (arr b (b_buf b))
        then case makeArr (buf @ spare) b of (a, b) \<Rightarrow> (Ok (), b\<lparr>b_buf := a\<rparr>)
        else (Ok (), b))"

end
