(* ===== verification/BufferFacts.thy ===== *)
theory BufferFacts
  imports MysqlBuffer
begin

text \<open>
  The buffer refines a stream: \<open>unread\<close> is what is left of the bytes the peer has sent, buffered or
  not, and \<open>readNext\<close> takes them from the front, however the network cuts them into chunks and
  wherever the buffer keeps them.
\<close>

section \<open>The invariant\<close>

definition wf_buffer :: "buffer \<Rightarrow> bool" where
  "wf_buffer b \<longleftrightarrow> b_buf b < length (b_arrs b) \<and> fst (b_dbuf b) < length (b_arrs b)
     \<and> snd (b_dbuf b) < length (b_arrs b) \<and> b_idx b + b_length b \<le> length (arr b (b_buf b))"

definition buffered :: "buffer \<Rightarrow> byte list" where
  "buffered b = take (b_length b) (drop (b_idx b) (arr b (b_buf b)))"

definition incoming :: "net \<Rightarrow> byte list" where
  "incoming c = concat (map fst (n_in c))"

definition unread :: "buffer \<Rightarrow> byte list" where
  "unread b = buffered b @ incoming (b_nc b)"

text \<open>A network that does not fail by itself: its stream ends, but no call gives another error.\<close>

definition healthy :: "net \<Rightarrow> bool" where
  "healthy c \<longleftrightarrow> \<not> n_closed c \<and> list_all (\<lambda>(bs, e). e = None) (n_in c) \<and> list_all (\<lambda>e. e = None) (n_readDl c)"

lemma length_buffered: "wf_buffer b \<Longrightarrow> length (buffered b) = b_length b"
  by (auto simp: wf_buffer_def buffered_def)

lemma newBuffer_wf: "wf_buffer (newBuffer nc)"
  by (simp add: wf_buffer_def newBuffer_def arr_def)

lemma newBuffer_unread: "unread (newBuffer nc) = incoming nc"
  by (simp add: unread_def newBuffer_def buffered_def)

section \<open>One read from the network\<close>

lemma netRead_stream:
  assumes "netRead room c = ((bs, e), c')"
  shows "bs @ incoming c' = incoming c"
  using assms by (auto simp: netRead.simps incoming_def split: if_splits list.splits)

lemma netRead_healthy:
  assumes "netRead room c = ((bs, e), c')" and "healthy c" and "0 < room"
  shows "healthy c' \<and> e = (if n_in c = [] then Some ErrEOF else None)"
  using assms by (auto simp: netRead.simps healthy_def split: if_splits list.splits)

lemma setReadDeadline_healthy:
  "setReadDeadline c = (e, c') \<Longrightarrow> healthy c \<Longrightarrow> healthy c' \<and> e = None"
  by (auto simp: setReadDeadline_def healthy_def split: list.splits)

lemma armRead_fields:
  assumes "armRead b = (e, b')"
  shows "b_arrs b' = b_arrs b" "b_buf b' = b_buf b" "b_idx b' = b_idx b" "b_length b' = b_length b"
    "b_dbuf b' = b_dbuf b" "b_flipcnt b' = b_flipcnt b" "n_in (b_nc b') = n_in (b_nc b)"
    "n_closed (b_nc b') = n_closed (b_nc b)" "arr b' = arr b"
  using assms
  by (auto simp: armRead_def setReadDeadline_def arr_def fun_eq_iff split: if_splits prod.splits list.splits)

lemma armRead_healthy: "armRead b = (e, b') \<Longrightarrow> healthy (b_nc b) \<Longrightarrow> healthy (b_nc b') \<and> e = None"
  using setReadDeadline_healthy [of "b_nc b"]
  by (auto simp: armRead_def split: if_splits prod.splits)

lemma arr_setArr [simp]:
  "a < length (b_arrs b) \<Longrightarrow> arr (setArr a xs b) c = (if c = a then xs else arr b c)"
  by (simp add: arr_def setArr_def)

lemma setArr_fields [simp]:
  "b_buf (setArr a xs b) = b_buf b" "b_idx (setArr a xs b) = b_idx b"
  "b_length (setArr a xs b) = b_length b" "b_nc (setArr a xs b) = b_nc b"
  "b_dbuf (setArr a xs b) = b_dbuf b" "b_flipcnt (setArr a xs b) = b_flipcnt b"
  "length (b_arrs (setArr a xs b)) = length (b_arrs b)"
  by (simp_all add: setArr_def)

section \<open>The fill loop\<close>

text \<open>What a read may change: the array that is filled, and the network.\<close>

definition fills :: "buffer \<Rightarrow> buffer \<Rightarrow> bool" where
  "fills b b' \<longleftrightarrow> b_buf b' = b_buf b \<and> b_idx b' = b_idx b \<and> b_dbuf b' = b_dbuf b
     \<and> b_flipcnt b' = b_flipcnt b \<and> length (b_arrs b') = length (b_arrs b)
     \<and> (\<forall>a. a \<noteq> b_buf b \<longrightarrow> arr b' a = arr b a)
     \<and> length (arr b' (b_buf b)) = length (arr b (b_buf b))"

lemma fills_refl: "fills b b"
  by (simp add: fills_def)

lemma fills_trans: "fills b b' \<Longrightarrow> fills b' b'' \<Longrightarrow> fills b b''"
  by (simp add: fills_def)

lemma fills_length: "fills b (b'\<lparr>b_length := n\<rparr>) = fills b b'"
  by (simp add: fills_def arr_def)

lemma armRead_fills: "armRead b = (e, b') \<Longrightarrow> fills b b'"
  using armRead_fields by (simp add: fills_def)

lemma take_copy_at:
  assumes "n + length bs \<le> length xs"
  shows "take (n + length bs) (copy_at xs n bs) = take n xs @ bs"
  using assms by (simp add: copy_at_fits)

lemma readInto_spec:
  assumes "readInto n b = ((nn, err), b')" and "b_buf b < length (b_arrs b)"
    and n: "n \<le> length (arr b (b_buf b))"
  shows "fills b b'" and "n + nn \<le> length (arr b (b_buf b))"
    and "take (n + nn) (arr b' (b_buf b)) @ incoming (b_nc b') = take n (arr b (b_buf b)) @ incoming (b_nc b)"
    and "b_length b' = b_length b"
proof -
  let ?xs = "arr b (b_buf b)"
  obtain bs c where rd: "netRead (length ?xs - n) (b_nc b) = ((bs, err), c)" and nn: "nn = length bs"
    and b': "b' = setArr (b_buf b) (copy_at ?xs n bs) (b\<lparr>b_nc := c\<rparr>)"
    using assms(1) by (auto simp: readInto_def split: prod.splits)
  have fit: "n + length bs \<le> length ?xs" using netRead_room [OF rd] n by simp
  have arr': "arr b' a = (if a = b_buf b then copy_at ?xs n bs else arr b a)" for a
    unfolding b' using assms(2) by (subst arr_setArr) (auto simp: arr_def)
  show "fills b b'" using fit by (simp add: fills_def arr') (simp add: b')
  show "n + nn \<le> length ?xs" using fit nn by simp
  show "take (n + nn) (arr b' (b_buf b)) @ incoming (b_nc b') = take n ?xs @ incoming (b_nc b)"
    using netRead_stream [OF rd] take_copy_at [OF fit] by (simp add: arr' nn) (simp add: b')
  show "b_length b' = b_length b" by (simp add: b')
qed

lemma fillLoop_spec:
  assumes "fillLoop need n b = (r, b')" and "b_buf b < length (b_arrs b)"
    and "n \<le> length (arr b (b_buf b))"
  shows "fills b b'
    \<and> (r = Ok () \<longrightarrow> need \<le> b_length b' \<and> b_length b' \<le> length (arr b' (b_buf b))
         \<and> take (b_length b') (arr b' (b_buf b)) @ incoming (b_nc b') = take n (arr b (b_buf b)) @ incoming (b_nc b))
    \<and> (need \<le> length (arr b (b_buf b)) \<longrightarrow> (\<forall>h. r \<noteq> Crash h))"
  using assms
proof (induction need n b arbitrary: r b' rule: fillLoop.induct)
  case (1 need n b)
  obtain e b1 where a: "armRead b = (e, b1)" by (cases "armRead b")
  note af = armRead_fields [OF a] and fl1 = armRead_fills [OF a]
  show ?case
  proof (cases e)
    case (Some x)
    then show ?thesis using 1(2) a fl1 by (auto simp: fillLoop.simps [of need n b])
  next
    case None
    obtain nn err b2 where r: "readInto n b1 = ((nn, err), b2)" by (cases "readInto n b1") auto
    have buf: "b_buf b1 < length (b_arrs b1)" "n \<le> length (arr b1 (b_buf b1))" using 1(3,4) af by simp_all
    note rs = readInto_spec [OF r buf]
    have fl2: "fills b b2" using fl1 rs(1) by (rule fills_trans)
    have eq: "take (n + nn) (arr b2 (b_buf b)) @ incoming (b_nc b2) = take n (arr b (b_buf b)) @ incoming (b_nc b)"
      using rs(3) af by (simp add: incoming_def)
    have len: "n + nn \<le> length (arr b (b_buf b))" "length (arr b2 (b_buf b)) = length (arr b (b_buf b))"
      using rs(2) fl2 af by (simp_all add: fills_def)
    show ?thesis
    proof (cases "err = None \<and> n + nn < need \<and> \<not> length (arr b1 (b_buf b1)) \<le> n")
      case True
      then have t: "err = None" "n + nn < need" "\<not> length (arr b1 (b_buf b1)) \<le> n" by auto
      have loop: "fillLoop need (n + nn) b2 = (r, b')"
        using 1(2) a None r True by (simp add: fillLoop.simps [of need n b])
      have b2: "b_buf b2 < length (b_arrs b2)" "n + nn \<le> length (arr b2 (b_buf b2))" "b_buf b2 = b_buf b"
        using fl2 1(3) len by (simp_all add: fills_def)
      show ?thesis
        using 1(1) [OF a [symmetric] None r [symmetric] refl t loop b2(1,2)] b2(3) fl2 eq len
        by (auto intro: fills_trans)
    next
      case False
      then show ?thesis using 1(2) a None r fl2 eq len af
        by (auto simp: fillLoop.simps [of need n b] fills_length arr_def [of "b2\<lparr>b_length := _\<rparr>"]
            arr_def [of b2] split: option.splits if_splits)
    qed
  qed
qed

lemma fillLoop_total:
  assumes "fillLoop need n b = (r, b')" and "b_buf b < length (b_arrs b)"
    and "n \<le> length (arr b (b_buf b))" and "need \<le> length (arr b (b_buf b))" and "n < need"
    and "healthy (b_nc b)" and "need \<le> n + length (incoming (b_nc b))"
  shows "r = Ok () \<and> healthy (b_nc b')"
  using assms
proof (induction need n b arbitrary: r b' rule: fillLoop.induct)
  case (1 need n b)
  obtain e b1 where a: "armRead b = (e, b1)" by (cases "armRead b")
  note af = armRead_fields [OF a] and ah = armRead_healthy [OF a 1(7)]
  then have None: "e = None" by simp
  obtain nn err b2 where r: "readInto n b1 = ((nn, err), b2)" by (cases "readInto n b1") auto
  have buf: "b_buf b1 < length (b_arrs b1)" "n \<le> length (arr b1 (b_buf b1))" using 1(3,4) af by simp_all
  note rs = readInto_spec [OF r buf]
  have fl2: "fills b b2" using armRead_fills [OF a] rs(1) by (rule fills_trans)
  obtain bs c where rd: "netRead (length (arr b (b_buf b)) - n) (b_nc b1) = ((bs, err), c)" and nn: "nn = length bs"
    and c: "b_nc b2 = c"
    using r af by (auto simp: readInto_def split: prod.splits)
  have hc: "healthy c" "err = (if n_in (b_nc b) = [] then Some ErrEOF else None)"
    using netRead_healthy [OF rd conjunct1 [OF ah]] 1(5,6) af by auto
  have left: "length bs + length (incoming c) = length (incoming (b_nc b))"
    using netRead_stream [OF rd] af by (metis incoming_def length_append)
  show ?case
  proof (cases "n_in (b_nc b) = []")
    case True
    then have "need \<le> n" using 1(8) by (simp add: incoming_def)
    with 1(6) show ?thesis by simp
  next
    case False
    then have t: "err = None" using hc by simp
    show ?thesis
    proof (cases "n + nn < need")
      case True
      have t2: "\<not> length (arr b1 (b_buf b1)) \<le> n" using 1(5,6) af by simp
      have loop: "fillLoop need (n + nn) b2 = (r, b')"
        using 1(2) a None r t True t2 by (simp add: fillLoop.simps [of need n b])
      have "b_buf b2 < length (b_arrs b2)" "n + nn \<le> length (arr b2 (b_buf b2))"
        "need \<le> length (arr b2 (b_buf b2))" "healthy (b_nc b2)"
        "need \<le> n + nn + length (incoming (b_nc b2))"
        using fl2 1(3,5,8) rs(2) af hc(1) c left nn by (simp_all add: fills_def)
      then show ?thesis
        using 1(1) [OF a [symmetric] None r [symmetric] refl t True t2 loop] True by blast
    next
      case False
      then show ?thesis using 1(2) a None r t hc c by (auto simp: fillLoop.simps [of need n b])
    qed
  qed
qed

section \<open>fill and readNext\<close>

lemma growDest_spec:
  assumes "growDest need b = (dest, b1)" and "wf_buffer b"
  shows "need \<le> length (arr b1 dest)" "dest < length (b_arrs b1)" "wf_buffer b1"
    "b_length b1 = b_length b" "b_idx b1 = b_idx b" "b_buf b1 = b_buf b" "b_nc b1 = b_nc b"
    "b_flipcnt b1 = b_flipcnt b" "\<And>a. a < length (b_arrs b) \<Longrightarrow> arr b1 a = arr b a"
    "dest = dbufAt b \<or> dest = length (b_arrs b)" "length (b_arrs b) \<le> length (b_arrs b1)"
    "bit (b_flipcnt b) 0 \<Longrightarrow> fst (b_dbuf b1) = fst (b_dbuf b)"
    "\<not> bit (b_flipcnt b) 0 \<Longrightarrow> snd (b_dbuf b1) = snd (b_dbuf b)"
proof -
  have "need \<le> (need div defaultBufSize + 1) * defaultBufSize"
    using div_mult_mod_eq [of need defaultBufSize] mod_less_divisor [of defaultBufSize need]
    by (simp add: defaultBufSize_def algebra_simps)
  note size = this
  show "need \<le> length (arr b1 dest)" using assms size
    by (auto simp: growDest_def Let_def makeArr_def arr_def setDbuf_def split: if_splits)
  show "dest < length (b_arrs b1)" "wf_buffer b1"
    "b_length b1 = b_length b" "b_idx b1 = b_idx b" "b_buf b1 = b_buf b" "b_nc b1 = b_nc b"
    "b_flipcnt b1 = b_flipcnt b" "\<And>a. a < length (b_arrs b) \<Longrightarrow> arr b1 a = arr b a"
    "dest = dbufAt b \<or> dest = length (b_arrs b)" "length (b_arrs b) \<le> length (b_arrs b1)"
    "bit (b_flipcnt b) 0 \<Longrightarrow> fst (b_dbuf b1) = fst (b_dbuf b)"
    "\<not> bit (b_flipcnt b) 0 \<Longrightarrow> snd (b_dbuf b1) = snd (b_dbuf b)"
    using assms
    by (auto simp: growDest_def Let_def makeArr_def arr_def setDbuf_def dbufAt_def wf_buffer_def nth_append
        split: if_splits)
qed

lemma moveUnread_spec:
  assumes "wf_buffer b" and "dest < length (b_arrs b)" and "b_length b \<le> length (arr b dest)"
  shows "\<exists>b2. moveUnread dest b = Ok b2 \<and> take (b_length b) (arr b2 dest) = buffered b
    \<and> length (arr b2 dest) = length (arr b dest) \<and> (\<forall>a. a \<noteq> dest \<longrightarrow> arr b2 a = arr b a)
    \<and> length (b_arrs b2) = length (b_arrs b) \<and> b_length b2 = b_length b \<and> b_nc b2 = b_nc b
    \<and> b_dbuf b2 = b_dbuf b \<and> b_flipcnt b2 = b_flipcnt b"
proof (cases "b_length b > 0")
  case True
  have len: "length (buffered b) = b_length b" using assms(1) by (rule length_buffered)
  have "take (b_length b) (copy_at (arr b dest) 0 (buffered b)) = buffered b"
    using take_copy_at [of 0 "buffered b" "arr b dest"] len assms(3) by simp
  with True show ?thesis using assms len
    by (auto simp: moveUnread_def buffered_def [symmetric])
next
  case False
  then show ?thesis by (simp add: moveUnread_def buffered_def)
qed

text \<open>The array a later \<open>fill\<close> would use after a \<open>flip\<close>: a fill never touches it.\<close>

definition otherDbuf :: "buffer \<Rightarrow> nat" where
  "otherDbuf b = (if bit (b_flipcnt b) 0 then fst (b_dbuf b) else snd (b_dbuf b))"

lemma fill_spec:
  assumes "fill need b = (r, b')" and w: "wf_buffer b" and "b_length b < need"
  shows "(r = Ok () \<longrightarrow> wf_buffer b' \<and> need \<le> b_length b' \<and> unread b' = unread b)
    \<and> (\<forall>h. r \<noteq> Crash h)
    \<and> (healthy (b_nc b) \<and> need \<le> length (unread b) \<longrightarrow> r = Ok () \<and> healthy (b_nc b'))
    \<and> b_flipcnt b' = b_flipcnt b \<and> otherDbuf b' = otherDbuf b \<and> length (b_arrs b) \<le> length (b_arrs b')
    \<and> (\<forall>a < length (b_arrs b). a \<noteq> dbufAt b \<longrightarrow> arr b' a = arr b a)"
proof -
  obtain dest b1 where g: "growDest need b = (dest, b1)" by (cases "growDest need b")
  note gs = growDest_spec [OF g w]
  have len1: "b_length b1 \<le> length (arr b1 dest)" using gs(1,4) assms(3) by simp
  from moveUnread_spec [OF gs(3,2) len1] obtain b2 where m: "moveUnread dest b1 = Ok b2"
    and ms: "take (b_length b1) (arr b2 dest) = buffered b1" "length (arr b2 dest) = length (arr b1 dest)"
      "\<forall>a. a \<noteq> dest \<longrightarrow> arr b2 a = arr b1 a" "length (b_arrs b2) = length (b_arrs b1)"
      "b_length b2 = b_length b1" "b_nc b2 = b_nc b1" "b_dbuf b2 = b_dbuf b1" "b_flipcnt b2 = b_flipcnt b1"
    by blast
  let ?b = "b2\<lparr>b_buf := dest, b_idx := 0\<rparr>" and ?n = "b_length b"
  have arr2: "arr ?b = arr b2" by (simp add: arr_def fun_eq_iff)
  have loop: "fillLoop need ?n ?b = (r, b')"
    using assms(1) g m gs(4) ms(5) by (simp add: fill_def)
  have n: "b_buf ?b < length (b_arrs ?b)" "?n \<le> length (arr ?b (b_buf ?b))"
    "need \<le> length (arr ?b (b_buf ?b))"
    using gs(1,2,4) ms(2,4) len1 by (simp_all add: arr2)
  note fs = fillLoop_spec [OF loop n(1,2)]
  have front: "take ?n (arr b2 dest) = buffered b"
  proof -
    have "buffered b1 = buffered b" using gs(4-6,9) w by (simp add: buffered_def wf_buffer_def)
    then show ?thesis using ms(1) gs(4) by simp
  qed
  have un: "take ?n (arr ?b (b_buf ?b)) @ incoming (b_nc ?b) = unread b"
    using front gs(7) ms(6) by (simp add: unread_def arr2)
  have fl: "fills ?b b'" using fs by blast
  have "wf_buffer b' \<and> need \<le> b_length b' \<and> unread b' = unread b" if "r = Ok ()"
  proof -
    from fs that have k: "need \<le> b_length b'" "b_length b' \<le> length (arr b' dest)"
      "take (b_length b') (arr b' dest) @ incoming (b_nc b') = unread b" using un by simp_all
    have b': "b_buf b' = dest" "b_idx b' = 0" "b_dbuf b' = b_dbuf b1"
      "length (b_arrs b') = length (b_arrs b1)" using fl ms(4,7) by (simp_all add: fills_def)
    show ?thesis using k b' gs(2,3) by (simp add: wf_buffer_def unread_def buffered_def)
  qed
  moreover have "r = Ok () \<and> healthy (b_nc b')" if "healthy (b_nc b)" "need \<le> length (unread b)"
  proof (rule fillLoop_total [OF loop n assms(3)])
    show "healthy (b_nc ?b)" using that(1) gs(7) ms(6) by simp
    show "need \<le> ?n + length (incoming (b_nc ?b))"
      using that(2) gs(7) ms(6) length_buffered [OF w] by (simp add: unread_def)
  qed
  moreover have "otherDbuf b' = otherDbuf b"
    using fl ms(7,8) gs(8,12,13) by (simp add: otherDbuf_def fills_def)
  moreover have "arr b' a = arr b a" if "a < length (b_arrs b)" "a \<noteq> dbufAt b" for a
  proof -
    have "a \<noteq> dest" using gs(10) that by auto
    then show ?thesis using fl ms(3) gs(9) that(1) by (simp add: fills_def arr2)
  qed
  ultimately show ?thesis using fs n(3) fl ms(4,8) gs(8,11) by (simp add: fills_def)
qed

lemma cut_front:
  assumes "need \<le> b_length b" and "wf_buffer b"
    and "b' = b\<lparr>b_idx := b_idx b + need, b_length := b_length b - need\<rparr>"
  shows "bytesAt b' (b_buf b, b_idx b, need) = take need (unread b)" "unread b' = drop need (unread b)"
    "wf_buffer b'" "b_idx b + need \<le> length (arr b' (b_buf b'))"
proof -
  have len: "length (buffered b) = b_length b" using assms(2) by (rule length_buffered)
  show "bytesAt b' (b_buf b, b_idx b, need) = take need (unread b)"
    using assms(1,3) len by (simp add: bytesAt_def unread_def buffered_def arr_def min_def)
  show "unread b' = drop need (unread b)"
    using assms(1,3) len by (simp add: unread_def buffered_def arr_def drop_take add.commute)
  show "wf_buffer b'" "b_idx b + need \<le> length (arr b' (b_buf b'))"
    using assms by (simp_all add: wf_buffer_def arr_def)
qed

lemma readNext_run:
  "readNext need b = (case (if b_length b < need then fill need b else (Ok (), b)) of
     (Ok _, b1) \<Rightarrow> cutBuf (b_idx b1) need (b1\<lparr>b_idx := b_idx b1 + need, b_length := b_length b1 - need\<rparr>)
   | (Fail e, b1) \<Rightarrow> (Fail e, b1) | (Crash h, b1) \<Rightarrow> (Crash h, b1))"
  by (simp add: readNext_def seqA_apply thenA_def split: prod.splits res.splits)

lemma readNext_spec:
  assumes "readNext need b = (r, b')" and w: "wf_buffer b"
  shows "(\<forall>s. r = Ok s \<longrightarrow> bytesAt b' s = take need (unread b) \<and> unread b' = drop need (unread b)
        \<and> need \<le> length (unread b) \<and> wf_buffer b')
    \<and> (\<forall>h. r \<noteq> Crash h)
    \<and> (healthy (b_nc b) \<and> need \<le> length (unread b) \<longrightarrow> (\<exists>s. r = Ok s) \<and> healthy (b_nc b'))
    \<and> b_flipcnt b' = b_flipcnt b \<and> otherDbuf b' = otherDbuf b \<and> length (b_arrs b) \<le> length (b_arrs b')
    \<and> (\<forall>a < length (b_arrs b). a \<noteq> dbufAt b \<longrightarrow> arr b' a = arr b a)"
proof -
  obtain q b1 where q: "(if b_length b < need then fill need b else (Ok (), b)) = (q, b1)" by fastforce
  have f: "(q = Ok () \<longrightarrow> wf_buffer b1 \<and> need \<le> b_length b1 \<and> unread b1 = unread b)
    \<and> (\<forall>h. q \<noteq> Crash h)
    \<and> (healthy (b_nc b) \<and> need \<le> length (unread b) \<longrightarrow> q = Ok () \<and> healthy (b_nc b1))
    \<and> b_flipcnt b1 = b_flipcnt b \<and> otherDbuf b1 = otherDbuf b \<and> length (b_arrs b) \<le> length (b_arrs b1)
    \<and> (\<forall>a < length (b_arrs b). a \<noteq> dbufAt b \<longrightarrow> arr b1 a = arr b a)"
  proof (cases "b_length b < need")
    case True
    with q fill_spec [OF _ w True] show ?thesis by simp
  next
    case False
    with q w show ?thesis by auto
  qed
  show ?thesis
  proof (cases "q = Ok ()")
    case False
    then have "\<exists>e. q = Fail e" using f by (cases q) auto
    then show ?thesis using assms(1) q f by (auto simp: readNext_run)
  next
    case True
    let ?b = "b1\<lparr>b_idx := b_idx b1 + need, b_length := b_length b1 - need\<rparr>"
    from f True have k: "need \<le> b_length b1" "wf_buffer b1" "unread b1 = unread b" by auto
    note c = cut_front [OF k(1,2) refl]
    have r: "r = Ok (b_buf b1, b_idx b1, need)" "b' = ?b"
      using assms(1) q True c(4) by (simp_all add: readNext_run cutBuf_def split: if_splits)
    have "need \<le> length (unread b1)" using k(1) length_buffered [OF k(2)] by (simp add: unread_def)
    then show ?thesis using r c(1-3) k(3) f True by (auto simp: arr_def otherDbuf_def)
  qed
qed

end
