(* ===== verification/MysqlConn.thy ===== *)
theory MysqlConn
  imports MysqlConfig BufferFacts Interpolate LenEnc
begin

text \<open>
  A connection to a MySQL server: \<open>mysqlConn\<close> and its closing (\<open>mysql/connection.go\<close>), the framing
  of packets and the command packets (\<open>mysql/packets.go\<close> lines 26 to 178 and 402 to 487). With TLS
  the raw and the encrypted connection are one network here. Log output is left out.
  \<open>mc_watcher\<close>: the watcher of contexts was started (theory \<open>MysqlWatch\<close>).
\<close>

section \<open>Constants\<close>

definition iOK :: byte where "iOK = 0x00"
definition iAuthMoreData :: byte where "iAuthMoreData = 0x01"
definition iLocalInFile :: byte where "iLocalInFile = 0xfb"
definition iEOF :: byte where "iEOF = 0xfe"
definition iERR :: byte where "iERR = 0xff"

definition comQuit :: byte where "comQuit = 1"
definition comQuery :: byte where "comQuery = 3"
definition comPing :: byte where "comPing = 14"
definition comStmtPrepare :: byte where "comStmtPrepare = 22"
definition comStmtExecute :: byte where "comStmtExecute = 23"
definition comStmtSendLongData :: byte where "comStmtSendLongData = 24"
definition comStmtClose :: byte where "comStmtClose = 25"

definition statusMoreResultsExists :: u16 where "statusMoreResultsExists = 8"
definition statusNoBackslashEscapes :: u16 where "statusNoBackslashEscapes = 512"

lemmas const_defs = iOK_def iAuthMoreData_def iLocalInFile_def iEOF_def iERR_def

section \<open>State\<close>

record mysqlConn =
  mc_buf :: buffer
  mc_affectedRows :: u64
  mc_insertId :: u64
  mc_cfg :: Config
  mc_maxAllowedPacket :: int
  mc_maxWriteSize :: int
  mc_writeTimeout :: int
  mc_flags :: u32
  mc_status :: u16
  mc_sequence :: byte
  mc_parseTime :: bool
  mc_reset :: bool
  mc_canceled :: "gerr option"
  mc_closed :: bool
  mc_watcher :: bool
  mc_watching :: bool

abbreviation mc_net :: "mysqlConn \<Rightarrow> net" where
  "mc_net mc \<equiv> b_nc (mc_buf mc)"

definition updNet :: "(net \<Rightarrow> net) \<Rightarrow> mysqlConn \<Rightarrow> mysqlConn" where
  "updNet f mc = mc\<lparr>mc_buf := (mc_buf mc)\<lparr>b_nc := f (mc_net mc)\<rparr>\<rparr>"

text \<open>An operation of the buffer, as a step of the connection; calls of the network likewise.\<close>

definition onBuf :: "(buffer, 'a) act \<Rightarrow> (mysqlConn, 'a) act" where
  "onBuf m = (\<lambda>mc. case m (mc_buf mc) of (r, b) \<Rightarrow> (r, mc\<lparr>mc_buf := b\<rparr>))"

definition onNet :: "(net \<Rightarrow> 'a \<times> net) \<Rightarrow> (mysqlConn, 'a) act" where
  "onNet f = (\<lambda>mc. case f (mc_net mc) of (x, c) \<Rightarrow> (Ok x, updNet (\<lambda>_. c) mc))"

section \<open>Closing\<close>

text \<open>\<open>cleanup\<close>: only the first call closes the network connection.\<close>

definition cleanup :: "(mysqlConn, unit) act" where
  "cleanup = modA (\<lambda>mc. if mc_closed mc then mc
     else updNet (\<lambda>c. c\<lparr>n_closed := True\<rparr>) (mc\<lparr>mc_closed := True\<rparr>))"

definition mc_error :: "mysqlConn \<Rightarrow> gerr option" where
  "mc_error mc = (if mc_closed mc then (case mc_canceled mc of Some e \<Rightarrow> Some e | None \<Rightarrow> Some ErrInvalidConn)
     else None)"

definition cancel :: "gerr \<Rightarrow> (mysqlConn, unit) act" where
  "cancel err = seqA (modA (\<lambda>mc. mc\<lparr>mc_canceled := Some err\<rparr>)) cleanup"

definition markBadConn :: "gerr \<Rightarrow> gerr" where
  "markBadConn err = (if err \<noteq> ErrBadConnNoWrite then err else ErrBadConn)"

section \<open>Writing packets\<close>

text \<open>The header: three bytes of length, lowest first, and the sequence number.\<close>

definition header :: "nat \<Rightarrow> byte \<Rightarrow> byte list" where
  "header sz sequence = [of_nat sz, of_nat (sz div 256), of_nat (sz div 65536), sequence]"

definition armWrite :: "(mysqlConn, unit) act" where
  "armWrite = thenA (getA mc_writeTimeout) (\<lambda>t.
     if t > 0 then thenA (onNet setWriteDeadline) (\<lambda>e. case e of None \<Rightarrow> ret () | Some e \<Rightarrow> fail e)
     else ret ())"

text \<open>
  The loop of \<open>writePacket\<close>; \<open>data\<close> starts with four bytes for the header. A packet of \<open>2 ^ 24 - 1\<close>
  bytes or more is split, each part but the last is full, and the header of the next part
  overwrites the end of the part just written.
\<close>

definition writeFailed :: "int \<Rightarrow> nat \<Rightarrow> nat \<Rightarrow> gerr option \<Rightarrow> (mysqlConn, unit) act" where
  "writeFailed pktLen dataLen n err =
     (case err of
        None \<Rightarrow> seqA cleanup (fail ErrInvalidConn)
      | Some e \<Rightarrow> thenA (getA mc_canceled) (\<lambda>c. case c of
            Some cerr \<Rightarrow> fail cerr
          | None \<Rightarrow>
              if n = 0 \<and> pktLen = int dataLen - 4 then fail ErrBadConnNoWrite
              else seqA cleanup (fail ErrInvalidConn)))"

function writeLoop :: "int \<Rightarrow> byte list \<Rightarrow> (mysqlConn, unit) act" where
  "writeLoop pktLen data =
     (if length data < 4 then crash IndexOutOfRange
      else
        let sz = (if pktLen \<ge> int maxPacketSize then maxPacketSize else nat pktLen)
        in thenA (getA mc_sequence) (\<lambda>sequence.
        let data = header sz sequence @ drop 4 data
        in seqA armWrite
          (thenA (liftA (slice data 0 (4 + sz))) (\<lambda>out.
           thenA (onNet (netWrite out)) (\<lambda>(n, err).
           if err = None \<and> n = 4 + sz then
             seqA (modA (\<lambda>mc. mc\<lparr>mc_sequence := mc_sequence mc + 1\<rparr>))
               (if sz \<noteq> maxPacketSize then ret ()
                else writeLoop (pktLen - int sz) (drop sz data))
           else writeFailed pktLen (length data) n err)))))"
  by pat_completeness auto

termination
proof (relation "measure (\<lambda>(pktLen, data). nat pktLen)", goal_cases)
  case 2
  have "0 < maxPacketSize" by (simp add: maxPacketSize_def)
  with 2 show ?case by (auto split: if_splits)
qed simp

declare writeLoop.simps [simp del]

definition writeFrames :: "byte list \<Rightarrow> (mysqlConn, unit) act" where
  "writeFrames data =
     (let pktLen = int (length data) - 4
      in thenA (getA mc_maxAllowedPacket) (\<lambda>limit.
         if pktLen > limit then fail ErrPktTooLarge else writeLoop pktLen data))"

text \<open>
  The command packet of one byte. \<open>write\<close> is the way the packet is written: the check of a stale
  connection in \<open>writePacket\<close> closes the connection, which writes a packet again, then without
  the check, because the flag that asks for it is off.
\<close>

definition commandPacket :: "(byte list \<Rightarrow> (mysqlConn, unit) act) \<Rightarrow> byte \<Rightarrow> (mysqlConn, unit) act" where
  "commandPacket write command =
     seqA (modA (\<lambda>mc. mc\<lparr>mc_sequence := 0\<rparr>))
    (thenA (tryA (onBuf (takeSmallBuffer 5))) (\<lambda>r. case r of
       Inl e \<Rightarrow> fail ErrBadConnNoWrite
     | Inr s \<Rightarrow> thenA (getA (\<lambda>mc. bytesAt (mc_buf mc) s)) (\<lambda>data. write (data[4 := command]))))"

definition closeWith :: "(byte list \<Rightarrow> (mysqlConn, unit) act) \<Rightarrow> (mysqlConn, unit) act" where
  "closeWith write =
     thenA (getA mc_closed) (\<lambda>closed.
     thenA (if closed then ret (Inr ()) else tryA (commandPacket write comQuit)) (\<lambda>r.
     seqA cleanup (case r of Inl e \<Rightarrow> fail e | Inr _ \<Rightarrow> ret ())))"

definition connCheckStep :: "(mysqlConn, gerr option) act" where
  "connCheckStep =
     thenA (getA mc_cfg) (\<lambda>cfg.
     thenA (if cfg_ReadTimeout cfg \<noteq> 0 then onNet setReadDeadline else ret None) (\<lambda>err.
     if err = None \<and> cfg_CheckConnLiveness cfg then getA (\<lambda>mc. n_check (mc_net mc)) else ret err))"

text \<open>
  The header is written over the first four bytes of \<open>data\<close>, in the code inside the array the packet
  was built in; here only the bytes on the wire are kept. What the array of the buffer holds
  afterwards is used by no reader: every writer fills the bytes it sends, and the properties hold for
  any bytes left in it.
\<close>

definition writePacket :: "byte list \<Rightarrow> (mysqlConn, unit) act" where
  "writePacket data =
     thenA (getA (\<lambda>mc. (mc_maxAllowedPacket mc, mc_reset mc))) (\<lambda>(limit, reset).
     if int (length data) - 4 > limit then fail ErrPktTooLarge
     else if reset then
       seqA (modA (\<lambda>mc. mc\<lparr>mc_reset := False\<rparr>))
      (thenA connCheckStep (\<lambda>err. case err of
         Some e \<Rightarrow> seqA (tryA (closeWith writeFrames)) (fail ErrBadConn)
       | None \<Rightarrow> writeFrames data))
     else writeFrames data)"

definition writeCommandPacket :: "byte \<Rightarrow> (mysqlConn, unit) act" where
  "writeCommandPacket = commandPacket writePacket"

definition mcClose :: "(mysqlConn, unit) act" where
  "mcClose = closeWith writePacket"

definition writeCommandPacketStr :: "byte \<Rightarrow> byte list \<Rightarrow> (mysqlConn, unit) act" where
  "writeCommandPacketStr command arg =
     seqA (modA (\<lambda>mc. mc\<lparr>mc_sequence := 0\<rparr>))
    (thenA (tryA (onBuf (takeBuffer (1 + length arg + 4)))) (\<lambda>r. case r of
       Inl e \<Rightarrow> fail ErrBadConnNoWrite
     | Inr s \<Rightarrow> thenA (getA (\<lambda>mc. bytesAt (mc_buf mc) s)) (\<lambda>data.
         writePacket (copy_at (data[4 := command]) 5 arg))))"

definition writeCommandPacketUint32 :: "byte \<Rightarrow> u32 \<Rightarrow> (mysqlConn, unit) act" where
  "writeCommandPacketUint32 command arg =
     seqA (modA (\<lambda>mc. mc\<lparr>mc_sequence := 0\<rparr>))
    (thenA (tryA (onBuf (takeSmallBuffer (4 + 1 + 4)))) (\<lambda>r. case r of
       Inl e \<Rightarrow> fail ErrBadConnNoWrite
     | Inr s \<Rightarrow> thenA (getA (\<lambda>mc. bytesAt (mc_buf mc) s)) (\<lambda>data.
         writePacket (data[4 := command, 5 := ucast arg, 6 := ucast (drop_bit 8 arg),
           7 := ucast (drop_bit 16 arg), 8 := ucast (drop_bit 24 arg)]))))"

definition writeAuthSwitchPacket :: "byte list \<Rightarrow> (mysqlConn, unit) act" where
  "writeAuthSwitchPacket authData =
     thenA (tryA (onBuf (takeSmallBuffer (4 + length authData)))) (\<lambda>r. case r of
       Inl e \<Rightarrow> fail ErrBadConnNoWrite
     | Inr s \<Rightarrow> thenA (getA (\<lambda>mc. bytesAt (mc_buf mc) s)) (\<lambda>data.
         writePacket (copy_at data 4 authData)))"

section \<open>Reading packets\<close>

text \<open>
  A failed read closes the connection, unless a cancellation has done so. The slice of a packet is
  copied out of the buffer here, with the bytes behind it that its capacity still reaches; a packet
  of several frames is in a slice of its own, with no spare capacity. The nil \<open>prevData\<close> is the
  empty list. \<open>fuel\<close> bounds the number of frames: each takes at least four bytes off the stream.
\<close>

definition readFailed :: "(mysqlConn, 'a) act" where
  "readFailed =
     thenA (getA mc_canceled) (\<lambda>c. case c of
       Some cerr \<Rightarrow> fail cerr
     | None \<Rightarrow> seqA (tryA mcClose) (fail ErrInvalidConn))"

definition sliceAt :: "buffer \<Rightarrow> bslice \<Rightarrow> slice" where
  "sliceAt b = (\<lambda>(a, off, len). (bytesAt b (a, off, len), drop (off + len) (arr b a)))"

definition readBytes :: "nat \<Rightarrow> (mysqlConn, slice) act" where
  "readBytes need =
     thenA (tryA (onBuf (readNext need))) (\<lambda>r. case r of
       Inl e \<Rightarrow> readFailed
     | Inr s \<Rightarrow> getA (\<lambda>mc. sliceAt (mc_buf mc) s))"

fun readPacketLoop :: "nat \<Rightarrow> byte list \<Rightarrow> (mysqlConn, slice) act" where
  "readPacketLoop 0 prevData = crash Deadlock"
| "readPacketLoop (Suc fuel) prevData =
     thenA (readBytes 4) (\<lambda>(data, _).
     thenA (getA mc_sequence) (\<lambda>sequence.
     let pktLen = unat (data ! 0) + 256 * unat (data ! 1) + 65536 * unat (data ! 2)
     in if data ! 3 \<noteq> sequence then
          (if data ! 3 > sequence then fail ErrPktSyncMul else fail ErrPktSync)
        else
          seqA (modA (\<lambda>mc. mc\<lparr>mc_sequence := mc_sequence mc + 1\<rparr>))
         (if pktLen = 0 then
            (if prevData = [] then seqA (tryA mcClose) (fail ErrInvalidConn) else ret (prevData, []))
          else
            thenA (readBytes pktLen) (\<lambda>(body, spare).
            if pktLen < maxPacketSize then ret (if prevData = [] then (body, spare) else (prevData @ body, []))
            else readPacketLoop fuel (prevData @ body)))))"

declare readPacketLoop.simps [simp del]

definition readPacket :: "(mysqlConn, slice) act" where
  "readPacket = (\<lambda>mc. readPacketLoop (Suc (length (unread (mc_buf mc)))) [] mc)"

end
