(* ===== verification/PacketFacts.thy ===== *)
theory PacketFacts
  imports MysqlConn
begin

text \<open>
  Framing: what \<open>writePacket\<close> puts on the wire and what \<open>readPacket\<close> makes of it. \<open>frames\<close> is the
  protocol's description of a payload on the wire; payloads of \<open>2 ^ 24 - 1\<close> bytes or more go in
  several frames, the last of them shorter than that and empty when the length is a multiple.
\<close>

function frames :: "byte \<Rightarrow> byte list \<Rightarrow> byte list" where
  "frames sequence payload =
     (if length payload < maxPacketSize then header (length payload) sequence @ payload
      else header maxPacketSize sequence @ take maxPacketSize payload
        @ frames (sequence + 1) (drop maxPacketSize payload))"
  by pat_completeness auto

termination by (relation "measure (\<lambda>(s, p). length p)") (auto simp: maxPacketSize_def)

declare frames.simps [simp del]

text \<open>How many frames that takes, as the sequence number counts them.\<close>

definition frameCount :: "byte list \<Rightarrow> nat" where
  "frameCount payload = Suc (length payload div maxPacketSize)"

lemma maxPacketSize_pos: "0 < maxPacketSize"
  by (simp add: maxPacketSize_def)

lemma length_header [simp]: "length (header n s) = 4"
  by (simp add: header_def)

lemma frameCount_step:
  "maxPacketSize \<le> length p \<Longrightarrow> frameCount p = Suc (frameCount (drop maxPacketSize p))"
  using maxPacketSize_pos by (simp add: frameCount_def le_div_geq)

lemma header_length:
  assumes "n \<le> maxPacketSize"
  shows "unat (header n s ! 0) + 256 * unat (header n s ! 1) + 65536 * unat (header n s ! 2) = n"
proof -
  have "n div 65536 < 256" using assms by (simp add: maxPacketSize_def)
  then have "unat (header n s ! 0) = n mod 256" "unat (header n s ! 1) = n div 256 mod 256"
    "unat (header n s ! 2) = n div 65536"
    by (simp_all add: header_def unat_of_nat)
  moreover have "n div 65536 = n div 256 div 256" by (simp add: div_mult2_eq [symmetric])
  moreover have "n = n div 256 * 256 + n mod 256" "n div 256 = n div 256 div 256 * 256 + n div 256 mod 256"
    by simp_all
  ultimately show ?thesis by linarith
qed

section \<open>Writing\<close>

text \<open>A connection whose writes succeed.\<close>

definition canWrite :: "mysqlConn \<Rightarrow> bool" where
  "canWrite mc \<longleftrightarrow> \<not> n_closed (mc_net mc) \<and> n_wres (mc_net mc) = [] \<and> list_all (\<lambda>e. e = None) (n_writeDl (mc_net mc))"

lemma updNet_simps [simp]:
  "mc_net (updNet f mc) = f (mc_net mc)" "updNet f (updNet g mc) = updNet (\<lambda>c. f (g c)) mc"
  "mc_sequence (updNet f mc) = mc_sequence mc" "mc_canceled (updNet f mc) = mc_canceled mc"
  "mc_closed (updNet f mc) = mc_closed mc" "mc_writeTimeout (updNet f mc) = mc_writeTimeout mc"
  "mc_reset (updNet f mc) = mc_reset mc" "mc_maxAllowedPacket (updNet f mc) = mc_maxAllowedPacket mc"
  "mc_cfg (updNet f mc) = mc_cfg mc" "mc_status (updNet f mc) = mc_status mc"
  "(updNet f mc)\<lparr>mc_sequence := s\<rparr> = updNet f (mc\<lparr>mc_sequence := s\<rparr>)"
  by (simp_all add: updNet_def)

lemma updNet_same: "f (mc_net mc) = mc_net mc \<Longrightarrow> updNet f mc = mc"
  by (cases mc; cases "mc_buf mc") (simp add: updNet_def)

lemma onNet_apply: "onNet f mc = (case f (mc_net mc) of (x, c) \<Rightarrow> (Ok x, updNet (\<lambda>_. c) mc))"
  by (simp add: onNet_def)

lemma thenA_onNet: "thenA (onNet f) g mc = (case f (mc_net mc) of (x, c) \<Rightarrow> g x (updNet (\<lambda>_. c) mc))"
  by (simp add: thenA_def onNet_apply split: prod.splits)

lemma thenA_liftA [simp]: "thenA (liftA (Ok x)) f s = f x s"
  by (simp add: thenA_def)

lemma armWrite_ok:
  assumes "canWrite mc"
  shows "\<exists>dl. armWrite mc = (Ok (), updNet (\<lambda>c. c\<lparr>n_writeDl := dl\<rparr>) mc) \<and> list_all (\<lambda>e. e = None) dl"
proof (cases "mc_writeTimeout mc > 0 \<and> n_writeDl (mc_net mc) \<noteq> []")
  case True
  then obtain e es where Cons: "n_writeDl (mc_net mc) = e # es" by (cases "n_writeDl (mc_net mc)") auto
  then have "e = None" "list_all (\<lambda>e. e = None) es" using assms by (auto simp: canWrite_def)
  then have "armWrite mc = (Ok (), updNet (\<lambda>c. c\<lparr>n_writeDl := es\<rparr>) mc)" using Cons True
    by (simp add: armWrite_def thenA_def onNet_apply setWriteDeadline_def updNet_def)
  then show ?thesis using \<open>list_all _ es\<close> by blast
next
  case False
  have "updNet (\<lambda>c. c\<lparr>n_writeDl := n_writeDl (mc_net mc)\<rparr>) mc = mc" by (simp add: updNet_same)
  moreover have "updNet (\<lambda>_. mc_net mc) mc = mc" by (simp add: updNet_same)
  ultimately have "armWrite mc = (Ok (), updNet (\<lambda>c. c\<lparr>n_writeDl := n_writeDl (mc_net mc)\<rparr>) mc)"
    using False by (auto simp: armWrite_def thenA_def onNet_apply setWriteDeadline_def)
  moreover have "list_all (\<lambda>e. e = None) (n_writeDl (mc_net mc))" using assms by (simp add: canWrite_def)
  ultimately show ?thesis by blast
qed

text \<open>What a successful write changes of a connection.\<close>

definition wrote :: "byte list \<Rightarrow> nat \<Rightarrow> mysqlConn \<Rightarrow> mysqlConn \<Rightarrow> bool" where
  "wrote out k mc mc' \<longleftrightarrow> (\<exists>dl. list_all (\<lambda>e. e = None) dl
     \<and> mc' = updNet (\<lambda>c. c\<lparr>n_writeDl := dl, n_out := n_out c @ out\<rparr>)
         (mc\<lparr>mc_sequence := mc_sequence mc + of_nat k\<rparr>))"

lemma wrote_trans: "wrote out k mc mc1 \<Longrightarrow> wrote out' k' mc1 mc2 \<Longrightarrow> wrote (out @ out') (k + k') mc mc2"
  by (auto simp: wrote_def add.assoc)

lemma wrote_canWrite: "wrote out k mc mc' \<Longrightarrow> canWrite mc \<Longrightarrow> canWrite mc'"
  by (auto simp: wrote_def canWrite_def)

lemma writeOne:
  assumes "canWrite mc" and "length data = 4 + n" and "pktLen = int n" and "sz = min n maxPacketSize"
  shows "\<exists>mc'. wrote (header sz (mc_sequence mc) @ take sz (drop 4 data)) 1 mc mc'
    \<and> writeLoop pktLen data mc =
        (if sz = maxPacketSize
         then writeLoop (pktLen - int sz) (drop sz (header sz (mc_sequence mc) @ drop 4 data)) mc'
         else (Ok (), mc'))"
proof -
  from armWrite_ok [OF assms(1)] obtain dl where
    a: "armWrite mc = (Ok (), updNet (\<lambda>c. c\<lparr>n_writeDl := dl\<rparr>) mc)" and dl: "list_all (\<lambda>e. e = None) dl"
    by blast
  have sz: "(if int maxPacketSize \<le> pktLen then maxPacketSize else nat pktLen) = sz"
    using assms(3,4) by (simp add: min_def)
  have s: "slice (header sz s @ drop 4 data) 0 (4 + sz) = Ok (header sz s @ take sz (drop 4 data))" for s
    using assms(2,4) by (simp add: slice_def)
  have l: "length (take sz (drop 4 data)) = sz" using assms(2,4) by simp
  let ?mc = "updNet (\<lambda>c. c\<lparr>n_writeDl := dl, n_out := n_out c @ header sz (mc_sequence mc) @ take sz (drop 4 data)\<rparr>)
         (mc\<lparr>mc_sequence := mc_sequence mc + 1\<rparr>)"
  have "wrote (header sz (mc_sequence mc) @ take sz (drop 4 data)) 1 mc ?mc"
    using dl by (auto simp: wrote_def)
  moreover have "writeLoop pktLen data mc = (if sz = maxPacketSize
         then writeLoop (pktLen - int sz) (drop sz (header sz (mc_sequence mc) @ drop 4 data)) ?mc
         else (Ok (), ?mc))"
    using assms(1,2) l
    by (subst writeLoop.simps, simp add: Let_def sz s seqA_Ok [of armWrite, OF a] thenA_onNet netWrite_def
        canWrite_def del: length_take) (simp add: updNet_def)
  ultimately show ?thesis by blast
qed

lemma writeLoop_frames:
  "canWrite mc \<Longrightarrow> length data = 4 + n \<Longrightarrow> pktLen = int n \<Longrightarrow>
   \<exists>mc'. writeLoop pktLen data mc = (Ok (), mc')
     \<and> wrote (frames (mc_sequence mc) (drop 4 data)) (frameCount (drop 4 data)) mc mc'"
proof (induction n arbitrary: pktLen data mc rule: less_induct)
  case (less n)
  let ?sz = "min n maxPacketSize" and ?s = "mc_sequence mc" and ?p = "drop 4 data"
  from writeOne [OF less.prems refl] obtain mc1 where
    w: "wrote (header ?sz ?s @ take ?sz ?p) 1 mc mc1"
    and run: "writeLoop pktLen data mc = (if ?sz = maxPacketSize
         then writeLoop (pktLen - int ?sz) (drop ?sz (header ?sz ?s @ ?p)) mc1 else (Ok (), mc1))"
    by blast
  have lp: "length ?p = n" using less.prems(2) by simp
  show ?case
  proof (cases "n < maxPacketSize")
    case True
    then have "frames ?s ?p = header ?sz ?s @ take ?sz ?p" "frameCount ?p = 1"
      using lp by (simp_all add: frames.simps [of ?s ?p] frameCount_def)
    then show ?thesis using w run True by simp
  next
    case False
    let ?d = "drop maxPacketSize (header maxPacketSize ?s @ ?p)"
    have sz: "?sz = maxPacketSize" using False by simp
    have "4 \<le> maxPacketSize" by (simp add: maxPacketSize_def)
    then have d: "drop 4 ?d = drop maxPacketSize ?p" by (simp add: add.commute)
    have small: "n - maxPacketSize < n" using False maxPacketSize_pos by simp
    have "canWrite mc1" using w less.prems(1) by (rule wrote_canWrite)
    moreover have "length ?d = 4 + (n - maxPacketSize)" using False lp by simp
    moreover have "pktLen - int maxPacketSize = int (n - maxPacketSize)" using False less.prems(3) by simp
    ultimately obtain mc2 where r2: "writeLoop (pktLen - int maxPacketSize) ?d mc1 = (Ok (), mc2)"
      and w2: "wrote (frames (mc_sequence mc1) (drop 4 ?d)) (frameCount (drop 4 ?d)) mc1 mc2"
      using less.IH [OF small] by blast
    have "mc_sequence mc1 = ?s + 1" using w by (auto simp: wrote_def)
    with w2 d have "wrote (frames (?s + 1) (drop maxPacketSize ?p)) (frameCount (drop maxPacketSize ?p)) mc1 mc2"
      by simp
    from wrote_trans [OF w this] have "wrote (frames ?s ?p) (frameCount ?p) mc mc2"
      using False lp sz frameCount_step [of ?p] by (simp add: frames.simps [of ?s ?p])
    then show ?thesis using run r2 sz by auto
  qed
qed

lemma writePacket_frames:
  assumes "canWrite mc" and "\<not> mc_reset mc" and "4 \<le> length data"
    and "int (length data) - 4 \<le> mc_maxAllowedPacket mc"
  shows "\<exists>mc'. writePacket data mc = (Ok (), mc')
     \<and> wrote (frames (mc_sequence mc) (drop 4 data)) (frameCount (drop 4 data)) mc mc'"
  using writeLoop_frames [OF assms(1), of data "length data - 4" "int (length data) - 4"] assms(2-4)
  by (simp add: writePacket_def writeFrames_def Let_def)

section \<open>Reading\<close>

definition canRead :: "mysqlConn \<Rightarrow> bool" where
  "canRead mc \<longleftrightarrow> wf_buffer (mc_buf mc) \<and> healthy (mc_net mc)"

lemma tryA_onBuf:
  "tryA (onBuf m) mc = (case m (mc_buf mc) of
     (Ok x, b) \<Rightarrow> (Ok (Inr x), mc\<lparr>mc_buf := b\<rparr>)
   | (Fail e, b) \<Rightarrow> (Ok (Inl e), mc\<lparr>mc_buf := b\<rparr>)
   | (Crash h, b) \<Rightarrow> (Crash h, mc\<lparr>mc_buf := b\<rparr>))"
  by (simp add: tryA_def onBuf_def split: prod.splits res.splits)

text \<open>Bytes that have arrived are read; nothing but the buffer and its network changes.\<close>

lemma readBytes_ok:
  assumes "canRead mc" and "need \<le> length (unread (mc_buf mc))"
  shows "\<exists>b sp. readBytes need mc = (Ok (take need (unread (mc_buf mc)), sp), mc\<lparr>mc_buf := b\<rparr>)
    \<and> canRead (mc\<lparr>mc_buf := b\<rparr>) \<and> unread b = drop need (unread (mc_buf mc))"
proof -
  obtain r b where rd: "readNext need (mc_buf mc) = (r, b)" by (cases "readNext need (mc_buf mc)")
  have w: "wf_buffer (mc_buf mc)" "healthy (mc_net mc)" using assms(1) by (auto simp: canRead_def)
  note sp = readNext_spec [OF rd w(1)]
  then obtain s where r: "r = Ok s" "healthy (b_nc b)" using w(2) assms(2) by blast
  with sp have "bytesAt b s = take need (unread (mc_buf mc))" "unread b = drop need (unread (mc_buf mc))"
    "wf_buffer b" by auto
  then show ?thesis using rd r
    by (intro exI [of _ b]) (cases s, simp add: readBytes_def thenA_def tryA_onBuf canRead_def sliceAt_def)
qed

lemma take_append_exact: "length xs = n \<Longrightarrow> take n (xs @ ys) = xs" "length xs = n \<Longrightarrow> drop n (xs @ ys) = ys"
  by auto

text \<open>Reading one frame: its header, then its body.\<close>

lemma readFrame:
  assumes "canRead mc" and "unread (mc_buf mc) = header (length body) (mc_sequence mc) @ body @ rest"
    and "length body \<le> maxPacketSize"
  shows "\<exists>b sp. canRead (mc\<lparr>mc_buf := b\<rparr>) \<and> unread b = rest
    \<and> readPacketLoop (Suc fuel) prev mc =
       (let mc' = mc\<lparr>mc_buf := b, mc_sequence := mc_sequence mc + 1\<rparr>
        in if length body = 0 then (if prev = [] then seqA (tryA mcClose) (fail ErrInvalidConn) mc' else (Ok (prev, []), mc'))
           else if length body < maxPacketSize then (Ok (if prev = [] then (body, sp) else (prev @ body, [])), mc')
           else readPacketLoop fuel (prev @ body) mc')"
proof -
  let ?h = "header (length body) (mc_sequence mc)"
  from readBytes_ok [OF assms(1), of 4] assms(2) obtain b1 sp1 where
    r1: "readBytes 4 mc = (Ok (?h, sp1), mc\<lparr>mc_buf := b1\<rparr>)" and c1: "canRead (mc\<lparr>mc_buf := b1\<rparr>)"
    and u1: "unread b1 = body @ rest" by (auto simp: take_append_exact)
  have len: "unat (?h ! 0) + 256 * unat (?h ! 1) + 65536 * unat (?h ! 2) = length body"
    using assms(3) by (rule header_length)
  have h3: "?h ! 3 = mc_sequence mc" by (simp add: header_def)
  let ?mc1 = "mc\<lparr>mc_buf := b1, mc_sequence := mc_sequence mc + 1\<rparr>"
  have step: "readPacketLoop (Suc fuel) prev mc =
    (if length body = 0 then (if prev = [] then seqA (tryA mcClose) (fail ErrInvalidConn) ?mc1 else (Ok (prev, []), ?mc1))
     else thenA (readBytes (length body)) (\<lambda>(body', sp).
       if length body < maxPacketSize then ret (if prev = [] then (body', sp) else (prev @ body', [])) else readPacketLoop fuel (prev @ body')) ?mc1)"
    using len h3 by (simp add: readPacketLoop.simps thenA_Ok [of "readBytes 4", OF r1] Let_def)
  show ?thesis
  proof (cases "body = []")
    case True
    then show ?thesis using step c1 u1 by (auto simp: Let_def intro!: exI [of _ b1])
  next
    case False
    have "canRead ?mc1" "need \<le> length (unread (mc_buf ?mc1))" if "need = length body" for need
      using c1 u1 that by (simp_all add: canRead_def)
    from readBytes_ok [OF this(1) this(2), OF refl refl] u1 obtain b2 sp2 where
      r2: "readBytes (length body) ?mc1 = (Ok (body, sp2), ?mc1\<lparr>mc_buf := b2\<rparr>)"
      and c2: "canRead (?mc1\<lparr>mc_buf := b2\<rparr>)" and u2: "unread b2 = rest" by auto
    have eq: "?mc1\<lparr>mc_buf := b2\<rparr> = mc\<lparr>mc_buf := b2, mc_sequence := mc_sequence mc + 1\<rparr>" by simp
    show ?thesis using step False r2 c2 u2 eq
      by (intro exI [of _ b2] exI [of _ sp2]) (simp add: thenA_Ok [of "readBytes (length body)", OF r2] canRead_def Let_def)
  qed
qed

text \<open>Reading all the frames of a payload, with what earlier frames brought in front.\<close>

lemma readPacketLoop_frames:
  "canRead mc \<Longrightarrow> unread (mc_buf mc) = frames (mc_sequence mc) p @ rest \<Longrightarrow> frameCount p \<le> fuel \<Longrightarrow>
   prev \<noteq> [] \<or> p \<noteq> [] \<Longrightarrow>
   \<exists>b sp. readPacketLoop fuel prev mc =
       (Ok (prev @ p, sp), mc\<lparr>mc_buf := b, mc_sequence := mc_sequence mc + of_nat (frameCount p)\<rparr>)
     \<and> canRead (mc\<lparr>mc_buf := b\<rparr>) \<and> unread b = rest"
proof (induction p arbitrary: mc fuel prev rule: length_induct)
  case (1 p)
  let ?s = "mc_sequence mc"
  from 1(4) obtain fuel' where fuel: "fuel = Suc fuel'" by (cases fuel) (auto simp: frameCount_def)
  show ?case
  proof (cases "length p < maxPacketSize")
    case True
    then have "unread (mc_buf mc) = header (length p) ?s @ p @ rest" "frameCount p = 1"
      using 1(3) by (simp_all add: frames.simps [of ?s p] frameCount_def)
    then show ?thesis
      using readFrame [OF 1(2), of p rest fuel' prev] True 1(5) fuel
      by (cases "p = []") (auto simp: Let_def)
  next
    case False
    let ?b = "take maxPacketSize p" and ?p = "drop maxPacketSize p"
    have lb: "length ?b = maxPacketSize" using False by simp
    then have ne: "?b \<noteq> []" using maxPacketSize_pos by (metis length_0_conv less_irrefl)
    have "unread (mc_buf mc) = header (length ?b) ?s @ ?b @ (frames (?s + 1) ?p @ rest)"
      using 1(3) False by (simp add: frames.simps [of ?s p])
    from readFrame [OF 1(2) this, of fuel' prev] lb ne obtain b1 where
      c1: "canRead (mc\<lparr>mc_buf := b1\<rparr>)" and u1: "unread b1 = frames (?s + 1) ?p @ rest"
      and run: "readPacketLoop fuel prev mc
        = readPacketLoop fuel' (prev @ ?b) (mc\<lparr>mc_buf := b1, mc_sequence := ?s + 1\<rparr>)"
      by (auto simp: fuel Let_def)
    let ?mc1 = "mc\<lparr>mc_buf := b1, mc_sequence := ?s + 1\<rparr>"
    have "length ?p < length p" using False maxPacketSize_pos by simp
    moreover have "canRead ?mc1" "unread (mc_buf ?mc1) = frames (mc_sequence ?mc1) ?p @ rest"
      using c1 u1 by (simp_all add: canRead_def)
    moreover have "frameCount ?p \<le> fuel'" using 1(4) fuel frameCount_step [of p] False by simp
    ultimately obtain b2 sp2 where r2: "readPacketLoop fuel' (prev @ ?b) ?mc1 =
        (Ok ((prev @ ?b) @ ?p, sp2), ?mc1\<lparr>mc_buf := b2, mc_sequence := mc_sequence ?mc1 + of_nat (frameCount ?p)\<rparr>)"
      and c2: "canRead (?mc1\<lparr>mc_buf := b2\<rparr>)" and u2: "unread b2 = rest"
      using 1(1) ne by blast
    have "frameCount p = Suc (frameCount ?p)" using frameCount_step [of p] False by simp
    then have "readPacketLoop fuel prev mc =
        (Ok (prev @ p, sp2), mc\<lparr>mc_buf := b2, mc_sequence := ?s + of_nat (frameCount p)\<rparr>)"
      using run r2 by (simp add: algebra_simps)
    moreover have "canRead (mc\<lparr>mc_buf := b2\<rparr>)" using c2 by (simp add: canRead_def)
    ultimately show ?thesis using u2 by blast
  qed
qed

lemma frameCount_le_frames: "frameCount p \<le> length (frames s p)"
proof (induction s p rule: frames.induct)
  case (1 s p)
  show ?case
  proof (cases "length p < maxPacketSize")
    case True
    then show ?thesis by (simp add: frames.simps [of s p] frameCount_def)
  next
    case False
    then show ?thesis using 1 frameCount_step [of p] by (simp add: frames.simps [of s p])
  qed
qed

lemma readPacket_frames:
  assumes "canRead mc" and "unread (mc_buf mc) = frames (mc_sequence mc) p @ rest" and "p \<noteq> []"
  shows "\<exists>b sp. readPacket mc =
       (Ok (p, sp), mc\<lparr>mc_buf := b, mc_sequence := mc_sequence mc + of_nat (frameCount p)\<rparr>)
     \<and> canRead (mc\<lparr>mc_buf := b\<rparr>) \<and> unread b = rest"
proof -
  have "frameCount p \<le> Suc (length (unread (mc_buf mc)))"
    using frameCount_le_frames [of p "mc_sequence mc"] assms(2) by simp
  from readPacketLoop_frames [OF assms(1,2) this, of "[]"] assms(3) show ?thesis
    by (simp add: readPacket_def)
qed

end
