(* ===== verification/PacketSafety.thy ===== *)
theory PacketSafety
  imports PacketFacts
begin

text \<open>
  Reading and writing packets never panics, whatever the peer sends and however the network fails,
  and a packet that is read is never empty, so the first byte that every handler looks at exists.
\<close>

section \<open>Room in the buffer\<close>

text \<open>The active array always has at least the default size; the second one is unused or has too.\<close>

definition roomy :: "buffer \<Rightarrow> bool" where
  "roomy b \<longleftrightarrow> b_buf b < length (b_arrs b) \<and> fst (b_dbuf b) < length (b_arrs b)
     \<and> snd (b_dbuf b) < length (b_arrs b) \<and> defaultBufSize \<le> length (arr b (b_buf b))
     \<and> (\<forall>a \<in> {fst (b_dbuf b), snd (b_dbuf b)}. arr b a = [] \<or> defaultBufSize \<le> length (arr b a))"

lemma newBuffer_roomy: "roomy (newBuffer nc)"
  by (simp add: roomy_def newBuffer_def arr_def)

lemma growDest_roomy:
  assumes "growDest need b = (dest, b1)" and "roomy b" and "0 < need"
  shows "roomy b1 \<and> defaultBufSize \<le> length (arr b1 dest)"
proof (cases "need > length (arr b (dbufAt b))")
  case True
  have "defaultBufSize \<le> (need div defaultBufSize + 1) * defaultBufSize" by simp
  then show ?thesis using assms True
    by (auto simp: growDest_def Let_def makeArr_def roomy_def setDbuf_def arr_def nth_append split: if_splits)
next
  case False
  then have "dest = dbufAt b" "b1 = b" "arr b dest \<noteq> []" using assms by (auto simp: growDest_def Let_def)
  then show ?thesis using assms(2) by (auto simp: roomy_def dbufAt_def split: if_splits)
qed

lemma fill_roomy:
  assumes "fill need b = (r, b')" and "wf_buffer b" and "roomy b" and "b_length b < need"
  shows "roomy b'"
proof -
  obtain dest b1 where g: "growDest need b = (dest, b1)" by (cases "growDest need b")
  note gs = growDest_spec [OF g assms(2)]
  have gr: "roomy b1" "defaultBufSize \<le> length (arr b1 dest)"
    using growDest_roomy [OF g assms(3)] assms(4) by auto
  have len1: "b_length b1 \<le> length (arr b1 dest)" using gs(1,4) assms(4) by simp
  from moveUnread_spec [OF gs(3,2) len1] obtain b2 where m: "moveUnread dest b1 = Ok b2"
    and ms: "length (arr b2 dest) = length (arr b1 dest)" "\<forall>a. a \<noteq> dest \<longrightarrow> arr b2 a = arr b1 a"
      "length (b_arrs b2) = length (b_arrs b1)" "b_length b2 = b_length b1" "b_dbuf b2 = b_dbuf b1"
    by blast
  let ?b = "b2\<lparr>b_buf := dest, b_idx := 0\<rparr>"
  have arr2: "arr ?b = arr b2" by (simp add: arr_def fun_eq_iff)
  have "fillLoop need (b_length b) ?b = (r, b')" using assms(1) g m gs(4) ms(4) by (simp add: fill_def)
  from fillLoop_spec [OF this] have fl: "fills ?b b'"
    using gs(2,4) ms(1,3) len1 by (simp add: arr2)
  have len: "length (arr b' a) = length (arr b1 a)" for a
    using fl ms(1,2) arr2 by (cases "a = dest") (simp_all add: fills_def)
  have nil: "arr b' a = [] \<longleftrightarrow> arr b1 a = []" for a using len [of a] by (metis length_0_conv)
  show ?thesis using fl gr gs(2) ms(3,5) len nil by (simp add: roomy_def fills_def)
qed

definition wf_mc :: "mysqlConn \<Rightarrow> bool" where
  "wf_mc mc \<longleftrightarrow> wf_buffer (mc_buf mc) \<and> roomy (mc_buf mc)"

section \<open>Calls that do not panic\<close>

definition noCrash :: "('s, 'a) act \<Rightarrow> 's \<Rightarrow> bool" where
  "noCrash m s \<longleftrightarrow> (\<forall>h. fst (m s) \<noteq> Crash h)"

lemma noCrashD: "noCrash m s \<Longrightarrow> m s = (r, s') \<Longrightarrow> r \<noteq> Crash h"
  by (auto simp: noCrash_def)

lemma noCrash_basic [simp]:
  "noCrash (ret x) s" "noCrash (fail e) s" "noCrash (modA f) s" "noCrash (getA g) s" "noCrash (onNet k) mc"
  by (auto simp: noCrash_def onNet_def split: prod.splits)

lemma noCrash_thenA:
  "noCrash m s \<Longrightarrow> (\<And>x s'. m s = (Ok x, s') \<Longrightarrow> noCrash (f x) s') \<Longrightarrow> noCrash (thenA m f) s"
  by (auto simp: noCrash_def thenA_def split: prod.splits res.splits)

lemma noCrash_seqA:
  "noCrash m s \<Longrightarrow> (\<And>x s'. m s = (Ok x, s') \<Longrightarrow> noCrash n s') \<Longrightarrow> noCrash (seqA m n) s"
  unfolding seqA_def by (rule noCrash_thenA)

lemma noCrash_tryA: "noCrash m s \<Longrightarrow> noCrash (tryA m) s"
  by (auto simp: noCrash_def tryA_def split: prod.splits res.splits)

lemma noCrash_cleanup [simp]: "noCrash cleanup mc"
  by (simp add: cleanup_def)

lemma noCrash_armWrite [simp]: "noCrash armWrite mc"
  unfolding armWrite_def by (auto intro!: noCrash_thenA split: option.splits)

lemma noCrash_writeFailed [simp]: "noCrash (writeFailed l k n err) mc"
  unfolding writeFailed_def
  by (cases err) (auto intro!: noCrash_thenA noCrash_seqA split: option.splits)

lemma writeLoop_noCrash:
  "length data = 4 + n \<Longrightarrow> pktLen = int n \<Longrightarrow> noCrash (writeLoop pktLen data) mc"
proof (induction n arbitrary: pktLen data mc rule: less_induct)
  case (less n)
  have sz: "(if int maxPacketSize \<le> pktLen then maxPacketSize else nat pktLen) = min n maxPacketSize"
    using less.prems(2) by (simp add: min_def)
  have sl: "noCrash (liftA (slice (header k s @ drop 4 data) 0 (4 + min n maxPacketSize))) mc'" for k s mc'
    using less.prems(1) by (simp add: noCrash_def slice_def)
  have rec: "noCrash (writeLoop (pktLen - int (min n maxPacketSize))
      (drop (min n maxPacketSize) (header k s @ drop 4 data))) mc'"
    if "min n maxPacketSize = maxPacketSize" for k s mc'
  proof (rule less.IH)
    show "n - maxPacketSize < n" using that maxPacketSize_pos by (simp add: min_def split: if_splits)
    show "length (drop (min n maxPacketSize) (header k s @ drop 4 data)) = 4 + (n - maxPacketSize)"
      using that less.prems(1) by (simp add: min_def split: if_splits)
    show "pktLen - int (min n maxPacketSize) = int (n - maxPacketSize)"
      using that less.prems(2) by (simp add: min_def split: if_splits)
  qed
  have "\<not> length data < 4" using less.prems(1) by simp
  then show ?case
    apply (subst writeLoop.simps)
    apply (simp only: if_False Let_def sz)
    apply (intro noCrash_thenA noCrash_seqA noCrash_basic noCrash_armWrite sl)
    apply (auto intro!: noCrash_seqA rec simp del: drop_append)
    apply (use rec in fastforce)
    done
qed

lemma writeFrames_noCrash: "4 \<le> length data \<Longrightarrow> noCrash (writeFrames data) mc"
  unfolding writeFrames_def Let_def
  by (intro noCrash_thenA) (auto intro: writeLoop_noCrash [of data "length data - 4"])

lemma commandPacket_noCrash:
  assumes "roomy (mc_buf mc)" and "\<And>data mc. length data = 5 \<Longrightarrow> roomy (mc_buf mc) \<Longrightarrow> noCrash (write data) mc"
  shows "noCrash (commandPacket write c) mc"
proof -
  have "5 \<le> length (arr (mc_buf mc) (b_buf (mc_buf mc)))" using assms(1) by (simp add: roomy_def defaultBufSize_def)
  then have "noCrash (write ((bytesAt (mc_buf mc) (b_buf (mc_buf mc), 0, 5))[4 := c])) (mc\<lparr>mc_sequence := 0\<rparr>)"
    using assms(1) by (intro assms(2)) (simp_all add: bytesAt_def)
  then show ?thesis using \<open>5 \<le> _\<close>
    by (auto simp: commandPacket_def noCrash_def takeSmallBuffer_def cutBuf_def seqA_apply
        thenA_def [of "tryA _"] tryA_onBuf)
qed

lemma closeWith_noCrash:
  assumes "roomy (mc_buf mc)" and "\<And>data mc. length data = 5 \<Longrightarrow> roomy (mc_buf mc) \<Longrightarrow> noCrash (write data) mc"
  shows "noCrash (closeWith write) mc"
  unfolding closeWith_def
  using commandPacket_noCrash [OF assms]
  by (intro noCrash_thenA noCrash_seqA noCrash_basic noCrash_cleanup)
    (auto intro!: noCrash_tryA split: sum.splits)

lemma armed_buffer: "onNet f mc = (r, mc') \<Longrightarrow> roomy (mc_buf mc') = roomy (mc_buf mc)"
  by (auto simp: onNet_def updNet_def roomy_def arr_def split: prod.splits)

lemma connCheckStep_roomy:
  "connCheckStep mc = (r, mc') \<Longrightarrow> (\<forall>h. r \<noteq> Crash h) \<and> roomy (mc_buf mc') = roomy (mc_buf mc)"
  by (auto simp: connCheckStep_def thenA_def split: prod.splits res.splits if_splits dest: armed_buffer)
    (auto simp: onNet_def split: prod.splits)

lemma writePacket_noCrash:
  assumes "4 \<le> length data" and "roomy (mc_buf mc)"
  shows "noCrash (writePacket data) mc"
proof -
  have c: "noCrash (closeWith writeFrames) mc'" if "roomy (mc_buf mc')" for mc'
    using that by (rule closeWith_noCrash) (simp add: writeFrames_noCrash)
  have k: "noCrash connCheckStep mc'" for mc'
    using connCheckStep_roomy by (auto simp: noCrash_def) (metis prod.collapse)
  show ?thesis
    unfolding writePacket_def
    using assms(2) connCheckStep_roomy
    by (auto intro!: noCrash_thenA noCrash_seqA noCrash_tryA c k writeFrames_noCrash assms(1)
        split: option.splits) (force+)?
qed

lemma mcClose_noCrash: "roomy (mc_buf mc) \<Longrightarrow> noCrash mcClose mc"
  unfolding mcClose_def by (rule closeWith_noCrash) (simp_all add: writePacket_noCrash)

lemma readFailed_noCrash: "roomy (mc_buf mc) \<Longrightarrow> noCrash readFailed mc"
  unfolding readFailed_def
  by (auto intro!: noCrash_thenA noCrash_seqA noCrash_tryA mcClose_noCrash split: option.splits)

lemma readFailed_fails: "fst (readFailed mc) \<noteq> Ok x"
  by (auto simp: readFailed_def thenA_def seqA_apply tryA_def split: prod.splits res.splits option.splits)

section \<open>Reading\<close>

lemma roomy_cut: "roomy (b\<lparr>b_idx := i, b_length := n\<rparr>) = roomy b"
  by (simp add: roomy_def arr_def)

lemma readNext_roomy:
  assumes "readNext need b = (r, b')" and "wf_buffer b" and "roomy b"
  shows "roomy b'"
proof (cases "b_length b < need")
  case True
  obtain q b1 where f: "fill need b = (q, b1)" by (cases "fill need b")
  from fill_roomy [OF f assms(2,3) True] show ?thesis using assms(1) True f
    by (auto simp: readNext_run cutBuf_def roomy_cut split: res.splits if_splits)
next
  case False
  then show ?thesis using assms(1,3)
    by (auto simp: readNext_run cutBuf_def roomy_cut split: if_splits)
qed

text \<open>
  What is true of every call of \<open>readBytes\<close>: no panic; bytes come from the front of the stream, as
  many as were asked for, and nothing but the buffer has changed.
\<close>

lemma readBytes_spec:
  assumes "readBytes need mc = (r, mc')" and "wf_mc mc"
  shows "(\<forall>h. r \<noteq> Crash h) \<and> (\<forall>d sp. r = Ok (d, sp) \<longrightarrow> need \<le> length (unread (mc_buf mc))
    \<and> d = take need (unread (mc_buf mc)) \<and> unread (mc_buf mc') = drop need (unread (mc_buf mc))
    \<and> wf_mc mc' \<and> (\<exists>b. mc' = mc\<lparr>mc_buf := b\<rparr>))"
proof -
  have w: "wf_buffer (mc_buf mc)" "roomy (mc_buf mc)" using assms(2) by (auto simp: wf_mc_def)
  obtain q b where rd: "readNext need (mc_buf mc) = (q, b)" by (cases "readNext need (mc_buf mc)")
  note sp = readNext_spec [OF rd w(1)] and ro = readNext_roomy [OF rd w]
  show ?thesis
  proof (cases q)
    case (Ok s)
    then have "r = Ok (sliceAt b s)" "mc' = mc\<lparr>mc_buf := b\<rparr>"
      using assms(1) rd by (auto simp: readBytes_def thenA_def tryA_onBuf)
    moreover have "fst (sliceAt b s) = bytesAt b s" by (cases s) (simp add: sliceAt_def)
    ultimately have "r = Ok (bytesAt b s, snd (sliceAt b s))" "mc' = mc\<lparr>mc_buf := b\<rparr>"
      by (metis prod.collapse)+
    then show ?thesis using sp Ok ro by (auto simp: wf_mc_def)
  next
    case (Fail e)
    then have "readFailed (mc\<lparr>mc_buf := b\<rparr>) = (r, mc')"
      using assms(1) rd by (simp add: readBytes_def thenA_def tryA_onBuf)
    moreover from this have "r \<noteq> Crash h" for h
      using readFailed_noCrash [of "mc\<lparr>mc_buf := b\<rparr>"] ro by (auto dest: noCrashD)
    moreover have "r \<noteq> Ok d" for d
      using readFailed_fails [of "mc\<lparr>mc_buf := b\<rparr>" d] calculation(1) by simp
    ultimately show ?thesis by simp
  next
    case (Crash h)
    then show ?thesis using sp by simp
  qed
qed

lemma readPacketLoop_header:
  assumes "readBytes 4 mc = (Ok (data, sp), mc1)"
    and "n = unat (data ! 0) + 256 * unat (data ! 1) + 65536 * unat (data ! 2)"
  shows "readPacketLoop (Suc fuel) prev mc =
    (let mc2 = mc1\<lparr>mc_sequence := mc_sequence mc1 + 1\<rparr> in
     if data ! 3 \<noteq> mc_sequence mc1 then (if data ! 3 > mc_sequence mc1 then (Fail ErrPktSyncMul, mc1) else (Fail ErrPktSync, mc1))
     else if n = 0 then (if prev = [] then seqA (tryA mcClose) (fail ErrInvalidConn) mc2 else (Ok (prev, []), mc2))
     else thenA (readBytes n) (\<lambda>(body, spare). if n < maxPacketSize then ret (if prev = [] then (body, spare) else (prev @ body, []))
            else readPacketLoop fuel (prev @ body)) mc2)"
  by (simp add: readPacketLoop.simps thenA_Ok [of "readBytes 4", OF assms(1)] Let_def assms(2))

lemma closeInvalid_fails:
  assumes "roomy (mc_buf mc)" and "seqA (tryA mcClose) (fail ErrInvalidConn) mc = (q, m)"
  shows "\<exists>e. q = Fail e"
  using assms(2) noCrash_tryA [OF mcClose_noCrash [OF assms(1)]]
  by (auto simp: seqA_apply thenA_def noCrash_def split: prod.splits res.splits)

lemma readBody_safe:
  assumes "thenA (readBytes n) (\<lambda>(body, spare). if n < maxPacketSize then ret (if prev = [] then (body, spare) else (prev @ body, []))
      else rest (prev @ body)) mc = (r, mc')"
    and "wf_mc mc" and "n \<noteq> 0"
    and "\<And>p m. wf_mc m \<Longrightarrow> length (unread (mc_buf m)) \<le> length (unread (mc_buf mc)) \<Longrightarrow> rest p m = (r, mc')
      \<Longrightarrow> (\<forall>h. r \<noteq> Crash h) \<and> (\<forall>d sp. r = Ok (d, sp) \<longrightarrow> d \<noteq> [] \<and> wf_mc mc' \<and> length (unread (mc_buf mc')) \<le> length (unread (mc_buf m)))"
  shows "(\<forall>h. r \<noteq> Crash h)
    \<and> (\<forall>d sp. r = Ok (d, sp) \<longrightarrow> d \<noteq> [] \<and> wf_mc mc' \<and> length (unread (mc_buf mc')) \<le> length (unread (mc_buf mc)))"
proof -
  obtain r2 mc3 where rd: "readBytes n mc = (r2, mc3)" by (cases "readBytes n mc")
  note s = readBytes_spec [OF rd assms(2)]
  show ?thesis
  proof (cases r2)
    case (Ok q)
    then obtain body sp where Ok: "r2 = Ok (body, sp)" by (cases q) auto
    note s = s [THEN conjunct2, rule_format, OF Ok]
    have "body \<noteq> []" "wf_mc mc3" "length (unread (mc_buf mc3)) \<le> length (unread (mc_buf mc))" using s assms(3) by auto
    moreover have "(if n < maxPacketSize then (Ok (if prev = [] then (body, sp) else (prev @ body, [])), mc3)
        else rest (prev @ body) mc3) = (r, mc')"
      using assms(1) rd Ok by (cases "prev = []") (simp_all add: thenA_def split: if_splits)
    ultimately show ?thesis using assms(4) [of mc3 "prev @ body"] by (auto split: if_splits)
  next
    case (Fail e)
    then show ?thesis using assms(1) rd by (auto simp: thenA_def)
  next
    case (Crash h)
    then show ?thesis using s by simp
  qed
qed

lemma readPacketLoop_safe:
  "readPacketLoop fuel prev mc = (r, mc') \<Longrightarrow> wf_mc mc \<Longrightarrow> length (unread (mc_buf mc)) < fuel \<Longrightarrow>
   (\<forall>h. r \<noteq> Crash h) \<and> (\<forall>d sp. r = Ok (d, sp) \<longrightarrow> d \<noteq> [] \<and> wf_mc mc' \<and> length (unread (mc_buf mc')) < length (unread (mc_buf mc)))"
proof (induction fuel arbitrary: prev mc r mc')
  case (Suc fuel)
  obtain r1 mc1 where rd: "readBytes 4 mc = (r1, mc1)" by (cases "readBytes 4 mc")
  note s1 = readBytes_spec [OF rd Suc.prems(2)]
  show ?case
  proof (cases r1)
    case (Ok q1)
    then obtain data sp1 where Ok: "r1 = Ok (data, sp1)" by (cases q1) auto
    note s1 = s1 [THEN conjunct2, rule_format, OF Ok]
    define n where "n = unat (data ! 0) + 256 * unat (data ! 1) + 65536 * unat (data ! 2)"
    let ?mc2 = "mc1\<lparr>mc_sequence := mc_sequence mc1 + 1\<rparr>"
    have w2: "wf_mc ?mc2" "roomy (mc_buf ?mc2)" using s1 by (auto simp: wf_mc_def)
    have less: "length (unread (mc_buf mc1)) < length (unread (mc_buf mc))" using s1 by auto
    note run = Suc.prems(1) [unfolded readPacketLoop_header [OF rd [unfolded Ok] n_def] Let_def]
    show ?thesis
    proof (cases "data ! 3 \<noteq> mc_sequence mc1 \<or> n = 0")
      case True
      with run less w2(1) show ?thesis by (auto split: if_splits dest: closeInvalid_fails [OF w2(2)])
    next
      case False
      with run have "thenA (readBytes n) (\<lambda>(body, spare). if n < maxPacketSize
          then ret (if prev = [] then (body, spare) else (prev @ body, []))
          else readPacketLoop fuel (prev @ body)) ?mc2 = (r, mc')" by simp
      from readBody_safe [OF this w2(1)] False Suc.IH Suc.prems(3) less show ?thesis by fastforce
    qed
  next
    case (Fail e)
    then show ?thesis using rd Suc.prems(1) by (auto simp: readPacketLoop.simps thenA_def)
  next
    case (Crash h)
    then show ?thesis using s1 by simp
  qed
qed simp

lemma readPacket_safe:
  "readPacket mc = (r, mc') \<Longrightarrow> wf_mc mc \<Longrightarrow>
   (\<forall>h. r \<noteq> Crash h) \<and> (\<forall>d sp. r = Ok (d, sp) \<longrightarrow> d \<noteq> [] \<and> wf_mc mc' \<and> length (unread (mc_buf mc')) < length (unread (mc_buf mc)))"
  unfolding readPacket_def by (erule readPacketLoop_safe, assumption, rule lessI)

end
