(* ===== verification/PacketProps.thy ===== *)
theory PacketProps
  imports PacketSafety
begin

text \<open>What the buffer and the framing of packets guarantee.\<close>

section \<open>The buffer is a stream\<close>

text \<open>
  C18: \<open>readNext\<close> refines reading from the front of the stream of bytes the peer has sent: whatever the
  chunks the network delivers, whatever is already buffered and whichever of the two arrays is in
  use, it gives the next \<open>need\<close> bytes and leaves the rest; it never panics, and it does not fail
  when the bytes are there and the network does not fail.
\<close>

theorem readNext_is_stream:
  assumes "wf_buffer b" and "readNext need b = (r, b')"
  shows "(\<forall>s. r = Ok s \<longrightarrow> bytesAt b' s = take need (unread b) \<and> unread b' = drop need (unread b)
        \<and> need \<le> length (unread b) \<and> wf_buffer b')
    \<and> (\<forall>h. r \<noteq> Crash h)
    \<and> (healthy (b_nc b) \<and> need \<le> length (unread b) \<longrightarrow> (\<exists>s. r = Ok s))"
  using readNext_spec [OF assms(2,1)] by blast

theorem readNext_is_stream_witness:
  "\<exists>s b'. readNext 3 (newBuffer \<lparr>n_in = [([1], None), ([2, 3, 4], None)], n_wres = [], n_readDl = [],
       n_writeDl = [], n_check = None, n_out = [], n_closed = False\<rparr>) = (Ok s, b')
     \<and> bytesAt b' s = [1, 2, 3] \<and> unread b' = [4]"
proof -
  let ?n = "\<lparr>n_in = [([1], None), ([2, 3, 4], None)], n_wres = [], n_readDl = [],
       n_writeDl = [], n_check = None, n_out = [], n_closed = False\<rparr> :: net"
  have u: "unread (newBuffer ?n) = [1, 2, 3, 4]" by (simp add: newBuffer_unread incoming_def)
  have h: "healthy (b_nc (newBuffer ?n))" by (simp add: healthy_def newBuffer_def)
  obtain r b' where rd: "readNext 3 (newBuffer ?n) = (r, b')" by (cases "readNext 3 (newBuffer ?n)")
  from readNext_is_stream [OF newBuffer_wf rd] u h show ?thesis using rd by auto
qed

section \<open>Double buffering\<close>

text \<open>Reading several pieces in a row, up to the first failure.\<close>

fun readAll :: "nat list \<Rightarrow> (buffer, unit) act" where
  "readAll [] = ret ()"
| "readAll (n # ns) = thenA (readNext n) (\<lambda>_. readAll ns)"

lemma dbufAt_fill:
  assumes "fill need b = (r, b')" and "wf_buffer b" and "b_length b < need"
  shows "dbufAt b' = dbufAt b \<or> length (b_arrs b) \<le> dbufAt b'"
    and "r = Ok () \<Longrightarrow> b_buf b' = dbufAt b \<or> length (b_arrs b) \<le> b_buf b'"
proof -
  obtain dest b1 where g: "growDest need b = (dest, b1)" by (cases "growDest need b")
  note gs = growDest_spec [OF g assms(2)]
  have d1: "dbufAt b1 = dbufAt b \<or> dbufAt b1 = length (b_arrs b)"
    using g by (auto simp: growDest_def Let_def makeArr_def setDbuf_def dbufAt_def split: if_splits)
  have len1: "b_length b1 \<le> length (arr b1 dest)" using gs(1,4) assms(3) by simp
  from moveUnread_spec [OF gs(3,2) len1] obtain b2 where m: "moveUnread dest b1 = Ok b2"
    and ms: "length (arr b2 dest) = length (arr b1 dest)" "length (b_arrs b2) = length (b_arrs b1)"
      "b_length b2 = b_length b1" "b_dbuf b2 = b_dbuf b1" "b_flipcnt b2 = b_flipcnt b1"
    by blast
  let ?b = "b2\<lparr>b_buf := dest, b_idx := 0\<rparr>"
  have arr2: "arr ?b = arr b2" by (simp add: arr_def fun_eq_iff)
  have "fillLoop need (b_length b) ?b = (r, b')" using assms(1) g m gs(4) ms(3) by (simp add: fill_def)
  from fillLoop_spec [OF this] have fl: "fills ?b b'"
    using gs(2,4) ms(1-3) len1 by (simp add: arr2)
  then show "dbufAt b' = dbufAt b \<or> length (b_arrs b) \<le> dbufAt b'"
    using d1 ms(4,5) gs(8) by (auto simp: fills_def dbufAt_def)
  show "b_buf b' = dbufAt b \<or> length (b_arrs b) \<le> b_buf b'"
    using fl gs(10) by (auto simp: fills_def)
qed

lemma dbufAt_readNext:
  assumes "readNext need b = (r, b')" and "wf_buffer b"
  shows "dbufAt b' = dbufAt b \<or> length (b_arrs b) \<le> dbufAt b'"
proof (cases "b_length b < need")
  case True
  obtain q b1 where f: "fill need b = (q, b1)" by (cases "fill need b")
  have "dbufAt b' = dbufAt b1" using assms(1) True f
    by (auto simp: readNext_run cutBuf_def dbufAt_def split: res.splits if_splits)
  with dbufAt_fill(1) [OF f assms(2) True] show ?thesis by simp
next
  case False
  then show ?thesis using assms(1) by (auto simp: readNext_run cutBuf_def dbufAt_def split: if_splits)
qed

lemma readAll_frame:
  "readAll ns b = (r, b') \<Longrightarrow> wf_buffer b \<Longrightarrow> a < length (b_arrs b) \<Longrightarrow> a \<noteq> dbufAt b \<Longrightarrow> arr b' a = arr b a"
proof (induction ns arbitrary: b)
  case (Cons n ns)
  obtain q b1 where rd: "readNext n b = (q, b1)" by (cases "readNext n b")
  note sp = readNext_spec [OF rd Cons.prems(2)]
  have a1: "arr b1 a = arr b a" using sp Cons.prems by blast
  show ?case
  proof (cases q)
    case (Ok s)
    have "readAll ns b1 = (r, b')" using Cons.prems(1) rd Ok by (simp add: thenA_def)
    moreover have "a \<noteq> dbufAt b1" using dbufAt_readNext [OF rd Cons.prems(2)] Cons.prems(3,4) by auto
    moreover have "wf_buffer b1" "a < length (b_arrs b1)" using sp Ok Cons.prems(3) by auto
    ultimately show ?thesis using Cons.IH a1 by metis
  qed (use Cons.prems(1) rd a1 in \<open>auto simp: thenA_def\<close>)
qed simp

lemma flip_fields [simp]:
  "wf_buffer (flip b) = wf_buffer b" "b_arrs (flip b) = b_arrs b" "arr (flip b) = arr b"
  "dbufAt (flip b) = otherDbuf b"
proof -
  have "bit (w + 1) 0 = (\<not> bit w 0)" for w :: u64 by (simp add: bit_0)
  then show "dbufAt (flip b) = otherDbuf b" by (simp add: flip_def dbufAt_def otherDbuf_def)
qed (simp_all add: flip_def wf_buffer_def arr_def fun_eq_iff)

text \<open>
  A settled buffer holds no unread bytes in the array the next \<open>flip\<close> brings into use: it is empty,
  as on a connection at rest, or it was filled since the last \<open>flip\<close>. Reading keeps it settled, and
  a refill settles it.
\<close>

definition settled :: "buffer \<Rightarrow> bool" where
  "settled b \<longleftrightarrow> b_length b = 0 \<or> b_buf b \<noteq> otherDbuf b"

lemma readNext_settled:
  assumes "readNext need b = (Ok (a, off, len), b1)" and "wf_buffer b" and "fst (b_dbuf b) \<noteq> snd (b_dbuf b)"
    and "settled b \<or> b_length b < need"
  shows "settled b1" and "len = 0 \<or> a \<noteq> otherDbuf b1" and "a < length (b_arrs b1)"
proof -
  note sp = readNext_spec [OF assms(1,2)]
  have other: "otherDbuf b1 = otherDbuf b" "otherDbuf b < length (b_arrs b)" "otherDbuf b \<noteq> dbufAt b"
    using sp assms(2,3) by (auto simp: otherDbuf_def dbufAt_def wf_buffer_def)
  have w: "wf_buffer b1" using sp by blast
  have s: "a = b_buf b1" "len = need" using assms(1)
    by (auto simp: readNext_run cutBuf_def split: res.splits prod.splits if_splits)
  then show "a < length (b_arrs b1)" using w by (simp add: wf_buffer_def)
  have "(len = 0 \<and> settled b1) \<or> b_buf b1 \<noteq> otherDbuf b1"
  proof (cases "b_length b < need")
    case True
    obtain q b0 where f: "fill need b = (q, b0)" by (cases "fill need b")
    then have "q = Ok ()" "b_buf b1 = b_buf b0"
      using assms(1) True by (auto simp: readNext_run cutBuf_def split: res.splits if_splits)
    with dbufAt_fill(2) [OF f assms(2) True] other show ?thesis by auto
  next
    case False
    then have "b_buf b1 = b_buf b" "b_length b1 = b_length b - need"
      using assms(1) by (auto simp: readNext_run cutBuf_def split: if_splits)
    then show ?thesis using assms(4) False s other by (auto simp: settled_def)
  qed
  then show "settled b1" "len = 0 \<or> a \<noteq> otherDbuf b1" using s by (auto simp: settled_def)
qed

lemma readNext_dbuf:
  assumes "readNext need b = (r, b')" and "wf_buffer b" and "fst (b_dbuf b) \<noteq> snd (b_dbuf b)"
  shows "fst (b_dbuf b') \<noteq> snd (b_dbuf b')"
  using dbufAt_readNext [OF assms(1,2)] readNext_spec [OF assms(1,2)] assms(2,3)
  by (auto simp: otherDbuf_def dbufAt_def wf_buffer_def split: if_splits)

lemma readAll_settled:
  "readAll ms b = (Ok (), b') \<Longrightarrow> wf_buffer b \<Longrightarrow> fst (b_dbuf b) \<noteq> snd (b_dbuf b) \<Longrightarrow>
    wf_buffer b' \<and> fst (b_dbuf b') \<noteq> snd (b_dbuf b') \<and> (settled b \<longrightarrow> settled b')"
proof (induction ms arbitrary: b)
  case (Cons m ms)
  obtain q b1 where rd: "readNext m b = (q, b1)" by (cases "readNext m b")
  then obtain s where q: "q = Ok s" and rest: "readAll ms b1 = (Ok (), b')"
    using Cons.prems(1) by (cases q) (auto simp: thenA_def)
  have "settled b \<longrightarrow> settled b1" using readNext_settled(1) rd q Cons.prems(2,3) by (cases s) blast
  moreover have "wf_buffer b1" using readNext_spec [OF rd Cons.prems(2)] q by blast
  ultimately show ?case using Cons.IH [OF rest] readNext_dbuf [OF rd Cons.prems(2,3)] by blast
qed simp

text \<open>
  C19: The double buffering keeps its promise: the bytes of the slice read last before a \<open>flip\<close> stay
  what they are afterwards, however much is read then (until the next \<open>flip\<close>). This holds after any
  reads from a buffer that held no unread bytes of before the previous \<open>flip\<close> (it was empty, as on a
  connection at rest, or filled since), also when the slice was served from bytes already in the
  buffer, and it holds whenever reading the slice refilled the buffer. This is what \<open>Rows.Close\<close>
  relies on when it drains a result whose last row the caller still holds.
\<close>

theorem slice_survives_flip:
  assumes "wf_buffer b" and "fst (b_dbuf b) \<noteq> snd (b_dbuf b)"
    and "readAll ms b = (Ok (), b0)" and "readNext need b0 = (Ok s, b1)"
    and "b_length b = 0 \<or> b_buf b \<noteq> otherDbuf b \<or> b_length b0 < need"
    and "readAll ns (flip b1) = (r, b2)"
  shows "bytesAt b2 s = bytesAt b1 s"
proof -
  note b0 = readAll_settled [OF assms(3,1,2)]
  then have w0: "wf_buffer b0" and d0: "fst (b_dbuf b0) \<noteq> snd (b_dbuf b0)" by blast+
  have "settled b0 \<or> b_length b0 < need" using b0 assms(5) by (auto simp: settled_def)
  moreover obtain a off len where s: "s = (a, off, len)" by (cases s)
  ultimately have a: "len = 0 \<or> a \<noteq> otherDbuf b1" "a < length (b_arrs b1)"
    using readNext_settled [OF _ w0 d0] assms(4) by blast+
  have "wf_buffer b1" using readNext_spec [OF assms(4) w0] by blast
  then have "len = 0 \<or> arr b2 a = arr b1 a" using readAll_frame [OF assms(6)] a by auto
  then show ?thesis by (auto simp: s bytesAt_def)
qed

definition demoNet :: "byte list list \<Rightarrow> net" where
  "demoNet chunks = \<lparr>n_in = map (\<lambda>c. (c, None)) chunks, n_wres = [], n_readDl = [], n_writeDl = [],
     n_check = None, n_out = [], n_closed = False\<rparr>"

theorem slice_survives_flip_witness:
  "\<exists>b0 s b1 r b2. readAll [1] (newBuffer (demoNet [[1, 2, 3], [4, 5]])) = (Ok (), b0)
     \<and> readNext 2 b0 = (Ok s, b1) \<and> readAll [2] (flip b1) = (r, b2) \<and> bytesAt b2 s = [2, 3]"
proof -
  let ?b = "newBuffer (demoNet [[1, 2, 3], [4, 5]])"
  have u: "unread ?b = [1, 2, 3, 4, 5]" "healthy (b_nc ?b)"
    by (simp_all add: newBuffer_unread incoming_def) (simp_all add: demoNet_def healthy_def newBuffer_def)
  obtain q b0 where rd: "readNext 1 ?b = (q, b0)" by (cases "readNext 1 ?b")
  note sp = readNext_spec [OF rd newBuffer_wf]
  from sp u obtain s0 where q: "q = Ok s0" "unread b0 = [2, 3, 4, 5]" "wf_buffer b0" "healthy (b_nc b0)" by auto
  then have all: "readAll [1] ?b = (Ok (), b0)" using rd by (simp add: thenA_def)
  obtain q1 b1 where rd1: "readNext 2 b0 = (q1, b1)" by (cases "readNext 2 b0")
  with readNext_spec [OF rd1 q(3)] q obtain s where s: "readNext 2 b0 = (Ok s, b1)" "bytesAt b1 s = [2, 3]" by auto
  obtain r b2 where fl: "readAll [2] (flip b1) = (r, b2)" by (cases "readAll [2] (flip b1)")
  have d: "fst (b_dbuf ?b) \<noteq> snd (b_dbuf ?b)" "b_length ?b = 0 \<or> b_buf ?b \<noteq> otherDbuf ?b \<or> b_length b0 < 2"
    by (simp_all add: newBuffer_def)
  have "bytesAt b2 s = [2, 3]" using slice_survives_flip [OF newBuffer_wf d(1) all s(1) d(2) fl] s(2) by simp
  then show ?thesis using all s(1) fl by blast
qed

section \<open>Packets\<close>

text \<open>
  C4: A packet that one side writes is the packet the other side reads: \<open>readPacket\<close> gives back the
  payload of \<open>writePacket\<close>, of any length (split into frames where it must be) and however the
  network cuts the bytes, takes exactly the bytes of this packet off the stream, and both sides
  count the same sequence numbers. (An empty payload is no packet: the reader closes the connection.)
\<close>

theorem packet_round_trip:
  assumes "canWrite w" and "\<not> mc_reset w" and "4 < length data"
    and "int (length data) - 4 \<le> mc_maxAllowedPacket w" and "writePacket data w = (res, w')"
    and "canRead r" and "mc_sequence r = mc_sequence w"
    and "n_out (mc_net w') @ rest = n_out (mc_net w) @ unread (mc_buf r)"
  shows "res = Ok () \<and> (\<exists>r' spare. readPacket r = (Ok (drop 4 data, spare), r') \<and> unread (mc_buf r') = rest
    \<and> mc_sequence r' = mc_sequence w')"
proof -
  let ?p = "drop 4 data"
  from writePacket_frames [OF assms(1,2) _ assms(4)] assms(3,5)
  have res: "res = Ok ()" and w: "wrote (frames (mc_sequence w) ?p) (frameCount ?p) w w'" by auto
  then have "n_out (mc_net w') = n_out (mc_net w) @ frames (mc_sequence w) ?p"
    and seq: "mc_sequence w' = mc_sequence w + of_nat (frameCount ?p)"
    by (auto simp: wrote_def)
  then have "unread (mc_buf r) = frames (mc_sequence r) ?p @ rest" using assms(7,8) by simp
  from readPacket_frames [OF assms(6) this] assms(3) obtain b sp where
    "readPacket r = (Ok (?p, sp), r\<lparr>mc_buf := b, mc_sequence := mc_sequence r + of_nat (frameCount ?p)\<rparr>)"
    "unread b = rest" by auto
  then show ?thesis using res seq assms(7) by simp
qed

definition demoMc :: "byte list list \<Rightarrow> mysqlConn" where
  "demoMc chunks = \<lparr>mc_buf = newBuffer (demoNet chunks), mc_affectedRows = 0, mc_insertId = 0,
     mc_cfg = NewConfig,
     mc_maxAllowedPacket = 1000, mc_maxWriteSize = 1000, mc_writeTimeout = 0, mc_flags = 0, mc_status = 0,
     mc_sequence = 0, mc_parseTime = False, mc_reset = False, mc_canceled = None, mc_closed = False,
     mc_watcher = False, mc_watching = False\<rparr>"

lemma demoMc_fields [simp]:
  "canWrite (demoMc chunks)" "canRead (demoMc chunks)" "mc_sequence (demoMc chunks) = 0"
  "\<not> mc_reset (demoMc chunks)" "mc_maxAllowedPacket (demoMc chunks) = 1000"
  "unread (mc_buf (demoMc chunks)) = concat chunks" "n_out (mc_net (demoMc chunks)) = []"
  "wf_mc (demoMc chunks)" "b_length (mc_buf (demoMc chunks)) = 0"
  using newBuffer_unread [of "demoNet chunks"] newBuffer_wf [of "demoNet chunks"] newBuffer_roomy [of "demoNet chunks"]
  by (simp_all add: demoMc_def canWrite_def canRead_def newBuffer_def demoNet_def healthy_def incoming_def
      list_all_iff wf_mc_def comp_def)

theorem packet_round_trip_witness:
  "\<exists>w' r' spare. writePacket [0, 0, 0, 0, 3, 0x41] (demoMc []) = (Ok (), w')
     \<and> readPacket (demoMc [[2], [0, 0, 0, 3], [0x41, 9]]) = (Ok ([3, 0x41], spare), r') \<and> unread (mc_buf r') = [9]"
proof -
  obtain res w' where w: "writePacket [0, 0, 0, 0, 3, 0x41] (demoMc []) = (res, w')"
    by (cases "writePacket [0, 0, 0, 0, 3, 0x41] (demoMc [])")
  have fr: "frames 0 [3, 0x41] = [2, 0, 0, 0, 3, 0x41]"
    by (simp add: frames.simps [of 0 "[3, 0x41]"] maxPacketSize_def header_def)
  from writePacket_frames [of "demoMc []" "[0, 0, 0, 0, 3, 0x41]"] w
  have "n_out (mc_net w') = frames 0 [3, 0x41]" by (auto simp: wrote_def)
  with packet_round_trip [OF _ _ _ _ w, of "demoMc [[2], [0, 0, 0, 3], [0x41, 9]]" "[9]"] fr w
  show ?thesis by auto
qed

text \<open>
  C22: \<open>readPacket\<close> never panics and never hands out an empty packet, whatever bytes the peer sends and
  whatever the network does; so the first byte that every handler of a packet looks at is there.
  A packet leaves the buffer well-formed for the next one.
\<close>

theorem readPacket_is_safe:
  assumes "wf_mc mc" and "readPacket mc = (r, mc')"
  shows "(\<forall>h. r \<noteq> Crash h) \<and> (\<forall>d spare. r = Ok (d, spare) \<longrightarrow> d \<noteq> [] \<and> wf_mc mc')"
  using readPacket_safe [OF assms(2,1)] by blast

theorem readPacket_is_safe_witness:
  "\<exists>r mc'. readPacket (demoMc [[0, 0, 0, 0]]) = (r, mc') \<and> (\<forall>h. r \<noteq> Crash h)"
proof -
  obtain r mc' where run: "readPacket (demoMc [[0, 0, 0, 0]]) = (r, mc')"
    by (cases "readPacket (demoMc [[0, 0, 0, 0]])")
  from readPacket_is_safe [OF _ this] have "\<forall>h. r \<noteq> Crash h" by simp
  with run show ?thesis by blast
qed

lemma takeBuffer_ok:
  assumes "b_length b = 0"
  shows "\<exists>s b'. takeBuffer n b = (Ok s, b') \<and> length (bytesAt b' s) = n \<and> b_nc b' = b_nc b"
proof (cases "n \<le> length (arr b (b_buf b))")
  case True
  then show ?thesis using assms by (simp add: takeBuffer_def bytesAt_def)
next
  case False
  then show ?thesis using assms by (simp add: takeBuffer_def makeArr_def bytesAt_def arr_def)
qed

lemma command_data:
  assumes "length xs = 1 + length arg + 4"
  shows "drop 4 (copy_at (xs[4 := command]) 5 arg) = command # arg"
proof -
  have "copy_at (xs[4 := command]) 5 arg = take 5 (xs[4 := command]) @ arg"
    using assms by (simp add: copy_at_fits)
  moreover have "take 5 (xs[4 := command]) = take 4 xs @ [command]"
    using assms take_Suc_conv_app_nth [of 4 "xs[4 := command]"] by simp
  ultimately show ?thesis using assms by simp
qed

text \<open>
  A text command puts exactly its frames on the wire: the command byte and the argument. Nothing of
  what the shared buffer held before (rows of an earlier result) gets out with it.
\<close>

theorem command_sends_only_itself:
  assumes "canWrite mc" and "\<not> mc_reset mc" and "b_length (mc_buf mc) = 0"
    and "1 + int (length arg) \<le> mc_maxAllowedPacket mc"
  shows "\<exists>mc'. writeCommandPacketStr command arg mc = (Ok (), mc')
    \<and> n_out (mc_net mc') = n_out (mc_net mc) @ frames 0 (command # arg)"
proof -
  let ?len = "1 + length arg + 4" and ?mc0 = "mc\<lparr>mc_sequence := 0\<rparr>"
  obtain s b where tk: "takeBuffer ?len (mc_buf mc) = (Ok s, b)" and len: "length (bytesAt b s) = ?len"
    and nc: "b_nc b = mc_net mc"
    using takeBuffer_ok [OF assms(3)] by blast
  let ?data = "copy_at ((bytesAt b s)[4 := command]) 5 arg" and ?mc1 = "?mc0\<lparr>mc_buf := b\<rparr>"
  have d: "drop 4 ?data = command # arg" by (rule command_data) (use len in simp)
  have "length ?data = ?len" using len by simp
  with writePacket_frames [of ?mc1 ?data] assms(1,2,4) nc obtain mc' where
    wp: "writePacket ?data ?mc1 = (Ok (), mc')" and wr: "wrote (frames 0 (drop 4 ?data)) (frameCount (drop 4 ?data)) ?mc1 mc'"
    by (auto simp: canWrite_def)
  have "writeCommandPacketStr command arg mc = (Ok (), mc')"
    using tk wp by (simp add: writeCommandPacketStr_def thenA_def [of "tryA _"] tryA_onBuf)
  moreover have "n_out (mc_net mc') = n_out (mc_net mc) @ frames 0 (command # arg)"
    using wr nc unfolding d by (auto simp: wrote_def)
  ultimately show ?thesis by blast
qed

theorem command_sends_only_itself_witness:
  "\<exists>mc'. writeCommandPacketStr comQuery [0x53] (demoMc []) = (Ok (), mc')
    \<and> n_out (mc_net mc') = frames 0 [comQuery, 0x53]"
  using command_sends_only_itself [of "demoMc []" "[0x53]" comQuery] by simp

text \<open>
  The length of the rest and the rest itself shrink together, so the test that is meant to be true
  in the first iteration only is true in each: when the second frame of a large packet cannot be
  written, 16 MiB are on the wire, yet the caller is told that nothing was written, the error that
  makes \<open>database/sql\<close> send the query again, and the connection is not closed.
\<close>

theorem late_failure_reported_as_no_write:
  assumes "\<not> n_closed (mc_net mc)" and "n_wres (mc_net mc) = [None, Some (0, Some e)]"
    and "mc_writeTimeout mc = 0" and "mc_canceled mc = None" and "\<not> mc_reset mc"
    and "maxPacketSize + 4 \<le> length data" and "int (length data) - 4 \<le> mc_maxAllowedPacket mc"
  shows "\<exists>mc'. writePacket data mc = (Fail ErrBadConnNoWrite, mc')
    \<and> n_out (mc_net mc') = n_out (mc_net mc) @ header maxPacketSize (mc_sequence mc) @ take maxPacketSize (drop 4 data)
    \<and> mc_closed mc' = mc_closed mc \<and> markBadConn ErrBadConnNoWrite = ErrBadConn"
proof -
  let ?pktLen = "int (length data) - 4" and ?h = "header maxPacketSize (mc_sequence mc)"
  let ?d = "drop maxPacketSize (?h @ drop 4 data)"
  let ?mc1 = "updNet (\<lambda>_. (mc_net mc)\<lparr>n_out := n_out (mc_net mc) @ ?h @ take maxPacketSize (drop 4 data),
    n_wres := [Some (0, Some e)]\<rparr>) (mc\<lparr>mc_sequence := mc_sequence mc + 1\<rparr>)"
  have arm: "armWrite m = (Ok (), m)" if "mc_writeTimeout m = 0" for m
    using that by (simp add: armWrite_def)
  have sl: "slice (?h @ drop 4 data) 0 (4 + maxPacketSize) = Ok (?h @ take maxPacketSize (drop 4 data))"
    using assms(6) by (simp add: slice_def)
  have l: "length (take maxPacketSize (drop 4 data)) = maxPacketSize" using assms(6) by simp
  have one: "writeLoop ?pktLen data mc = writeLoop (?pktLen - int maxPacketSize) ?d ?mc1"
    using assms(1-3,6) l
    by (subst writeLoop.simps, simp add: Let_def sl seqA_Ok [of armWrite, OF arm] thenA_onNet netWrite_def
        del: length_take drop_append)
  have ld: "int (length ?d) = ?pktLen - int maxPacketSize + 4" using assms(6) by simp
  have two: "writeLoop k ?d ?mc1 = (Fail ErrBadConnNoWrite, updNet (\<lambda>c. c\<lparr>n_wres := []\<rparr>) ?mc1)"
    if "int (length ?d) = k + 4" "0 \<le> k" for k
  proof -
    have big: "\<not> length ?d < 4" using that by linarith
    have "min (nat k) maxPacketSize + 4 \<le> length ?d" using that by linarith
    then have "\<exists>out. slice (header sz q @ drop 4 ?d) 0 (4 + sz) = Ok out"
      if "sz = (if int maxPacketSize \<le> k then maxPacketSize else nat k)" for sz q
      using that by (auto simp: slice_def split: if_splits)
    then obtain out where out: "slice (header (if int maxPacketSize \<le> k then maxPacketSize else nat k)
        (mc_sequence ?mc1) @ drop 4 ?d) 0 (4 + (if int maxPacketSize \<le> k then maxPacketSize else nat k)) = Ok out"
      by blast
    have t: "mc_writeTimeout ?mc1 = 0" using assms(3) by simp
    have hd: "int (length (header q z @ drop 4 ?d)) = k + 4" for q z using that big by simp
    show ?thesis
      using assms(1,4) big out hd
      by (subst writeLoop.simps, simp only: if_False Let_def thenA_getA seqA_Ok [of armWrite, OF arm [OF t]] out
          thenA_liftA thenA_onNet)
        (simp add: netWrite_def writeFailed_def del: drop_append length_append length_drop)
  qed
  have "0 \<le> ?pktLen - int maxPacketSize" using assms(6) by linarith
  note two = two [OF ld this]
  show ?thesis
    using assms(5,7) one two by (simp add: writePacket_def writeFrames_def Let_def markBadConn_def)
qed

end
