(* ===== verification/MysqlFields.thy ===== *)
theory MysqlFields
  imports MysqlConfig
begin

text \<open>
  Column types of the protocol (\<open>mysql/const.go\<close>), what the driver tells about a column
  (\<open>mysql/fields.go\<close>), and the tables of collations (\<open>mysql/collations.go\<close>).
\<close>

section \<open>Types and flags\<close>

definition fieldTypeDecimal :: byte where "fieldTypeDecimal = 0"
definition fieldTypeTiny :: byte where "fieldTypeTiny = 1"
definition fieldTypeShort :: byte where "fieldTypeShort = 2"
definition fieldTypeLong :: byte where "fieldTypeLong = 3"
definition fieldTypeFloat :: byte where "fieldTypeFloat = 4"
definition fieldTypeDouble :: byte where "fieldTypeDouble = 5"
definition fieldTypeNULL :: byte where "fieldTypeNULL = 6"
definition fieldTypeTimestamp :: byte where "fieldTypeTimestamp = 7"
definition fieldTypeLongLong :: byte where "fieldTypeLongLong = 8"
definition fieldTypeInt24 :: byte where "fieldTypeInt24 = 9"
definition fieldTypeDate :: byte where "fieldTypeDate = 10"
definition fieldTypeTime :: byte where "fieldTypeTime = 11"
definition fieldTypeDateTime :: byte where "fieldTypeDateTime = 12"
definition fieldTypeYear :: byte where "fieldTypeYear = 13"
definition fieldTypeNewDate :: byte where "fieldTypeNewDate = 14"
definition fieldTypeVarChar :: byte where "fieldTypeVarChar = 15"
definition fieldTypeBit :: byte where "fieldTypeBit = 16"
definition fieldTypeJSON :: byte where "fieldTypeJSON = 0xf5"
definition fieldTypeNewDecimal :: byte where "fieldTypeNewDecimal = 0xf6"
definition fieldTypeEnum :: byte where "fieldTypeEnum = 0xf7"
definition fieldTypeSet :: byte where "fieldTypeSet = 0xf8"
definition fieldTypeTinyBLOB :: byte where "fieldTypeTinyBLOB = 0xf9"
definition fieldTypeMediumBLOB :: byte where "fieldTypeMediumBLOB = 0xfa"
definition fieldTypeLongBLOB :: byte where "fieldTypeLongBLOB = 0xfb"
definition fieldTypeBLOB :: byte where "fieldTypeBLOB = 0xfc"
definition fieldTypeVarString :: byte where "fieldTypeVarString = 0xfd"
definition fieldTypeString :: byte where "fieldTypeString = 0xfe"
definition fieldTypeGeometry :: byte where "fieldTypeGeometry = 0xff"

lemmas fieldType_defs = fieldTypeDecimal_def fieldTypeTiny_def fieldTypeShort_def
  fieldTypeLong_def fieldTypeFloat_def fieldTypeDouble_def fieldTypeNULL_def
  fieldTypeTimestamp_def fieldTypeLongLong_def fieldTypeInt24_def fieldTypeDate_def
  fieldTypeTime_def fieldTypeDateTime_def fieldTypeYear_def fieldTypeNewDate_def
  fieldTypeVarChar_def fieldTypeBit_def fieldTypeJSON_def fieldTypeNewDecimal_def
  fieldTypeEnum_def fieldTypeSet_def fieldTypeTinyBLOB_def fieldTypeMediumBLOB_def
  fieldTypeLongBLOB_def fieldTypeBLOB_def fieldTypeVarString_def fieldTypeString_def
  fieldTypeGeometry_def

definition flagNotNULL :: u16 where "flagNotNULL = 1"
definition flagUnsigned :: u16 where "flagUnsigned = 32"

record mysqlField =
  mf_tableName :: "byte list"
  mf_name :: "byte list"
  mf_length :: u32
  mf_flags :: u16
  mf_fieldType :: byte
  mf_decimals :: byte
  mf_charSet :: byte

definition notNull :: "mysqlField \<Rightarrow> bool" where
  "notNull mf \<longleftrightarrow> mf_flags mf AND flagNotNULL \<noteq> 0"

definition unsignedCol :: "mysqlField \<Rightarrow> bool" where
  "unsignedCol mf \<longleftrightarrow> mf_flags mf AND flagUnsigned \<noteq> 0"

section \<open>Collations\<close>

definition collations :: "(string \<times> byte) list" where
  "collations = [
     (''big5_chinese_ci'', 1), (''latin2_czech_cs'', 2), (''dec8_swedish_ci'', 3),
     (''cp850_general_ci'', 4), (''latin1_german1_ci'', 5), (''hp8_english_ci'', 6),
     (''koi8r_general_ci'', 7), (''latin1_swedish_ci'', 8), (''latin2_general_ci'', 9),
     (''swe7_swedish_ci'', 10), (''ascii_general_ci'', 11), (''ujis_japanese_ci'', 12),
     (''sjis_japanese_ci'', 13), (''cp1251_bulgarian_ci'', 14), (''latin1_danish_ci'', 15),
     (''hebrew_general_ci'', 16), (''tis620_thai_ci'', 18), (''euckr_korean_ci'', 19),
     (''latin7_estonian_cs'', 20), (''latin2_hungarian_ci'', 21), (''koi8u_general_ci'', 22),
     (''cp1251_ukrainian_ci'', 23), (''gb2312_chinese_ci'', 24), (''greek_general_ci'', 25),
     (''cp1250_general_ci'', 26), (''latin2_croatian_ci'', 27), (''gbk_chinese_ci'', 28),
     (''cp1257_lithuanian_ci'', 29), (''latin5_turkish_ci'', 30), (''latin1_german2_ci'', 31),
     (''armscii8_general_ci'', 32), (''utf8_general_ci'', 33), (''cp1250_czech_cs'', 34),
     (''cp866_general_ci'', 36), (''keybcs2_general_ci'', 37), (''macce_general_ci'', 38),
     (''macroman_general_ci'', 39), (''cp852_general_ci'', 40), (''latin7_general_ci'', 41),
     (''latin7_general_cs'', 42), (''macce_bin'', 43), (''cp1250_croatian_ci'', 44),
     (''utf8mb4_general_ci'', 45), (''utf8mb4_bin'', 46), (''latin1_bin'', 47),
     (''latin1_general_ci'', 48), (''latin1_general_cs'', 49), (''cp1251_bin'', 50),
     (''cp1251_general_ci'', 51), (''cp1251_general_cs'', 52), (''macroman_bin'', 53),
     (''cp1256_general_ci'', 57), (''cp1257_bin'', 58), (''cp1257_general_ci'', 59),
     (''binary'', 63), (''armscii8_bin'', 64), (''ascii_bin'', 65), (''cp1250_bin'', 66),
     (''cp1256_bin'', 67), (''cp866_bin'', 68), (''dec8_bin'', 69), (''greek_bin'', 70),
     (''hebrew_bin'', 71), (''hp8_bin'', 72), (''keybcs2_bin'', 73), (''koi8r_bin'', 74),
     (''koi8u_bin'', 75), (''utf8_tolower_ci'', 76), (''latin2_bin'', 77), (''latin5_bin'', 78),
     (''latin7_bin'', 79), (''cp850_bin'', 80), (''cp852_bin'', 81), (''swe7_bin'', 82),
     (''utf8_bin'', 83), (''big5_bin'', 84), (''euckr_bin'', 85), (''gb2312_bin'', 86),
     (''gbk_bin'', 87), (''sjis_bin'', 88), (''tis620_bin'', 89), (''ujis_bin'', 91),
     (''geostd8_general_ci'', 92), (''geostd8_bin'', 93), (''latin1_spanish_ci'', 94),
     (''cp932_japanese_ci'', 95), (''cp932_bin'', 96), (''eucjpms_japanese_ci'', 97),
     (''eucjpms_bin'', 98), (''cp1250_polish_ci'', 99), (''utf8_unicode_ci'', 192),
     (''utf8_icelandic_ci'', 193), (''utf8_latvian_ci'', 194), (''utf8_romanian_ci'', 195),
     (''utf8_slovenian_ci'', 196), (''utf8_polish_ci'', 197), (''utf8_estonian_ci'', 198),
     (''utf8_spanish_ci'', 199), (''utf8_swedish_ci'', 200), (''utf8_turkish_ci'', 201),
     (''utf8_czech_ci'', 202), (''utf8_danish_ci'', 203), (''utf8_lithuanian_ci'', 204),
     (''utf8_slovak_ci'', 205), (''utf8_spanish2_ci'', 206), (''utf8_roman_ci'', 207),
     (''utf8_persian_ci'', 208), (''utf8_esperanto_ci'', 209), (''utf8_hungarian_ci'', 210),
     (''utf8_sinhala_ci'', 211), (''utf8_german2_ci'', 212), (''utf8_croatian_ci'', 213),
     (''utf8_unicode_520_ci'', 214), (''utf8_vietnamese_ci'', 215),
     (''utf8_general_mysql500_ci'', 223), (''utf8mb4_unicode_ci'', 224),
     (''utf8mb4_icelandic_ci'', 225), (''utf8mb4_latvian_ci'', 226),
     (''utf8mb4_romanian_ci'', 227), (''utf8mb4_slovenian_ci'', 228), (''utf8mb4_polish_ci'', 229),
     (''utf8mb4_estonian_ci'', 230), (''utf8mb4_spanish_ci'', 231), (''utf8mb4_swedish_ci'', 232),
     (''utf8mb4_turkish_ci'', 233), (''utf8mb4_czech_ci'', 234), (''utf8mb4_danish_ci'', 235),
     (''utf8mb4_lithuanian_ci'', 236), (''utf8mb4_slovak_ci'', 237),
     (''utf8mb4_spanish2_ci'', 238), (''utf8mb4_roman_ci'', 239), (''utf8mb4_persian_ci'', 240),
     (''utf8mb4_esperanto_ci'', 241), (''utf8mb4_hungarian_ci'', 242),
     (''utf8mb4_sinhala_ci'', 243), (''utf8mb4_german2_ci'', 244), (''utf8mb4_croatian_ci'', 245),
     (''utf8mb4_unicode_520_ci'', 246), (''utf8mb4_vietnamese_ci'', 247),
     (''gb18030_chinese_ci'', 248), (''gb18030_bin'', 249), (''gb18030_unicode_520_ci'', 250),
     (''utf8mb4_0900_ai_ci'', 255)  ]"

definition unsafeCollations :: "string list" where
  "unsafeCollations = [
     ''big5_chinese_ci'', ''sjis_japanese_ci'', ''gbk_chinese_ci'', ''big5_bin'', ''gb2312_bin'',
     ''gbk_bin'', ''sjis_bin'', ''cp932_japanese_ci'', ''cp932_bin'', ''gb18030_chinese_ci'',
     ''gb18030_bin'', ''gb18030_unicode_520_ci''  ]"

definition binaryCollation :: string where
  "binaryCollation = ''binary''"

text \<open>An index of a Go map that is not there gives the zero value.\<close>

definition collationId :: "string \<Rightarrow> byte" where
  "collationId c = (case map_of collations c of Some i \<Rightarrow> i | None \<Rightarrow> 0)"

section \<open>Column information\<close>

definition typeDatabaseName :: "mysqlField \<Rightarrow> string" where
  "typeDatabaseName mf =
     (let t = mf_fieldType mf; binary = (mf_charSet mf = collationId binaryCollation)
      in if t = fieldTypeBit then ''BIT''
      else if t = fieldTypeBLOB then (if \<not> binary then ''TEXT'' else ''BLOB'')
      else if t = fieldTypeDate then ''DATE''
      else if t = fieldTypeDateTime then ''DATETIME''
      else if t = fieldTypeDecimal then ''DECIMAL''
      else if t = fieldTypeDouble then ''DOUBLE''
      else if t = fieldTypeEnum then ''ENUM''
      else if t = fieldTypeFloat then ''FLOAT''
      else if t = fieldTypeGeometry then ''GEOMETRY''
      else if t = fieldTypeInt24 then ''MEDIUMINT''
      else if t = fieldTypeJSON then ''JSON''
      else if t = fieldTypeLong then ''INT''
      else if t = fieldTypeLongBLOB then (if \<not> binary then ''LONGTEXT'' else ''LONGBLOB'')
      else if t = fieldTypeLongLong then ''BIGINT''
      else if t = fieldTypeMediumBLOB then (if \<not> binary then ''MEDIUMTEXT'' else ''MEDIUMBLOB'')
      else if t = fieldTypeNewDate then ''DATE''
      else if t = fieldTypeNewDecimal then ''DECIMAL''
      else if t = fieldTypeNULL then ''NULL''
      else if t = fieldTypeSet then ''SET''
      else if t = fieldTypeShort then ''SMALLINT''
      else if t = fieldTypeString then (if binary then ''BINARY'' else ''CHAR'')
      else if t = fieldTypeTime then ''TIME''
      else if t = fieldTypeTimestamp then ''TIMESTAMP''
      else if t = fieldTypeTiny then ''TINYINT''
      else if t = fieldTypeTinyBLOB then (if \<not> binary then ''TINYTEXT'' else ''TINYBLOB'')
      else if t = fieldTypeVarChar then (if binary then ''VARBINARY'' else ''VARCHAR'')
      else if t = fieldTypeVarString then (if binary then ''VARBINARY'' else ''VARCHAR'')
      else if t = fieldTypeYear then ''YEAR''
      else [])"

datatype scanKind =
    ScanFloat32 | ScanFloat64 | ScanInt8 | ScanInt16 | ScanInt32 | ScanInt64
  | ScanNullFloat | ScanNullInt | ScanNullTime
  | ScanUint8 | ScanUint16 | ScanUint32 | ScanUint64 | ScanRawBytes | ScanUnknown

definition scanInt :: "mysqlField \<Rightarrow> scanKind \<Rightarrow> scanKind \<Rightarrow> scanKind" where
  "scanInt mf u i =
     (if notNull mf then (if unsignedCol mf then u else i) else ScanNullInt)"

definition rawTypes :: "byte list" where
  "rawTypes = [fieldTypeDecimal, fieldTypeNewDecimal, fieldTypeVarChar, fieldTypeBit, fieldTypeEnum,
     fieldTypeSet, fieldTypeTinyBLOB, fieldTypeMediumBLOB, fieldTypeLongBLOB, fieldTypeBLOB,
     fieldTypeVarString, fieldTypeString, fieldTypeGeometry, fieldTypeJSON]"

definition scanType :: "mysqlField \<Rightarrow> scanKind" where
  "scanType mf =
     (let t = mf_fieldType mf
      in if t = fieldTypeTiny then scanInt mf ScanUint8 ScanInt8
      else if t = fieldTypeShort \<or> t = fieldTypeYear then scanInt mf ScanUint16 ScanInt16
      else if t = fieldTypeInt24 \<or> t = fieldTypeLong then scanInt mf ScanUint32 ScanInt32
      else if t = fieldTypeLongLong then scanInt mf ScanUint64 ScanInt64
      else if t = fieldTypeFloat then (if notNull mf then ScanFloat32 else ScanNullFloat)
      else if t = fieldTypeDouble then (if notNull mf then ScanFloat64 else ScanNullFloat)
      else if t \<in> set rawTypes \<or> t = fieldTypeTime then ScanRawBytes
      else if t \<in> {fieldTypeDate, fieldTypeNewDate, fieldTypeTimestamp, fieldTypeDateTime} then ScanNullTime
      else ScanUnknown)"

end
