(* ===== verification/MysqlResult.thy ===== *)
theory MysqlResult
  imports MysqlConn MysqlFields
begin

text \<open>
  Result packets, \<open>mysql/packets.go\<close> lines 522 to 632, 803 to 821 and 1152 to 1170, and the upload of local files
  (\<open>mysql/infile.go\<close>). A packet is its bytes with the spare bytes behind it: an index is checked
  against the length, the end of a slice expression against the capacity. Loops over packets have as
  fuel the number of bytes that are unread, which each packet decreases.
\<close>

section \<open>Bounds\<close>

definition from_pos :: "byte list \<Rightarrow> int \<Rightarrow> byte list res" where
  "from_pos data pos = (if 0 \<le> pos then slice_from data (nat pos) else Crash IndexOutOfRange)"

definition sub_slice :: "slice \<Rightarrow> int \<Rightarrow> int \<Rightarrow> byte list res" where
  "sub_slice = (\<lambda>(data, spare) i j. slice_int (data @ spare) i j)"

definition fuelOf :: "mysqlConn \<Rightarrow> nat" where
  "fuelOf mc = Suc (length (unread (mc_buf mc)))"

definition withFuel :: "(nat \<Rightarrow> (mysqlConn, 'a) act) \<Rightarrow> (mysqlConn, 'a) act" where
  "withFuel f = (\<lambda>mc. f (fuelOf mc) mc)"

definition first :: "slice \<Rightarrow> byte res" where
  "first data = idx (fst data) 0"

section \<open>OK and error packets\<close>

definition readStatus :: "byte list \<Rightarrow> u16 res" where
  "readStatus b = bindR (idx b 0) (\<lambda>b0. bindR (idx b 1) (\<lambda>b1. Ok (ucast b0 OR push_bit 8 (ucast b1))))"

text \<open>\<open>handleErrorPacket\<close> always returns an error: the value is the result of the call.\<close>

definition handleErrorPacket :: "slice \<Rightarrow> (mysqlConn, gerr) act" where
  "handleErrorPacket data =
     thenA (liftA (first data)) (\<lambda>d0.
     if d0 \<noteq> iERR then ret ErrMalformPkt
     else
       thenA (liftA (bindR (sub_slice data 1 3) (le_uint 2))) (\<lambda>errno :: u16.
       thenA (getA mc_cfg) (\<lambda>cfg.
       if (errno = 1792 \<or> errno = 1290) \<and> cfg_RejectReadOnly cfg then
         seqA (tryA mcClose) (ret ErrBadConn)
       else
         thenA (liftA (idx (fst data) 3)) (\<lambda>d3.
         thenA (liftA (slice_from (fst data) (if d3 = 0x23 then 9 else 3))) (\<lambda>msg.
         ret (MySQLError errno msg))))))"

definition failWith :: "(mysqlConn, gerr) act \<Rightarrow> (mysqlConn, 'a) act" where
  "failWith m = thenA m fail"

definition handleOkPacket :: "slice \<Rightarrow> (mysqlConn, unit) act" where
  "handleOkPacket data =
     thenA (liftA (bindR (slice_from (fst data) 1) readLengthEncodedInteger)) (\<lambda>(rows, _, n).
     seqA (modA (\<lambda>mc. mc\<lparr>mc_affectedRows := rows\<rparr>))
    (thenA (liftA (bindR (slice_from (fst data) (1 + n)) readLengthEncodedInteger)) (\<lambda>(ident, _, m).
     seqA (modA (\<lambda>mc. mc\<lparr>mc_insertId := ident\<rparr>))
    (thenA (liftA (bindR (sub_slice data (int (1 + n + m)) (int (1 + n + m + 2))) readStatus)) (\<lambda>st.
     modA (\<lambda>mc. mc\<lparr>mc_status := st\<rparr>))))))"

definition readResultOK :: "(mysqlConn, unit) act" where
  "readResultOK =
     thenA readPacket (\<lambda>data.
     thenA (liftA (first data)) (\<lambda>d0.
     if d0 = iOK then handleOkPacket data else failWith (handleErrorPacket data)))"

definition moreResults :: "mysqlConn \<Rightarrow> bool" where
  "moreResults mc \<longleftrightarrow> mc_status mc AND statusMoreResultsExists \<noteq> 0"

section \<open>Local files\<close>

text \<open>
  What the process offers: the registered readers (a handler may return nil) and the registered
  files; opening a file gives its contents as the answers of \<open>Read\<close>, the outcome of \<open>Stat\<close> (its
  size) and the error that closing returns.
\<close>

record fileReader =
  fr_chunks :: "(byte list \<times> gerr option) list"
  fr_close :: "gerr option"

record infileEnv =
  if_readers :: "(byte list \<times> fileReader option) list"
  if_files :: "byte list list"
  if_open :: "byte list \<Rightarrow> gerr + (fileReader \<times> (gerr + nat))"

text \<open>\<open>strings.Index\<close> and \<open>strings.Trim(name, "\\"")\<close>.\<close>

fun indexOf :: "byte list \<Rightarrow> byte list \<Rightarrow> nat option" where
  "indexOf [] pat = (if pat = [] then Some 0 else None)"
| "indexOf (c # s) pat =
     (if take (length pat) (c # s) = pat then Some 0 else map_option Suc (indexOf s pat))"

definition trimQuotes :: "byte list \<Rightarrow> byte list" where
  "trimQuotes s = rev (dropWhile (\<lambda>c. c = 0x22) (rev (dropWhile (\<lambda>c. c = 0x22) s)))"

definition RegisterLocalFile :: "byte list \<Rightarrow> infileEnv \<Rightarrow> infileEnv" where
  "RegisterLocalFile filePath E = E\<lparr>if_files := trimQuotes filePath # removeAll (trimQuotes filePath) (if_files E)\<rparr>"

definition DeregisterLocalFile :: "byte list \<Rightarrow> infileEnv \<Rightarrow> infileEnv" where
  "DeregisterLocalFile filePath E = E\<lparr>if_files := removeAll (trimQuotes filePath) (if_files E)\<rparr>"

definition RegisterReaderHandler :: "byte list \<Rightarrow> fileReader option \<Rightarrow> infileEnv \<Rightarrow> infileEnv" where
  "RegisterReaderHandler name handler E =
     E\<lparr>if_readers := (name, handler) # filter (\<lambda>(n, _). n \<noteq> name) (if_readers E)\<rparr>"

definition DeregisterReaderHandler :: "byte list \<Rightarrow> infileEnv \<Rightarrow> infileEnv" where
  "DeregisterReaderHandler name E = E\<lparr>if_readers := filter (\<lambda>(n, _). n \<noteq> name) (if_readers E)\<rparr>"

text \<open>
  Where the data comes from: a reader with the error so far and the size limit. A file that was
  opened is closed at the end, also when \<open>Stat\<close> failed.
\<close>

definition infileSource ::
    "infileEnv \<Rightarrow> bool \<Rightarrow> int \<Rightarrow> byte list \<Rightarrow> gerr option \<times> int \<times> fileReader option" where
  "infileSource E allowAll packetSize name =
     (let ix = indexOf name (bytes_of ''Reader::'')
      in if ix = Some 0 \<or> (\<exists>k \<in> set_option ix. k > 0 \<and> name ! (k - 1) = byte_of CHR ''/'') then
           let name = drop (the ix + 8) name
           in (case map_of (if_readers E) name of
                 None \<Rightarrow> (Some (ErrMsg ''Reader is not registered''), packetSize, None)
               | Some None \<Rightarrow> (Some (ErrMsg ''Reader is <nil>''), packetSize, None)
               | Some (Some r) \<Rightarrow> (None, packetSize, Some r))
         else
           let name = trimQuotes name
           in if allowAll \<or> name \<in> set (if_files E) then
                (case if_open E name of
                   Inl e \<Rightarrow> (Some e, packetSize, None)
                 | Inr (file, Inl e) \<Rightarrow> (Some e, packetSize, Some file)
                 | Inr (file, Inr fileSize) \<Rightarrow> (None, min packetSize (int fileSize), Some file))
              else (Some (ErrMsg ''local file is not registered''), packetSize, None))"

text \<open>
  The content packets: every non-empty piece the reader gives is one packet; the loop ends with the
  reader's error, of which the end of the file is none. A failed write ends the call with its error.
\<close>

fun sendChunks :: "(byte list \<times> gerr option) list \<Rightarrow> (mysqlConn, gerr option) act" where
  "sendChunks [] = ret None"
| "sendChunks ((bs, e) # rest) =
     seqA (if bs \<noteq> [] then writePacket (replicate 4 0 @ bs) else ret ())
    (case e of None \<Rightarrow> sendChunks rest | Some e \<Rightarrow> ret (if e = ErrEOF then None else Some e))"

fun cutChunk :: "nat \<Rightarrow> byte list \<Rightarrow> gerr option \<Rightarrow> (byte list \<times> gerr option) list" where
  "cutChunk room bs e =
     (if room = 0 \<or> length bs \<le> room then [(bs, e)]
      else (take room bs, None) # cutChunk room (drop room bs) e)"

declare cutChunk.simps [simp del]

definition cutChunks :: "nat \<Rightarrow> (byte list \<times> gerr option) list \<Rightarrow> (byte list \<times> gerr option) list" where
  "cutChunks room chunks = concat (map (\<lambda>(bs, e). cutChunk room bs e) chunks)"

text \<open>\<open>deferredClose\<close>: the error of closing counts when there is no other.\<close>

definition withClose :: "fileReader option \<Rightarrow> (mysqlConn, unit) act \<Rightarrow> (mysqlConn, unit) act" where
  "withClose r m =
     thenA (tryA m) (\<lambda>q. case q of
       Inl e \<Rightarrow> fail e
     | Inr _ \<Rightarrow> (case r of Some f \<Rightarrow> (case fr_close f of Some e \<Rightarrow> fail e | None \<Rightarrow> ret ()) | None \<Rightarrow> ret ()))"

definition handleInFileRequest :: "infileEnv \<Rightarrow> byte list \<Rightarrow> (mysqlConn, unit) act" where
  "handleInFileRequest E name =
     thenA (getA (\<lambda>mc. (mc_maxWriteSize mc, cfg_AllowAllFiles (mc_cfg mc)))) (\<lambda>(maxWrite, allowAll).
     case infileSource E allowAll (min (16 * 1024) maxWrite) name of (err, packetSize, rdr) \<Rightarrow>
       withClose rdr
        (thenA (case (err, rdr) of
                  (None, Some r) \<Rightarrow>
                    if packetSize > 0 then sendChunks (cutChunks (nat packetSize) (fr_chunks r))
                    else ret None
                | _ \<Rightarrow> ret err) (\<lambda>err.
         seqA (writePacket (replicate 4 0))
        (case err of
           None \<Rightarrow> readResultOK
         | Some e \<Rightarrow> seqA (tryA readPacket) (fail e)))))"

section \<open>Result sets\<close>

definition readResultSetHeaderPacket :: "infileEnv \<Rightarrow> (mysqlConn, int) act" where
  "readResultSetHeaderPacket E =
     thenA readPacket (\<lambda>data.
     thenA (liftA (first data)) (\<lambda>d0.
     if d0 = iOK then seqA (handleOkPacket data) (ret 0)
     else if d0 = iERR then failWith (handleErrorPacket data)
     else if d0 = iLocalInFile then
       thenA (liftA (slice_from (fst data) 1)) (\<lambda>name. seqA (handleInFileRequest E name) (ret 0))
     else
       thenA (liftA (readLengthEncodedInteger (fst data))) (\<lambda>(num, _, n).
       if n = length (fst data) then ret (sint num) else fail ErrMalformPkt)))"

fun readUntilEOFLoop :: "nat \<Rightarrow> (mysqlConn, unit) act" where
  "readUntilEOFLoop 0 = crash Deadlock"
| "readUntilEOFLoop (Suc fuel) =
     thenA readPacket (\<lambda>data.
     thenA (liftA (first data)) (\<lambda>d0.
     if d0 = iERR then failWith (handleErrorPacket data)
     else if d0 = iEOF then
       (if length (fst data) = 5
        then thenA (liftA (readStatus (drop 3 (fst data)))) (\<lambda>st. modA (\<lambda>mc. mc\<lparr>mc_status := st\<rparr>))
        else ret ())
     else readUntilEOFLoop fuel))"

declare readUntilEOFLoop.simps [simp del]

definition readUntilEOF :: "(mysqlConn, unit) act" where
  "readUntilEOF = withFuel readUntilEOFLoop"

text \<open>Skipping the columns and the rows of a result.\<close>

definition skipResult :: "int \<Rightarrow> (mysqlConn, unit) act" where
  "skipResult resLen = (if resLen > 0 then seqA readUntilEOF readUntilEOF else ret ())"

fun discardLoop :: "infileEnv \<Rightarrow> nat \<Rightarrow> (mysqlConn, unit) act" where
  "discardLoop E 0 = crash Deadlock"
| "discardLoop E (Suc fuel) =
     thenA (getA moreResults) (\<lambda>more.
     if more then thenA (readResultSetHeaderPacket E) (\<lambda>resLen. seqA (skipResult resLen) (discardLoop E fuel))
     else ret ())"

declare discardLoop.simps [simp del]

definition discardResults :: "infileEnv \<Rightarrow> (mysqlConn, unit) act" where
  "discardResults E = withFuel (\<lambda>fuel. discardLoop E (Suc fuel))"

end
