(* ===== verification/MysqlRows.thy ===== *)
theory MysqlRows
  imports MysqlResult
begin

text \<open>
  Result sets of a MySQL connection: the column definitions and the rows of both protocols
  (\<open>mysql/packets.go\<close> lines 634 to 801 and 1172 to 1349) and the cursor over them (\<open>mysql/rows.go\<close>).
  A cursor and its connection are a pair, because every operation reads from the connection.
\<close>

section \<open>Columns\<close>

definition checkErr :: "(int \<times> gerr option) res \<Rightarrow> int res" where
  "checkErr r = bindR r (\<lambda>(n, err). case err of None \<Rightarrow> Ok n | Some e \<Rightarrow> Fail e)"

definition skipField :: "slice \<Rightarrow> int \<Rightarrow> int res" where
  "skipField data pos =
     bindR (from_pos (fst data) pos) (\<lambda>b.
     bindR (checkErr (skipLengthEncodedString b)) (\<lambda>n. Ok (pos + n)))"

definition readField :: "slice \<Rightarrow> int \<Rightarrow> (byte list \<times> bool \<times> int) res" where
  "readField data pos =
     bindR (from_pos (fst data) pos) (\<lambda>b.
     bindR (readLengthEncodedString b (length b + length (snd data))) (\<lambda>(s, isNull, n, err).
     case err of None \<Rightarrow> Ok (s, isNull, pos + n) | Some e \<Rightarrow> Fail e))"

definition emptyField :: mysqlField where
  "emptyField = \<lparr>mf_tableName = [], mf_name = [], mf_length = 0, mf_flags = 0, mf_fieldType = 0,
     mf_decimals = 0, mf_charSet = 0\<rparr>"

text \<open>\<open>columns[i]\<close> of the code exists when \<open>slot\<close> is true.\<close>

definition needSlot :: "bool \<Rightarrow> 'a res \<Rightarrow> 'a res" where
  "needSlot slot r = (if slot then r else Crash IndexOutOfRange)"

definition fixedPart :: "slice \<Rightarrow> int \<Rightarrow> mysqlField \<Rightarrow> mysqlField res" where
  "fixedPart data pos f =
     bindR (idxI (fst data) (pos + 1)) (\<lambda>charSet.
     bindR (bindR (sub_slice data (pos + 3) (pos + 7)) (le_uint 4)) (\<lambda>len.
     bindR (idxI (fst data) (pos + 7)) (\<lambda>t.
     bindR (bindR (sub_slice data (pos + 8) (pos + 10)) (le_uint 2)) (\<lambda>flags.
     bindR (idxI (fst data) (pos + 10)) (\<lambda>decimals.
     Ok (f\<lparr>mf_length := len, mf_flags := flags, mf_fieldType := t, mf_decimals := decimals,
           mf_charSet := charSet\<rparr>))))))"

definition parseColumn :: "bool \<Rightarrow> bool \<Rightarrow> slice \<Rightarrow> mysqlField res" where
  "parseColumn alias slot data =
     bindR (checkErr (skipLengthEncodedString (fst data))) (\<lambda>pos.
     bindR (skipField data pos) (\<lambda>pos.
     bindR (if alias then bindR (readField data pos) (\<lambda>(s, _, pos). needSlot slot (Ok (s, pos)))
            else bindR (skipField data pos) (\<lambda>pos. Ok ([], pos))) (\<lambda>(table, pos).
     bindR (skipField data pos) (\<lambda>pos.
     bindR (readField data pos) (\<lambda>(name, _, pos).
     needSlot slot
      (bindR (skipField data pos) (\<lambda>pos.
       fixedPart data pos (emptyField\<lparr>mf_tableName := table, mf_name := name\<rparr>))))))))"

definition isEOFPacket :: "byte list \<Rightarrow> bool" where
  "isEOFPacket data \<longleftrightarrow> data ! 0 = iEOF \<and> length data = 5"

fun readColumnsLoop :: "nat \<Rightarrow> int \<Rightarrow> mysqlField list \<Rightarrow> (mysqlConn, mysqlField list) act" where
  "readColumnsLoop 0 n cols = crash Deadlock"
| "readColumnsLoop (Suc fuel) n cols =
     thenA readPacket (\<lambda>data.
     thenA (liftA (first data)) (\<lambda>d0.
     if d0 = iEOF \<and> (length (fst data) = 5 \<or> length (fst data) = 1) then
       (if int (length cols) = n then ret cols else fail (ErrMsg ''column count mismatch n:%d len:%d''))
     else
       thenA (getA (\<lambda>mc. cfg_ColumnsWithAlias (mc_cfg mc))) (\<lambda>alias.
       thenA (liftA (parseColumn alias (int (length cols) < n) data)) (\<lambda>c.
       readColumnsLoop fuel n (cols @ [c])))))"

declare readColumnsLoop.simps [simp del]

text \<open>
  The slice of columns is made with the announced count, which panics when that is negative or its
  48-byte elements exceed the address space. The columns are in the order they arrive, and the
  result is returned only when every one of them was filled in.
\<close>

definition readColumns :: "int \<Rightarrow> (mysqlConn, mysqlField list) act" where
  "readColumns count =
     (if count < 0 \<or> count * 48 > 2 ^ 48 then crash (Panic ''makeslice: len out of range'')
      else withFuel (\<lambda>fuel. readColumnsLoop fuel count []))"

section \<open>The cursor\<close>

record mysqlRows =
  mr_mc :: bool
  mr_columns :: "mysqlField list"
  mr_columnNames :: "byte list list option"
  mr_done :: bool
  mr_finish :: bool

definition newRows :: mysqlRows where
  "newRows = \<lparr>mr_mc = False, mr_columns = [], mr_columnNames = None, mr_done = False, mr_finish = False\<rparr>"

type_synonym 'a rowsAct = "(mysqlRows \<times> mysqlConn, 'a) act"

definition onMc :: "(mysqlConn, 'a) act \<Rightarrow> 'a rowsAct" where
  "onMc m = (\<lambda>(rows, mc). case m mc of (r, mc) \<Rightarrow> (r, (rows, mc)))"

definition modRows :: "(mysqlRows \<Rightarrow> mysqlRows) \<Rightarrow> unit rowsAct" where
  "modRows f = modA (\<lambda>(rows, mc). (f rows, mc))"

definition getRows :: "(mysqlRows \<Rightarrow> 'a) \<Rightarrow> 'a rowsAct" where
  "getRows f = getA (\<lambda>(rows, mc). f rows)"

definition HasNextResultSet :: "mysqlRows \<times> mysqlConn \<Rightarrow> bool" where
  "HasNextResultSet = (\<lambda>(rows, mc). mr_mc rows \<and> moreResults mc)"

text \<open>A column value as the driver hands it out.\<close>

datatype dval = DNull | DBytes "byte list" | DInt64 int | DFloat32 u32 | DFloat64 u64 | DTime gotime

text \<open>The end of a result set: the status, and no connection any more when nothing follows.\<close>

definition endOfRows :: "slice \<Rightarrow> 'a rowsAct" where
  "endOfRows data =
     thenA (liftA (readStatus (drop 3 (fst data)))) (\<lambda>st.
     seqA (onMc (modA (\<lambda>mc. mc\<lparr>mc_status := st\<rparr>)))
    (seqA (modRows (\<lambda>rows. rows\<lparr>mr_done := True\<rparr>))
    (thenA (getA HasNextResultSet) (\<lambda>more.
     seqA (if more then ret () else modRows (\<lambda>rows. rows\<lparr>mr_mc := False\<rparr>)) (fail ErrEOF)))))"

definition rowsFailed :: "slice \<Rightarrow> 'a rowsAct" where
  "rowsFailed data =
     seqA (modRows (\<lambda>rows. rows\<lparr>mr_mc := False\<rparr>)) (onMc (failWith (handleErrorPacket data)))"

section \<open>Rows of the text protocol\<close>

definition dateTypes :: "byte list" where
  "dateTypes = [fieldTypeTimestamp, fieldTypeDateTime, fieldTypeDate, fieldTypeNewDate]"

definition textValue :: "bool \<Rightarrow> int \<Rightarrow> mysqlField list \<Rightarrow> nat \<Rightarrow> byte list \<Rightarrow> bool \<Rightarrow> dval res" where
  "textValue parseTime loc cols i s isNull =
     (if isNull then Ok DNull
      else if \<not> parseTime then Ok (DBytes s)
      else bindR (idx cols i) (\<lambda>c.
        if mf_fieldType c \<in> set dateTypes then bindR (parseDateTime s loc) (\<lambda>t. Ok (DTime t))
        else Ok (DBytes s)))"

text \<open>\<open>n\<close> values are left from column \<open>i\<close> on; after an error the code may have filled some of them.\<close>

fun textValues :: "bool \<Rightarrow> int \<Rightarrow> mysqlField list \<Rightarrow> slice \<Rightarrow> nat \<Rightarrow> nat \<Rightarrow> int \<Rightarrow> dval list res" where
  "textValues parseTime loc cols data 0 i pos = Ok []"
| "textValues parseTime loc cols data (Suc n) i pos =
     bindR (readField data pos) (\<lambda>(s, isNull, pos).
     bindR (textValue parseTime loc cols i s isNull) (\<lambda>v.
     bindR (textValues parseTime loc cols data n (Suc i) pos) (\<lambda>vs. Ok (v # vs))))"

definition textReadRow :: "nat \<Rightarrow> dval list rowsAct" where
  "textReadRow n =
     thenA (getRows mr_done) (\<lambda>dn.
     if dn then fail ErrEOF
     else
       thenA (onMc readPacket) (\<lambda>data.
       thenA (liftA (first data)) (\<lambda>d0.
       if isEOFPacket (fst data) then endOfRows data
       else if d0 = iERR then rowsFailed data
       else
         thenA (getA (\<lambda>(rows, mc). (mr_columns rows, mc_parseTime mc, locOff (mc_cfg mc)))) (\<lambda>(cols, parseTime, loc).
         liftA (textValues parseTime loc cols data n 0 0)))))"

section \<open>Rows of the binary protocol\<close>

definition readInt :: "slice \<Rightarrow> int \<Rightarrow> nat \<Rightarrow> u64 res" where
  "readInt data pos k = bindR (sub_slice data pos (pos + int k)) (le_uint k)"

text \<open>An integer of \<open>k\<close> bytes: \<open>int64\<close> of the unsigned or of the sign-extended value.\<close>

definition binInt :: "slice \<Rightarrow> int \<Rightarrow> nat \<Rightarrow> bool \<Rightarrow> (dval \<times> int) res" where
  "binInt data pos k unsig =
     bindR (if k = 1 then bindR (idxI (fst data) pos) (\<lambda>b. Ok (ucast b)) else readInt data pos k) (\<lambda>v.
     if k = 8 \<and> unsig \<and> uint v > 2 ^ 63 - 1
     then bindR (uint64ToString v) (\<lambda>s. Ok (DBytes s, pos + 8))
     else Ok (DInt64 (if unsig then uint v else sint (signed_take_bit (8 * k - 1) v)), pos + int k))"

definition decimalsLen :: "byte \<Rightarrow> byte \<Rightarrow> byte res" where
  "decimalsLen base decimals =
     (if decimals = 0 \<or> decimals = 0x1f then Ok base
      else if 1 \<le> decimals \<and> decimals \<le> 6 then Ok (base + 1 + decimals)
      else Fail (ErrMsg ''protocol error, illegal decimals value %d''))"

definition binTime :: "bool \<Rightarrow> int \<Rightarrow> mysqlField \<Rightarrow> slice \<Rightarrow> int \<Rightarrow> (dval \<times> int) res" where
  "binTime parseTime loc c data pos =
     bindR (bindR (from_pos (fst data) pos) readLengthEncodedInteger) (\<lambda>(num, isNull, n).
     let pos = pos + int n; stop = pos + sint num
     in if isNull then Ok (DNull, pos)
        else if mf_fieldType c = fieldTypeTime then
          bindR (decimalsLen 8 (mf_decimals c)) (\<lambda>dstlen.
          bindR (sub_slice data pos stop) (\<lambda>src.
          bindR (formatBinaryTime src dstlen) (\<lambda>s. Ok (DBytes s, stop))))
        else if parseTime then
          bindR (from_pos (fst data) pos) (\<lambda>b.
          bindR (parseBinaryDateTime num b (snd data) loc) (\<lambda>t. Ok (DTime t, stop)))
        else
          bindR (if mf_fieldType c = fieldTypeDate then Ok 10 else decimalsLen 19 (mf_decimals c)) (\<lambda>dstlen.
          bindR (sub_slice data pos stop) (\<lambda>src.
          bindR (formatBinaryDateTime src dstlen) (\<lambda>s. Ok (DBytes s, stop)))))"

definition binValue :: "bool \<Rightarrow> int \<Rightarrow> mysqlField \<Rightarrow> slice \<Rightarrow> int \<Rightarrow> (dval \<times> int) res" where
  "binValue parseTime loc c data pos =
     (let t = mf_fieldType c; unsig = unsignedCol c
      in if t = fieldTypeNULL then Ok (DNull, pos)
      else if t = fieldTypeTiny then binInt data pos 1 unsig
      else if t = fieldTypeShort \<or> t = fieldTypeYear then binInt data pos 2 unsig
      else if t = fieldTypeInt24 \<or> t = fieldTypeLong then binInt data pos 4 unsig
      else if t = fieldTypeLongLong then binInt data pos 8 unsig
      else if t = fieldTypeFloat then bindR (readInt data pos 4) (\<lambda>v. Ok (DFloat32 (ucast v), pos + 4))
      else if t = fieldTypeDouble then bindR (readInt data pos 8) (\<lambda>v. Ok (DFloat64 v, pos + 8))
      else if t \<in> set rawTypes then
        bindR (readField data pos) (\<lambda>(s, isNull, pos). Ok (if isNull then DNull else DBytes s, pos))
      else if t \<in> set dateTypes \<or> t = fieldTypeTime then binTime parseTime loc c data pos
      else Fail (ErrMsg ''unknown field type %d''))"

definition isNullCol :: "byte list \<Rightarrow> nat \<Rightarrow> bool res" where
  "isNullCol nullMask i = bindR (idx nullMask ((i + 2) div 8)) (\<lambda>b. Ok (bit b ((i + 2) mod 8)))"

fun binValues :: "bool \<Rightarrow> int \<Rightarrow> mysqlField list \<Rightarrow> slice \<Rightarrow> byte list \<Rightarrow> nat \<Rightarrow> nat \<Rightarrow> int \<Rightarrow> dval list res" where
  "binValues parseTime loc cols data nullMask 0 i pos = Ok []"
| "binValues parseTime loc cols data nullMask (Suc n) i pos =
     bindR (isNullCol nullMask i) (\<lambda>isNull.
     bindR (if isNull then Ok (DNull, pos)
            else bindR (idx cols i) (\<lambda>c. binValue parseTime loc c data pos)) (\<lambda>(v, pos).
     bindR (binValues parseTime loc cols data nullMask n (Suc i) pos) (\<lambda>vs. Ok (v # vs))))"

definition binRow :: "bool \<Rightarrow> int \<Rightarrow> mysqlField list \<Rightarrow> nat \<Rightarrow> slice \<Rightarrow> dval list res" where
  "binRow parseTime loc cols n data =
     (let pos = 1 + (n + 7 + 2) div 8
      in bindR (sub_slice data 1 (int pos)) (\<lambda>nullMask.
         binValues parseTime loc cols data nullMask n 0 (int pos)))"

definition binReadRow :: "nat \<Rightarrow> dval list rowsAct" where
  "binReadRow n =
     thenA (onMc readPacket) (\<lambda>data.
     thenA (liftA (first data)) (\<lambda>d0.
     if d0 \<noteq> iOK then (if isEOFPacket (fst data) then endOfRows data else rowsFailed data)
     else
       thenA (getA (\<lambda>(rows, mc). (mr_columns rows, mc_parseTime mc, locOff (mc_cfg mc)))) (\<lambda>(cols, parseTime, loc).
       liftA (binRow parseTime loc cols n data))))"

section \<open>Operations of the cursor\<close>

definition Columns :: "byte list list rowsAct" where
  "Columns = (\<lambda>(rows, mc).
     case mr_columnNames rows of
       Some names \<Rightarrow> (Ok names, (rows, mc))
     | None \<Rightarrow>
         let columns = (if mr_mc rows \<and> cfg_ColumnsWithAlias (mc_cfg mc)
           then map (\<lambda>c. if mf_tableName c \<noteq> [] then mf_tableName c @ [0x2e] @ mf_name c else mf_name c) (mr_columns rows)
           else map mf_name (mr_columns rows))
         in (Ok columns, (rows\<lparr>mr_columnNames := Some columns\<rparr>, mc)))"

definition ColumnTypeDatabaseTypeName :: "mysqlRows \<Rightarrow> nat \<Rightarrow> string res" where
  "ColumnTypeDatabaseTypeName rows i = bindR (idx (mr_columns rows) i) (\<lambda>c. Ok (typeDatabaseName c))"

definition ColumnTypeNullable :: "mysqlRows \<Rightarrow> nat \<Rightarrow> (bool \<times> bool) res" where
  "ColumnTypeNullable rows i = bindR (idx (mr_columns rows) i) (\<lambda>c. Ok (\<not> notNull c, True))"

definition ColumnTypePrecisionScale :: "mysqlRows \<Rightarrow> nat \<Rightarrow> (int \<times> int \<times> bool) res" where
  "ColumnTypePrecisionScale rows i =
     bindR (idx (mr_columns rows) i) (\<lambda>c.
     let t = mf_fieldType c; decimals = uint (mf_decimals c); len = uint (mf_length c); maxInt = 2 ^ 63 - 1
     in Ok (if t = fieldTypeDecimal \<or> t = fieldTypeNewDecimal then
              (if decimals > 0 then len - 2 else len - 1, decimals, True)
            else if t = fieldTypeTimestamp \<or> t = fieldTypeDateTime \<or> t = fieldTypeTime then
              (decimals, decimals, True)
            else if t = fieldTypeFloat \<or> t = fieldTypeDouble then
              (maxInt, if decimals = 0x1f then maxInt else decimals, True)
            else (0, 0, False)))"

definition ColumnTypeScanType :: "mysqlRows \<Rightarrow> nat \<Rightarrow> scanKind res" where
  "ColumnTypeScanType rows i = bindR (idx (mr_columns rows) i) (\<lambda>c. Ok (scanType c))"

text \<open>\<open>finish\<close>: the watched context is let go; on a closed connection nothing listens any more.\<close>

definition finish :: "(mysqlConn, unit) act" where
  "finish = modA (\<lambda>mc. if \<not> mc_watching mc \<or> \<not> mc_watcher mc \<or> mc_closed mc then mc
     else mc\<lparr>mc_watching := False\<rparr>)"

definition failError :: "mysqlConn \<Rightarrow> unit res" where
  "failError mc = (case mc_error mc of None \<Rightarrow> Ok () | Some e \<Rightarrow> Fail e)"

definition mysqlRows_Close :: "infileEnv \<Rightarrow> unit rowsAct" where
  "mysqlRows_Close E =
     thenA (getRows mr_finish) (\<lambda>f.
     seqA (if f then seqA (onMc finish) (modRows (\<lambda>rows. rows\<lparr>mr_finish := False\<rparr>)) else ret ())
    (thenA (getA (\<lambda>(rows, mc). (mr_mc rows, mr_done rows, failError mc))) (\<lambda>(hasMc, dn, err).
     if \<not> hasMc then ret ()
     else
       seqA (liftA err)
      (seqA (onMc (onBuf (modA flip)))
      (thenA (if dn then ret (Inr ()) else tryA (onMc readUntilEOF)) (\<lambda>r. case r of
         Inl e \<Rightarrow> seqA (modRows (\<lambda>rows. rows\<lparr>mr_mc := False\<rparr>)) (fail e)
       | Inr _ \<Rightarrow>
           seqA (onMc (discardResults E)) (modRows (\<lambda>rows. rows\<lparr>mr_mc := False\<rparr>))))))))"

definition nextResultSet :: "infileEnv \<Rightarrow> int rowsAct" where
  "nextResultSet E =
     thenA (getA (\<lambda>(rows, mc). (mr_mc rows, mr_done rows, failError mc))) (\<lambda>(hasMc, dn, err).
     if \<not> hasMc then fail ErrEOF
     else
       seqA (liftA err)
      (seqA (if dn then ret ()
             else seqA (onMc readUntilEOF) (modRows (\<lambda>rows. rows\<lparr>mr_done := True\<rparr>)))
      (thenA (getA HasNextResultSet) (\<lambda>more.
       if \<not> more then seqA (modRows (\<lambda>rows. rows\<lparr>mr_mc := False\<rparr>)) (fail ErrEOF)
       else
         seqA (modRows (\<lambda>rows. rows\<lparr>mr_columns := [], mr_columnNames := None, mr_done := False\<rparr>))
           (onMc (readResultSetHeaderPacket E))))))"

fun nextNotEmptyLoop :: "infileEnv \<Rightarrow> nat \<Rightarrow> int rowsAct" where
  "nextNotEmptyLoop E 0 = crash Deadlock"
| "nextNotEmptyLoop E (Suc fuel) =
     thenA (nextResultSet E) (\<lambda>resLen.
     if resLen > 0 then ret resLen
     else seqA (modRows (\<lambda>rows. rows\<lparr>mr_done := True\<rparr>)) (nextNotEmptyLoop E fuel))"

declare nextNotEmptyLoop.simps [simp del]

definition nextNotEmptyResultSet :: "infileEnv \<Rightarrow> int rowsAct" where
  "nextNotEmptyResultSet E = (\<lambda>(rows, mc). nextNotEmptyLoop E (Suc (fuelOf mc)) (rows, mc))"

text \<open>A failed \<open>readColumns\<close> leaves no columns.\<close>

definition setColumns :: "int \<Rightarrow> unit rowsAct" where
  "setColumns resLen =
     thenA (tryA (onMc (readColumns resLen))) (\<lambda>r. case r of
       Inl e \<Rightarrow> seqA (modRows (\<lambda>rows. rows\<lparr>mr_columns := []\<rparr>)) (fail e)
     | Inr cols \<Rightarrow> modRows (\<lambda>rows. rows\<lparr>mr_columns := cols\<rparr>))"

definition NextResultSet :: "infileEnv \<Rightarrow> unit rowsAct" where
  "NextResultSet E = thenA (nextNotEmptyResultSet E) setColumns"

definition rowsNext :: "(nat \<Rightarrow> dval list rowsAct) \<Rightarrow> nat \<Rightarrow> dval list rowsAct" where
  "rowsNext readRow n =
     thenA (getA (\<lambda>(rows, mc). (mr_mc rows, failError mc))) (\<lambda>(hasMc, err).
     if hasMc then seqA (liftA err) (readRow n) else fail ErrEOF)"

definition textRows_Next :: "nat \<Rightarrow> dval list rowsAct" where
  "textRows_Next = rowsNext textReadRow"

definition binaryRows_Next :: "nat \<Rightarrow> dval list rowsAct" where
  "binaryRows_Next = rowsNext binReadRow"

end
