(* ===== verification/MysqlExec.thy ===== *)
theory MysqlExec
  imports MysqlRows
begin

text \<open>
  Commands on a connection: queries, prepared statements and transactions (\<open>mysql/connection.go\<close>,
  \<open>mysql/transaction.go\<close>, \<open>mysql/result.go\<close>). A failed function returns its error only.

  \<open>appendCap\<close> is the capacity that the runtime's \<open>append\<close> gives an array that it has to move, less
  the length: the code keeps such an array as the connection's buffer.
\<close>

record driverEnv =
  de_fmtFloat :: "u64 \<Rightarrow> byte list"
  de_infile :: infileEnv
  de_appendCap :: "nat \<Rightarrow> nat"

record mysqlResult =
  res_affectedRows :: int
  res_insertID :: int

definition mysqlResult_LastInsertId :: "mysqlResult \<Rightarrow> int" where
  "mysqlResult_LastInsertId res = res_insertID res"

definition mysqlResult_RowsAffected :: "mysqlResult \<Rightarrow> int" where
  "mysqlResult_RowsAffected res = res_affectedRows res"

text \<open>The context of an operation: its error at the start, whether it can be done, and at the end.\<close>

record ctxState =
  cx_err :: "gerr option"
  cx_hasDone :: bool
  cx_later :: "gerr option"

definition requireOpen :: "(mysqlConn, 'a) act \<Rightarrow> (mysqlConn, 'a) act" where
  "requireOpen m = thenA (getA mc_closed) (\<lambda>closed. if closed then fail ErrBadConn else m)"

definition markBad :: "(mysqlConn, 'a) act \<Rightarrow> (mysqlConn, 'a) act" where
  "markBad m = thenA (tryA m) (\<lambda>r. case r of Inl e \<Rightarrow> fail (markBadConn e) | Inr x \<Rightarrow> ret x)"

definition withRows :: "mysqlRows \<Rightarrow> unit rowsAct \<Rightarrow> (mysqlConn, mysqlRows) act" where
  "withRows rows m = (\<lambda>mc. case m (rows, mc) of (r, (rows, mc)) \<Rightarrow> (bindR r (\<lambda>_. Ok rows), mc))"

section \<open>Commands\<close>

definition exec :: "driverEnv \<Rightarrow> byte list \<Rightarrow> (mysqlConn, unit) act" where
  "exec D query =
     seqA (markBad (writeCommandPacketStr comQuery query))
    (thenA (readResultSetHeaderPacket (de_infile D)) (\<lambda>resLen.
     seqA (skipResult resLen) (discardResults (de_infile D))))"

definition interpCfgOf :: "driverEnv \<Rightarrow> mysqlConn \<Rightarrow> interpCfg" where
  "interpCfgOf D mc = \<lparr>ic_fmtFloat = de_fmtFloat D, ic_loc = locOff (mc_cfg mc),
     ic_noBackslash = (mc_status mc AND statusNoBackslashEscapes \<noteq> 0),
     ic_maxAllowedPacket = mc_maxAllowedPacket mc\<rparr>"

definition wholeBuffer :: "mysqlConn \<Rightarrow> byte list res" where
  "wholeBuffer mc = bindR (fst (takeCompleteBuffer (mc_buf mc))) (\<lambda>s. Ok (bytesAt (mc_buf mc) s))"

definition mcInterpolate :: "driverEnv \<Rightarrow> byte list \<Rightarrow> marg list \<Rightarrow> (mysqlConn, byte list) act" where
  "mcInterpolate D query args =
     (\<lambda>mc. (interpolateParams (interpCfgOf D mc) (wholeBuffer mc) query args, mc))"

text \<open>The text of a command with arguments, which needs client-side interpolation.\<close>

definition queryText :: "driverEnv \<Rightarrow> byte list \<Rightarrow> marg list \<Rightarrow> (mysqlConn, byte list) act" where
  "queryText D query args =
     (if args = [] then ret query
      else thenA (getA (\<lambda>mc. cfg_InterpolateParams (mc_cfg mc))) (\<lambda>on.
        if on then mcInterpolate D query args else fail ErrSkip))"

definition resetResult :: "mysqlConn \<Rightarrow> mysqlConn" where
  "resetResult mc = mc\<lparr>mc_affectedRows := 0, mc_insertId := 0\<rparr>"

definition resultOf :: "mysqlConn \<Rightarrow> mysqlResult" where
  "resultOf mc = \<lparr>res_affectedRows = sint (mc_affectedRows mc), res_insertID = sint (mc_insertId mc)\<rparr>"

definition mysqlConn_Exec :: "driverEnv \<Rightarrow> byte list \<Rightarrow> marg list \<Rightarrow> (mysqlConn, mysqlResult) act" where
  "mysqlConn_Exec D query args =
     requireOpen
      (thenA (queryText D query args) (\<lambda>query.
       seqA (modA resetResult)
      (seqA (markBad (exec D query)) (getA resultOf))))"

text \<open>A result without rows is the end of the results, or the next one that has rows.\<close>

definition skipEmptyResults :: "driverEnv \<Rightarrow> mysqlRows \<Rightarrow> (mysqlConn, mysqlRows) act" where
  "skipEmptyResults D rows =
     withRows rows (thenA (tryA (NextResultSet (de_infile D))) (\<lambda>r. case r of
       Inl e \<Rightarrow> if e = ErrEOF then ret () else fail e
     | Inr _ \<Rightarrow> ret ()))"

definition textQuery :: "driverEnv \<Rightarrow> byte list \<Rightarrow> marg list \<Rightarrow> (mysqlConn, mysqlRows) act" where
  "textQuery D query args =
     requireOpen
      (thenA (queryText D query args) (\<lambda>query.
       thenA (markBad (seqA (writeCommandPacketStr comQuery query) (readResultSetHeaderPacket (de_infile D)))) (\<lambda>resLen.
       if resLen = 0 then skipEmptyResults D (newRows\<lparr>mr_mc := True, mr_done := True\<rparr>)
       else withRows (newRows\<lparr>mr_mc := True\<rparr>) (setColumns resLen))))"

section \<open>System variables\<close>

text \<open>
  \<open>getSystemVar\<close> returns a slice of the packet with the row, and reads one more result afterwards,
  which may move or refill the buffer below that slice. The packet that is about to be read tells
  where in the buffer the value lies; a packet of several frames has memory of its own.
\<close>

definition peekPacket :: "mysqlConn \<Rightarrow> byte list" where
  "peekPacket mc = (case fst (readPacket mc) of Ok data \<Rightarrow> fst data | _ \<Rightarrow> [])"

definition valuePlace :: "byte list \<Rightarrow> mysqlConn \<Rightarrow> bslice option" where
  "valuePlace data mc =
     (case readField (data, []) 0 of
        Ok (s, _, stop) \<Rightarrow>
          if length data < maxPacketSize
          then Some (b_buf (mc_buf mc), b_idx (mc_buf mc) - length data + (nat stop - length s), length s)
          else None
      | _ \<Rightarrow> None)"

definition firstValue :: "dval list \<Rightarrow> byte list res" where
  "firstValue dest = bindR (idx dest 0) (\<lambda>v. case v of
     DBytes s \<Rightarrow> Ok s | _ \<Rightarrow> Crash (Panic ''interface conversion''))"

definition getSystemVar :: "driverEnv \<Rightarrow> byte list \<Rightarrow> (mysqlConn, byte list) act" where
  "getSystemVar D name =
     seqA (writeCommandPacketStr comQuery (bytes_of ''SELECT @@'' @ name))
    (thenA (readResultSetHeaderPacket (de_infile D)) (\<lambda>resLen.
     seqA (if resLen > 0 then readUntilEOF else ret ())
    (if resLen < 0 \<or> resLen * 16 > 2 ^ 48 then crash (Panic ''makeslice: len out of range'')
     else
       thenA (getA peekPacket) (\<lambda>data.
       thenA (\<lambda>mc. case textReadRow (nat resLen)
                 (newRows\<lparr>mr_mc := True, mr_columns := [emptyField\<lparr>mf_fieldType := fieldTypeVarChar\<rparr>]\<rparr>, mc)
               of (r, (_, mc)) \<Rightarrow> (r, mc)) (\<lambda>dest.
       thenA (liftA (firstValue dest)) (\<lambda>s.
       thenA (getA (valuePlace data)) (\<lambda>place.
       seqA readUntilEOF
      (getA (\<lambda>mc. case place of Some p \<Rightarrow> bytesAt (mc_buf mc) p | None \<Rightarrow> s)))))))))"

section \<open>Parameters of the data source name\<close>

fun splitOn :: "char \<Rightarrow> string \<Rightarrow> string list" where
  "splitOn c [] = [[]]"
| "splitOn c (x # xs) =
     (if x = c then [] # splitOn c xs
      else case splitOn c xs of [] \<Rightarrow> [[x]] | s # ss \<Rightarrow> (x # s) # ss)"

text \<open>The first character set that the server accepts; the error of the last one when there is none.\<close>

fun setNames :: "driverEnv \<Rightarrow> string list \<Rightarrow> gerr option \<Rightarrow> (mysqlConn, unit) act" where
  "setNames D [] err = (case err of None \<Rightarrow> ret () | Some e \<Rightarrow> fail e)"
| "setNames D (c # cs) err =
     thenA (tryA (exec D (bytes_of (''SET NAMES '' @ c)))) (\<lambda>r. case r of
       Inr _ \<Rightarrow> ret () | Inl e \<Rightarrow> setNames D cs (Some e))"

fun paramsLoop :: "driverEnv \<Rightarrow> (string \<times> string) list \<Rightarrow> string \<Rightarrow> (mysqlConn, string) act" where
  "paramsLoop D [] cmdSet = ret cmdSet"
| "paramsLoop D ((param, val) # ps) cmdSet =
     (if param = ''charset'' then seqA (setNames D (splitOn CHR '','' val) None) (paramsLoop D ps cmdSet)
      else paramsLoop D ps
        ((if cmdSet = [] then ''SET '' else cmdSet @ '','') @ param @ ''='' @ val))"

definition handleParams :: "driverEnv \<Rightarrow> nat list \<Rightarrow> (mysqlConn, unit) act" where
  "handleParams D order =
     thenA (getA (\<lambda>mc. cfg_Params (mc_cfg mc))) (\<lambda>params.
     thenA (paramsLoop D (range_order order params) []) (\<lambda>cmdSet.
     if cmdSet \<noteq> [] then exec D (bytes_of cmdSet) else ret ()))"

section \<open>Transactions\<close>

definition begin_tx :: "driverEnv \<Rightarrow> bool \<Rightarrow> (mysqlConn, unit) act" where
  "begin_tx D readOnly =
     requireOpen (markBad (exec D (bytes_of
       (if readOnly then ''START TRANSACTION READ ONLY'' else ''START TRANSACTION''))))"

text \<open>A transaction is whether it still has its connection.\<close>

definition endTx :: "driverEnv \<Rightarrow> string \<Rightarrow> (bool \<times> mysqlConn, unit) act" where
  "endTx D cmd = (\<lambda>(hasMc, mc).
     if \<not> hasMc \<or> mc_closed mc then (Fail ErrInvalidConn, (hasMc, mc))
     else case exec D (bytes_of cmd) mc of
       (Crash h, mc) \<Rightarrow> (Crash h, (hasMc, mc))
     | (r, mc) \<Rightarrow> (r, (False, mc)))"

definition mysqlTx_Commit :: "driverEnv \<Rightarrow> (bool \<times> mysqlConn, unit) act" where
  "mysqlTx_Commit D = endTx D ''COMMIT''"

definition mysqlTx_Rollback :: "driverEnv \<Rightarrow> (bool \<times> mysqlConn, unit) act" where
  "mysqlTx_Rollback D = endTx D ''ROLLBACK''"

definition mapIsolationLevel :: "int \<Rightarrow> gerr + string" where
  "mapIsolationLevel level =
     (if level = 4 then Inr ''REPEATABLE READ''
      else if level = 2 then Inr ''READ COMMITTED''
      else if level = 1 then Inr ''READ UNCOMMITTED''
      else if level = 6 then Inr ''SERIALIZABLE''
      else Inl (ErrMsg ''mysql: unsupported isolation level: %v''))"

section \<open>Contexts\<close>

definition watchCancel :: "ctxState \<Rightarrow> (mysqlConn, unit) act" where
  "watchCancel ctx =
     thenA (getA (\<lambda>mc. (mc_watching mc, mc_watcher mc))) (\<lambda>(watching, watcher).
     if watching then cleanup
     else case cx_err ctx of
       Some e \<Rightarrow> fail e
     | None \<Rightarrow> if \<not> cx_hasDone ctx \<or> \<not> watcher then ret ()
              else modA (\<lambda>mc. mc\<lparr>mc_watching := True\<rparr>))"

text \<open>\<open>defer mc.finish()\<close>\<close>

definition deferFinish :: "(mysqlConn, 'a) act \<Rightarrow> (mysqlConn, 'a) act" where
  "deferFinish m = thenA (tryA m) (\<lambda>r. seqA finish (case r of Inl e \<Rightarrow> fail e | Inr x \<Rightarrow> ret x))"

definition mysqlNamedValueToValue :: "(string \<times> 'a) list \<Rightarrow> gerr + 'a list" where
  "mysqlNamedValueToValue named =
     (if \<exists>(n, v) \<in> set named. length n > 0
      then Inl (ErrMsg ''mysql: driver does not support the use of Named Parameters'')
      else Inr (map snd named))"

definition liftSum :: "gerr + 'a \<Rightarrow> ('s, 'a) act" where
  "liftSum r = (case r of Inl e \<Rightarrow> fail e | Inr x \<Rightarrow> ret x)"

definition mysqlConn_Ping :: "ctxState \<Rightarrow> (mysqlConn, unit) act" where
  "mysqlConn_Ping ctx =
     requireOpen (seqA (watchCancel ctx)
       (deferFinish (seqA (markBad (writeCommandPacket comPing)) readResultOK)))"

definition mysqlConn_BeginTx :: "driverEnv \<Rightarrow> ctxState \<Rightarrow> int \<Rightarrow> bool \<Rightarrow> (mysqlConn, unit) act" where
  "mysqlConn_BeginTx D ctx isolation readOnly =
     requireOpen (seqA (watchCancel ctx)
       (deferFinish
         (seqA (if isolation \<noteq> 0
                then thenA (liftSum (mapIsolationLevel isolation)) (\<lambda>level.
                       exec D (bytes_of (''SET TRANSACTION ISOLATION LEVEL '' @ level)))
                else ret ())
           (begin_tx D readOnly))))"

text \<open>Rows that were returned hold on to the context until they are closed.\<close>

definition keepWatching :: "(mysqlConn, mysqlRows) act \<Rightarrow> (mysqlConn, mysqlRows) act" where
  "keepWatching m =
     thenA (tryA m) (\<lambda>r. case r of
       Inl e \<Rightarrow> seqA finish (fail e) | Inr rows \<Rightarrow> ret (rows\<lparr>mr_finish := True\<rparr>))"

definition mysqlConn_QueryContext ::
    "driverEnv \<Rightarrow> ctxState \<Rightarrow> byte list \<Rightarrow> (string \<times> marg) list \<Rightarrow> (mysqlConn, mysqlRows) act" where
  "mysqlConn_QueryContext D ctx query args =
     thenA (liftSum (mysqlNamedValueToValue args)) (\<lambda>dargs.
     seqA (watchCancel ctx) (keepWatching (textQuery D query dargs)))"

definition mysqlConn_ExecContext ::
    "driverEnv \<Rightarrow> ctxState \<Rightarrow> byte list \<Rightarrow> (string \<times> marg) list \<Rightarrow> (mysqlConn, mysqlResult) act" where
  "mysqlConn_ExecContext D ctx query args =
     thenA (liftSum (mysqlNamedValueToValue args)) (\<lambda>dargs.
     seqA (watchCancel ctx) (deferFinish (mysqlConn_Exec D query dargs)))"

definition mysqlConn_ResetSession :: "(mysqlConn, unit) act" where
  "mysqlConn_ResetSession = requireOpen (modA (\<lambda>mc. mc\<lparr>mc_reset := True\<rparr>))"

end
