(* ===== verification/MysqlStmt.thy ===== *)
theory MysqlStmt
  imports MysqlExec
begin

text \<open>
  Prepared statements: \<open>mysql/statement.go\<close>, their packets (\<open>mysql/packets.go\<close> lines 823 to 1150)
  and the calls with a context (\<open>mysql/connection.go\<close>). A statement and its connection are a pair,
  as a cursor and its connection are; the statement loses its connection when it is closed.
\<close>

record mysqlStmt =
  ms_mc :: bool
  ms_id :: u32
  ms_paramCount :: nat

type_synonym 'a stmtAct = "(mysqlStmt \<times> mysqlConn, 'a) act"

definition onStmtMc :: "(mysqlConn, 'a) act \<Rightarrow> 'a stmtAct" where
  "onStmtMc m = (\<lambda>(stmt, mc). case m mc of (r, mc) \<Rightarrow> (r, (stmt, mc)))"

text \<open>A method call on the connection of a statement that is closed is a nil dereference.\<close>

definition stmtMc :: "(mysqlStmt \<Rightarrow> (mysqlConn, 'a) act) \<Rightarrow> 'a stmtAct" where
  "stmtMc f = thenA (getA fst) (\<lambda>stmt. if ms_mc stmt then onStmtMc (f stmt) else crash NilDeref)"

definition NumInput :: "mysqlStmt \<Rightarrow> nat" where
  "NumInput stmt = ms_paramCount stmt"

section \<open>Preparing\<close>

definition readPrepareResultPacket :: "(mysqlConn, mysqlStmt \<times> u16) act" where
  "readPrepareResultPacket =
     thenA readPacket (\<lambda>data.
     thenA (liftA (first data)) (\<lambda>d0.
     if d0 \<noteq> iOK then failWith (handleErrorPacket data)
     else
       thenA (liftA (bindR (sub_slice data 1 5) (le_uint 4))) (\<lambda>ident.
       thenA (liftA (bindR (sub_slice data 5 7) (le_uint 2))) (\<lambda>columnCount.
       thenA (liftA (bindR (sub_slice data 7 9) (le_uint 2))) (\<lambda>paramCount :: u16.
       ret (\<lparr>ms_mc = True, ms_id = ident, ms_paramCount = unat paramCount\<rparr>, columnCount))))))"

definition mysqlConn_Prepare :: "byte list \<Rightarrow> (mysqlConn, mysqlStmt) act" where
  "mysqlConn_Prepare query =
     requireOpen
      (thenA (tryA (writeCommandPacketStr comStmtPrepare query)) (\<lambda>r. case r of
         Inl e \<Rightarrow> fail ErrBadConn
       | Inr _ \<Rightarrow>
           thenA readPrepareResultPacket (\<lambda>(stmt, columnCount).
           seqA (if ms_paramCount stmt > 0 then readUntilEOF else ret ())
          (seqA (if columnCount > 0 then readUntilEOF else ret ())
          (ret stmt)))))"

definition mysqlStmt_Close :: "unit stmtAct" where
  "mysqlStmt_Close = (\<lambda>(stmt, mc).
     if \<not> ms_mc stmt \<or> mc_closed mc then (Fail ErrBadConn, (stmt, mc))
     else case writeCommandPacketUint32 comStmtClose (ms_id stmt) mc of
       (Crash h, mc) \<Rightarrow> (Crash h, (stmt, mc))
     | (r, mc) \<Rightarrow> (r, (stmt\<lparr>ms_mc := False\<rparr>, mc)))"

definition mysqlConn_PrepareContext :: "ctxState \<Rightarrow> byte list \<Rightarrow> (mysqlConn, mysqlStmt) act" where
  "mysqlConn_PrepareContext ctx query =
     seqA (watchCancel ctx)
    (thenA (deferFinish (mysqlConn_Prepare query)) (\<lambda>stmt.
     case cx_later ctx of
       None \<Rightarrow> ret stmt
     | Some e \<Rightarrow> (\<lambda>mc. case mysqlStmt_Close (stmt, mc) of
           (Crash h, (_, mc)) \<Rightarrow> (Crash h, mc) | (_, (_, mc)) \<Rightarrow> (Fail e, mc))))"

section \<open>Long data\<close>

text \<open>
  \<open>writeCommandLongData\<close> sends an argument in parts. \<open>data\<close> is the buffer that the code advances
  through: 11 bytes for the header and the command, which each part writes over the end of the
  part before it, then the bytes that are left to send. With parts of no bytes the loop of the
  code makes no progress, so the fuel is one more than the number of bytes.
\<close>

definition u32Bytes :: "u32 \<Rightarrow> byte list" where
  "u32Bytes v = [ucast v, ucast (drop_bit 8 v), ucast (drop_bit 16 v), ucast (drop_bit 24 v)]"

fun longDataLoop :: "nat \<Rightarrow> u32 \<Rightarrow> nat \<Rightarrow> int \<Rightarrow> int \<Rightarrow> byte list \<Rightarrow> int \<Rightarrow> (mysqlConn, unit) act" where
  "longDataLoop 0 ident paramID maxLen pktLen data argLen = crash Deadlock"
| "longDataLoop (Suc fuel) ident paramID maxLen pktLen data argLen =
     (if argLen \<le> 0 then ret ()
      else
        let pktLen = (if 7 + argLen < maxLen then 7 + argLen else pktLen)
        in seqA (modA (\<lambda>mc. mc\<lparr>mc_sequence := 0\<rparr>))
          (thenA (liftA (if length data < 11 then Crash IndexOutOfRange else Ok (
             take 4 data @ [comStmtSendLongData] @ u32Bytes ident @
             [of_nat paramID, of_nat (paramID div 256)] @ drop 11 data))) (\<lambda>data.
           thenA (liftA (slice_int data 0 (4 + pktLen))) (\<lambda>out.
           seqA (writePacket out)
          (thenA (liftA (from_pos data (pktLen - 7))) (\<lambda>data.
           longDataLoop fuel ident paramID maxLen pktLen data (argLen - (pktLen - 7))))))))"

declare longDataLoop.simps [simp del]

definition writeCommandLongData :: "u32 \<Rightarrow> nat \<Rightarrow> byte list \<Rightarrow> (mysqlConn, unit) act" where
  "writeCommandLongData ident paramID arg =
     thenA (getA mc_maxAllowedPacket) (\<lambda>limit.
     seqA (longDataLoop (Suc (length arg)) ident paramID (limit - 1) (limit - 1) (replicate 11 0 @ arg)
       (int (length arg)))
    (modA (\<lambda>mc. mc\<lparr>mc_sequence := 0\<rparr>)))"

section \<open>Executing\<close>

text \<open>What is built up: the bitmap of NULLs, the types, the values.\<close>

record execParts =
  ep_mask :: "byte list"
  ep_types :: "byte list"
  ep_values :: "byte list"

definition setType :: "nat \<Rightarrow> byte \<Rightarrow> byte \<Rightarrow> execParts \<Rightarrow> execParts" where
  "setType i t flag p = p\<lparr>ep_types := (ep_types p)[i + i := t, i + i + 1 := flag]\<rparr>"

definition setNull :: "nat \<Rightarrow> execParts \<Rightarrow> execParts" where
  "setNull i p = setType i fieldTypeNULL 0
     (p\<lparr>ep_mask := (ep_mask p)[i div 8 := (ep_mask p ! (i div 8)) OR push_bit (i mod 8) 1]\<rparr>)"

definition addValue :: "byte list \<Rightarrow> execParts \<Rightarrow> execParts" where
  "addValue bs p = p\<lparr>ep_values := ep_values p @ bs\<rparr>"

definition lenencBytes :: "byte list \<Rightarrow> byte list" where
  "lenencBytes v = appendLengthEncodedInteger [] (of_nat (length v)) @ v"

text \<open>A string of \<open>longDataSize\<close> bytes or more is sent in packets of its own beforehand.\<close>

definition addString :: "u32 \<Rightarrow> int \<Rightarrow> nat \<Rightarrow> byte list \<Rightarrow> execParts \<Rightarrow> (mysqlConn, execParts) act" where
  "addString ident longDataSize i v p =
     (let p = setType i fieldTypeString 0 p
      in if int (length v) < longDataSize then ret (addValue (lenencBytes v) p)
         else seqA (writeCommandLongData ident i v) (ret p))"

definition addArg :: "u32 \<Rightarrow> int \<Rightarrow> int \<Rightarrow> nat \<Rightarrow> marg \<Rightarrow> execParts \<Rightarrow> (mysqlConn, execParts) act" where
  "addArg ident longDataSize loc i arg p =
     (case arg of
        ANull \<Rightarrow> ret (setNull i p)
      | AInt64 v \<Rightarrow> ret (addValue (uint64ToBytes v) (setType i fieldTypeLongLong 0 p))
      | AUint64 v \<Rightarrow> ret (addValue (uint64ToBytes v) (setType i fieldTypeLongLong 0x80 p))
      | AFloat64 v \<Rightarrow> ret (addValue (uint64ToBytes v) (setType i fieldTypeDouble 0 p))
      | ABool v \<Rightarrow> ret (addValue [if v then 1 else 0] (setType i fieldTypeTiny 0 p))
      | AJson v \<Rightarrow> (case v of Some b \<Rightarrow> addString ident longDataSize i b p | None \<Rightarrow> ret (setNull i p))
      | ABytes v \<Rightarrow> (case v of Some b \<Rightarrow> addString ident longDataSize i b p | None \<Rightarrow> ret (setNull i p))
      | AString v \<Rightarrow> addString ident longDataSize i v p
      | ATime v \<Rightarrow>
          thenA (liftA (if time_IsZero v then Ok (bytes_of ''0000-00-00'')
                        else appendDateTime [] (time_In v loc))) (\<lambda>b.
          ret (addValue (lenencBytes b) (setType i fieldTypeString 0 p)))
      | AOther \<Rightarrow> fail (ErrMsg ''cannot convert type: %T''))"

fun addArgs :: "u32 \<Rightarrow> int \<Rightarrow> int \<Rightarrow> nat \<Rightarrow> marg list \<Rightarrow> execParts \<Rightarrow> (mysqlConn, execParts) act" where
  "addArgs ident longDataSize loc i [] p = ret p"
| "addArgs ident longDataSize loc i (arg # args) p =
     thenA (addArg ident longDataSize loc i arg p) (\<lambda>p.
     addArgs ident longDataSize loc (Suc i) args p)"

text \<open>The 14 bytes before the arguments; the first four are for the header.\<close>

definition execHead :: "byte list \<Rightarrow> u32 \<Rightarrow> byte list" where
  "execHead data ident = take 4 data @ [comStmtExecute] @ u32Bytes ident @ [0, 1, 0, 0, 0]"

text \<open>
  The bitmap and the types stand behind these 14 bytes, in the connection's buffer when it has room
  for them and a byte more, with whatever earlier packets left there: the bitmap is cleared byte by
  byte, the types are overwritten argument by argument. Otherwise \<open>make\<close> gives fresh zeros.
\<close>

definition clearMask :: "byte list \<Rightarrow> byte list" where
  "clearMask nullMask = fold (\<lambda>i mask. mask[i := 0]) [0..<length nullMask] nullMask"

definition startParts :: "byte list \<Rightarrow> nat \<Rightarrow> execParts" where
  "startParts data n =
     (let maskLen = (n + 7) div 8; typesLen = 1 + 2 * n
      in if 14 + maskLen + typesLen \<ge> length data
         then \<lparr>ep_mask = replicate maskLen 0, ep_types = replicate (2 * n) 0, ep_values = []\<rparr>
         else \<lparr>ep_mask = clearMask (take maskLen (drop 14 data)),
                ep_types = take (2 * n) (drop (14 + maskLen + 1) data), ep_values = []\<rparr>)"

definition longDataLimit :: "int \<Rightarrow> nat \<Rightarrow> int" where
  "longDataLimit maxAllowed paramCount = max 64 (maxAllowed div (int paramCount + 1))"

text \<open>
  The room for the values is what is left of the connection's buffer, or none when even the bitmap
  and the types do not fit. Values that outgrow the room make a larger buffer, which is kept for
  the connection. \<open>n\<close> is the number of bytes before the values.
\<close>

definition keepLarger :: "driverEnv \<Rightarrow> nat \<Rightarrow> nat \<Rightarrow> byte list \<Rightarrow> (mysqlConn, unit) act" where
  "keepLarger D bufLen n data =
     (let room = (if n \<ge> bufLen then 0 else bufLen - n)
      in if length data - n > room then
           thenA (tryA (onBuf (storeBuf (data, replicate (de_appendCap D (length data)) 0)))) (\<lambda>r.
           case r of Inl e \<Rightarrow> fail ErrBadConnNoWrite | Inr _ \<Rightarrow> ret ())
         else ret ())"

text \<open>
  The packet is put together from the bytes of the buffer that is taken: the four of the header as
  they are, the bitmap and the types as \<open>startParts\<close> finds them. The values are appended behind them
  in the same array while they fit, and in a larger one otherwise; the bytes that are sent are the
  same, and what is left in the array is not kept, as in \<open>writePacket\<close>.
\<close>

definition writeExecutePacket :: "driverEnv \<Rightarrow> mysqlStmt \<Rightarrow> marg list \<Rightarrow> (mysqlConn, unit) act" where
  "writeExecutePacket D stmt args =
     (if length args \<noteq> ms_paramCount stmt then fail (ErrMsg ''argument count mismatch (got: %d; has: %d)'')
      else
        thenA (getA (\<lambda>mc. (mc_maxAllowedPacket mc, locOff (mc_cfg mc)))) (\<lambda>(maxAllowed, loc).
        seqA (modA (\<lambda>mc. mc\<lparr>mc_sequence := 0\<rparr>))
       (thenA (tryA (onBuf (if args = [] then takeBuffer 14 else takeCompleteBuffer))) (\<lambda>r. case r of
          Inl e \<Rightarrow> fail ErrBadConnNoWrite
        | Inr s \<Rightarrow>
            thenA (getA (\<lambda>mc. bytesAt (mc_buf mc) s)) (\<lambda>data.
            if length data < 14 then crash IndexOutOfRange
            else
              let front = execHead data (ms_id stmt)
              in if args = [] then writePacket front
                 else
                   thenA (addArgs (ms_id stmt) (longDataLimit maxAllowed (ms_paramCount stmt)) loc 0 args
                     (startParts data (length args))) (\<lambda>p.
                   let front = front @ ep_mask p @ [1] @ ep_types p; packet = front @ ep_values p
                   in seqA (keepLarger D (length data) (length front) packet)
                     (writePacket packet)))))))"

definition stmtExec :: "driverEnv \<Rightarrow> mysqlStmt \<Rightarrow> marg list \<Rightarrow> (mysqlConn, mysqlResult) act" where
  "stmtExec D stmt args =
     requireOpen
      (seqA (markBad (writeExecutePacket D stmt args))
      (seqA (modA resetResult)
      (thenA (readResultSetHeaderPacket (de_infile D)) (\<lambda>resLen.
       seqA (skipResult resLen)
      (seqA (discardResults (de_infile D))
      (getA resultOf))))))"

text \<open>A result without rows leaves the cursor without a connection, also when more results follow.\<close>

definition stmtQuery :: "driverEnv \<Rightarrow> mysqlStmt \<Rightarrow> marg list \<Rightarrow> (mysqlConn, mysqlRows) act" where
  "stmtQuery D stmt args =
     requireOpen
      (seqA (markBad (writeExecutePacket D stmt args))
      (thenA (readResultSetHeaderPacket (de_infile D)) (\<lambda>resLen.
       if resLen > 0 then withRows (newRows\<lparr>mr_mc := True\<rparr>) (setColumns resLen)
       else skipEmptyResults D (newRows\<lparr>mr_done := True\<rparr>))))"

definition mysqlStmt_Exec :: "driverEnv \<Rightarrow> marg list \<Rightarrow> mysqlResult stmtAct" where
  "mysqlStmt_Exec D args = stmtMc (\<lambda>stmt. stmtExec D stmt args)"

definition mysqlStmt_Query :: "driverEnv \<Rightarrow> marg list \<Rightarrow> mysqlRows stmtAct" where
  "mysqlStmt_Query D args = stmtMc (\<lambda>stmt. stmtQuery D stmt args)"

definition mysqlStmt_ExecContext :: "driverEnv \<Rightarrow> ctxState \<Rightarrow> (string \<times> marg) list \<Rightarrow> mysqlResult stmtAct" where
  "mysqlStmt_ExecContext D ctx args =
     thenA (liftSum (mysqlNamedValueToValue args)) (\<lambda>dargs.
     stmtMc (\<lambda>stmt. seqA (watchCancel ctx) (deferFinish (stmtExec D stmt dargs))))"

definition mysqlStmt_QueryContext :: "driverEnv \<Rightarrow> ctxState \<Rightarrow> (string \<times> marg) list \<Rightarrow> mysqlRows stmtAct" where
  "mysqlStmt_QueryContext D ctx args =
     thenA (liftSum (mysqlNamedValueToValue args)) (\<lambda>dargs.
     stmtMc (\<lambda>stmt. seqA (watchCancel ctx) (keepWatching (stmtQuery D stmt dargs))))"

end
