(* ===== verification/ExecProps.thy ===== *)
theory ExecProps
  imports MysqlStmt PacketProps
begin

text \<open>
  The packet that executes a prepared statement, read by a reference reader of the protocol: the
  statement and the arguments come back. Long arguments, which travel in packets of their own, are
  put together again from these packets.
\<close>

section \<open>The server's view\<close>

text \<open>
  An argument on the wire: what it stands for, its type and flag, its bytes. NULL is a bit in the
  bitmap and the value \<open>ANull\<close> here.
\<close>

type_synonym wireArg = "marg \<times> byte \<times> byte \<times> byte list"

definition wireText :: "byte list \<Rightarrow> wireArg" where
  "wireText s = (AString s, fieldTypeString, 0, lenencBytes s)"

definition wireNull :: wireArg where
  "wireNull = (ANull, fieldTypeNULL, 0, [])"

fun wire :: "int \<Rightarrow> marg \<Rightarrow> wireArg res" where
  "wire loc ANull = Ok wireNull"
| "wire loc (AInt64 v) = Ok (AInt64 v, fieldTypeLongLong, 0, uint64ToBytes v)"
| "wire loc (AUint64 v) = Ok (AUint64 v, fieldTypeLongLong, 0x80, uint64ToBytes v)"
| "wire loc (AFloat64 v) = Ok (AFloat64 v, fieldTypeDouble, 0, uint64ToBytes v)"
| "wire loc (ABool v) = Ok (ABool v, fieldTypeTiny, 0, [if v then 1 else 0])"
| "wire loc (AJson v) = Ok (case v of None \<Rightarrow> wireNull | Some s \<Rightarrow> wireText s)"
| "wire loc (ABytes v) = Ok (case v of None \<Rightarrow> wireNull | Some s \<Rightarrow> wireText s)"
| "wire loc (AString s) = Ok (wireText s)"
| "wire loc (ATime t) =
     bindR (if time_IsZero t then Ok (bytes_of ''0000-00-00'') else appendDateTime [] (time_In t loc))
       (\<lambda>s. Ok (wireText s))"
| "wire loc AOther = Fail (ErrMsg ''cannot convert type: %T'')"

fun wires :: "int \<Rightarrow> marg list \<Rightarrow> wireArg list res" where
  "wires loc [] = Ok []"
| "wires loc (a # as) = bindR (wire loc a) (\<lambda>w. bindR (wires loc as) (\<lambda>ws. Ok (w # ws)))"

text \<open>A string argument that stays in the packet, and is no longer than memory.\<close>

definition shortArg :: "int \<Rightarrow> marg \<Rightarrow> bool" where
  "shortArg limit a = (case a of
       AJson (Some s) \<Rightarrow> int (length s) < limit \<and> length s < 2 ^ 62
     | ABytes (Some s) \<Rightarrow> int (length s) < limit \<and> length s < 2 ^ 62
     | AString s \<Rightarrow> int (length s) < limit \<and> length s < 2 ^ 62
     | _ \<Rightarrow> True)"

section \<open>A reference reader\<close>

definition readValue :: "byte \<Rightarrow> byte \<Rightarrow> byte list \<Rightarrow> (marg \<times> byte list) option" where
  "readValue t flag bs =
     (if t = fieldTypeLongLong \<and> 8 \<le> length bs
      then Some ((if flag = 0x80 then AUint64 else AInt64) (le_bytes (take 8 bs)), drop 8 bs)
      else if t = fieldTypeDouble \<and> 8 \<le> length bs then Some (AFloat64 (le_bytes (take 8 bs)), drop 8 bs)
      else if t = fieldTypeTiny \<and> bs \<noteq> [] then Some (ABool (hd bs \<noteq> 0), tl bs)
      else if t = fieldTypeString then
        (case readLengthEncodedString bs (length bs) of
           Ok (s, _, n, None) \<Rightarrow> Some (AString s, drop (nat n) bs) | _ \<Rightarrow> None)
      else None)"

definition maskBit :: "byte list \<Rightarrow> nat \<Rightarrow> bool" where
  "maskBit nulls k = bit (nulls ! (k div 8)) (k mod 8)"

fun readArgs :: "byte list \<Rightarrow> byte list \<Rightarrow> nat \<Rightarrow> nat \<Rightarrow> byte list \<Rightarrow> marg list option" where
  "readArgs nulls types i 0 bs = (if bs = [] then Some [] else None)"
| "readArgs nulls types i (Suc n) bs =
     (if maskBit nulls i then map_option ((#) ANull) (readArgs nulls types (Suc i) n bs)
      else case readValue (types ! (2 * i)) (types ! (2 * i + 1)) bs of
        None \<Rightarrow> None
      | Some (a, bs) \<Rightarrow> map_option ((#) a) (readArgs nulls types (Suc i) n bs))"

definition readExecute :: "nat \<Rightarrow> byte list \<Rightarrow> (u32 \<times> marg list) option" where
  "readExecute n payload =
     (let ident = le_bytes (take 4 (drop 1 payload)); rest = drop 10 payload; m = (n + 7) div 8
      in if take 1 payload \<noteq> [comStmtExecute] \<or> take 5 (drop 5 payload) \<noteq> [0, 1, 0, 0, 0] then None
         else if n = 0 then (if rest = [] then Some (ident, []) else None)
         else if take 1 (drop m rest) \<noteq> [1] then None
         else map_option (Pair ident)
           (readArgs (take m rest) (take (2 * n) (drop (m + 1) rest)) 0 n (drop (m + 1 + 2 * n) rest)))"

section \<open>Reading one value\<close>

lemma readValue_text:
  "length s < 2 ^ 62 \<Longrightarrow> readValue fieldTypeString 0 (lenencBytes s @ rest) = Some (AString s, rest)"
  using read_append_lenenc_string [of s rest "length (lenencBytes s @ rest)"]
  by (simp add: readValue_def lenencBytes_def fieldType_defs)

lemma appendDateTime_length: "appendDateTime [] t = Ok s \<Longrightarrow> length s < 2 ^ 62"
  by (auto simp: appendDateTime_def Let_def bindR_Ok_iff pairs3_def pair_def split: if_splits)

lemma readValue_wire:
  assumes "wire loc a = Ok (v, t, f, bs)" and "shortArg limit a" and "v \<noteq> ANull"
  shows "readValue t f (bs @ rest) = Some (v, rest)"
proof (cases a)
  case (ATime x)
  then obtain s where "(if time_IsZero x then Ok (bytes_of ''0000-00-00'')
      else appendDateTime [] (time_In x loc)) = Ok s" and s: "wireText s = (v, t, f, bs)"
    using assms(1) by (auto simp: bindR_Ok_iff simp del: if_split)
  then have "length s < 2 ^ 62" by (auto simp: bytes_of_def dest: appendDateTime_length split: if_splits)
  then show ?thesis using readValue_text s by (auto simp: wireText_def)
next
  case (AJson x)
  then show ?thesis using assms readValue_text
    by (auto simp: wireText_def wireNull_def shortArg_def split: option.splits)
next
  case (ABytes x)
  then show ?thesis using assms readValue_text
    by (auto simp: wireText_def wireNull_def shortArg_def split: option.splits)
next
  case (AString x)
  then show ?thesis using assms readValue_text by (auto simp: wireText_def shortArg_def)
qed (use assms in \<open>auto simp: readValue_def fieldType_defs wireNull_def split: if_splits\<close>)

section \<open>Building the packet\<close>

text \<open>
  The parts after the first \<open>i\<close> arguments, with room for \<open>n\<close> more, whose types are still what the
  buffer held before.
\<close>

definition built :: "nat \<Rightarrow> wireArg list \<Rightarrow> execParts \<Rightarrow> bool" where
  "built n ws p \<longleftrightarrow>
     (\<exists>rest. length rest = 2 * n \<and> ep_types p = concat (map (\<lambda>(v, t, f, bs). [t, f]) ws) @ rest)
     \<and> ep_values p = concat (map (\<lambda>(v, t, f, bs). bs) ws)
     \<and> length (ep_mask p) = (length ws + n + 7) div 8
     \<and> list_all (\<lambda>k. maskBit (ep_mask p) k \<longleftrightarrow> k < length ws \<and> fst (ws ! k) = ANull) [0..<8 * length (ep_mask p)]"

definition put :: "nat \<Rightarrow> wireArg \<Rightarrow> execParts \<Rightarrow> execParts" where
  "put i = (\<lambda>(v, t, f, bs) p. if v = ANull then setNull i p else addValue bs (setType i t f p))"

lemma addArg_short:
  assumes "wire loc a = Ok w" and "shortArg limit a"
  shows "addArg ident limit loc i a p mc = (Ok (put i w p), mc)"
proof (cases a)
  case (ATime x)
  then show ?thesis using assms
    by (cases "time_IsZero x"; cases "appendDateTime [] (time_In x loc)")
      (auto simp: addArg_def put_def wireText_def lenencBytes_def)
next
  case (AJson x)
  then show ?thesis using assms
    by (cases x) (auto simp: addArg_def addString_def put_def wireText_def wireNull_def shortArg_def Let_def)
next
  case (ABytes x)
  then show ?thesis using assms
    by (cases x) (auto simp: addArg_def addString_def put_def wireText_def wireNull_def shortArg_def Let_def)
qed (use assms in \<open>auto simp: addArg_def addString_def put_def wireText_def wireNull_def shortArg_def Let_def\<close>)

lemma maskBit_set:
  assumes "i div 8 < length nulls"
  shows "maskBit (nulls[i div 8 := (nulls ! (i div 8)) OR 2 ^ (i mod 8)]) k \<longleftrightarrow> k = i \<or> maskBit nulls k"
proof (cases "k div 8 = i div 8")
  case True
  have "k = i \<longleftrightarrow> k mod 8 = i mod 8" using True by (metis div_mult_mod_eq)
  moreover have "k mod 8 < 8" by simp
  moreover have "bit (x OR 2 ^ m :: byte) n \<longleftrightarrow> bit x n \<or> n = m" if "n < 8" for x m n
    using that unfolding push_bit_of_1 [symmetric]
    by (auto simp: bit_or_iff bit_push_bit_iff bit_1_iff simp del: push_bit_of_1)
  ultimately show ?thesis using True assms(1) by (auto simp: maskBit_def nth_list_update)
next
  case False
  then show ?thesis using assms(1) by (auto simp: maskBit_def nth_list_update)
qed

lemma set_pair:
  assumes "length xs = i + i" and "length rest = 2 * Suc n"
  shows "(xs @ rest)[i + i := t, i + i + 1 := f] = (xs @ [t, f]) @ drop 2 rest"
proof -
  obtain x y zs where "rest = x # y # zs" using assms(2) by (cases rest; cases "tl rest") auto
  then show ?thesis using assms(1) by (simp add: list_update_append)
qed

lemma length_types: "length (concat (map (\<lambda>(v, t, f, bs). [t, f]) ws)) = length ws + length ws"
  by (induction ws) auto

lemma built_put:
  assumes "built (Suc n) ws p" and "fst w = ANull \<longrightarrow> w = wireNull"
  shows "built n (ws @ [w]) (put (length ws) w p)"
proof -
  obtain v t f bs where w: "w = (v, t, f, bs)" by (cases w)
  let ?i = "length ws"
  obtain rest where rest: "length rest = 2 * Suc n"
    and types: "ep_types p = concat (map (\<lambda>(v, t, f, bs). [t, f]) ws) @ rest"
    using assms(1) by (auto simp: built_def)
  have left: "length (drop 2 rest) = 2 * n" using rest by simp
  have vals: "ep_values p = concat (map (\<lambda>(v, t, f, bs). bs) ws)"
    and len: "length (ep_mask p) = (?i + Suc n + 7) div 8"
    and nulls: "k < 8 * length (ep_mask p) \<Longrightarrow>
      maskBit (ep_mask p) k \<longleftrightarrow> k < ?i \<and> fst (ws ! k) = ANull" for k
    using assms(1) by (auto simp: built_def list_all_iff)
  have "?i div 8 < length (ep_mask p)" unfolding len by (simp add: div_less_iff_less_mult)
  then have i: "?i div 8 < length (ep_mask p)" .
  have pair: "(ep_types p)[?i + ?i := a, ?i + ?i + 1 := b]
      = concat (map (\<lambda>(v, t, f, bs). [t, f]) (ws @ [(x, a, b, y)])) @ drop 2 rest" for a b x y
    unfolding types using set_pair [OF length_types rest, of ws a b] by simp
  show ?thesis
  proof (cases "v = ANull")
    case True
    then have "w = wireNull" using assms(2) w by simp
    then show ?thesis using i nulls len vals left w pair [of fieldTypeNULL 0]
      by (auto simp: built_def put_def setNull_def setType_def wireNull_def list_all_iff maskBit_set nth_append less_Suc_eq)
  next
    case False
    then show ?thesis using nulls len vals left w pair [of t f]
      by (auto simp: built_def put_def addValue_def setType_def list_all_iff nth_append less_Suc_eq)
  qed
qed

lemma wire_null: "wire loc a = Ok w \<Longrightarrow> fst w = ANull \<longrightarrow> w = wireNull"
  by (cases a) (auto simp: wireText_def wireNull_def bindR_Ok_iff split: option.splits)

lemma addArgs_built:
  assumes "wires loc args = Ok ws" and "list_all (shortArg limit) args" and "built (length args) done_ws p"
  shows "\<exists>p'. addArgs ident limit loc (length done_ws) args p mc = (Ok p', mc) \<and> built 0 (done_ws @ ws) p'"
  using assms
proof (induction args arbitrary: ws p done_ws)
  case (Cons a as)
  obtain w ws' where w: "wire loc a = Ok w" and ws: "wires loc as = Ok ws'" "ws = w # ws'"
    using Cons.prems(1) by (auto simp: bindR_Ok_iff)
  have add: "addArg ident limit loc (length done_ws) a p mc = (Ok (put (length done_ws) w p), mc)"
    using w Cons.prems(2) by (intro addArg_short) auto
  have "built (length as) (done_ws @ [w]) (put (length done_ws) w p)"
    using Cons.prems(3) wire_null [OF w] by (intro built_put) auto
  with Cons.IH [OF ws(1)] Cons.prems(2) obtain p' where
    "addArgs ident limit loc (length (done_ws @ [w])) as (put (length done_ws) w p) mc = (Ok p', mc)"
    "built 0 ((done_ws @ [w]) @ ws') p'" by (metis list.pred_inject(2))
  then show ?case using ws(2)
    by (simp add: thenA_Ok [of "addArg ident limit loc (length done_ws) a p", OF add])
qed simp

lemma clearMask_zeros: "clearMask nullMask = replicate (length nullMask) 0"
proof -
  have "fold (\<lambda>i mask. mask[i := 0]) [0..<n] xs = replicate n 0 @ drop n xs" if "n \<le> length xs" for n and xs :: "byte list"
    using that
  proof (induction n)
    case (Suc n)
    then have "drop n xs = xs ! n # drop (Suc n) xs" by (simp add: Cons_nth_drop_Suc)
    with Suc show ?case by (simp add: list_update_append replicate_append_same)
  qed simp
  from this [of "length nullMask" nullMask] show ?thesis by (simp add: clearMask_def)
qed

lemma startParts_built: "built n [] (startParts data n)"
proof -
  have "maskBit (replicate m 0) k = False" if "k < 8 * m" for m k
    using that by (simp add: maskBit_def less_mult_imp_div_less mult.commute)
  then show ?thesis by (auto simp: built_def startParts_def Let_def list_all_iff clearMask_zeros)
qed

text \<open>The reader takes the parts apart again.\<close>

lemma length_wires: "wires loc args = Ok ws \<Longrightarrow> length ws = length args"
  by (induction args arbitrary: ws) (auto simp: bindR_Ok_iff)

lemma readArgs_built:
  assumes "wires loc args = Ok ws" and "list_all (shortArg limit) args"
    and "\<And>k. k < length ws \<Longrightarrow> maskBit nulls (i + k) \<longleftrightarrow> fst (ws ! k) = ANull"
    and "\<And>k. k < length ws \<Longrightarrow> types ! (2 * (i + k)) = fst (snd (ws ! k)) \<and>
        types ! (2 * (i + k) + 1) = fst (snd (snd (ws ! k)))"
  shows "readArgs nulls types i (length ws) (concat (map (\<lambda>(v, t, f, bs). bs) ws)) = Some (map fst ws)"
  using assms
proof (induction args arbitrary: ws i)
  case (Cons a as)
  obtain w ws' where w: "wire loc a = Ok w" and ws: "wires loc as = Ok ws'" "ws = w # ws'"
    using Cons.prems(1) by (auto simp: bindR_Ok_iff)
  obtain v t f bs where wp: "w = (v, t, f, bs)" by (cases w)
  have "readArgs nulls types (Suc i) (length ws') (concat (map (\<lambda>(v, t, f, bs). bs) ws')) = Some (map fst ws')"
  proof (rule Cons.IH [OF ws(1)])
    show "list_all (shortArg limit) as" using Cons.prems(2) by simp
    fix k assume "k < length ws'"
    then show "maskBit nulls (Suc i + k) \<longleftrightarrow> fst (ws' ! k) = ANull"
      "types ! (2 * (Suc i + k)) = fst (snd (ws' ! k)) \<and> types ! (2 * (Suc i + k) + 1) = fst (snd (snd (ws' ! k)))"
      using Cons.prems(3) [of "Suc k"] Cons.prems(4) [of "Suc k"] ws(2) by auto
  qed
  moreover have "maskBit nulls i \<longleftrightarrow> v = ANull" "types ! (2 * i) = t" "types ! (2 * i + 1) = f"
    using Cons.prems(3) [of 0] Cons.prems(4) [of 0] ws(2) wp by auto
  moreover have "v = ANull \<Longrightarrow> bs = []" using wire_null [OF w] wp by (auto simp: wireNull_def)
  moreover have "v \<noteq> ANull \<Longrightarrow> readValue t f (bs @ rest) = Some (v, rest)" for rest
    using readValue_wire w wp Cons.prems(2) by auto
  ultimately show ?case using ws(2) wp by auto
qed simp

section \<open>The packet\<close>

lemma le_bytes_u32Bytes [simp]: "le_bytes (u32Bytes v) = v"
proof -
  have "u32Bytes v = to_le 4 v" by (simp add: u32Bytes_def numeral_eq_Suc drop_bit_drop_bit)
  then show ?thesis by (simp add: le_bytes_to_le take_bit_word_eq_self)
qed

definition execPayload :: "u32 \<Rightarrow> byte list \<Rightarrow> byte list" where
  "execPayload ident rest = [comStmtExecute] @ u32Bytes ident @ [0, 1, 0, 0, 0] @ rest"

definition execLength :: "wireArg list \<Rightarrow> nat" where
  "execLength ws = (if ws = [] then 10
     else 11 + (length ws + 7) div 8 + 2 * length ws + sum_list (map (\<lambda>(v, t, f, bs). length bs) ws))"

lemma length_execPayload [simp]: "length (execPayload ident rest) = 10 + length rest"
  by (simp add: execPayload_def u32Bytes_def)

lemma execLength_built:
  assumes "built 0 ws p" and "ws \<noteq> []"
  shows "length (execPayload ident (ep_mask p @ [1] @ ep_types p @ ep_values p)) = execLength ws"
proof -
  have "length (concat (map (\<lambda>(v, t, f, bs). [t, f]) xs)) = 2 * length xs" for xs :: "wireArg list"
    by (induction xs) auto
  moreover have "length (concat (map (\<lambda>(v, t, f, bs). bs) xs)) = sum_list (map (\<lambda>(v, t, f, bs). length bs) xs)"
    for xs :: "wireArg list" by (induction xs) auto
  ultimately show ?thesis using assms by (simp add: built_def execLength_def)
qed

lemma readExecute_payload:
  "readExecute n (execPayload ident rest) =
     (let m = (n + 7) div 8
      in if n = 0 then (if rest = [] then Some (ident, []) else None)
         else if take 1 (drop m rest) \<noteq> [1] then None
         else map_option (Pair ident)
           (readArgs (take m rest) (take (2 * n) (drop (m + 1) rest)) 0 n (drop (m + 1 + 2 * n) rest)))"
proof -
  have l: "length (u32Bytes ident) = 4" by (simp add: u32Bytes_def)
  then have "take 4 (u32Bytes ident @ x) = u32Bytes ident" "drop 4 (u32Bytes ident @ x) = x"
    "take 5 (drop 4 (u32Bytes ident @ [0, 1, 0, 0, 0] @ x)) = [0, 1, 0, 0, 0]"
    "drop 9 (u32Bytes ident @ [0, 1, 0, 0, 0] @ x) = x" for x :: "byte list" by simp_all
  then show ?thesis by (simp add: readExecute_def execPayload_def Let_def)
qed

lemma types_nth:
  assumes "k < length ws"
  shows "concat (map (\<lambda>(v, t, f, bs). [t, f]) ws) ! (2 * k) = fst (snd (ws ! k))
    \<and> concat (map (\<lambda>(v, t, f, bs). [t, f]) ws) ! (2 * k + 1) = fst (snd (snd (ws ! k)))"
  using assms
proof (induction ws arbitrary: k)
  case (Cons w ws)
  then show ?case by (cases k; cases w) auto
qed simp

lemma readExecute_built:
  assumes "wires loc args = Ok ws" and "list_all (shortArg limit) args" and "built 0 ws p" and "args \<noteq> []"
  shows "readExecute (length args) (execPayload ident (ep_mask p @ [1] @ ep_types p @ ep_values p))
    = Some (ident, map fst ws)"
proof -
  have len: "length ws = length args" using length_wires [OF assms(1)] .
  have b: "ep_types p = concat (map (\<lambda>(v, t, f, bs). [t, f]) ws)"
    "ep_values p = concat (map (\<lambda>(v, t, f, bs). bs) ws)" "length (ep_mask p) = (length args + 7) div 8"
    "k < 8 * length (ep_mask p) \<Longrightarrow> maskBit (ep_mask p) k \<longleftrightarrow> k < length ws \<and> fst (ws ! k) = ANull" for k
    using assms(3) len by (auto simp: built_def list_all_iff)
  have lt: "length (ep_types p) = 2 * length args" using b(1) length_types [of ws] len by simp
  have "k < 8 * length (ep_mask p)" if "k < length ws" for k using that len b(3) by linarith
  then have "readArgs (ep_mask p) (ep_types p) 0 (length ws) (ep_values p) = Some (map fst ws)"
    unfolding b(2) by (intro readArgs_built [OF assms(1,2)]) (use b(4) types_nth in \<open>auto simp: b(1)\<close>)
  then show ?thesis using lt b(3) len assms(4) by (simp add: readExecute_payload Let_def)
qed

text \<open>An empty buffer stays empty, well-formed and roomy, whatever array it works in afterwards.\<close>

definition keepsEmpty :: "buffer \<Rightarrow> buffer \<Rightarrow> bool" where
  "keepsEmpty b b' \<longleftrightarrow> b_nc b' = b_nc b \<and> b_length b' = 0 \<and> (wf_buffer b \<longrightarrow> wf_buffer b') \<and> (roomy b \<longrightarrow> roomy b')"

lemma keepsEmpty_trans: "keepsEmpty b b' \<Longrightarrow> keepsEmpty b' b'' \<Longrightarrow> keepsEmpty b b''"
  by (simp add: keepsEmpty_def)

lemma keepsEmpty_takeBuffer: "b_length b = 0 \<Longrightarrow> takeBuffer n b = (Ok s, b') \<Longrightarrow> keepsEmpty b b'"
  by (auto simp: takeBuffer_def makeArr_def keepsEmpty_def wf_buffer_def roomy_def arr_def nth_append split: if_splits)

lemma storeBuf_keepsEmpty:
  assumes "b_length b = 0"
  shows "\<exists>b'. storeBuf s b = (Ok (), b') \<and> keepsEmpty b b'"
  using assms by (cases s) (auto simp: storeBuf_def Let_def makeArr_def keepsEmpty_def wf_buffer_def roomy_def arr_def nth_append)

lemma keepLarger_ok:
  assumes "b_length (mc_buf mc) = 0"
  shows "\<exists>b. keepLarger D k n data mc = (Ok (), mc\<lparr>mc_buf := b\<rparr>) \<and> keepsEmpty (mc_buf mc) b"
proof -
  obtain sp where sp: "sp = replicate (de_appendCap D (length data)) (0 :: byte)" by blast
  obtain b where b: "storeBuf (data, sp) (mc_buf mc) = (Ok (), b)" "keepsEmpty (mc_buf mc) b"
    using storeBuf_keepsEmpty [OF assms] by blast
  show ?thesis
  proof (cases "length data - n > (if n \<ge> k then 0 else k - n)")
    case True
    then show ?thesis using b
      by (auto simp: keepLarger_def Let_def thenA_def [of "tryA _"] tryA_onBuf sp [symmetric])
  next
    case False
    then have "keepLarger D k n data mc = (Ok (), mc\<lparr>mc_buf := mc_buf mc\<rparr>)" by (simp add: keepLarger_def Let_def)
    moreover have "keepsEmpty (mc_buf mc) (mc_buf mc)" using assms by (simp add: keepsEmpty_def)
    ultimately show ?thesis by blast
  qed
qed

lemma takeExec:
  assumes "b_length b = 0" and "14 \<le> length (arr b (b_buf b))"
  shows "\<exists>s b'. (if args = [] then takeBuffer 14 else takeCompleteBuffer) b = (Ok s, b') \<and> keepsEmpty b b'
    \<and> 14 \<le> length (bytesAt b' s)"
proof (cases "args = []")
  case True
  obtain s b' where "takeBuffer 14 b = (Ok s, b')" "length (bytesAt b' s) = 14"
    using takeBuffer_ok [OF assms(1), of 14] by blast
  then show ?thesis using True keepsEmpty_takeBuffer [OF assms(1)] by fastforce
next
  case False
  then show ?thesis using assms by (simp add: takeCompleteBuffer_def bytesAt_def keepsEmpty_def)
qed

text \<open>One packet has been sent; nothing has been read.\<close>

definition sent :: "mysqlConn \<Rightarrow> byte list \<Rightarrow> mysqlConn \<Rightarrow> bool" where
  "sent mc payload mc' \<longleftrightarrow> (\<exists>b dl. list_all (\<lambda>e. e = None) dl
     \<and> mc' = mc\<lparr>mc_buf := b\<lparr>b_nc := (mc_net mc)\<lparr>n_writeDl := dl, n_out := n_out (mc_net mc) @ frames 0 payload\<rparr>\<rparr>,
         mc_sequence := of_nat (frameCount payload)\<rparr>
     \<and> keepsEmpty (mc_buf mc) b)"

lemma sent_out: "sent mc payload mc' \<Longrightarrow> n_out (mc_net mc') = n_out (mc_net mc) @ frames 0 payload"
  by (auto simp: sent_def)

text \<open>A payload that fits the limit is sent, another is refused.\<close>

definition sentOrRefused :: "mysqlConn \<Rightarrow> byte list \<Rightarrow> unit res \<Rightarrow> mysqlConn \<Rightarrow> bool" where
  "sentOrRefused mc payload res mc' \<longleftrightarrow>
     (if int (length payload) \<le> mc_maxAllowedPacket mc
      then res = Ok () \<and> sent mc payload mc'
      else res = Fail ErrPktTooLarge \<and> n_out (mc_net mc') = n_out (mc_net mc))"

lemma writePacket_sentOrRefused:
  assumes "canWrite mc" and "\<not> mc_reset mc" and "keepsEmpty (mc_buf mc) b" and "4 \<le> length data"
  shows "\<exists>res mc'. writePacket (take 4 data @ payload) (mc\<lparr>mc_sequence := 0, mc_buf := b\<rparr>) = (res, mc')
    \<and> sentOrRefused mc payload res mc'"
proof (cases "int (length payload) \<le> mc_maxAllowedPacket mc")
  case True
  let ?m = "mc\<lparr>mc_sequence := 0, mc_buf := b\<rparr>"
  have nc: "b_nc b = mc_net mc" using assms(3) by (simp add: keepsEmpty_def)
  then have m: "canWrite ?m" "\<not> mc_reset ?m" using assms(1,2) by (simp_all add: canWrite_def)
  have "drop 4 (take 4 data @ payload) = payload" "4 \<le> length (take 4 data @ payload)"
    "int (length (take 4 data @ payload)) - 4 = int (length payload)"
    using assms(4) by simp_all
  with writePacket_frames [OF m, of "take 4 data @ payload"] True obtain mc' where
    wp: "writePacket (take 4 data @ payload) ?m = (Ok (), mc')" and wr: "wrote (frames 0 payload) (frameCount payload) ?m mc'"
    by auto
  from wr obtain dl where dl: "list_all (\<lambda>e. e = None) dl"
    and mc': "mc' = updNet (\<lambda>c. c\<lparr>n_writeDl := dl, n_out := n_out c @ frames 0 payload\<rparr>)
      (?m\<lparr>mc_sequence := of_nat (frameCount payload)\<rparr>)" by (auto simp: wrote_def)
  have "mc' = mc\<lparr>mc_buf := b\<lparr>b_nc := (mc_net mc)\<lparr>n_writeDl := dl, n_out := n_out (mc_net mc) @ frames 0 payload\<rparr>\<rparr>,
      mc_sequence := of_nat (frameCount payload)\<rparr>"
    using nc by (simp add: mc' updNet_def)
  with dl assms(3) have "sent mc payload mc'" unfolding sent_def by blast
  with wp True show ?thesis by (auto simp: sentOrRefused_def)
next
  case False
  then show ?thesis using assms(3,4) by (simp add: writePacket_def sentOrRefused_def keepsEmpty_def)
qed

lemma execute_sent:
  assumes "length args = ms_paramCount stmt" and "wires (locOff (mc_cfg mc)) args = Ok ws"
    and "list_all (shortArg (longDataLimit (mc_maxAllowedPacket mc) (ms_paramCount stmt))) args"
    and "canWrite mc" and "\<not> mc_reset mc" and "b_length (mc_buf mc) = 0"
    and "14 \<le> length (arr (mc_buf mc) (b_buf (mc_buf mc)))"
  shows "\<exists>payload res mc'. readExecute (length args) payload = Some (ms_id stmt, map fst ws)
    \<and> length payload = execLength ws
    \<and> writeExecutePacket D stmt args mc = (res, mc') \<and> sentOrRefused mc payload res mc'"
proof -
  let ?mc0 = "mc\<lparr>mc_sequence := 0\<rparr>" and ?limit = "longDataLimit (mc_maxAllowedPacket mc) (ms_paramCount stmt)"
  obtain s b where tk: "(if args = [] then takeBuffer 14 else takeCompleteBuffer) (mc_buf mc) = (Ok s, b)"
    and kb: "keepsEmpty (mc_buf mc) b" and len: "14 \<le> length (bytesAt b s)"
    using takeExec [OF assms(6,7), of args] by blast
  let ?mc1 = "?mc0\<lparr>mc_buf := b\<rparr>" and ?data = "bytesAt b s"
  have len4: "4 \<le> length ?data" using len by simp
  note send = writePacket_sentOrRefused [OF assms(4,5) _ len4]
  show ?thesis
  proof (cases "args = []")
    case True
    have ws: "ws = []" using assms(2) True by simp
    let ?p = "execPayload (ms_id stmt) []"
    have "execHead ?data (ms_id stmt) = take 4 ?data @ ?p" by (simp add: execHead_def execPayload_def)
    from send [OF kb, of ?p, folded this] obtain res mc' where
      wp: "writePacket (execHead ?data (ms_id stmt)) ?mc1 = (res, mc')" and fin: "sentOrRefused mc ?p res mc'" by blast
    have "writeExecutePacket D stmt args mc = (res, mc')"
      using tk len wp True assms(1)
      by (simp add: writeExecutePacket_def thenA_def [of "tryA _"] tryA_onBuf Let_def)
    moreover have "readExecute (length args) ?p = Some (ms_id stmt, map fst ws)"
      by (simp add: readExecute_payload True ws Let_def)
    moreover have "length ?p = execLength ws" by (simp add: ws execLength_def)
    ultimately show ?thesis using fin by blast
  next
    case False
    have e: "built (length args) [] (startParts ?data (length args))" by (rule startParts_built)
    from addArgs_built [OF assms(2,3) e, of "ms_id stmt" ?mc1] obtain p where
      ad: "addArgs (ms_id stmt) ?limit (locOff (mc_cfg mc)) 0 args (startParts ?data (length args)) ?mc1 = (Ok p, ?mc1)"
      and p: "built 0 ws p" by auto
    let ?p = "execPayload (ms_id stmt) (ep_mask p @ [1] @ ep_types p @ ep_values p)"
    let ?front = "execHead ?data (ms_id stmt) @ ep_mask p @ [1] @ ep_types p"
    have pk: "?front @ ep_values p = take 4 ?data @ ?p" by (simp add: execHead_def execPayload_def)
    obtain c where kl: "keepLarger D (length ?data) (length ?front) (?front @ ep_values p) ?mc1 = (Ok (), ?mc1\<lparr>mc_buf := c\<rparr>)"
      and kc: "keepsEmpty b c"
      using keepLarger_ok [of ?mc1 D "length ?data" "length ?front" "?front @ ep_values p"] kb by (auto simp: keepsEmpty_def)
    from send [OF keepsEmpty_trans [OF kb kc], of ?p] obtain res mc' where
      wp: "writePacket (?front @ ep_values p) (?mc1\<lparr>mc_buf := c\<rparr>) = (res, mc')" and fin: "sentOrRefused mc ?p res mc'"
      unfolding pk by auto
    have tk': "takeCompleteBuffer (mc_buf mc) = (Ok s, b)" using tk False by simp
    have "writeExecutePacket D stmt args mc = (res, mc')"
      using tk' len False assms(1) ad kl wp
      by (simp add: writeExecutePacket_def thenA_def [of "tryA _"] tryA_onBuf Let_def)
        (simp add: thenA_def seqA_def)
    moreover have "readExecute (length args) ?p = Some (ms_id stmt, map fst ws)"
      by (rule readExecute_built [OF assms(2,3) p False])
    moreover have "length ?p = execLength ws"
      using p False length_wires [OF assms(2)] by (intro execLength_built) auto
    ultimately show ?thesis using fin by blast
  qed
qed

text \<open>
  C9: Executing a prepared statement whose arguments are all below the size for long data (longer
  ones are sent ahead in packets of their own, see \<open>long_data_arrives\<close>) and of types the driver
  converts sends one packet, split into frames where it is long. A reader of the protocol finds in
  it the statement and the arguments as the driver understands them (nil byte slices are NULL, times
  are texts in the connection's location). What the buffer that the packet is built in holds from
  earlier packets does not matter, nor whether it has room or has to grow. A packet over the limit
  is not sent.
\<close>

theorem execute_packet_decodes:
  assumes "length args = ms_paramCount stmt" and "wires (locOff (mc_cfg mc)) args = Ok ws"
    and "list_all (shortArg (longDataLimit (mc_maxAllowedPacket mc) (ms_paramCount stmt))) args"
    and "canWrite mc" and "\<not> mc_reset mc" and "b_length (mc_buf mc) = 0"
    and "14 \<le> length (arr (mc_buf mc) (b_buf (mc_buf mc)))"
  shows "\<exists>payload res mc'. readExecute (length args) payload = Some (ms_id stmt, map fst ws)
    \<and> length payload = execLength ws
    \<and> writeExecutePacket D stmt args mc = (res, mc')
    \<and> (if int (length payload) \<le> mc_maxAllowedPacket mc
       then res = Ok () \<and> n_out (mc_net mc') = n_out (mc_net mc) @ frames 0 payload
       else res = Fail ErrPktTooLarge \<and> n_out (mc_net mc') = n_out (mc_net mc))"
proof -
  from execute_sent [OF assms, of D] obtain payload res mc' where
    "readExecute (length args) payload = Some (ms_id stmt, map fst ws)" "length payload = execLength ws"
    "writeExecutePacket D stmt args mc = (res, mc')" "sentOrRefused mc payload res mc'" by blast
  then show ?thesis
    by (intro exI [of _ payload] exI [of _ res] exI [of _ mc']) (auto simp: sentOrRefused_def sent_out split: if_splits)
qed

definition demoStmt :: "nat \<Rightarrow> mysqlStmt" where
  "demoStmt n = \<lparr>ms_mc = True, ms_id = 5, ms_paramCount = n\<rparr>"

definition demoArgs :: "marg list" where
  "demoArgs = [AInt64 (- 1), ABytes None, AString [0x61, 0x62], ABool True]"

definition demoDriver :: driverEnv where
  "demoDriver = \<lparr>de_fmtFloat = (\<lambda>f. []), de_infile = \<lparr>if_readers = [], if_files = [], if_open = (\<lambda>n. Inl ErrEOF)\<rparr>,
     de_appendCap = (\<lambda>n. 2 * n)\<rparr>"

text \<open>A connection whose buffer is full of ones from earlier packets.\<close>

definition dirtyMc :: mysqlConn where
  "dirtyMc = (demoMc [])\<lparr>mc_buf := setArr 0 (replicate defaultBufSize 0xff) (mc_buf (demoMc []))\<rparr>"

theorem execute_packet_decodes_witness:
  "\<exists>payload mc'. readExecute (length demoArgs) payload = Some (5, [AInt64 (- 1), ANull, AString [0x61, 0x62], ABool True])
    \<and> writeExecutePacket demoDriver (demoStmt 4) demoArgs dirtyMc = (Ok (), mc')
    \<and> n_out (mc_net mc') = frames 0 payload"
proof -
  let ?ws = "[(AInt64 (- 1), fieldTypeLongLong, 0, uint64ToBytes (- 1)),
      wireNull, wireText [0x61, 0x62], (ABool True, fieldTypeTiny, 0, [1])]"
  have w: "wires (locOff (mc_cfg dirtyMc)) demoArgs = Ok ?ws"
    by (simp add: demoArgs_def)
  have m: "mc_maxAllowedPacket dirtyMc = mc_maxAllowedPacket (demoMc [])" "mc_reset dirtyMc = mc_reset (demoMc [])"
    "canWrite dirtyMc = canWrite (demoMc [])" "n_out (mc_net dirtyMc) = n_out (mc_net (demoMc []))"
    "b_length (mc_buf dirtyMc) = b_length (mc_buf (demoMc []))"
    by (simp_all add: dirtyMc_def canWrite_def)
  have "list_all (shortArg (longDataLimit (mc_maxAllowedPacket dirtyMc) (ms_paramCount (demoStmt 4)))) demoArgs"
    by (simp add: demoArgs_def shortArg_def longDataLimit_def m)
  moreover have "14 \<le> length (arr (mc_buf dirtyMc) (b_buf (mc_buf dirtyMc)))"
    by (simp add: dirtyMc_def demoMc_def newBuffer_def arr_def setArr_def defaultBufSize_def)
  moreover have "execLength ?ws < 1000"
    by (simp add: execLength_def wireNull_def wireText_def lenencBytes_def appendLengthEncodedInteger_def uint64ToBytes_def)
  ultimately show ?thesis
    using execute_packet_decodes [of demoArgs "demoStmt 4", OF _ w, of demoDriver]
    by (auto simp: demoStmt_def demoArgs_def wireNull_def wireText_def m split: if_splits)
qed

section \<open>Long arguments\<close>

definition longHead :: "u32 \<Rightarrow> nat \<Rightarrow> byte list" where
  "longHead ident paramID =
     [comStmtSendLongData] @ u32Bytes ident @ [of_nat paramID, of_nat (paramID div 256)]"

definition longPacket :: "u32 \<Rightarrow> nat \<Rightarrow> byte list \<Rightarrow> byte list" where
  "longPacket ident paramID chunk = longHead ident paramID @ chunk"

lemma length_longHead [simp]: "length (longHead ident paramID) = 7"
  by (simp add: longHead_def u32Bytes_def)

definition longFrames :: "u32 \<Rightarrow> nat \<Rightarrow> byte list list \<Rightarrow> byte list" where
  "longFrames ident paramID chunks = concat (map (\<lambda>c. frames 0 (longPacket ident paramID c)) chunks)"

lemma length_longPacket: "length (longPacket ident paramID c) = 7 + length c"
  by (simp add: longPacket_def)

lemma longDataStep:
  assumes "length data = 11 + n" and "k \<le> n" and "canWrite mc" and "\<not> mc_reset mc"
    and "int k + 7 \<le> mc_maxAllowedPacket mc"
  shows "\<exists>mc'. writePacket (take (11 + k) (take 4 data @ longPacket ident paramID (drop 11 data)))
      (mc\<lparr>mc_sequence := 0\<rparr>) = (Ok (), mc') \<and> canWrite mc' \<and> \<not> mc_reset mc'
    \<and> mc_maxAllowedPacket mc' = mc_maxAllowedPacket mc
    \<and> n_out (mc_net mc') = n_out (mc_net mc) @ frames 0 (longPacket ident paramID (take k (drop 11 data)))"
proof -
  let ?pk = "take (11 + k) (take 4 data @ longPacket ident paramID (drop 11 data))" and ?m = "mc\<lparr>mc_sequence := 0\<rparr>"
  have pk: "?pk = take 4 data @ longPacket ident paramID (take k (drop 11 data))"
    using assms(1) by (simp add: longPacket_def)
  then have d: "drop 4 ?pk = longPacket ident paramID (take k (drop 11 data))" "length ?pk = 11 + k"
    using assms(1,2) by (simp_all add: length_longPacket)
  have "canWrite ?m" "\<not> mc_reset ?m" using assms(3,4) by (simp_all add: canWrite_def)
  then obtain mc' where wp: "writePacket ?pk ?m = (Ok (), mc')"
    and wr: "wrote (frames 0 (drop 4 ?pk)) (frameCount (drop 4 ?pk)) ?m mc'"
    using writePacket_frames [of ?m ?pk] d(2) assms(5) by auto
  have "canWrite mc'" using wrote_canWrite [OF wr] \<open>canWrite ?m\<close> .
  then show ?thesis using wp wr assms(4) unfolding d by (intro exI [of _ mc']) (auto simp: wrote_def)
qed

lemma longDataLoop_step:
  assumes "0 < argLen" and "(if 7 + argLen < maxLen then 7 + argLen else pktLen) = q" and "11 \<le> length data"
  shows "longDataLoop (Suc fuel) ident paramID maxLen pktLen data argLen mc =
    (let data1 = take 4 data @ longPacket ident paramID (drop 11 data)
     in thenA (liftA (slice_int data1 0 (4 + q))) (\<lambda>out. seqA (writePacket out)
       (thenA (liftA (from_pos data1 (q - 7))) (\<lambda>data.
        longDataLoop fuel ident paramID maxLen q data (argLen - (q - 7))))) (mc\<lparr>mc_sequence := 0\<rparr>))"
proof -
  have "\<not> length data < 11" "\<not> argLen \<le> 0" using assms by simp_all
  then show ?thesis
    by (simp only: longDataLoop.simps(2) assms(2) Let_def if_False longPacket_def longHead_def append_assoc
        thenA_liftA seqA_modA)
qed

lemma longDataLoop_round:
  fixes ident :: u32 and paramID n k :: nat and data :: "byte list"
  defines "data1 \<equiv> take 4 data @ longPacket ident paramID (drop 11 data)"
  assumes "length data = 11 + n" and "k \<le> n" "0 < n"
    and "(if 7 + int n < M then 7 + int n else M) = int k + 7"
    and "writePacket (take (11 + k) data1) (mc\<lparr>mc_sequence := 0\<rparr>) = (Ok (), mc1)"
    and "longDataLoop fuel ident paramID M M (drop k data1) (int (n - k)) mc1 = (Ok (), mc2)"
  shows "longDataLoop (Suc fuel) ident paramID M M data (int n) mc = (Ok (), mc2)"
proof -
  have ld: "length data1 = 11 + n" "11 \<le> length data" "0 < int n" using assms(2,4) by (simp_all add: data1_def length_longPacket)
  have "longDataLoop fuel ident paramID M (int k + 7) (drop k data1) (int n - int k) mc1 = (Ok (), mc2)"
  proof (cases "n = k")
    case True
    then show ?thesis using assms(7) by (cases fuel) (simp_all add: longDataLoop.simps)
  next
    case False
    then have e: "int k + 7 = M" using assms(5) by (simp split: if_splits)
    show ?thesis unfolding e using assms(3,7) by (simp add: of_nat_diff)
  qed
  moreover have "slice_int data1 0 (11 + int k) = Ok (take (11 + k) data1)"
    using ld assms(3) by (simp add: slice_int_def nat_add_distrib)
  moreover have "from_pos data1 (int k) = Ok (drop k data1)"
    using ld assms(3) by (simp add: from_pos_def slice_from_def)
  ultimately show ?thesis
    by (simp add: longDataLoop_step [OF ld(3) assms(5) ld(2)] data1_def [symmetric] Let_def
        seqA_Ok [of "writePacket _", OF assms(6)])
qed

lemma longDataLoop_sends:
  "length data = 11 + n \<Longrightarrow> n < fuel \<Longrightarrow> canWrite mc \<Longrightarrow> \<not> mc_reset mc \<Longrightarrow> 8 < mc_maxAllowedPacket mc \<Longrightarrow>
   \<exists>chunks mc'. longDataLoop fuel ident paramID (mc_maxAllowedPacket mc - 1) (mc_maxAllowedPacket mc - 1) data (int n) mc = (Ok (), mc')
     \<and> concat chunks = drop 11 data
     \<and> list_all (\<lambda>c. c \<noteq> [] \<and> int (length (longPacket ident paramID c)) \<le> mc_maxAllowedPacket mc) chunks
     \<and> n_out (mc_net mc') = n_out (mc_net mc) @ longFrames ident paramID chunks"
proof (induction fuel arbitrary: data n mc)
  case (Suc fuel)
  let ?M = "mc_maxAllowedPacket mc"
  show ?case
  proof (cases "n = 0")
    case True
    then show ?thesis using Suc.prems(1)
      by (intro exI [of _ "[]"] exI [of _ mc]) (simp add: longDataLoop.simps longFrames_def)
  next
    case False
    define k where "k = (if 7 + int n < ?M - 1 then n else nat (?M - 8))"
    have k: "k \<le> n" "0 < k" "int k + 8 \<le> ?M" "(if 7 + int n < ?M - 1 then 7 + int n else ?M - 1) = int k + 7"
      using False Suc.prems(5) by (auto simp: k_def)
    let ?data1 = "take 4 data @ longPacket ident paramID (drop 11 data)" and ?c = "take k (drop 11 data)"
    have "drop 11 ?data1 = drop 11 data" using Suc.prems(1) by (simp add: longPacket_def)
    then have l: "length (drop k ?data1) = 11 + (n - k)" "drop k (drop 11 ?data1) = drop k (drop 11 data)" "length ?c = k"
      using Suc.prems(1) k(1) by (simp_all only: length_longPacket length_append length_take length_drop)
    from longDataStep [OF Suc.prems(1) k(1) Suc.prems(3,4), of ident paramID] k(3) obtain mc1 where
      wp: "writePacket (take (11 + k) ?data1) (mc\<lparr>mc_sequence := 0\<rparr>) = (Ok (), mc1)"
      and m1: "canWrite mc1" "\<not> mc_reset mc1" "mc_maxAllowedPacket mc1 = ?M"
      and o1: "n_out (mc_net mc1) = n_out (mc_net mc) @ frames 0 (longPacket ident paramID ?c)" by auto
    have "n - k < fuel" "8 < mc_maxAllowedPacket mc1" using m1(3) Suc.prems(2,5) k(1,2) by auto
    from Suc.IH [OF l(1) this(1) m1(1,2) this(2)] obtain chunks mc2 where
      run: "longDataLoop fuel ident paramID (?M - 1) (?M - 1) (drop k ?data1) (int (n - k)) mc1 = (Ok (), mc2)"
      and ch: "concat chunks = drop k (drop 11 data)"
        "list_all (\<lambda>c. c \<noteq> [] \<and> int (length (longPacket ident paramID c)) \<le> ?M) chunks"
        "n_out (mc_net mc2) = n_out (mc_net mc1) @ longFrames ident paramID chunks" 
      unfolding m1(3) drop_drop [of 11 k] add.commute [of 11 k] drop_drop [of k 11 ?data1, symmetric] l(2) by blast
    have "longDataLoop (Suc fuel) ident paramID (?M - 1) (?M - 1) data (int n) mc = (Ok (), mc2)"
      using longDataLoop_round [OF Suc.prems(1) k(1) _ k(4) wp run] False by simp
    moreover have "concat (?c # chunks) = drop 11 data" using ch(1) by (simp only: concat.simps append_take_drop_id)
    moreover have "?c \<noteq> []" using l(3) k(2) by auto
    ultimately show ?thesis using ch(2,3) o1 k(3) l(3)
      by (intro exI [of _ "?c # chunks"] exI [of _ mc2]) (simp add: longFrames_def length_longPacket)
  qed
qed simp

text \<open>
  C21: A long argument arrives complete: the packets that carry it are each within the limit and not
  empty, name the statement and the parameter, and their data put together is the argument; the
  next command starts with a fresh sequence number.
\<close>

theorem long_data_arrives:
  assumes "canWrite mc" and "\<not> mc_reset mc" and "8 < mc_maxAllowedPacket mc"
  shows "\<exists>chunks mc'. writeCommandLongData ident paramID arg mc = (Ok (), mc') \<and> concat chunks = arg
    \<and> list_all (\<lambda>c. c \<noteq> [] \<and> int (length (longPacket ident paramID c)) \<le> mc_maxAllowedPacket mc) chunks
    \<and> n_out (mc_net mc') = n_out (mc_net mc) @ longFrames ident paramID chunks \<and> mc_sequence mc' = 0"
proof -
  have "length (replicate 11 0 @ arg) = 11 + length arg" by simp
  from longDataLoop_sends [OF this lessI assms, of ident paramID] obtain chunks mc' where
    run: "longDataLoop (Suc (length arg)) ident paramID (mc_maxAllowedPacket mc - 1) (mc_maxAllowedPacket mc - 1)
      (replicate 11 0 @ arg) (int (length arg)) mc = (Ok (), mc')"
    and ch: "concat chunks = drop 11 (replicate 11 0 @ arg)"
      "list_all (\<lambda>c. c \<noteq> [] \<and> int (length (longPacket ident paramID c)) \<le> mc_maxAllowedPacket mc) chunks"
      "n_out (mc_net mc') = n_out (mc_net mc) @ longFrames ident paramID chunks" by blast
  have "writeCommandLongData ident paramID arg mc = (Ok (), mc'\<lparr>mc_sequence := 0\<rparr>)"
    by (simp add: writeCommandLongData_def seqA_Ok [of "longDataLoop _ _ _ _ _ _ _", OF run] del: replicate_Suc)
  then show ?thesis using ch by (intro exI [of _ chunks] exI [of _ "mc'\<lparr>mc_sequence := 0\<rparr>"]) simp
qed

theorem long_data_arrives_witness:
  "\<exists>chunks mc'. writeCommandLongData 7 1 (replicate 2000 5) (demoMc []) = (Ok (), mc')
    \<and> concat chunks = replicate 2000 5 \<and> n_out (mc_net mc') = longFrames 7 1 chunks"
  using long_data_arrives [of "demoMc []" 7 1 "replicate 2000 5"] by auto

end
