(* ===== verification/DurationFacts.thy ===== *)
theory DurationFacts
  imports TimeProps
begin

text \<open>
  Values of TIME columns: a signed span of days, hours, minutes, seconds and microseconds, the way a
  server sends one in the binary protocol, and the text that \<open>formatBinaryTime\<close> makes of it.
\<close>

record duration =
  du_neg :: bool
  du_days :: int
  du_hours :: int
  du_min :: int
  du_sec :: int
  du_micro :: int

definition zeroDuration :: "duration \<Rightarrow> bool" where
  "zeroDuration d \<longleftrightarrow> du_days d = 0 \<and> du_hours d = 0 \<and> du_min d = 0 \<and> du_sec d = 0 \<and> du_micro d = 0"

text \<open>There is no negative zero; the number of days is the protocol's 32-bit field.\<close>

definition wf_duration :: "duration \<Rightarrow> bool" where
  "wf_duration d \<longleftrightarrow> (du_neg d \<longrightarrow> \<not> zeroDuration d) \<and> 0 \<le> du_days d \<and> du_days d < 2 ^ 32
     \<and> 0 \<le> du_hours d \<and> du_hours d < 24 \<and> 0 \<le> du_min d \<and> du_min d < 60 \<and> 0 \<le> du_sec d \<and> du_sec d < 60
     \<and> 0 \<le> du_micro d \<and> du_micro d < 1000000"

definition serverDuration :: "duration \<Rightarrow> byte list" where
  "serverDuration d = (if zeroDuration d then []
     else [if du_neg d then 1 else 0] @ to_le 4 (of_int (du_days d) :: u32)
       @ [of_int (du_hours d), of_int (du_min d), of_int (du_sec d)]
       @ (if du_micro d = 0 then [] else to_le 4 (of_int (du_micro d) :: u32)))"

definition hourText :: "int \<Rightarrow> byte list" where
  "hourText h = (if h \<ge> 100 then decimal (nat h) else two h)"

definition decText :: "nat \<Rightarrow> int \<Rightarrow> byte list" where
  "decText n m = (if n = 0 then [] else [0x2e] @ take n (microText m))"

definition durationText :: "nat \<Rightarrow> duration \<Rightarrow> byte list" where
  "durationText n d = (if du_neg d then [0x2d] else []) @ hourText (du_days d * 24 + du_hours d)
     @ [0x3a] @ two (du_min d) @ [0x3a] @ two (du_sec d) @ decText n (du_micro d)"

lemma appendMicrosecs_dec:
  assumes "0 \<le> m" and "m < 1000000" and "n \<le> 6" and "src = [] \<and> m = 0 \<or> src = to_le 4 (of_int m :: u32)"
    and "k = (if n = 0 then -1 else int n)"
  shows "appendMicrosecs dst src k = Ok (dst @ decText n m)"
proof (cases "n = 0")
  case True
  then show ?thesis by (simp add: assms(5) appendMicrosecs_def decText_def)
next
  case False
  then have n: "1 \<le> n" "n \<le> 6" using assms(3) by simp_all
  show ?thesis using assms(4,5) False microsecs_pairs [OF assms(1,2) n] zero_micro [OF n]
    by (auto simp: decText_def)
qed

text \<open>The eight bytes in front of the microseconds.\<close>

lemma duration_fields:
  assumes "wf_duration d" and "\<not> zeroDuration d"
  obtains rest where "serverDuration d ! 0 = (if du_neg d then 1 else 0)"
    "bindR (slice (serverDuration d) 1 5) le32 = Ok (of_int (du_days d))"
    "byteI (serverDuration d) 5 = Ok (du_hours d)" "byteI (serverDuration d) 6 = Ok (du_min d)"
    "byteI (serverDuration d) 7 = Ok (du_sec d)" "drop 8 (serverDuration d) = rest"
    "rest = [] \<and> du_micro d = 0 \<or> rest = to_le 4 (of_int (du_micro d) :: u32)"
    "length (serverDuration d) \<in> {8, 12}" "serverDuration d \<noteq> []"
proof -
  define rest where "rest = (if du_micro d = 0 then [] else to_le 4 (of_int (du_micro d) :: u32))"
  let ?n = "[if du_neg d then 1 else 0]" and ?d = "to_le 4 (of_int (du_days d) :: u32)"
  have e: "serverDuration d = ?n @ ?d @ [of_int (du_hours d), of_int (du_min d), of_int (du_sec d)] @ rest"
    using assms(2) by (simp add: serverDuration_def rest_def)
  have small: "0 \<le> du_hours d" "du_hours d < 256" "0 \<le> du_min d" "du_min d < 256" "0 \<le> du_sec d" "du_sec d < 256"
    using assms(1) by (auto simp: wf_duration_def)
  have "slice (serverDuration d) 1 5 = Ok ?d" by (simp add: slice_def e)
  moreover have "le32 ?d = Ok (of_int (du_days d))" using le32_server [of _ "[]"] by simp
  ultimately have "bindR (slice (serverDuration d) 1 5) le32 = Ok (of_int (du_days d))" by (simp add: bindR.simps)
  moreover have "byteI (serverDuration d) 5 = Ok (du_hours d)" "byteI (serverDuration d) 6 = Ok (du_min d)"
    "byteI (serverDuration d) 7 = Ok (du_sec d)"
    using small by (simp_all add: e byteI_def idx_def nth_append bindR.simps uint_of_int_byte)
  moreover have "serverDuration d ! 0 = (if du_neg d then 1 else 0)" "drop 8 (serverDuration d) = rest"
    "length (serverDuration d) \<in> {8, 12}" "serverDuration d \<noteq> []" by (simp_all add: e rest_def)
  moreover have "rest = [] \<and> du_micro d = 0 \<or> rest = to_le 4 (of_int (du_micro d) :: u32)" by (simp add: rest_def)
  ultimately show ?thesis using that by blast
qed

lemma server_duration_text:
  assumes "wf_duration d" and "n \<le> 6" and "len = (if n = 0 then 8 else 9 + of_nat n)"
  shows "formatBinaryTime (serverDuration d) len = Ok (durationText n d)"
proof (cases "zeroDuration d")
  case True
  then have "formatBinaryTime (serverDuration d) len = slice zeroDateTime 11 (unat (11 + len))"
    by (simp add: serverDuration_def formatBinaryTime_def)
  moreover have "durationText n d = bytes_of ''00:00:00'' @ decText n 0"
  proof -
    have "two 0 = bytes_of ''00''" by code_simp
    then show ?thesis using True assms(1)
      by (simp add: durationText_def zeroDuration_def wf_duration_def hourText_def) code_simp
  qed
  moreover have "slice zeroDateTime 11 (unat (11 + len)) = Ok (bytes_of ''00:00:00'' @ decText n 0)"
  proof -
    have "n \<in> {0, 1, 2, 3, 4, 5, 6}" using assms(2) by auto
    then show ?thesis unfolding assms(3) by (elim insertE emptyE; simp only:; code_simp)
  qed
  ultimately show ?thesis by simp
next
  case False
  from duration_fields [OF assms(1) False] obtain rest where f:
    "serverDuration d ! 0 = (if du_neg d then 1 else 0)"
    "bindR (slice (serverDuration d) 1 5) le32 = Ok (of_int (du_days d))"
    "byteI (serverDuration d) 5 = Ok (du_hours d)" "byteI (serverDuration d) 6 = Ok (du_min d)"
    "byteI (serverDuration d) 7 = Ok (du_sec d)" "drop 8 (serverDuration d) = rest"
    and rest: "rest = [] \<and> du_micro d = 0 \<or> rest = to_le 4 (of_int (du_micro d) :: u32)"
    and ne: "length (serverDuration d) \<in> {8, 12}" "serverDuration d \<noteq> []" .
  have w: "0 \<le> du_days d" "du_days d < 2 ^ 32" "0 \<le> du_hours d" "0 \<le> du_min d" "du_min d < 100"
    "0 \<le> du_sec d" "du_sec d < 100" "0 \<le> du_micro d" "du_micro d < 1000000"
    using assms(1) by (auto simp: wf_duration_def)
  have days: "uint (of_int (du_days d) :: u32) = du_days d" using w by (simp add: uint_word_of_int)
  have len: "unat len \<in> {8, 10, 11, 12, 13, 14, 15}" "uint len - 9 = (if n = 0 then -1 else int n)"
  proof -
    have "n \<in> {0, 1, 2, 3, 4, 5, 6}" using assms(2) by auto
    then show "unat len \<in> {8, 10, 11, 12, 13, 14, 15}" "uint len - 9 = (if n = 0 then -1 else int n)"
      unfolding assms(3) by auto
  qed
  note mic = appendMicrosecs_dec [OF w(8,9) assms(2) rest len(2)]
  show ?thesis using ne len(1) w
    by (simp add: formatBinaryTime_def f f(2) [unfolded One_nat_def] bindR.simps Let_def days pair_two mic durationText_def hourText_def)
qed

end
