(* ===== verification/ResultProps.thy ===== *)
theory ResultProps
  imports ExecProps DurationFacts
begin

text \<open>
  Rows: what the server writes in either protocol is what the cursor hands out. The encoders here
  are the protocol's: the text row is a sequence of length-encoded strings, the binary row a bitmap
  of NULLs and the values in the width of their column.
\<close>

section \<open>Text rows\<close>

definition encText :: "byte list option \<Rightarrow> byte list" where
  "encText v = (case v of None \<Rightarrow> [0xfb] | Some s \<Rightarrow> lenencBytes s)"

definition textRow :: "byte list option list \<Rightarrow> byte list" where
  "textRow vs = concat (map encText vs)"

definition textVal :: "byte list option \<Rightarrow> dval" where
  "textVal v = (case v of None \<Rightarrow> DNull | Some s \<Rightarrow> DBytes s)"

definition shortText :: "byte list option \<Rightarrow> bool" where
  "shortText v = (case v of None \<Rightarrow> True | Some s \<Rightarrow> length s < 2 ^ 62)"

lemma from_pos_append: "from_pos (xs @ ys) (int (length xs)) = Ok ys"
  by (simp add: from_pos_def slice_from_def)

lemma readField_text:
  assumes "shortText v" and "data = xs @ encText v @ ys"
  shows "readField (data, spare) (int (length xs)) =
    Ok (case v of None \<Rightarrow> [] | Some s \<Rightarrow> s, v = None, int (length (xs @ encText v)))"
proof (cases v)
  case None
  then show ?thesis using assms(2)
    by (simp add: readField_def from_pos_append encText_def readLengthEncodedString_def readLengthEncodedInteger_def)
next
  case (Some s)
  let ?h = "appendLengthEncodedInteger [] (of_nat (length s))"
  have "length s < 2 ^ 62" using assms(1) Some by (simp add: shortText_def)
  from read_append_lenenc_string [OF this, of ys "length (?h @ s @ ys) + length spare"] show ?thesis
    using assms(2) Some by (simp add: readField_def from_pos_append encText_def lenencBytes_def)
qed

lemma textValues_row:
  "list_all shortText vs \<Longrightarrow>
   textValues False loc cols (xs @ textRow vs, spare) (length vs) i (int (length xs)) = Ok (map textVal vs)"
proof (induction vs arbitrary: i xs)
  case (Cons v vs)
  have split: "xs @ textRow (v # vs) = xs @ encText v @ textRow vs" by (simp add: textRow_def)
  have rd: "readField (xs @ textRow (v # vs), spare) (int (length xs)) =
    Ok (case v of None \<Rightarrow> [] | Some s \<Rightarrow> s, v = None, int (length (xs @ encText v)))"
    using Cons.prems by (intro readField_text [OF _ split]) simp
  have ih: "textValues False loc cols (xs @ textRow (v # vs), spare) (length vs) (Suc i) (int (length (xs @ encText v)))
    = Ok (map textVal vs)"
    using Cons.IH [of "xs @ encText v" "Suc i"] Cons.prems by (simp add: split)
  have tv: "textValue False loc cols i (case v of None \<Rightarrow> [] | Some s \<Rightarrow> s) (v = None) = Ok (textVal v)"
    by (cases v) (simp_all add: textValue_def textVal_def)
  show ?case by (simp add: rd tv ih del: length_append)
qed simp

lemma textRow_first:
  assumes "vs \<noteq> []"
  shows "textRow vs \<noteq> [] \<and> textRow vs ! 0 \<noteq> iERR \<and> \<not> isEOFPacket (textRow vs)"
proof -
  obtain v ws where vs: "vs = v # ws" using assms by (cases vs) auto
  have n: "appendLengthEncodedInteger [] n ! 0 \<noteq> iERR \<and> appendLengthEncodedInteger [] n \<noteq> []
    \<and> (appendLengthEncodedInteger [] n ! 0 = iEOF \<longrightarrow> 5 < length (appendLengthEncodedInteger [] n))" for n
  proof -
    have "(ucast n :: byte) \<noteq> 0xff" "(ucast n :: byte) \<noteq> 0xfe" if "n \<le> 250"
    proof -
      have "unat (ucast n :: byte) \<le> 250" using that
        by (simp add: word_le_nat_alt unsigned_ucast_eq unsigned_take_bit_eq take_bit_nat_eq_self)
      then show "(ucast n :: byte) \<noteq> 0xff" "(ucast n :: byte) \<noteq> 0xfe" by auto
    qed
    then show ?thesis by (auto simp: appendLengthEncodedInteger_def const_defs)
  qed
  show ?thesis
  proof (cases v)
    case None
    then show ?thesis by (simp add: vs textRow_def encText_def isEOFPacket_def const_defs)
  next
    case (Some s)
    let ?h = "appendLengthEncodedInteger [] (of_nat (length s) :: u64)"
    have row: "textRow vs = ?h @ s @ textRow ws" by (simp add: vs Some textRow_def encText_def lenencBytes_def)
    have h: "(?h @ xs) ! 0 = ?h ! 0" for xs using n [of "of_nat (length s)"] by (simp add: nth_append)
    show ?thesis unfolding row using n [of "of_nat (length s)"] by (auto simp: h isEOFPacket_def)
  qed
qed

section \<open>Binary rows\<close>

text \<open>
  A value of the server, its bytes, and what the driver hands out for it. The zero date and the
  clock readings are those of DATE, DATETIME and TIMESTAMP columns, durations those of TIME columns.
\<close>

datatype sval = SNull | SInt int | SFloat u32 | SDouble u64 | SText "byte list"
  | SZeroDate | SDate gotime | SDuration duration

definition intWidth :: "byte \<Rightarrow> nat" where
  "intWidth t = (if t = fieldTypeTiny then 1 else if t = fieldTypeShort \<or> t = fieldTypeYear then 2
     else if t = fieldTypeInt24 \<or> t = fieldTypeLong then 4 else if t = fieldTypeLongLong then 8 else 0)"

text \<open>The decimals a column declares, 31 standing for none, and the length of its dates as text.\<close>

definition okDecimals :: "mysqlField \<Rightarrow> bool" where
  "okDecimals c \<longleftrightarrow> mf_decimals c \<le> 6 \<or> mf_decimals c = 0x1f"

definition colDecimals :: "mysqlField \<Rightarrow> nat" where
  "colDecimals c = (if mf_decimals c = 0x1f then 0 else unat (mf_decimals c))"

definition dateLength :: "mysqlField \<Rightarrow> nat" where
  "dateLength c = (if mf_fieldType c = fieldTypeDate then 10
     else if colDecimals c = 0 then 19 else 20 + colDecimals c)"

definition fits :: "mysqlField \<Rightarrow> sval \<Rightarrow> bool" where
  "fits c v = (case v of
       SNull \<Rightarrow> True
     | SInt i \<Rightarrow> let w = 8 * intWidth (mf_fieldType c) in w \<noteq> 0 \<and>
         (if unsignedCol c then 0 \<le> i \<and> i < 2 ^ w else - (2 ^ (w - 1)) \<le> i \<and> i < 2 ^ (w - 1))
     | SFloat f \<Rightarrow> mf_fieldType c = fieldTypeFloat
     | SDouble f \<Rightarrow> mf_fieldType c = fieldTypeDouble
     | SText s \<Rightarrow> mf_fieldType c \<in> set rawTypes \<and> length s < 2 ^ 62
     | SZeroDate \<Rightarrow> mf_fieldType c \<in> set dateTypes \<and> okDecimals c
     | SDate t \<Rightarrow> mf_fieldType c \<in> set dateTypes \<and> okDecimals c \<and> wf_time t \<and> 1 \<le> t_year t \<and> t_year t \<le> 9999
         \<and> t_nsec t mod 1000 = 0
     | SDuration d \<Rightarrow> mf_fieldType c = fieldTypeTime \<and> okDecimals c \<and> wf_duration d)"

definition sized :: "byte list \<Rightarrow> byte list" where
  "sized bs = of_nat (length bs) # bs"

definition encBin :: "mysqlField \<Rightarrow> sval \<Rightarrow> byte list" where
  "encBin c v = (case v of
       SNull \<Rightarrow> []
     | SInt i \<Rightarrow> to_le (intWidth (mf_fieldType c)) (of_int i :: u64)
     | SFloat f \<Rightarrow> to_le 4 (ucast f :: u64)
     | SDouble f \<Rightarrow> to_le 8 f
     | SText s \<Rightarrow> lenencBytes s
     | SZeroDate \<Rightarrow> sized []
     | SDate t \<Rightarrow> sized (serverTime t)
     | SDuration d \<Rightarrow> sized (serverDuration d))"

definition intVal :: "int \<Rightarrow> dval" where
  "intVal i = (if i < 2 ^ 63 then DInt64 i else DBytes (decimal (nat i)))"

text \<open>Dates are times in the location of the configuration with \<open>parseTime\<close>, and text without.\<close>

definition binVal :: "bool \<Rightarrow> int \<Rightarrow> mysqlField \<Rightarrow> sval \<Rightarrow> dval" where
  "binVal parseTime loc c v = (case v of
       SNull \<Rightarrow> DNull
     | SInt i \<Rightarrow> intVal i
     | SFloat f \<Rightarrow> DFloat32 f
     | SDouble f \<Rightarrow> DFloat64 f
     | SText s \<Rightarrow> DBytes s
     | SZeroDate \<Rightarrow> if parseTime then DTime zeroTime else DBytes (take (dateLength c) zeroDateTime)
     | SDate t \<Rightarrow> if parseTime then DTime (t\<lparr>t_off := loc\<rparr>) else DBytes (take (dateLength c) (fullText t))
     | SDuration d \<Rightarrow> DBytes (durationText (colDecimals c) d))"

lemma sub_slice_append:
  "sub_slice (xs @ bs @ ys, spare) (int (length xs)) (int (length xs) + int (length bs)) = Ok bs"
  by (simp add: sub_slice_def slice_int_def nat_add_distrib)

lemma readInt_append:
  fixes n :: "'a::len word"
  assumes "data = xs @ to_le k n @ ys"
  shows "readInt (data, spare) (int (length xs)) k = Ok (le_bytes (to_le k n))"
  using sub_slice_append [of xs "to_le k n" ys spare] assms by (simp add: readInt_def le_uint_def)

lemma sint_of_low_bits:
  assumes "0 < k" "k \<le> 8" and "- (2 ^ (8 * k - 1)) \<le> i" "i < 2 ^ (8 * k - 1)"
  shows "sint (signed_take_bit (8 * k - 1) (take_bit (8 * k) (of_int i :: u64))) = i"
proof -
  have "i = signed_take_bit (8 * k - 1) i" using assms(3,4) by (simp add: signed_take_bit_int_eq_self)
  moreover have "sint (signed_take_bit (8 * k - 1) (take_bit (8 * k) (of_int i :: u64))) = signed_take_bit (8 * k - 1) i"
    by (rule bit_eqI) (use assms(1,2) in \<open>auto simp: bit_sint_iff bit_signed_take_bit_iff bit_take_bit_iff bit_word_of_int_iff min_def\<close>)
  ultimately show ?thesis by simp
qed

lemma uint_of_low_bits:
  assumes "k \<le> 8" and "0 \<le> i" "i < 2 ^ (8 * k)"
  shows "uint (take_bit (8 * k) (of_int i :: u64)) = i"
proof -
  have "uint (take_bit (8 * k) (of_int i :: u64)) = take_bit (min (8 * k) 64) i"
    by (simp add: unsigned_take_bit_eq unsigned_of_int)
  also have "min (8 * k) 64 = 8 * k" using assms(1) by simp
  finally show ?thesis using assms(2,3) by (simp add: take_bit_int_eq_self)
qed

lemma binInt_append:
  assumes "data = xs @ to_le k (of_int i :: u64) @ ys" and "k \<in> {1, 2, 4, 8}"
    and "if unsig then 0 \<le> i \<and> i < 2 ^ (8 * k) else - (2 ^ (8 * k - 1)) \<le> i \<and> i < 2 ^ (8 * k - 1)"
  shows "binInt (data, spare) (int (length xs)) k unsig = Ok (intVal i, int (length xs) + int k)"
proof -
  let ?v = "take_bit (8 * k) (of_int i :: u64)"
  have le: "le_bytes (to_le k (of_int i :: u64)) = ?v" by (rule le_bytes_to_le)
  have rd: "(if k = 1 then bindR (idxI data (int (length xs))) (\<lambda>b. Ok (ucast b))
      else readInt (data, spare) (int (length xs)) k) = Ok ?v"
  proof (cases "k = 1")
    case True
    then have "data = xs @ [ucast (of_int i :: u64)] @ ys" using assms(1) by simp
    moreover have "ucast (ucast (of_int i :: u64) :: byte) = ?v" using True
      by (intro bit_word_eqI) (auto simp: bit_simps)
    ultimately show ?thesis using True by (simp add: idxI_def nth_append)
  next
    case False
    then show ?thesis using readInt_append [OF assms(1)] le by simp
  qed
  have k: "0 < k" "k \<le> 8" using assms(2) by auto
  have eq: "binInt (data, spare) (int (length xs)) k unsig =
      (if k = 8 \<and> unsig \<and> uint ?v > 2 ^ 63 - 1
       then bindR (uint64ToString ?v) (\<lambda>s. Ok (DBytes s, int (length xs) + 8))
       else Ok (DInt64 (if unsig then uint ?v else sint (signed_take_bit (8 * k - 1) ?v)), int (length xs) + int k))"
    using rd by (simp only: binInt_def fst_conv bindR.simps)
  show ?thesis
  proof (cases unsig)
    case True
    have u: "uint ?v = i" using uint_of_low_bits [OF k(2)] assms(3) True by simp
    have "i < 2 ^ (8 * k)" using assms(3) True by simp
    moreover have "k \<noteq> 8 \<Longrightarrow> (2 :: int) ^ (8 * k) \<le> 2 ^ 63" using k(2) by (intro power_increasing) auto
    ultimately have "k \<noteq> 8 \<Longrightarrow> i < 2 ^ 63" by linarith
    moreover have "unat ?v = nat i" using u by (metis unat_eq_nat_uint)
    ultimately show ?thesis unfolding eq using True u
      by (cases "k = 8") (auto simp: intVal_def uint64ToString_decimal)
  next
    case False
    have s: "sint (signed_take_bit (8 * k - 1) ?v) = i"
      using sint_of_low_bits [OF k] assms(3) False by simp
    have "(2 :: int) ^ (8 * k - 1) \<le> 2 ^ 63" using k(2) by (intro power_increasing) auto
    then have "i < 2 ^ 63" using assms(3) False by simp
    then show ?thesis unfolding eq using False s by (simp add: intVal_def)
  qed
qed

lemma decimalsLen_column:
  assumes "okDecimals c"
  shows "decimalsLen base (mf_decimals c) = Ok (base + (if colDecimals c = 0 then 0 else 1 + of_nat (colDecimals c)))"
    and "colDecimals c \<le> 6"
proof -
  have "mf_decimals c \<le> 6 \<longrightarrow> unat (mf_decimals c) \<in> {0, 1, 2, 3, 4, 5, 6}" by (auto simp: word_le_nat_alt)
  then have "mf_decimals c = 0x1f \<or> mf_decimals c \<in> {0, 1, 2, 3, 4, 5, 6}"
    using assms by (auto simp: okDecimals_def word_unat_eq_iff)
  then show "decimalsLen base (mf_decimals c) = Ok (base + (if colDecimals c = 0 then 0 else 1 + of_nat (colDecimals c)))"
    "colDecimals c \<le> 6"
    by (auto simp: decimalsLen_def colDecimals_def)
qed

text \<open>The temporal values: a length byte and what the server sends of the value.\<close>

lemma binTime_append:
  assumes "length bs \<le> 12" and "data = xs @ sized bs @ ys"
  shows "binTime parseTime loc c (data, spare) (int (length xs)) = bindR
    (if mf_fieldType c = fieldTypeTime then
       bindR (decimalsLen 8 (mf_decimals c)) (\<lambda>n. bindR (formatBinaryTime bs n) (\<lambda>s. Ok (DBytes s)))
     else if parseTime then bindR (parseBinaryDateTime (of_nat (length bs)) (bs @ ys) spare loc) (\<lambda>t. Ok (DTime t))
     else bindR (if mf_fieldType c = fieldTypeDate then Ok 10 else decimalsLen 19 (mf_decimals c)) (\<lambda>n.
       bindR (formatBinaryDateTime bs n) (\<lambda>s. Ok (DBytes s))))
    (\<lambda>v. Ok (v, int (length (xs @ sized bs))))"
proof -
  let ?n = "of_nat (length bs) :: byte" and ?xs = "xs @ [of_nat (length bs)]"
  have u: "unat ?n = length bs" using assms(1) by (simp add: unsigned_of_nat take_bit_nat_eq_self)
  then have lt: "?n \<noteq> 0xfb" "?n \<noteq> 0xfc" "?n \<noteq> 0xfd" "?n \<noteq> 0xfe" using assms(1) by auto
  have num: "(ucast ?n :: u64) = of_nat (length bs)" by (metis u of_nat_unat)
  have s: "sint (of_nat (length bs) :: u64) = int (length bs)" using assms(1) by (intro sint_of_nat_small) simp
  have d: "data = ?xs @ bs @ ys" using assms(2) by (simp add: sized_def)
  have "bindR (from_pos data (int (length xs))) readLengthEncodedInteger = Ok (ucast ?n, False, 1)"
    using lt by (simp add: assms(2) from_pos_append sized_def readLengthEncodedInteger_def bindR.simps)
  moreover have "sub_slice (data, spare) (int (length ?xs)) (int (length ?xs) + int (length bs)) = Ok bs"
    unfolding d by (rule sub_slice_append)
  moreover have "from_pos data (int (length ?xs)) = Ok (bs @ ys)" unfolding d by (rule from_pos_append)
  ultimately show ?thesis
    by (simp add: binTime_def Let_def num s sized_def bindR_assoc bindR.simps add.commute add.left_commute)
qed

text \<open>Which branch a date column takes, and the length its text is given.\<close>

lemma binValue_date:
  assumes "mf_fieldType c \<in> set dateTypes"
  shows "binValue parseTime loc c data pos = binTime parseTime loc c data pos"
    and "mf_fieldType c \<noteq> fieldTypeTime"
  using assms by (auto simp: binValue_def Let_def dateTypes_def rawTypes_def fieldType_defs)

lemma dateLength_legal: "okDecimals c \<Longrightarrow> dateLength c \<in> {10, 19, 21, 22, 23, 24, 25, 26}"
  using decimalsLen_column(2) [of c] by (auto simp: dateLength_def)

lemma dateLength_byte: "okDecimals c \<Longrightarrow> unat (of_nat (dateLength c) :: byte) = dateLength c"
  using dateLength_legal [of c] by (auto simp: unsigned_of_nat take_bit_nat_eq_self)

lemma dateLength_decimals:
  assumes "okDecimals c"
  shows "(if mf_fieldType c = fieldTypeDate then Ok 10 else decimalsLen 19 (mf_decimals c)) = Ok (of_nat (dateLength c))"
  using decimalsLen_column(1) [OF assms] by (simp add: dateLength_def)

lemma binValue_append:
  assumes "fits c v" and "v \<noteq> SNull" and "data = xs @ encBin c v @ ys"
  shows "binValue parseTime loc c (data, spare) (int (length xs)) = Ok (binVal parseTime loc c v, int (length (xs @ encBin c v)))"
proof (cases v)
  case (SInt i)
  let ?k = "intWidth (mf_fieldType c)"
  have k: "?k \<in> {1, 2, 4, 8}" using assms(1) SInt by (auto simp: fits_def intWidth_def Let_def split: if_splits)
  have "binInt (data, spare) (int (length xs)) ?k (unsignedCol c) = Ok (intVal i, int (length xs) + int ?k)"
    by (rule binInt_append [OF _ k]) (use assms SInt in \<open>auto simp: fits_def encBin_def Let_def split: if_splits\<close>)
  then show ?thesis using k SInt
    by (auto simp: binValue_def Let_def encBin_def binVal_def intWidth_def fieldType_defs split: if_splits)
next
  case (SFloat f)
  have rd: "readInt (data, spare) (int (length xs)) 4 = Ok (le_bytes (to_le 4 (ucast f :: u64)))"
    by (rule readInt_append) (use assms SFloat in \<open>simp add: encBin_def\<close>)
  have "ucast (le_bytes (to_le 4 (ucast f :: u64)) :: u64) = f"
    by (subst le_bytes_to_le) (auto intro!: bit_word_eqI simp: bit_simps)
  then show ?thesis using rd assms(1) SFloat
    by (simp add: binValue_def fits_def fieldType_defs encBin_def binVal_def)
next
  case (SDouble f)
  have rd: "readInt (data, spare) (int (length xs)) 8 = Ok (le_bytes (to_le 8 f))"
    by (rule readInt_append) (use assms SDouble in \<open>simp add: encBin_def\<close>)
  have "le_bytes (to_le 8 f) = f" by (subst le_bytes_to_le) (auto intro!: bit_word_eqI simp: bit_take_bit_iff)
  then show ?thesis using rd assms(1) SDouble
    by (simp add: binValue_def fits_def fieldType_defs encBin_def binVal_def)
next
  case (SText s)
  have rf: "readField (data, spare) (int (length xs)) = Ok (s, False, int (length (xs @ encBin c v)))"
    using readField_text [of "Some s" data xs ys spare] assms SText by (simp add: fits_def shortText_def encBin_def encText_def)
  have t: "mf_fieldType c \<in> set rawTypes" using assms(1) SText by (simp add: fits_def)
  then have "binValue parseTime loc c (data, spare) (int (length xs)) =
      bindR (readField (data, spare) (int (length xs))) (\<lambda>(s, isNull, pos). Ok (if isNull then DNull else DBytes s, pos))"
    by (auto simp: binValue_def Let_def rawTypes_def fieldType_defs)
  then show ?thesis by (simp add: rf binVal_def SText)
next
  case SZeroDate
  have c: "mf_fieldType c \<in> set dateTypes" "okDecimals c" using assms(1) SZeroDate by (simp_all add: fits_def)
  have d: "data = xs @ sized [] @ ys" using assms(3) SZeroDate by (simp add: encBin_def)
  have "slice zeroDateTime 0 (dateLength c) = Ok (take (dateLength c) zeroDateTime)"
    using dateLength_legal [OF c(2)] by (auto simp: slice_def zeroDateTime_def)
  then have "formatBinaryDateTime [] (of_nat (dateLength c)) = Ok (take (dateLength c) zeroDateTime)"
    by (simp add: formatBinaryDateTime_def dateLength_byte [OF c(2)])
  then show ?thesis using binTime_append [OF _ d] binValue_date [OF c(1)] dateLength_decimals [OF c(2)]
    by (simp add: SZeroDate binVal_def encBin_def parseBinaryDateTime_def)
next
  case (SDate t)
  have c: "mf_fieldType c \<in> set dateTypes" "okDecimals c" and t: "wf_time t" "1 \<le> t_year t" "t_year t \<le> 9999"
    "t_nsec t mod 1000 = 0" using assms(1) SDate by (simp_all add: fits_def)
  have d: "data = xs @ sized (serverTime t) @ ys" using assms(3) SDate by (simp add: encBin_def)
  have "length (serverTime t) \<le> 12" by (cases rule: serverTime_cases [of t]) simp_all
  from binTime_append [OF this d] show ?thesis
    using server_binary [OF t] server_text [OF t(1-3), of "of_nat (dateLength c)"] dateLength_legal [OF c(2)]
      binValue_date [OF c(1)] dateLength_decimals [OF c(2)]
    by (simp add: SDate binVal_def encBin_def dateLength_byte [OF c(2)])
next
  case (SDuration du)
  have c: "mf_fieldType c = fieldTypeTime" "okDecimals c" and w: "wf_duration du"
    using assms(1) SDuration by (simp_all add: fits_def)
  have d: "data = xs @ sized (serverDuration du) @ ys" using assms(3) SDuration by (simp add: encBin_def)
  have "length (serverDuration du) \<le> 12" by (simp add: serverDuration_def)
  from binTime_append [OF this d, of parseTime loc c spare] show ?thesis
    using server_duration_text [OF w decimalsLen_column(2) [OF c(2)] refl] decimalsLen_column(1) [OF c(2), of 8] c(1)
    by (simp add: SDuration binVal_def encBin_def binValue_def fieldType_defs rawTypes_def split: if_splits)
qed (use assms(2) in simp)


text \<open>The bitmap of a row has two bits spare in front of the first column's.\<close>

definition rowBitmap :: "bool list \<Rightarrow> byte list" where
  "rowBitmap nulls = map (\<lambda>j. horner_sum of_bool 2
     (map (\<lambda>b. 2 \<le> 8 * j + b \<and> 8 * j + b - 2 < length nulls \<and> nulls ! (8 * j + b - 2)) [0..<8]))
     [0..<(length nulls + 9) div 8]"

definition binaryRow :: "mysqlField list \<Rightarrow> sval list \<Rightarrow> byte list" where
  "binaryRow cols vs = [iOK] @ rowBitmap (map ((=) SNull) vs) @ concat (map2 encBin cols vs)"

lemma isNullCol_rowBitmap:
  assumes "i < length nulls"
  shows "isNullCol (rowBitmap nulls) i = Ok (nulls ! i)"
proof -
  have "(i + 2) div 8 < (length nulls + 9) div 8" using assms by (auto simp: less_eq_div_iff_mult_less_eq Suc_le_eq [symmetric])
  moreover have "8 * ((i + 2) div 8) + (i + 2) mod 8 - 2 = i" by simp
  moreover have "2 \<le> 8 * ((i + 2) div 8) + (i + 2) mod 8" by simp
  ultimately show ?thesis using assms
    by (simp add: isNullCol_def rowBitmap_def idx_def bit_horner_sum_bit_word_iff del: mult_div_mod_eq upt_Suc)
qed

lemma binValues_row:
  assumes "list_all2 fits cols vs" and "\<forall>j < length vs. isNullCol msk (length cs + j) = Ok (vs ! j = SNull)"
  shows "binValues parseTime loc (cs @ cols) (xs @ concat (map2 encBin cols vs), spare) msk
    (length vs) (length cs) (int (length xs)) = Ok (map2 (binVal parseTime loc) cols vs)"
  using assms
proof (induction cols vs arbitrary: cs xs rule: list_all2_induct)
  case (Cons c cols v vs)
  let ?d = "xs @ encBin c v @ concat (map2 encBin cols vs)"
  have null: "isNullCol msk (length cs) = Ok (v = SNull)" using Cons.prems by (force dest: spec [of _ 0])
  have rest: "\<forall>j < length vs. isNullCol msk (length (cs @ [c]) + j) = Ok (vs ! j = SNull)"
    using Cons.prems by (auto dest: spec [of _ "Suc _"])
  have col: "idx (cs @ c # cols) (length cs) = Ok c" by (simp add: idx_def)
  have val: "(if v = SNull then Ok (DNull, int (length xs)) else binValue parseTime loc c (?d, spare) (int (length xs)))
    = Ok (binVal parseTime loc c v, int (length (xs @ encBin c v)))"
    using binValue_append [OF Cons.hyps(1) _ refl] by (auto simp: encBin_def binVal_def)
  have ih: "binValues parseTime loc (cs @ c # cols) (?d, spare) msk (length vs) (Suc (length cs))
    (int (length (xs @ encBin c v))) = Ok (map2 (binVal parseTime loc) cols vs)"
    using Cons.IH [of "cs @ [c]" "xs @ encBin c v"] rest by simp
  show ?case
  proof (cases "v = SNull")
    case True
    then have "encBin c v = []" by (simp add: encBin_def)
    then show ?thesis using ih True by (simp add: null binVal_def)
  next
    case False
    then show ?thesis using val by (simp add: null col ih del: length_append)
  qed
qed simp

lemma binRow_row:
  assumes "list_all2 fits cols vs"
  shows "binRow parseTime loc cols (length vs) (binaryRow cols vs, spare) = Ok (map2 (binVal parseTime loc) cols vs)"
proof -
  let ?mask = "rowBitmap (map ((=) SNull) vs)"
  have l: "length ?mask = (length vs + 9) div 8" by (simp add: rowBitmap_def)
  have "sub_slice ([iOK] @ ?mask @ concat (map2 encBin cols vs), spare) (int (length [iOK]))
    (int (length [iOK]) + int (length ?mask)) = Ok ?mask" by (rule sub_slice_append)
  then have m: "sub_slice (binaryRow cols vs, spare) 1 (int (1 + (length vs + 7 + 2) div 8)) = Ok ?mask"
    by (simp add: binaryRow_def l add.commute)
  have "\<forall>j < length vs. isNullCol ?mask (length [] + j) = Ok (vs ! j = SNull)" by (auto simp: isNullCol_rowBitmap)
  from binValues_row [OF assms this, of parseTime loc "[iOK] @ ?mask" spare]
  have v: "binValues parseTime loc cols (binaryRow cols vs, spare) ?mask (length vs) 0 (int (1 + (length vs + 7 + 2) div 8))
    = Ok (map2 (binVal parseTime loc) cols vs)" by (simp add: binaryRow_def l add.commute)
  show ?thesis unfolding binRow_def Let_def by (simp only: m v bindR.simps)
qed

end
