(* ===== verification/ReadFrame.thy ===== *)
theory ReadFrame
  imports PacketSafety
begin

text \<open>
  What reading a packet leaves alone: it writes nothing, and it takes from the network only the
  chunks that it needs. When it succeeds on what has arrived so far, it does the same when more has
  arrived behind that, and leaves the rest where it is.
\<close>

section \<open>Reading writes nothing\<close>

definition writeSide :: "net \<Rightarrow> byte list \<times> (nat \<times> gerr option) option list \<times> gerr option list \<times> bool" where
  "writeSide c = (n_out c, n_wres c, n_writeDl c, n_closed c)"

lemma writeSide_netRead: "netRead room c = (x, c') \<Longrightarrow> writeSide c' = writeSide c"
  by (auto simp: netRead.simps writeSide_def split: if_splits list.splits)

lemma writeSide_armRead: "armRead b = (e, b') \<Longrightarrow> writeSide (b_nc b') = writeSide (b_nc b)"
  by (auto simp: armRead_def setReadDeadline_def writeSide_def split: if_splits list.splits)

lemma writeSide_readInto: "readInto n b = (x, b') \<Longrightarrow> writeSide (b_nc b') = writeSide (b_nc b)"
  using writeSide_netRead by (auto simp: readInto_def setArr_def split: prod.splits)

lemma writeSide_fillLoop: "fillLoop need n b = (r, b') \<Longrightarrow> writeSide (b_nc b') = writeSide (b_nc b)"
proof (induction need n b arbitrary: r b' rule: fillLoop.induct)
  case (1 need n b)
  obtain e b1 where a: "armRead b = (e, b1)" by (cases "armRead b")
  obtain nn err b2 where i: "readInto n b1 = ((nn, err), b2)" by (cases "readInto n b1") auto
  have w: "writeSide (b_nc b1) = writeSide (b_nc b)" "writeSide (b_nc b2) = writeSide (b_nc b)"
    using writeSide_armRead [OF a] writeSide_readInto [OF i] by simp_all
  show ?case
  proof (cases "e = None \<and> err = None \<and> n + nn < need \<and> \<not> length (arr b1 (b_buf b1)) \<le> n")
    case True
    then have "fillLoop need (n + nn) b2 = (r, b')" using 1(2) a i by (subst (asm) fillLoop.simps) simp
    with 1(1) a i True w show ?thesis by auto
  next
    case False
    then show ?thesis using 1(2) a i w by (subst (asm) fillLoop.simps) (auto split: option.splits if_splits)
  qed
qed

lemma writeSide_readNext:
  assumes "readNext need b = (r, b')"
  shows "writeSide (b_nc b') = writeSide (b_nc b)"
proof -
  have g: "growDest need b = (dest, b1) \<Longrightarrow> b_nc b1 = b_nc b" for dest b1
    by (auto simp: growDest_def Let_def makeArr_def setDbuf_def split: if_splits)
  have m: "moveUnread dest b1 = Ok b2 \<Longrightarrow> b_nc b2 = b_nc b1" for dest b1 b2
    by (auto simp: moveUnread_def setArr_def split: if_splits)
  have f: "fill need b = (q, b1) \<Longrightarrow> writeSide (b_nc b1) = writeSide (b_nc b)" for q b1
    using g m by (auto simp: fill_def split: prod.splits res.splits dest!: writeSide_fillLoop)
  show ?thesis using assms f
    by (auto simp: readNext_run cutBuf_def split: if_splits res.splits prod.splits)
qed

lemma writeSide_readBytes:
  assumes "readBytes need mc = (Ok x, mc')"
  shows "writeSide (mc_net mc') = writeSide (mc_net mc)"
proof -
  have nok: "readFailed m \<noteq> (Ok x, m')" for m m'
    by (auto simp: readFailed_def thenA_def getA_def seqA_Ok_iff fail_def split: option.splits)
  obtain r b where rd: "readNext need (mc_buf mc) = (r, b)" by (cases "readNext need (mc_buf mc)")
  have "mc' = mc\<lparr>mc_buf := b\<rparr>" using assms nok rd
    by (cases r) (auto simp: readBytes_def thenA_def [of "tryA _"] tryA_onBuf)
  then show ?thesis using writeSide_readNext [OF rd] by simp
qed

lemma writeSide_readPacketLoop:
  "readPacketLoop n prev mc = (Ok x, mc') \<Longrightarrow> writeSide (mc_net mc') = writeSide (mc_net mc)"
proof (induction n arbitrary: prev mc)
  case (Suc n)
  from Suc.prems obtain h mc1 where h: "readBytes 4 mc = (Ok h, mc1)"
    by (auto simp: readPacketLoop.simps thenA_Ok_iff)
  note w1 = writeSide_readBytes [OF h]
  show ?case
  proof (cases "mc' = mc1\<lparr>mc_sequence := mc_sequence mc1 + 1\<rparr>")
    case False
    with Suc.prems h obtain k body sp mc2 where
      b: "readBytes k (mc1\<lparr>mc_sequence := mc_sequence mc1 + 1\<rparr>) = (Ok (body, sp), mc2)"
      and c: "mc' = mc2 \<or> readPacketLoop n (prev @ body) mc2 = (Ok x, mc')"
      by (auto simp: readPacketLoop.simps thenA_Ok_iff seqA_Ok_iff Let_def split: if_splits prod.splits)
    from writeSide_readBytes [OF b] w1 c Suc.IH show ?thesis by auto
  qed (use w1 in simp)
qed (simp add: readPacketLoop.simps)

section \<open>Reading takes only what it needs\<close>

type_synonym chunks = "(byte list \<times> gerr option) list"

definition moreNet :: "chunks \<Rightarrow> net \<Rightarrow> net" where
  "moreNet later c = c\<lparr>n_in := n_in c @ later\<rparr>"

definition moreBuf :: "chunks \<Rightarrow> buffer \<Rightarrow> buffer" where
  "moreBuf later b = b\<lparr>b_nc := moreNet later (b_nc b)\<rparr>"

definition more :: "chunks \<Rightarrow> mysqlConn \<Rightarrow> mysqlConn" where
  "more later mc = mc\<lparr>mc_buf := moreBuf later (mc_buf mc)\<rparr>"

lemma moreBuf_fields [simp]:
  "b_arrs (moreBuf l b) = b_arrs b" "b_buf (moreBuf l b) = b_buf b" "b_idx (moreBuf l b) = b_idx b"
  "b_length (moreBuf l b) = b_length b" "b_timeout (moreBuf l b) = b_timeout b" "b_dbuf (moreBuf l b) = b_dbuf b"
  "b_flipcnt (moreBuf l b) = b_flipcnt b" "arr (moreBuf l b) = arr b" "buffered (moreBuf l b) = buffered b"
  "dbufAt (moreBuf l b) = dbufAt b" "n_in (b_nc (moreBuf l b)) = n_in (b_nc b) @ l"
  by (simp_all add: moreBuf_def moreNet_def arr_def fun_eq_iff buffered_def dbufAt_def)

lemma more_netRead:
  assumes "netRead room c = ((bs, e), c')" and "n_in c \<noteq> []"
  shows "netRead room (moreNet later c) = ((bs, e), moreNet later c')"
  using assms by (auto simp: netRead.simps moreNet_def split: if_splits list.splits)

lemma netRead_end:
  "netRead room c = ((bs, e), c') \<Longrightarrow> n_in c = [] \<Longrightarrow> \<not> n_closed c \<Longrightarrow> room \<noteq> 0 \<Longrightarrow> bs = [] \<and> e = Some ErrEOF"
  by (simp add: netRead.simps)

lemma more_armRead:
  "armRead b = (e, b') \<Longrightarrow> armRead (moreBuf later b) = (e, moreBuf later b')"
  by (auto simp: armRead_def setReadDeadline_def moreBuf_def moreNet_def split: if_splits list.splits)

lemma more_readInto:
  assumes "readInto n b = (x, b')" and "n_in (b_nc b) \<noteq> []"
  shows "readInto n (moreBuf later b) = (x, moreBuf later b')"
proof -
  obtain bs e c where r: "netRead (length (arr b (b_buf b)) - n) (b_nc b) = ((bs, e), c)"
    by (cases "netRead (length (arr b (b_buf b)) - n) (b_nc b)") auto
  from more_netRead [OF r assms(2), of later] r assms(1) show ?thesis
    by (auto simp: readInto_def moreBuf_def setArr_def arr_def)
qed

text \<open>The loop never goes on after the end of what has arrived.\<close>

lemma fillLoop_starved:
  assumes "n_in (b_nc b) = []" and "n < need"
  shows "fst (fillLoop need n b) \<noteq> Ok ()"
proof -
  obtain e b1 where a: "armRead b = (e, b1)" by (cases "armRead b")
  have i1: "n_in (b_nc b1) = []" using armRead_fields(7) [OF a] assms(1) by simp
  let ?room = "length (arr b1 (b_buf b1)) - n"
  obtain nn err b2 where i: "readInto n b1 = ((nn, err), b2)" by (cases "readInto n b1") auto
  have "nn = 0 \<and> (err = None \<longrightarrow> length (arr b1 (b_buf b1)) \<le> n)"
    using i i1 by (auto simp: readInto_def netRead.simps split: if_splits)
  then show ?thesis using a i assms(2) by (subst fillLoop.simps) (auto split: option.split)
qed

lemma more_fillLoop:
  "fillLoop need n b = (Ok (), b') \<Longrightarrow> n < need \<Longrightarrow>
   fillLoop need n (moreBuf later b) = (Ok (), moreBuf later b')"
proof (induction need n b arbitrary: b' rule: fillLoop.induct)
  case (1 need n b)
  have ne: "n_in (b_nc b) \<noteq> []" using fillLoop_starved [of b n need] 1(2,3) by auto
  obtain e b1 where a: "armRead b = (e, b1)" by (cases "armRead b")
  obtain nn err b2 where i: "readInto n b1 = ((nn, err), b2)" by (cases "readInto n b1") auto
  have ne1: "n_in (b_nc b1) \<noteq> []" using armRead_fields(7) [OF a] ne by simp
  note m = more_armRead [OF a, of later] more_readInto [OF i ne1, of later]
  show ?case
  proof (cases "e = None \<and> err = None \<and> n + nn < need \<and> \<not> length (arr b1 (b_buf b1)) \<le> n")
    case True
    then have "fillLoop need (n + nn) b2 = (Ok (), b')" using 1(2) a i by (subst (asm) fillLoop.simps) simp
    with 1(1) a i True have "fillLoop need (n + nn) (moreBuf later b2) = (Ok (), moreBuf later b')" by auto
    then show ?thesis using m True by (subst fillLoop.simps) simp
  next
    case False
    then have "e = None" "need \<le> n + nn" "err = None \<or> err = Some ErrEOF" "b' = b2\<lparr>b_length := n + nn\<rparr>"
      using 1(2) a i by (subst (asm) fillLoop.simps; auto split: option.splits if_splits)+
    then show ?thesis using m by (subst fillLoop.simps) (auto simp: moreBuf_def)
  qed
qed

lemma more_fill:
  assumes "fill need b = (Ok (), b')" and "b_length b < need"
  shows "fill need (moreBuf later b) = (Ok (), moreBuf later b')"
proof -
  obtain dest b1 where g: "growDest need b = (dest, b1)" by (cases "growDest need b")
  have g': "growDest need (moreBuf later b) = (dest, moreBuf later b1)" and l1: "b_length b1 = b_length b"
    using g by (auto simp: growDest_def Let_def makeArr_def setDbuf_def moreBuf_def arr_def dbufAt_def split: if_splits)
  from assms(1) g obtain b2 where mv: "moveUnread dest b1 = Ok b2"
    and f: "fillLoop need (b_length b2) (b2\<lparr>b_buf := dest, b_idx := 0\<rparr>) = (Ok (), b')"
    by (auto simp: fill_def split: res.splits)
  have mv': "moveUnread dest (moreBuf later b1) = Ok (moreBuf later b2)" and l2: "b_length b2 = b_length b1"
    using mv by (auto simp: moveUnread_def setArr_def moreBuf_def arr_def split: if_splits)
  have e: "(moreBuf later b2)\<lparr>b_buf := dest, b_idx := 0\<rparr> = moreBuf later (b2\<lparr>b_buf := dest, b_idx := 0\<rparr>)"
    by (simp add: moreBuf_def)
  from more_fillLoop [OF f, of later] l1 l2 assms(2) show ?thesis by (simp add: fill_def g' mv' e)
qed

lemma more_readNext:
  assumes "readNext need b = (Ok s, b')"
  shows "readNext need (moreBuf later b) = (Ok s, moreBuf later b')"
proof -
  have c: "cutBuf off n b1 = (Ok s, b2) \<Longrightarrow> cutBuf off n (moreBuf later b1) = (Ok s, moreBuf later b2)" for off n b1 b2
    by (auto simp: cutBuf_def split: if_splits)
  have u: "(moreBuf later b1)\<lparr>b_idx := i, b_length := l\<rparr> = moreBuf later (b1\<lparr>b_idx := i, b_length := l\<rparr>)" for b1 i l
    by (simp add: moreBuf_def)
  show ?thesis
  proof (cases "b_length b < need")
    case True
    with assms obtain b1 where f: "fill need b = (Ok (), b1)"
      and k: "cutBuf (b_idx b1) need (b1\<lparr>b_idx := b_idx b1 + need, b_length := b_length b1 - need\<rparr>) = (Ok s, b')"
      by (auto simp: readNext_run split: prod.splits res.splits)
    show ?thesis using True more_fill [OF f True, of later] c [OF k] by (simp add: readNext_run u)
  next
    case False
    with assms c show ?thesis by (simp add: readNext_run u)
  qed
qed

lemma more_readBytes:
  assumes "readBytes need mc = (Ok x, mc')"
  shows "readBytes need (more later mc) = (Ok x, more later mc')"
proof -
  have nok: "readFailed m \<noteq> (Ok x, m')" for m m'
    by (auto simp: readFailed_def thenA_def getA_def seqA_Ok_iff fail_def split: option.splits)
  obtain r b where rd: "readNext need (mc_buf mc) = (r, b)" by (cases "readNext need (mc_buf mc)")
  then obtain s where r: "r = Ok s" and mc': "mc' = mc\<lparr>mc_buf := b\<rparr>" "x = sliceAt b s"
    using assms nok by (cases r) (auto simp: readBytes_def thenA_def [of "tryA _"] tryA_onBuf)
  have "sliceAt (moreBuf later b) s = sliceAt b s" by (cases s) (simp add: sliceAt_def bytesAt_def)
  then show ?thesis using more_readNext [OF rd [unfolded r], of later] mc'
    by (simp add: more_def readBytes_def thenA_def [of "tryA _"] tryA_onBuf)
qed

lemma more_seq: "(more later mc)\<lparr>mc_sequence := s\<rparr> = more later (mc\<lparr>mc_sequence := s\<rparr>)"
  and more_sequence: "mc_sequence (more later mc) = mc_sequence mc"
  by (simp_all add: more_def)

lemma more_readPacketLoop:
  "readPacketLoop n prev mc = (Ok x, mc') \<Longrightarrow> n \<le> m \<Longrightarrow>
   readPacketLoop m prev (more later mc) = (Ok x, more later mc')"
proof (induction n arbitrary: prev mc m)
  case (Suc n)
  from Suc.prems(2) obtain k where m: "m = Suc k" "n \<le> k" by (cases m) auto
  from Suc.prems(1) obtain h mc1 where h: "readBytes 4 mc = (Ok h, mc1)"
    by (auto simp: readPacketLoop.simps thenA_Ok_iff)
  obtain data sp where hd: "h = (data, sp)" by (cases h)
  let ?len = "unat (data ! 0) + 256 * unat (data ! 1) + 65536 * unat (data ! 2)"
    and ?mc1 = "mc1\<lparr>mc_sequence := mc_sequence mc1 + 1\<rparr>"
  note hm = more_readBytes [OF h, of later]
  have s: "data ! 3 = mc_sequence mc1"
    using Suc.prems(1) h hd by (auto simp: readPacketLoop.simps thenA_Ok_iff Let_def split: if_splits)
  show ?case
  proof (cases "?len = 0")
    case True
    then have "prev \<noteq> []" "x = (prev, [])" "mc' = ?mc1" using Suc.prems(1) h hd s
      by (auto simp: readPacketLoop.simps thenA_Ok_iff seqA_Ok_iff Let_def split: if_splits)
    then show ?thesis using hm hd s True
      by (simp add: m(1) readPacketLoop.simps thenA_Ok [of "readBytes _"] Let_def more_sequence more_seq)
  next
    case False
    with Suc.prems(1) h hd s obtain body spare mc2 where
      b: "readBytes ?len ?mc1 = (Ok (body, spare), mc2)"
      and c: "(if ?len < maxPacketSize then ret (if prev = [] then (body, spare) else (prev @ body, []))
              else readPacketLoop n (prev @ body)) mc2 = (Ok x, mc')"
      by (auto simp: readPacketLoop.simps thenA_Ok_iff seqA_Ok_iff Let_def)
    note bm = more_readBytes [OF b, of later]
    have "(if ?len < maxPacketSize then ret (if prev = [] then (body, spare) else (prev @ body, []))
        else readPacketLoop k (prev @ body)) (more later mc2) = (Ok x, more later mc')"
      using c Suc.IH [OF _ m(2), of "prev @ body" mc2] by (auto split: if_splits)
    then show ?thesis using hm bm hd s False
      by (auto simp: m(1) readPacketLoop.simps thenA_Ok [of "readBytes _"] Let_def more_sequence more_seq)
  qed
qed (simp add: readPacketLoop.simps)

lemma more_readPacket:
  assumes "readPacket mc = (Ok x, mc')"
  shows "readPacket (more later mc) = (Ok x, more later mc')"
proof -
  have "length (unread (mc_buf mc)) \<le> length (unread (mc_buf (more later mc)))"
    by (simp add: unread_def more_def incoming_def)
  then show ?thesis using assms more_readPacketLoop [of "Suc (length (unread (mc_buf mc)))" "[]" mc x mc'
      "Suc (length (unread (mc_buf (more later mc))))" later]
    by (simp add: readPacket_def)
qed

end
