(* ===== verification/AnswerFacts.thy ===== *)
theory AnswerFacts
  imports ResultProps ReadFrame
begin

text \<open>
  Answers of a server, packet after packet, as a reference writer of the protocol sends them, and
  what the reading functions of the driver make of them: columns, the number of columns, skipped
  definitions, OK and error packets. \<open>idle\<close> is a connection at rest, which can send the next command.
\<close>

section \<open>The server's answer\<close>

text \<open>Packets in a row, each with the next sequence number.\<close>

fun packets :: "byte \<Rightarrow> byte list list \<Rightarrow> byte list" where
  "packets s [] = []"
| "packets s (p # ps) = frames s p @ packets (s + of_nat (frameCount p)) ps"

definition eofPacket :: "u16 \<Rightarrow> byte list" where
  "eofPacket st = [iEOF, 0, 0] @ to_le 2 st"

definition encColumn :: "mysqlField \<Rightarrow> byte list" where
  "encColumn f = lenencBytes (bytes_of ''def'') @ lenencBytes [] @ lenencBytes (mf_tableName f) @ lenencBytes []
     @ lenencBytes (mf_name f) @ lenencBytes []
     @ [0x0c, mf_charSet f, 0] @ to_le 4 (mf_length f) @ [mf_fieldType f] @ to_le 2 (mf_flags f)
     @ [mf_decimals f, 0, 0]"

section \<open>A packet after the other\<close>

text \<open>Only the reading side of the network, the buffer, the sequence number and the status have changed.\<close>

definition moved :: "u16 \<Rightarrow> mysqlConn \<Rightarrow> mysqlConn \<Rightarrow> bool" where
  "moved st mc mc' \<longleftrightarrow> (\<exists>b s. mc' = mc\<lparr>mc_buf := b, mc_sequence := s, mc_status := st\<rparr>
     \<and> writeSide (b_nc b) = writeSide (mc_net mc))"

text \<open>
  The next packets to read are \<open>ps\<close>, with nothing behind them in what has arrived for them, whether it
  is in the buffer already or not; the chunks \<open>later\<close> belong to what comes afterwards.
\<close>

definition answers :: "byte list list \<Rightarrow> chunks \<Rightarrow> mysqlConn \<Rightarrow> bool" where
  "answers ps later mc \<longleftrightarrow> canRead mc \<and> wf_mc mc \<and> (\<exists>now. n_in (mc_net mc) = now @ later
     \<and> buffered (mc_buf mc) @ concat (map fst now) = packets (mc_sequence mc) ps)"

lemma moved_refl: "moved (mc_status mc) mc mc"
  by (cases mc) (auto simp: moved_def)

lemma moved_status_only: "moved st mc (mc\<lparr>mc_status := st\<rparr>)"
  by (cases mc) (auto simp: moved_def)

lemma moved_trans: "moved st mc mc1 \<Longrightarrow> moved st' mc1 mc2 \<Longrightarrow> moved st' mc mc2"
  by (simp add: moved_def) (elim exE conjE, simp, blast)

lemma moved_fields:
  "moved st mc mc' \<Longrightarrow> mc_cfg mc' = mc_cfg mc \<and> mc_parseTime mc' = mc_parseTime mc \<and> mc_closed mc' = mc_closed mc
    \<and> mc_reset mc' = mc_reset mc \<and> mc_status mc' = st \<and> n_out (mc_net mc') = n_out (mc_net mc)
    \<and> canWrite mc' = canWrite mc \<and> mc_maxAllowedPacket mc' = mc_maxAllowedPacket mc"
  by (auto simp: moved_def writeSide_def canWrite_def)

lemma readPacket_answers:
  assumes "answers (p # ps) later mc" and "p \<noteq> []"
  shows "\<exists>sp mc'. readPacket mc = (Ok (p, sp), mc') \<and> answers ps later mc' \<and> moved (mc_status mc) mc mc'
    \<and> mc_sequence mc' = mc_sequence mc + of_nat (frameCount p)"
proof -
  let ?s = "mc_sequence mc + of_nat (frameCount p)"
  from assms(1) obtain now where now: "n_in (mc_net mc) = now @ later"
    and b: "buffered (mc_buf mc) @ concat (map fst now) = packets (mc_sequence mc) (p # ps)"
    and r: "canRead mc" "wf_mc mc" unfolding answers_def by blast
  define mc0 where "mc0 = mc\<lparr>mc_buf := (mc_buf mc)\<lparr>b_nc := (mc_net mc)\<lparr>n_in := now\<rparr>\<rparr>\<rparr>"
  have m0: "more later mc0 = mc" using now by (simp add: mc0_def more_def moreBuf_def moreNet_def)
  have "canRead mc0" using r(1) now by (simp add: mc0_def canRead_def wf_buffer_def healthy_def arr_def)
  moreover have "unread (mc_buf mc0) = frames (mc_sequence mc0) p @ packets ?s ps"
    using b by (simp add: mc0_def unread_def incoming_def buffered_def arr_def)
  ultimately obtain b0 sp where rd0: "readPacket mc0 = (Ok (p, sp), mc0\<lparr>mc_buf := b0, mc_sequence := ?s\<rparr>)"
    and c0: "canRead (mc0\<lparr>mc_buf := b0\<rparr>)" and u0: "unread b0 = packets ?s ps"
    using readPacket_frames [OF _ _ assms(2), of mc0] by (auto simp: mc0_def)
  let ?b = "moreBuf later b0" and ?mc = "mc\<lparr>mc_buf := moreBuf later b0, mc_sequence := ?s\<rparr>"
  have e: "more later (mc0\<lparr>mc_buf := b0, mc_sequence := ?s\<rparr>) = ?mc" by (simp add: mc0_def more_def)
  from more_readPacket [OF rd0, of later] have rd: "readPacket mc = (Ok (p, sp), ?mc)" unfolding m0 e .
  have "canRead ?mc" using c0 r(1) now by (simp add: canRead_def wf_buffer_def healthy_def moreBuf_def moreNet_def arr_def)
  moreover have "wf_mc ?mc" using readPacket_safe [OF rd r(2)] by blast
  moreover have "n_in (mc_net ?mc) = n_in (b_nc b0) @ later
      \<and> buffered (mc_buf ?mc) @ concat (map fst (n_in (b_nc b0))) = packets (mc_sequence ?mc) ps"
    using u0 by (simp add: unread_def incoming_def)
  ultimately have "answers ps later ?mc" unfolding answers_def by blast
  moreover have "writeSide (b_nc ?b) = writeSide (mc_net mc)"
    using rd writeSide_readPacketLoop [of _ "[]" mc "(p, sp)" ?mc] by (simp add: readPacket_def)
  then have "moved (mc_status mc) mc ?mc" unfolding moved_def
    by (intro exI [of _ ?b] exI [of _ ?s]) (cases mc, simp)
  ultimately show ?thesis using rd by (intro exI [of _ sp] exI [of _ ?mc]) simp
qed

lemma length_packets: "length ps \<le> length (packets s ps)"
proof (induction ps arbitrary: s)
  case (Cons p ps)
  have "Suc 0 \<le> length (frames s p)" using frameCount_le_frames [of p s] by (simp add: frameCount_def)
  then show ?case using Cons [of "s + of_nat (frameCount p)"] by simp
qed simp

section \<open>Columns\<close>

lemma answers_update:
  "answers ps later (mc\<lparr>mc_status := st\<rparr>) = answers ps later mc"
  "answers ps later (mc\<lparr>mc_affectedRows := rows, mc_insertId := ident\<rparr>) = answers ps later mc"
  by (simp_all add: answers_def canRead_def wf_mc_def)

lemma answers_length:
  assumes "answers ps later mc"
  shows "length ps \<le> length (unread (mc_buf mc))"
proof -
  from assms obtain now where "n_in (mc_net mc) = now @ later"
    and b: "buffered (mc_buf mc) @ concat (map fst now) = packets (mc_sequence mc) ps" unfolding answers_def by blast
  then have "length (packets (mc_sequence mc) ps) \<le> length (unread (mc_buf mc))"
    by (simp add: unread_def incoming_def b [symmetric])
  with length_packets show ?thesis by (rule order_trans)
qed

lemma skip_append:
  assumes "length s < 2 ^ 62"
  shows "skipLengthEncodedString (lenencBytes s @ ys) = Ok (int (length (lenencBytes s)), None)"
  using skip_agrees_with_read [OF read_append_lenenc_string [OF assms order_refl, of ys]]
  by (simp add: lenencBytes_def)

lemma skipField_append:
  assumes "length s < 2 ^ 62" and "data = xs @ lenencBytes s @ ys"
  shows "skipField (data, spare) (int (length xs)) = Ok (int (length (xs @ lenencBytes s)))"
  using assms by (simp add: skipField_def from_pos_append checkErr_def skip_append)

lemma readField_append:
  assumes "length s < 2 ^ 62" and "data = xs @ lenencBytes s @ ys"
  shows "readField (data, spare) (int (length xs)) = Ok (s, False, int (length (xs @ lenencBytes s)))"
  using readField_text [of "Some s" data xs ys spare] assms by (simp add: shortText_def encText_def)

lemma le_uint_to_le:
  fixes n :: "'a::len word"
  assumes "LENGTH('a) = 8 * k"
  shows "le_uint k (to_le k n) = Ok n"
proof -
  have "take_bit (8 * k) n = n" using assms take_bit_word_eq_self [of "8 * k" n] by simp
  then show ?thesis by (simp add: le_uint_def le_bytes_to_le)
qed

definition columnTail :: "mysqlField \<Rightarrow> byte list" where
  "columnTail f = [0x0c, mf_charSet f, 0] @ to_le 4 (mf_length f) @ [mf_fieldType f] @ to_le 2 (mf_flags f)
     @ [mf_decimals f, 0, 0]"

lemma fixedPart_tail:
  assumes "data = xs @ columnTail f"
  shows "fixedPart (data, spare) (int (length xs)) g = Ok (g\<lparr>mf_length := mf_length f, mf_flags := mf_flags f,
    mf_fieldType := mf_fieldType f, mf_decimals := mf_decimals f, mf_charSet := mf_charSet f\<rparr>)"
proof -
  let ?p = "int (length xs)" and ?l = "to_le 4 (mf_length f)" and ?g = "to_le 2 (mf_flags f)"
  have byte: "idxI data (?p + int k) = Ok (columnTail f ! k)" if "k < length (columnTail f)" for k
    using that by (simp add: assms idxI_def nth_append nat_add_distrib)
  have len: "length (columnTail f) = 13" by (simp add: columnTail_def)
  have nth: "columnTail f ! 1 = mf_charSet f" "columnTail f ! 7 = mf_fieldType f" "columnTail f ! 10 = mf_decimals f"
    by (simp_all add: columnTail_def nth_append)
  have "sub_slice ((xs @ [0x0c, mf_charSet f, 0]) @ ?l @ ([mf_fieldType f] @ ?g @ [mf_decimals f, 0, 0]), spare)
      (int (length (xs @ [0x0c, mf_charSet f, 0]))) (int (length (xs @ [0x0c, mf_charSet f, 0])) + int (length ?l)) = Ok ?l"
    by (rule sub_slice_append)
  then have l: "sub_slice (data, spare) (?p + 3) (?p + 7) = Ok ?l"
    by (simp add: assms columnTail_def add.commute)
  have "sub_slice ((xs @ [0x0c, mf_charSet f, 0] @ ?l @ [mf_fieldType f]) @ ?g @ [mf_decimals f, 0, 0], spare)
      (int (length (xs @ [0x0c, mf_charSet f, 0] @ ?l @ [mf_fieldType f])))
      (int (length (xs @ [0x0c, mf_charSet f, 0] @ ?l @ [mf_fieldType f])) + int (length ?g)) = Ok ?g"
    by (rule sub_slice_append)
  then have g: "sub_slice (data, spare) (?p + 8) (?p + 10) = Ok ?g"
    by (simp add: assms columnTail_def add.commute)
  show ?thesis using byte [of 1] byte [of 7] byte [of 10] len nth
    by (simp add: fixedPart_def l g le_uint_to_le)
qed

definition shortName :: "mysqlField \<Rightarrow> bool" where
  "shortName f \<longleftrightarrow> length (mf_tableName f) < 2 ^ 62 \<and> length (mf_name f) < 2 ^ 62"

definition seenColumn :: "bool \<Rightarrow> mysqlField \<Rightarrow> mysqlField" where
  "seenColumn alias f = (if alias then f else f\<lparr>mf_tableName := []\<rparr>)"

lemma parseColumn_encColumn:
  assumes "shortName f"
  shows "parseColumn alias True (encColumn f, spare) = Ok (seenColumn alias f)"
proof -
  let ?a = "lenencBytes (bytes_of ''def'')" and ?n = "lenencBytes []"
    and ?t = "lenencBytes (mf_tableName f)" and ?m = "lenencBytes (mf_name f)" and ?d = "encColumn f"
  let ?x1 = "?a" and ?x2 = "?a @ ?n" and ?x3 = "?a @ ?n @ ?t" and ?x4 = "?a @ ?n @ ?t @ ?n"
    and ?x5 = "?a @ ?n @ ?t @ ?n @ ?m" and ?x6 = "?a @ ?n @ ?t @ ?n @ ?m @ ?n"
  have d: "?d = ?a @ ?n @ ?t @ ?n @ ?m @ ?n @ columnTail f" by (simp add: encColumn_def columnTail_def)
  have len: "length (mf_tableName f) < 2 ^ 62" "length (mf_name f) < 2 ^ 62" using assms by (simp_all add: shortName_def)
  have "length (bytes_of ''def'') < 2 ^ 62" by (simp add: bytes_of_def)
  then have s1: "checkErr (skipLengthEncodedString ?d) = Ok (int (length ?x1))"
    by (simp add: d skip_append checkErr_def)
  have s2: "skipField (?d, spare) (int (length ?x1)) = Ok (int (length ?x2))"
    using skipField_append [of "[]" ?d ?x1] by (simp add: d)
  have s3: "skipField (?d, spare) (int (length ?x2)) = Ok (int (length ?x3))"
    using skipField_append [OF len(1), of ?d ?x2] by (simp add: d)
  have r3: "readField (?d, spare) (int (length ?x2)) = Ok (mf_tableName f, False, int (length ?x3))"
    using readField_append [OF len(1), of ?d ?x2] by (simp add: d)
  have s4: "skipField (?d, spare) (int (length ?x3)) = Ok (int (length ?x4))"
    using skipField_append [of "[]" ?d ?x3] by (simp add: d)
  have r5: "readField (?d, spare) (int (length ?x4)) = Ok (mf_name f, False, int (length ?x5))"
    using readField_append [OF len(2), of ?d ?x4] by (simp add: d)
  have s6: "skipField (?d, spare) (int (length ?x5)) = Ok (int (length ?x6))"
    using skipField_append [of "[]" ?d ?x5] by (simp add: d)
  have fx: "fixedPart (?d, spare) (int (length ?x6)) g = Ok (g\<lparr>mf_length := mf_length f, mf_flags := mf_flags f,
    mf_fieldType := mf_fieldType f, mf_decimals := mf_decimals f, mf_charSet := mf_charSet f\<rparr>)" for g
    by (rule fixedPart_tail) (simp add: d)
  show ?thesis unfolding parseColumn_def fst_conv
    by (cases "alias") (simp_all only: s1 s2 s3 r3 s4 r5 s6 fx bindR.simps split_conv needSlot_def if_True if_False,
      simp_all add: seenColumn_def emptyField_def)
qed

lemma encColumn_first: "encColumn f \<noteq> [] \<and> encColumn f ! 0 = 3"
  by (simp add: encColumn_def lenencBytes_def bytes_of_def appendLengthEncodedInteger_def)

lemma eofPacket_facts: "eofPacket st \<noteq> []" "eofPacket st ! 0 = iEOF" "length (eofPacket st) = 5"
  by (simp_all add: eofPacket_def)

lemma readStatus_eof: "readStatus (drop 3 (eofPacket st)) = Ok st"
proof -
  have "ucast (ucast st :: byte) OR push_bit 8 (ucast (ucast (drop_bit 8 st) :: byte)) = st"
    by (rule bit_word_eqI) (auto simp: bit_simps)
  then show ?thesis by (simp add: eofPacket_def readStatus_def numeral_2_eq_2)
qed

lemma readColumnsLoop_answers:
  "answers (map encColumn cols @ eofPacket st # ps) later mc \<Longrightarrow> list_all shortName cols \<Longrightarrow>
   int (length seen + length cols) = n \<Longrightarrow> length cols < fuel \<Longrightarrow>
   \<exists>mc'. readColumnsLoop fuel n seen mc
       = (Ok (seen @ map (seenColumn (cfg_ColumnsWithAlias (mc_cfg mc))) cols), mc')
     \<and> answers ps later mc' \<and> moved (mc_status mc) mc mc'"
proof (induction cols arbitrary: seen mc fuel)
  case Nil
  from Nil.prems(4) obtain k where k: "fuel = Suc k" by (cases fuel) auto
  from readPacket_answers [OF Nil.prems(1) [simplified] eofPacket_facts(1)] obtain sp mc' where
    rd: "readPacket mc = (Ok (eofPacket st, sp), mc')" and a: "answers ps later mc'" "moved (mc_status mc) mc mc'"
    by blast
  have "first (eofPacket st, sp) = Ok iEOF" by (simp add: first_def eofPacket_facts)
  then show ?case using a Nil.prems(3)
    by (simp add: k readColumnsLoop.simps thenA_Ok [of readPacket, OF rd] eofPacket_facts)
next
  case (Cons f cols)
  from Cons.prems(4) obtain k where k: "fuel = Suc k" by (cases fuel) auto
  from Cons.prems(1) encColumn_first have "answers (encColumn f # map encColumn cols @ eofPacket st # ps) later mc" by simp
  from readPacket_answers [OF this] encColumn_first obtain sp mc1 where
    rd: "readPacket mc = (Ok (encColumn f, sp), mc1)"
    and a: "answers (map encColumn cols @ eofPacket st # ps) later mc1" and m: "moved (mc_status mc) mc mc1"
    by blast
  let ?c = "seenColumn (cfg_ColumnsWithAlias (mc_cfg mc)) f"
  have f: "first (encColumn f, sp) = Ok 3" "(3 :: byte) \<noteq> iEOF"
    using encColumn_first [of f] by (simp_all add: first_def const_defs)
  have "int (length seen) < n" using Cons.prems(3) by simp
  then have "readColumnsLoop fuel n seen mc = readColumnsLoop k n (seen @ [?c]) mc1"
    using f Cons.prems(2) moved_fields [OF m]
    by (simp add: k readColumnsLoop.simps thenA_Ok [of readPacket, OF rd] parseColumn_encColumn)
  moreover obtain mc2 where "readColumnsLoop k n (seen @ [?c]) mc1 =
      (Ok ((seen @ [?c]) @ map (seenColumn (cfg_ColumnsWithAlias (mc_cfg mc1))) cols), mc2)"
    and "answers ps later mc2" "moved (mc_status mc1) mc1 mc2"
    using Cons.IH [OF a, of "seen @ [?c]" k] Cons.prems(2,3,4) k by auto
  ultimately show ?case using moved_fields [OF m] moved_trans [OF m] by auto
qed

lemma readColumns_answers:
  assumes "answers (map encColumn cols @ eofPacket st # ps) later mc" and "list_all shortName cols"
    and "length cols \<le> 4096"
  shows "\<exists>mc'. readColumns (int (length cols)) mc
      = (Ok (map (seenColumn (cfg_ColumnsWithAlias (mc_cfg mc))) cols), mc')
    \<and> answers ps later mc' \<and> moved (mc_status mc) mc mc'"
proof -
  have "length (map encColumn cols @ eofPacket st # ps) \<le> length (unread (mc_buf mc))"
    using assms(1) by (rule answers_length)
  then have "length cols < fuelOf mc" by (simp add: fuelOf_def)
  from readColumnsLoop_answers [OF assms(1,2) _ this, of "[]"] assms(3) show ?thesis
    by (simp add: readColumns_def withFuel_def)
qed

section \<open>Definitions that are skipped\<close>

definition skippable :: "byte list \<Rightarrow> bool" where
  "skippable p \<longleftrightarrow> p \<noteq> [] \<and> p ! 0 \<noteq> iERR \<and> p ! 0 \<noteq> iEOF"

lemma readUntilEOFLoop_answers:
  "answers (ds @ eofPacket st # ps) later mc \<Longrightarrow> list_all skippable ds \<Longrightarrow> length ds < fuel \<Longrightarrow>
   \<exists>mc'. readUntilEOFLoop fuel mc = (Ok (), mc') \<and> answers ps later mc' \<and> moved st mc mc'"
proof (induction ds arbitrary: mc fuel)
  case Nil
  from Nil.prems(3) obtain k where k: "fuel = Suc k" by (cases fuel) auto
  from readPacket_answers [OF Nil.prems(1) [simplified] eofPacket_facts(1)] obtain sp mc1 where
    rd: "readPacket mc = (Ok (eofPacket st, sp), mc1)" and a: "answers ps later mc1" and m: "moved (mc_status mc) mc mc1"
    by blast
  let ?mc = "mc1\<lparr>mc_status := st\<rparr>"
  have "first (eofPacket st, sp) = Ok iEOF" "iEOF \<noteq> iERR" by (simp_all add: first_def eofPacket_facts const_defs)
  then have "readUntilEOFLoop fuel mc = (Ok (), ?mc)"
    by (simp add: k readUntilEOFLoop.simps thenA_Ok [of readPacket, OF rd] eofPacket_facts readStatus_eof)
  moreover have "moved st mc ?mc" using moved_trans [OF m] moved_status_only by blast
  moreover have "answers ps later ?mc" using a by (simp add: answers_update)
  ultimately show ?case by blast
next
  case (Cons d ds)
  from Cons.prems(3) obtain k where k: "fuel = Suc k" by (cases fuel) auto
  have d: "d \<noteq> []" "d ! 0 \<noteq> iERR" "d ! 0 \<noteq> iEOF" using Cons.prems(2) by (simp_all add: skippable_def)
  from Cons.prems(1) have "answers (d # ds @ eofPacket st # ps) later mc" by simp
  from readPacket_answers [OF this d(1)] obtain sp mc1 where
    rd: "readPacket mc = (Ok (d, sp), mc1)" and a: "answers (ds @ eofPacket st # ps) later mc1"
    and m: "moved (mc_status mc) mc mc1" by blast
  have "first (d, sp) = Ok (d ! 0)" using d(1) by (simp add: first_def)
  then have "readUntilEOFLoop fuel mc = readUntilEOFLoop k mc1"
    using d by (simp add: k readUntilEOFLoop.simps thenA_Ok [of readPacket, OF rd])
  with Cons.IH [OF a, of k] Cons.prems(2,3) k moved_trans [OF m] show ?case by auto
qed

lemma readUntilEOF_answers:
  assumes "answers (ds @ eofPacket st # ps) later mc" and "list_all skippable ds"
  shows "\<exists>mc'. readUntilEOF mc = (Ok (), mc') \<and> answers ps later mc' \<and> moved st mc mc'"
proof -
  have "length (ds @ eofPacket st # ps) \<le> length (unread (mc_buf mc))"
    using assms(1) by (rule answers_length)
  then have "length ds < fuelOf mc" by (simp add: fuelOf_def)
  from readUntilEOFLoop_answers [OF assms this] show ?thesis by (simp add: readUntilEOF_def withFuel_def)
qed

lemma skippable_encColumn: "skippable (encColumn f)"
  using encColumn_first [of f] by (simp add: skippable_def const_defs)

section \<open>A connection at later\<close>

definition idle :: "mysqlConn \<Rightarrow> bool" where
  "idle mc \<longleftrightarrow> canWrite mc \<and> canRead mc \<and> wf_mc mc \<and> \<not> mc_reset mc \<and> \<not> mc_closed mc \<and> b_length (mc_buf mc) = 0"

text \<open>The network will deliver \<open>bytes\<close>, in any chunks, and then the chunks \<open>later\<close>.\<close>

definition inbox :: "byte list \<Rightarrow> chunks \<Rightarrow> mysqlConn \<Rightarrow> bool" where
  "inbox bytes later mc \<longleftrightarrow> (\<exists>now. n_in (mc_net mc) = now @ later \<and> concat (map fst now) = bytes)"

lemma inbox_next: "inbox [] (next @ later) mc \<Longrightarrow> inbox (concat (map fst next)) later mc"
  by (auto simp: inbox_def)

lemma idle_after:
  assumes "answers [] later mc" and "canWrite mc" "\<not> mc_closed mc" "\<not> mc_reset mc"
  shows "idle mc \<and> inbox [] later mc"
proof -
  from assms(1) obtain now where now: "n_in (mc_net mc) = now @ later"
    and b: "buffered (mc_buf mc) @ concat (map fst now) = []"
    and r: "canRead mc" "wf_mc mc" by (auto simp: answers_def)
  have "wf_buffer (mc_buf mc)" using r(1) by (simp add: canRead_def)
  then have "b_length (mc_buf mc) = 0" using b length_buffered [of "mc_buf mc"] by simp
  then have "idle mc" using assms(2-4) r by (simp add: idle_def)
  moreover have "inbox [] later mc" using now b unfolding inbox_def by (metis append_is_Nil_conv)
  ultimately show ?thesis ..
qed

text \<open>What has been sent leaves the reading side as it was.\<close>

lemma sent_answers:
  assumes "idle mc" and "sent mc payload mc'"
    and "inbox (packets (of_nat (frameCount payload)) ps) later mc"
  shows "answers ps later mc' \<and> canWrite mc' \<and> \<not> mc_closed mc' \<and> \<not> mc_reset mc' \<and> mc_cfg mc' = mc_cfg mc
    \<and> mc_parseTime mc' = mc_parseTime mc \<and> mc_status mc' = mc_status mc
    \<and> mc_maxAllowedPacket mc' = mc_maxAllowedPacket mc \<and> n_out (mc_net mc') = n_out (mc_net mc) @ frames 0 payload"
proof -
  have i: "canWrite mc" "\<not> mc_reset mc" "\<not> mc_closed mc" "b_length (mc_buf mc) = 0" "wf_buffer (mc_buf mc)"
      "roomy (mc_buf mc)" "healthy (mc_net mc)"
    using assms(1) by (simp_all add: idle_def canRead_def wf_mc_def)
  from assms(2) obtain b dl where dl: "list_all (\<lambda>e. e = None) dl"
    and mc': "mc' = mc\<lparr>mc_buf := b\<lparr>b_nc := (mc_net mc)\<lparr>n_writeDl := dl, n_out := n_out (mc_net mc) @ frames 0 payload\<rparr>\<rparr>,
         mc_sequence := of_nat (frameCount payload)\<rparr>" and b: "keepsEmpty (mc_buf mc) b"
    unfolding sent_def by blast
  have w: "canRead mc'" "wf_mc mc'" using i(5-7) b
    by (simp_all add: mc' canRead_def wf_mc_def keepsEmpty_def wf_buffer_def roomy_def healthy_def arr_def)
  from assms(3) obtain now where now: "n_in (mc_net mc) = now @ later"
    and p: "concat (map fst now) = packets (of_nat (frameCount payload)) ps" unfolding inbox_def by blast
  have "n_in (mc_net mc') = now @ later \<and> buffered (mc_buf mc') @ concat (map fst now) = packets (mc_sequence mc') ps"
    using now p b by (simp add: mc' keepsEmpty_def buffered_def)
  with w have "answers ps later mc'" unfolding answers_def by blast
  moreover have "canWrite mc'" using i(1) dl by (simp add: mc' canWrite_def)
  ultimately show ?thesis using i by (simp add: mc')
qed

lemma command_sent:
  assumes "idle mc" and "1 + int (length arg) \<le> mc_maxAllowedPacket mc"
  shows "\<exists>mc'. writeCommandPacketStr command arg mc = (Ok (), mc') \<and> sent mc (command # arg) mc'"
proof -
  let ?len = "1 + length arg + 4"
  have i: "canWrite mc" "\<not> mc_reset mc" "b_length (mc_buf mc) = 0" using assms(1) by (simp_all add: idle_def)
  obtain s b where tk: "takeBuffer ?len (mc_buf mc) = (Ok s, b)" and len: "length (bytesAt b s) = ?len"
    using takeBuffer_ok [OF i(3)] by blast
  note k = keepsEmpty_takeBuffer [OF i(3) tk]
  let ?data = "copy_at ((bytesAt b s)[4 := command]) 5 arg"
  have d: "drop 4 ?data = command # arg" by (rule command_data) (use len in simp)
  then have data: "?data = take 4 ?data @ command # arg" by (metis append_take_drop_id)
  have "4 \<le> length ?data" using len by simp
  from writePacket_sentOrRefused [OF i(1,2) k this, of "command # arg", folded data] assms(2) obtain mc' where
    "writePacket ?data (mc\<lparr>mc_sequence := 0, mc_buf := b\<rparr>) = (Ok (), mc')" "sent mc (command # arg) mc'"
    by (auto simp: sentOrRefused_def)
  then show ?thesis using tk
    by (auto simp: writeCommandPacketStr_def thenA_def [of "tryA _"] tryA_onBuf)
qed

text \<open>The settings that a command leaves alone.\<close>

definition sameSettings :: "mysqlConn \<Rightarrow> mysqlConn \<Rightarrow> bool" where
  "sameSettings mc mc' \<longleftrightarrow> mc_cfg mc' = mc_cfg mc \<and> mc_maxAllowedPacket mc' = mc_maxAllowedPacket mc
     \<and> mc_parseTime mc' = mc_parseTime mc"

section \<open>The number of columns\<close>

lemma readHeader_count:
  assumes "answers (appendLengthEncodedInteger [] (of_nat n) # ps) later mc" and "0 < n" and "n < 2 ^ 63"
  shows "\<exists>mc'. readResultSetHeaderPacket E mc = (Ok (int n), mc') \<and> answers ps later mc'
    \<and> moved (mc_status mc) mc mc'"
proof -
  let ?h = "appendLengthEncodedInteger [] (of_nat n)"
  have v: "uint (of_nat n :: u64) = int n" using assms(3) by (simp add: unsigned_of_nat take_bit_nat_eq_self)
  then have sv: "sint (of_nat n :: u64) = int n" using assms(3)
    by (simp add: sint_uint signed_take_bit_int_eq_self)
  have byte: "(ucast (of_nat n :: u64) :: byte) \<notin> {iOK, iERR, iLocalInFile}" if "(of_nat n :: u64) \<le> 250"
  proof -
    have "n \<le> 250" using that v by (simp add: word_le_def)
    then have "unat (ucast (of_nat n :: u64) :: byte) = n"
      using assms(3) by (simp add: unsigned_ucast_eq unsigned_of_nat take_bit_nat_eq_self)
    then show ?thesis using assms(2) \<open>n \<le> 250\<close> by (auto simp: const_defs)
  qed
  have ne: "?h \<noteq> []" and h: "?h ! 0 \<notin> {iOK, iERR, iLocalInFile}"
    using byte by (auto simp: appendLengthEncodedInteger_def const_defs)
  from readPacket_answers [OF assms(1) ne] obtain sp mc' where
    rd: "readPacket mc = (Ok (?h, sp), mc')" and a: "answers ps later mc'" "moved (mc_status mc) mc mc'"
    by blast
  have "first (?h, sp) = Ok (?h ! 0)" using ne by (simp add: first_def)
  then have "readResultSetHeaderPacket E mc = (Ok (int n), mc')" using h sv read_append_lenenc [of "of_nat n" "[]"]
    by (simp add: readResultSetHeaderPacket_def thenA_Ok [of readPacket, OF rd])
  with a show ?thesis by blast
qed

definition resultHead :: "mysqlField list \<Rightarrow> u16 \<Rightarrow> byte list list" where
  "resultHead cols st = appendLengthEncodedInteger [] (of_nat (length cols)) # map encColumn cols @ [eofPacket st]"

lemma resultHead_answers:
  assumes "answers (resultHead cols st @ ps) later mc" and "cols \<noteq> []" "length cols \<le> 4096" "list_all shortName cols"
  shows "\<exists>mc1 mc2. readResultSetHeaderPacket E mc = (Ok (int (length cols)), mc1)
    \<and> setColumns (int (length cols)) (rows, mc1)
      = (Ok (), (rows\<lparr>mr_columns := map (seenColumn (cfg_ColumnsWithAlias (mc_cfg mc))) cols\<rparr>, mc2))
    \<and> answers ps later mc2 \<and> moved (mc_status mc) mc mc2"
proof -
  have "answers (appendLengthEncodedInteger [] (of_nat (length cols)) # map encColumn cols @ eofPacket st # ps) later mc"
    using assms(1) by (simp add: resultHead_def)
  from readHeader_count [OF this, of E] assms(2,3) obtain mc1 where
    h: "readResultSetHeaderPacket E mc = (Ok (int (length cols)), mc1)"
    and a1: "answers (map encColumn cols @ eofPacket st # ps) later mc1" and m1: "moved (mc_status mc) mc mc1"
    by auto
  have k: "mc_cfg mc1 = mc_cfg mc" "mc_status mc1 = mc_status mc" using moved_fields [OF m1] by simp_all
  from readColumns_answers [OF a1 assms(4,3), unfolded k] obtain mc2 where
    c: "readColumns (int (length cols)) mc1 = (Ok (map (seenColumn (cfg_ColumnsWithAlias (mc_cfg mc))) cols), mc2)"
    and a2: "answers ps later mc2" and m2: "moved (mc_status mc) mc1 mc2" by blast
  have "setColumns (int (length cols)) (rows, mc1)
      = (Ok (), (rows\<lparr>mr_columns := map (seenColumn (cfg_ColumnsWithAlias (mc_cfg mc))) cols\<rparr>, mc2))"
    using c by (simp add: setColumns_def modRows_def onMc_def thenA_def tryA_def)
  with h a2 moved_trans [OF m1 m2] show ?thesis by blast
qed

end
