(* ===== verification/RowProtocol.thy ===== *)
theory RowProtocol
  imports AnswerFacts
begin

text \<open>
  What a cursor promises, once for both row protocols: the locale \<open>row_protocol\<close> names the function
  that reads a row, the encoding of a row, what is handed out for a row, and the law that a
  row is read as it was written; it follows that a whole result arrives. It is interpreted on the
  text rows and on the binary rows of the driver.
\<close>

definition openCursor :: "mysqlField list \<Rightarrow> mysqlRows \<Rightarrow> mysqlConn \<Rightarrow> bool" where
  "openCursor cols rows mc \<longleftrightarrow> mr_mc rows \<and> \<not> mr_done rows \<and> mr_columns rows = cols \<and> \<not> mc_closed mc"

lemma rowsNext_openCursor:
  "openCursor cols rows mc \<Longrightarrow> rowsNext readRow n (rows, mc) = readRow n (rows, mc)"
  by (simp add: openCursor_def rowsNext_def failError_def mc_error_def seqA_def thenA_def liftA_def)

text \<open>The rows that a caller collects who asks for them one by one.\<close>

fun fetchRows :: "dval list rowsAct \<Rightarrow> nat \<Rightarrow> dval list list rowsAct" where
  "fetchRows next 0 = ret []"
| "fetchRows next (Suc k) = thenA next (\<lambda>r. thenA (fetchRows next k) (\<lambda>rs. ret (r # rs)))"

text \<open>The end of the rows in either protocol.\<close>

lemma endOfRows_eof:
  assumes "st AND statusMoreResultsExists = 0"
  shows "endOfRows (eofPacket st, sp) (rows, mc)
    = (Fail ErrEOF, (rows\<lparr>mr_mc := False, mr_done := True\<rparr>, mc\<lparr>mc_status := st\<rparr>))"
  using assms
  by (simp add: endOfRows_def readStatus_eof modRows_def onMc_def HasNextResultSet_def moreResults_def seqA_def thenA_def)

lemma eof_first: "first (eofPacket st, sp) = Ok iEOF" "isEOFPacket (eofPacket st)"
  by (simp_all add: first_def isEOFPacket_def eofPacket_facts)

lemma moved_status: "answers ps later mc \<Longrightarrow> answers ps later (mc\<lparr>mc_status := st\<rparr>) \<and> moved st mc (mc\<lparr>mc_status := st\<rparr>)"
  by (simp add: answers_update moved_status_only)

section \<open>The contract\<close>

locale row_protocol =
  fixes readRow :: "nat \<Rightarrow> dval list rowsAct"
    and encRow :: "mysqlField list \<Rightarrow> 'v list \<Rightarrow> byte list"
    and valsOf :: "mysqlField list \<Rightarrow> 'v list \<Rightarrow> dval list"
    and goodRow :: "mysqlField list \<Rightarrow> 'v list \<Rightarrow> bool"
    and ready :: "mysqlConn \<Rightarrow> bool"
  assumes ready_moved: "moved st mc mc' \<Longrightarrow> ready mc \<Longrightarrow> ready mc'"
    and row: "goodRow cols vs \<Longrightarrow> cols \<noteq> [] \<Longrightarrow> ready mc \<Longrightarrow> openCursor cols rows mc \<Longrightarrow>
      answers (encRow cols vs # ps) later mc \<Longrightarrow>
      \<exists>mc'. readRow (length cols) (rows, mc) = (Ok (valsOf cols vs), (rows, mc'))
        \<and> answers ps later mc' \<and> moved (mc_status mc) mc mc'"
    and eof: "openCursor cols rows mc \<Longrightarrow> st AND statusMoreResultsExists = 0 \<Longrightarrow> answers (eofPacket st # ps) later mc \<Longrightarrow>
      \<exists>mc'. readRow n (rows, mc) = (Fail ErrEOF, (rows\<lparr>mr_mc := False, mr_done := True\<rparr>, mc'))
        \<and> answers ps later mc' \<and> moved st mc mc'"
begin

lemma fetch_answers:
  "answers (map (encRow cols) vss @ ps) later mc \<Longrightarrow> list_all (goodRow cols) vss \<Longrightarrow> cols \<noteq> [] \<Longrightarrow> ready mc \<Longrightarrow>
   openCursor cols rows mc \<Longrightarrow>
   \<exists>mc'. fetchRows (rowsNext readRow (length cols)) (length vss) (rows, mc) = (Ok (map (valsOf cols) vss), (rows, mc'))
     \<and> answers ps later mc' \<and> moved (mc_status mc) mc mc'"
proof (induction vss arbitrary: mc)
  case (Cons vs vss)
  from Cons.prems(1) have a: "answers (encRow cols vs # map (encRow cols) vss @ ps) later mc" by simp
  have good: "goodRow cols vs" using Cons.prems(2) by simp
  from row [OF good Cons.prems(3,4,5) a] obtain mc1 where
    nx: "rowsNext readRow (length cols) (rows, mc) = (Ok (valsOf cols vs), (rows, mc1))"
    and a1: "answers (map (encRow cols) vss @ ps) later mc1" and m: "moved (mc_status mc) mc mc1"
    by (auto simp: rowsNext_openCursor [OF Cons.prems(5)])
  have "openCursor cols rows mc1" "ready mc1"
    using Cons.prems(4,5) moved_fields [OF m] ready_moved [OF m] by (simp_all add: openCursor_def)
  with Cons.IH [OF a1] Cons.prems(2,3) obtain mc2 where
    "fetchRows (rowsNext readRow (length cols)) (length vss) (rows, mc1) = (Ok (map (valsOf cols) vss), (rows, mc2))"
    "answers ps later mc2" "moved (mc_status mc1) mc1 mc2" by auto
  then show ?case using nx moved_fields [OF m] moved_trans [OF m] by (auto simp: thenA_Ok)
qed (use moved_refl in auto)

lemma result_arrives:
  assumes "answers (map (encRow cols) vss @ [eofPacket st]) later mc" and "list_all (goodRow cols) vss" "cols \<noteq> []"
    and "ready mc" "openCursor cols rows mc" and "st AND statusMoreResultsExists = 0"
  shows "\<exists>mc2 mc3. fetchRows (rowsNext readRow (length cols)) (length vss) (rows, mc)
      = (Ok (map (valsOf cols) vss), (rows, mc2))
    \<and> rowsNext readRow (length cols) (rows, mc2) = (Fail ErrEOF, (rows\<lparr>mr_mc := False, mr_done := True\<rparr>, mc3))
    \<and> answers [] later mc3 \<and> moved st mc mc3"
proof -
  from fetch_answers [OF assms(1-5)] obtain mc2 where
    f: "fetchRows (rowsNext readRow (length cols)) (length vss) (rows, mc) = (Ok (map (valsOf cols) vss), (rows, mc2))"
    and a2: "answers [eofPacket st] later mc2" and m2: "moved (mc_status mc) mc mc2" by blast
  have o2: "openCursor cols rows mc2" using assms(5) moved_fields [OF m2] by (simp add: openCursor_def)
  from eof [OF o2 assms(6) a2] obtain mc3 where
    "rowsNext readRow (length cols) (rows, mc2) = (Fail ErrEOF, (rows\<lparr>mr_mc := False, mr_done := True\<rparr>, mc3))"
    and a3: "answers [] later mc3" and m3: "moved st mc2 mc3"
    by (auto simp: rowsNext_openCursor [OF o2])
  with f moved_trans [OF m2 m3] show ?thesis by blast
qed

end

section \<open>The text protocol\<close>

definition goodText :: "mysqlField list \<Rightarrow> byte list option list \<Rightarrow> bool" where
  "goodText cols vs \<longleftrightarrow> length vs = length cols \<and> list_all shortText vs"

lemma text_row:
  assumes "goodText cols vs" and "cols \<noteq> []" and "\<not> mc_parseTime mc" and "openCursor cols rows mc"
    and "answers (textRow vs # ps) later mc"
  shows "\<exists>mc'. textReadRow (length cols) (rows, mc) = (Ok (map textVal vs), (rows, mc'))
    \<and> answers ps later mc' \<and> moved (mc_status mc) mc mc'"
proof -
  have vs: "length vs = length cols" "list_all shortText vs" "vs \<noteq> []" using assms(1,2) by (auto simp: goodText_def)
  note f = textRow_first [OF vs(3)]
  from readPacket_answers [OF assms(5)] f obtain sp mc' where
    rd: "readPacket mc = (Ok (textRow vs, sp), mc')" and a: "answers ps later mc'" "moved (mc_status mc) mc mc'"
    by blast
  have on: "onMc readPacket (rows, mc) = (Ok (textRow vs, sp), (rows, mc'))" by (simp add: onMc_def rd)
  have fst0: "first (textRow vs, sp) = Ok (textRow vs ! 0)" using f by (simp add: first_def)
  have tv: "textValues False loc cols (textRow vs, sp) (length cols) 0 0 = Ok (map textVal vs)" for loc
    using textValues_row [OF vs(2), of loc cols "[]" sp 0] vs(1) by simp
  have "textReadRow (length cols) (rows, mc) = (Ok (map textVal vs), (rows, mc'))"
    using f assms(3,4) moved_fields [OF a(2)]
    by (simp add: openCursor_def textReadRow_def getRows_def thenA_Ok [of "onMc readPacket", OF on] fst0 tv)
  with a show ?thesis by blast
qed

lemma text_eof:
  assumes "openCursor cols rows mc" and "st AND statusMoreResultsExists = 0" and "answers (eofPacket st # ps) later mc"
  shows "\<exists>mc'. textReadRow n (rows, mc) = (Fail ErrEOF, (rows\<lparr>mr_mc := False, mr_done := True\<rparr>, mc'))
    \<and> answers ps later mc' \<and> moved st mc mc'"
proof -
  from readPacket_answers [OF assms(3) eofPacket_facts(1)] obtain sp mc1 where
    rd: "readPacket mc = (Ok (eofPacket st, sp), mc1)" and a: "answers ps later mc1" and m: "moved (mc_status mc) mc mc1"
    by blast
  have on: "onMc readPacket (rows, mc) = (Ok (eofPacket st, sp), (rows, mc1))" by (simp add: onMc_def rd)
  have "textReadRow n (rows, mc) = (Fail ErrEOF, (rows\<lparr>mr_mc := False, mr_done := True\<rparr>, mc1\<lparr>mc_status := st\<rparr>))"
    using assms(1) endOfRows_eof [OF assms(2)] eof_first
    by (simp add: openCursor_def textReadRow_def getRows_def thenA_Ok [of "onMc readPacket", OF on])
  with moved_status [OF a] moved_trans [OF m] show ?thesis by blast
qed

interpretation textRows: row_protocol textReadRow "\<lambda>cols. textRow" "\<lambda>cols. map textVal" goodText "\<lambda>mc. \<not> mc_parseTime mc"
  by unfold_locales (use moved_fields text_row text_eof in blast)+

section \<open>The binary protocol\<close>

text \<open>How a row is encoded does not depend on the name of the table, which the driver may skip.\<close>

lemma fits_seen: "fits (seenColumn a c) v = fits c v"
  by (cases a; cases v) (simp_all add: fits_def seenColumn_def unsignedCol_def okDecimals_def Let_def)

lemma list_all2_fits_seen: "list_all2 fits (map (seenColumn a) cols) vs = list_all2 fits cols vs"
  by (simp add: list_all2_map1 fits_seen)

lemma dateLength_seen: "colDecimals (seenColumn a c) = colDecimals c" "dateLength (seenColumn a c) = dateLength c"
  by (simp_all add: colDecimals_def dateLength_def seenColumn_def)

lemma binVal_seen: "map2 (binVal p loc) (map (seenColumn a) cols) vs = map2 (binVal p loc) cols vs"
  by (induction cols vs rule: list_induct2')
    (auto simp: binVal_def dateLength_seen split: sval.split)

lemma encBin_seen: "encBin (seenColumn a c) v = encBin c v"
  by (cases a; cases v) (simp_all add: encBin_def seenColumn_def)

lemma binaryRow_seen: "binaryRow (map (seenColumn a) cols) vs = binaryRow cols vs"
proof -
  have "map2 encBin (map (seenColumn a) cols) vs = map2 encBin cols vs"
    by (induction cols vs rule: list_induct2') (simp_all add: encBin_seen)
  then show ?thesis by (simp add: binaryRow_def)
qed

lemma binary_row:
  assumes "list_all2 fits cols vs" and "mc_parseTime mc = p \<and> locOff (mc_cfg mc) = loc" and "openCursor cols rows mc" and "answers (binaryRow cols vs # ps) later mc"
  shows "\<exists>mc'. binReadRow (length cols) (rows, mc) = (Ok (map2 (binVal p loc) cols vs), (rows, mc'))
    \<and> answers ps later mc' \<and> moved (mc_status mc) mc mc'"
proof -
  have f: "binaryRow cols vs \<noteq> []" "binaryRow cols vs ! 0 = iOK" by (simp_all add: binaryRow_def)
  from readPacket_answers [OF assms(4) f(1)] obtain sp mc' where
    rd: "readPacket mc = (Ok (binaryRow cols vs, sp), mc')" and a: "answers ps later mc'" "moved (mc_status mc) mc mc'"
    by blast
  have on: "onMc readPacket (rows, mc) = (Ok (binaryRow cols vs, sp), (rows, mc'))" by (simp add: onMc_def rd)
  have "first (binaryRow cols vs, sp) = Ok iOK" using f by (simp add: first_def)
  moreover have "length cols = length vs" using assms(1) by (rule list_all2_lengthD)
  ultimately have "binReadRow (length cols) (rows, mc) = (Ok (map2 (binVal p loc) cols vs), (rows, mc'))"
    using assms(2,3) moved_fields [OF a(2)]
    by (simp add: openCursor_def binReadRow_def thenA_Ok [of "onMc readPacket", OF on] binRow_row [OF assms(1)])
  with a show ?thesis by blast
qed

lemma binary_eof:
  assumes "st AND statusMoreResultsExists = 0" and "answers (eofPacket st # ps) later mc"
  shows "\<exists>mc'. binReadRow n (rows, mc) = (Fail ErrEOF, (rows\<lparr>mr_mc := False, mr_done := True\<rparr>, mc'))
    \<and> answers ps later mc' \<and> moved st mc mc'"
proof -
  from readPacket_answers [OF assms(2) eofPacket_facts(1)] obtain sp mc1 where
    rd: "readPacket mc = (Ok (eofPacket st, sp), mc1)" and a: "answers ps later mc1" and m: "moved (mc_status mc) mc mc1"
    by blast
  have on: "onMc readPacket (rows, mc) = (Ok (eofPacket st, sp), (rows, mc1))" by (simp add: onMc_def rd)
  have "iEOF \<noteq> iOK" by (simp add: const_defs)
  then have "binReadRow n (rows, mc) = (Fail ErrEOF, (rows\<lparr>mr_mc := False, mr_done := True\<rparr>, mc1\<lparr>mc_status := st\<rparr>))"
    using endOfRows_eof [OF assms(1)] eof_first
    by (simp add: binReadRow_def thenA_Ok [of "onMc readPacket", OF on])
  with moved_status [OF a] moved_trans [OF m] show ?thesis by blast
qed

interpretation binaryRows: row_protocol binReadRow binaryRow "map2 (binVal p loc)" "list_all2 fits"
  "\<lambda>mc. mc_parseTime mc = p \<and> locOff (mc_cfg mc) = loc" for p loc
  by unfold_locales (use moved_fields in force, use binary_row in blast, use binary_eof in blast)

end
