(* ===== verification/QueryProps.thy ===== *)
theory QueryProps
  imports RowProtocol
begin

text \<open>
  Whole exchanges: the driver sends one command, a reference writer of the protocol answers, and
  the caller gets exactly what was answered, however the answer is cut into reads. Queries in text,
  preparing a statement, and executing a prepared statement that returns rows.
\<close>

section \<open>Queries in text\<close>

definition textResult :: "mysqlField list \<Rightarrow> byte list option list list \<Rightarrow> u16 \<Rightarrow> byte list list" where
  "textResult cols vss st = resultHead cols st @ map textRow vss @ [eofPacket st]"

lemma textQuery_answers:
  assumes "idle mc" and "cols \<noteq> []" "length cols \<le> 4096" "list_all shortName cols"
    and "1 + int (length query) \<le> mc_maxAllowedPacket mc"
    and "inbox (packets (of_nat (frameCount (comQuery # query))) (resultHead cols st @ ps)) later mc"
  shows "\<exists>mc'. textQuery D query [] mc
      = (Ok (newRows\<lparr>mr_mc := True, mr_columns := map (seenColumn (cfg_ColumnsWithAlias (mc_cfg mc))) cols\<rparr>), mc')
    \<and> n_out (mc_net mc') = n_out (mc_net mc) @ frames 0 (comQuery # query)
    \<and> answers ps later mc' \<and> canWrite mc' \<and> \<not> mc_closed mc' \<and> \<not> mc_reset mc' \<and> sameSettings mc mc'"
proof -
  from command_sent [OF assms(1,5), of comQuery] obtain mc1 where
    s: "writeCommandPacketStr comQuery query mc = (Ok (), mc1)" and snt: "sent mc (comQuery # query) mc1" by blast
  note a = sent_answers [OF assms(1) snt assms(6)]
  from a resultHead_answers [OF _ assms(2-4), of st ps later mc1 "de_infile D" "newRows\<lparr>mr_mc := True\<rparr>"]
  obtain mc2 mc3 where
    h: "readResultSetHeaderPacket (de_infile D) mc1 = (Ok (int (length cols)), mc2)"
    and c: "setColumns (int (length cols)) (newRows\<lparr>mr_mc := True\<rparr>, mc2)
      = (Ok (), (newRows\<lparr>mr_mc := True, mr_columns := map (seenColumn (cfg_ColumnsWithAlias (mc_cfg mc))) cols\<rparr>, mc3))"
    and a3: "answers ps later mc3" and m: "moved (mc_status mc1) mc1 mc3" by auto
  have "textQuery D query [] mc
    = (Ok (newRows\<lparr>mr_mc := True, mr_columns := map (seenColumn (cfg_ColumnsWithAlias (mc_cfg mc))) cols\<rparr>), mc3)"
    using assms(1,2) s h c
    by (simp add: idle_def textQuery_def requireOpen_def queryText_def markBad_def withRows_def thenA_def seqA_def tryA_def)
  with a a3 moved_fields [OF m] show ?thesis by (auto simp: sameSettings_def)
qed

lemma textQuery_delivers:
  assumes "idle mc" and "\<not> mc_parseTime mc"
    and "cols \<noteq> []" "length cols \<le> 4096" "list_all shortName cols"
    and "list_all (goodText cols) vss"
    and "st AND statusMoreResultsExists = 0" and "1 + int (length query) \<le> mc_maxAllowedPacket mc"
    and "inbox (packets (of_nat (frameCount (comQuery # query))) (textResult cols vss st)) later mc"
  shows "\<exists>rows mc1 mc2 mc3. textQuery D query [] mc = (Ok rows, mc1)
    \<and> mr_columns rows = map (seenColumn (cfg_ColumnsWithAlias (mc_cfg mc))) cols
    \<and> fetchRows (textRows_Next (length cols)) (length vss) (rows, mc1) = (Ok (map (map textVal) vss), (rows, mc2))
    \<and> textRows_Next (length cols) (rows, mc2) = (Fail ErrEOF, (rows\<lparr>mr_mc := False, mr_done := True\<rparr>, mc3))
    \<and> n_out (mc_net mc3) = n_out (mc_net mc) @ frames 0 (comQuery # query)
    \<and> mc_status mc3 = st \<and> idle mc3 \<and> inbox [] later mc3
    \<and> sameSettings mc mc3 \<and> length vss < fuelOf mc1"
proof -
  let ?seen = "map (seenColumn (cfg_ColumnsWithAlias (mc_cfg mc))) cols"
  let ?rows = "newRows\<lparr>mr_mc := True, mr_columns := ?seen\<rparr>"
  from textQuery_answers [OF assms(1,3,4,5,8) assms(9) [unfolded textResult_def], of D] obtain mc1 where
    q: "textQuery D query [] mc = (Ok ?rows, mc1)"
    and o: "n_out (mc_net mc1) = n_out (mc_net mc) @ frames 0 (comQuery # query)"
    and a1: "answers (map textRow vss @ [eofPacket st]) later mc1"
    and k: "canWrite mc1" "\<not> mc_closed mc1" "\<not> mc_reset mc1" "\<not> mc_parseTime mc1" and ss: "sameSettings mc mc1"
    using assms(2) by (auto simp: sameSettings_def)
  have "openCursor ?seen ?rows mc1" using k by (simp add: openCursor_def newRows_def)
  moreover have "list_all (goodText ?seen) vss" using assms(6) by (simp add: goodText_def list_all_iff)
  ultimately obtain mc2 mc3 where
    f: "fetchRows (textRows_Next (length cols)) (length vss) (?rows, mc1) = (Ok (map (map textVal) vss), (?rows, mc2))"
    and e: "textRows_Next (length cols) (?rows, mc2) = (Fail ErrEOF, (?rows\<lparr>mr_mc := False, mr_done := True\<rparr>, mc3))"
    and a3: "answers [] later mc3" and m: "moved st mc1 mc3"
    using textRows.result_arrives [OF a1, of ?seen ?rows] assms(3,7) k(4) by (auto simp: textRows_Next_def)
  have "idle mc3 \<and> inbox [] later mc3"
    using idle_after [OF a3] k moved_fields [OF m] by simp
  moreover have "sameSettings mc mc3" using ss moved_fields [OF m] by (simp add: sameSettings_def)
  moreover have "length vss < fuelOf mc1" using answers_length [OF a1] by (simp add: fuelOf_def)
  ultimately show ?thesis using q f e o moved_fields [OF m] by (intro exI [of _ ?rows]) auto
qed

text \<open>
  C3: A query without arguments, within the packet limit, on a connection at rest without \<open>parseTime\<close>
  sends its text as one command and nothing else, and hands out exactly the answer of the server, a
  single result: the columns, the rows in their order with their values, then the end of the rows,
  however the answer is cut into reads. Afterwards the connection is at rest again and what the
  network delivers later is untouched.
\<close>

theorem query_delivers_result:
  assumes "idle mc" and "\<not> mc_parseTime mc"
    and "cols \<noteq> []" "length cols \<le> 4096" "list_all shortName cols"
    and "list_all (goodText cols) vss"
    and "st AND statusMoreResultsExists = 0" and "1 + int (length query) \<le> mc_maxAllowedPacket mc"
    and "inbox (packets (of_nat (frameCount (comQuery # query))) (textResult cols vss st)) later mc"
  shows "\<exists>rows mc1 mc2 mc3. textQuery D query [] mc = (Ok rows, mc1)
    \<and> mr_columns rows = map (seenColumn (cfg_ColumnsWithAlias (mc_cfg mc))) cols
    \<and> fetchRows (textRows_Next (length cols)) (length vss) (rows, mc1) = (Ok (map (map textVal) vss), (rows, mc2))
    \<and> textRows_Next (length cols) (rows, mc2) = (Fail ErrEOF, (rows\<lparr>mr_mc := False, mr_done := True\<rparr>, mc3))
    \<and> n_out (mc_net mc3) = n_out (mc_net mc) @ frames 0 (comQuery # query)
    \<and> mc_status mc3 = st \<and> idle mc3 \<and> inbox [] later mc3"
  using textQuery_delivers [OF assms, of D] by blast

definition demoColumn :: "byte \<Rightarrow> mysqlField" where
  "demoColumn t = emptyField\<lparr>mf_tableName := [0x74], mf_name := [0x63], mf_length := 80, mf_fieldType := t\<rparr>"

lemma idle_demoMc: "idle (demoMc chunks)"
  by (simp add: idle_def) (simp add: demoMc_def)

lemma inbox_demoMc: "concat chunks = bytes \<Longrightarrow> inbox bytes [] (demoMc chunks)"
  by (auto simp: inbox_def demoMc_def newBuffer_def demoNet_def comp_def)

definition demoAnswer :: "byte list" where
  "demoAnswer = packets 1 (textResult [demoColumn fieldTypeVarString] [[None], [Some [0x41]]] 2)"

theorem query_delivers_result_witness:
  "\<exists>rows mc1 mc2 mc3. textQuery demoDriver [0x53, 0x31] [] (demoMc [take 7 demoAnswer, drop 7 demoAnswer]) = (Ok rows, mc1)
    \<and> mr_columns rows = [(demoColumn fieldTypeVarString)\<lparr>mf_tableName := []\<rparr>]
    \<and> fetchRows (textRows_Next 1) 2 (rows, mc1) = (Ok [[DNull], [DBytes [0x41]]], (rows, mc2))
    \<and> textRows_Next 1 (rows, mc2) = (Fail ErrEOF, (rows\<lparr>mr_mc := False, mr_done := True\<rparr>, mc3))
    \<and> n_out (mc_net mc3) = frames 0 [comQuery, 0x53, 0x31] \<and> idle mc3"
proof -
  let ?mc = "demoMc [take 7 demoAnswer, drop 7 demoAnswer]"
  have p: "\<not> mc_parseTime ?mc" "\<not> cfg_ColumnsWithAlias (mc_cfg ?mc)" by (simp_all add: demoMc_def NewConfig_def)
  have "frameCount (comQuery # [0x53, 0x31]) = 1" by (simp add: frameCount_def maxPacketSize_def)
  then have "inbox (packets (of_nat (frameCount (comQuery # [0x53, 0x31])))
      (textResult [demoColumn fieldTypeVarString] [[None], [Some [0x41]]] 2)) [] ?mc"
    by (intro inbox_demoMc) (simp add: demoAnswer_def)
  from query_delivers_result [OF idle_demoMc p(1) _ _ _ _ _ _ this, of demoDriver] p(2) show ?thesis
    by (simp add: shortName_def demoColumn_def emptyField_def goodText_def shortText_def seenColumn_def textVal_def
        statusMoreResultsExists_def numeral_2_eq_2 [symmetric]) blast
qed

section \<open>Preparing\<close>

definition definitions :: "mysqlField list \<Rightarrow> u16 \<Rightarrow> byte list list" where
  "definitions fs st = (if fs = [] then [] else map encColumn fs @ [eofPacket st])"

definition prepareOk :: "u32 \<Rightarrow> nat \<Rightarrow> nat \<Rightarrow> byte list" where
  "prepareOk ident columnCount paramCount =
     [iOK] @ to_le 4 ident @ to_le 2 (of_nat columnCount :: u16) @ to_le 2 (of_nat paramCount :: u16) @ [0, 0, 0]"

definition prepareAnswer :: "u32 \<Rightarrow> mysqlField list \<Rightarrow> mysqlField list \<Rightarrow> u16 \<Rightarrow> byte list list" where
  "prepareAnswer ident params cols st =
     prepareOk ident (length cols) (length params) # definitions params st @ definitions cols st"

lemma definitions_answers:
  assumes "answers (definitions fs st @ ps) later mc"
  shows "\<exists>mc' st'. (if fs \<noteq> [] then readUntilEOF else ret ()) mc = (Ok (), mc') \<and> answers ps later mc' \<and> moved st' mc mc'"
proof (cases "fs = []")
  case True
  then show ?thesis using assms moved_refl by (auto simp: definitions_def)
next
  case False
  have "list_all skippable (map encColumn fs)" by (simp add: list_all_iff skippable_encColumn)
  with False assms readUntilEOF_answers [of "map encColumn fs" st ps later mc] show ?thesis
    by (auto simp: definitions_def)
qed

lemma readPrepareResultPacket_answers:
  assumes "answers (prepareOk ident columnCount paramCount # ps) later mc" and "paramCount < 2 ^ 16"
  shows "\<exists>mc'. readPrepareResultPacket mc
      = (Ok (\<lparr>ms_mc = True, ms_id = ident, ms_paramCount = paramCount\<rparr>, of_nat columnCount), mc')
    \<and> answers ps later mc' \<and> moved (mc_status mc) mc mc'"
proof -
  let ?p = "prepareOk ident columnCount paramCount" and ?i = "to_le 4 ident"
    and ?c = "to_le 2 (of_nat columnCount :: u16)" and ?n = "to_le 2 (of_nat paramCount :: u16)"
  have "?p \<noteq> []" by (simp add: prepareOk_def)
  from readPacket_answers [OF assms(1) this] obtain sp mc' where
    rd: "readPacket mc = (Ok (?p, sp), mc')" and a: "answers ps later mc'" "moved (mc_status mc) mc mc'" by blast
  have f: "first (?p, sp) = Ok iOK" by (simp add: first_def idx_def prepareOk_def)
  have "sub_slice ([iOK] @ ?i @ ?c @ ?n @ [0, 0, 0], sp) (int (length [iOK])) (int (length [iOK]) + int (length ?i)) = Ok ?i"
    by (rule sub_slice_append)
  then have i: "bindR (sub_slice (?p, sp) 1 5) (le_uint 4) = Ok ident" by (simp add: prepareOk_def le_uint_to_le)
  have "sub_slice (([iOK] @ ?i) @ ?c @ ?n @ [0, 0, 0], sp) (int (length ([iOK] @ ?i)))
      (int (length ([iOK] @ ?i)) + int (length ?c)) = Ok ?c" by (rule sub_slice_append)
  then have c: "bindR (sub_slice (?p, sp) 5 7) (le_uint 2) = Ok (of_nat columnCount :: u16)"
    by (simp add: prepareOk_def le_uint_to_le)
  have "sub_slice (([iOK] @ ?i @ ?c) @ ?n @ [0, 0, 0], sp) (int (length ([iOK] @ ?i @ ?c)))
      (int (length ([iOK] @ ?i @ ?c)) + int (length ?n)) = Ok ?n" by (rule sub_slice_append)
  then have n: "bindR (sub_slice (?p, sp) 7 9) (le_uint 2) = Ok (of_nat paramCount :: u16)"
    by (simp add: prepareOk_def le_uint_to_le)
  have "unat (of_nat paramCount :: u16) = paramCount" using assms(2) by (simp add: unsigned_of_nat take_bit_nat_eq_self)
  then have "readPrepareResultPacket mc
      = (Ok (\<lparr>ms_mc = True, ms_id = ident, ms_paramCount = paramCount\<rparr>, of_nat columnCount), mc')"
    by (simp add: readPrepareResultPacket_def thenA_Ok [of readPacket, OF rd] f i c n)
  with a show ?thesis by blast
qed

text \<open>
  C15: \<open>Prepare\<close> sends the text of the statement and returns the identifier that the server gave it with
  the number of its parameters; the definitions of parameters and columns, which the driver does
  not use here, are read past, and the connection is at rest again.
\<close>

theorem prepare_learns_statement:
  assumes "idle mc" and "1 + int (length query) \<le> mc_maxAllowedPacket mc"
    and "length params < 2 ^ 16" "length cols < 2 ^ 16"
    and "inbox (packets (of_nat (frameCount (comStmtPrepare # query))) (prepareAnswer ident params cols st)) later mc"
  shows "\<exists>mc'. mysqlConn_Prepare query mc = (Ok \<lparr>ms_mc = True, ms_id = ident, ms_paramCount = length params\<rparr>, mc')
    \<and> n_out (mc_net mc') = n_out (mc_net mc) @ frames 0 (comStmtPrepare # query)
    \<and> idle mc' \<and> inbox [] later mc'"
proof -
  from command_sent [OF assms(1,2), of comStmtPrepare] obtain mc1 where
    s: "writeCommandPacketStr comStmtPrepare query mc = (Ok (), mc1)" and snt: "sent mc (comStmtPrepare # query) mc1" by blast
  note a1 = sent_answers [OF assms(1) snt assms(5) [unfolded prepareAnswer_def]]
  from a1 readPrepareResultPacket_answers [OF _ assms(3)] obtain mc2 where
    p: "readPrepareResultPacket mc1
      = (Ok (\<lparr>ms_mc = True, ms_id = ident, ms_paramCount = length params\<rparr>, of_nat (length cols)), mc2)"
    and a2: "answers (definitions params st @ definitions cols st) later mc2" and m2: "moved (mc_status mc1) mc1 mc2" by blast
  from definitions_answers [OF a2] obtain mc3 st3 where
    d3: "(if params \<noteq> [] then readUntilEOF else ret ()) mc2 = (Ok (), mc3)"
    and a3: "answers (definitions cols st) later mc3" and m3: "moved st3 mc2 mc3" by blast
  from definitions_answers [of cols st "[]" later mc3] a3 obtain mc4 st4 where
    d4: "(if cols \<noteq> [] then readUntilEOF else ret ()) mc3 = (Ok (), mc4)"
    and a4: "answers [] later mc4" and m4: "moved st4 mc3 mc4" by auto
  have "unat (of_nat (length cols) :: u16) = length cols" using assms(4) by (simp add: unsigned_of_nat take_bit_nat_eq_self)
  then have n: "((of_nat (length cols) :: u16) > 0) = (cols \<noteq> [])" by (auto simp: word_less_nat_alt)
  have "\<not> mc_closed mc" using assms(1) by (simp add: idle_def)
  then have "mysqlConn_Prepare query mc = (Ok \<lparr>ms_mc = True, ms_id = ident, ms_paramCount = length params\<rparr>, mc4)"
    using s p d3 d4 n
    by (simp add: mysqlConn_Prepare_def requireOpen_def thenA_def seqA_def tryA_def)
  moreover have "n_out (mc_net mc4) = n_out (mc_net mc) @ frames 0 (comStmtPrepare # query)"
    using a1 moved_fields [OF m2] moved_fields [OF m3] moved_fields [OF m4] by simp
  moreover have "idle mc4 \<and> inbox [] later mc4"
    using idle_after [OF a4] a1 moved_fields [OF m2] moved_fields [OF m3] moved_fields [OF m4] by simp
  ultimately show ?thesis by blast
qed

theorem prepare_learns_statement_witness:
  "\<exists>mc'. mysqlConn_Prepare [0x53] (demoMc [packets 1 (prepareAnswer 9 [emptyField, emptyField] [emptyField] 2)])
      = (Ok \<lparr>ms_mc = True, ms_id = 9, ms_paramCount = 2\<rparr>, mc')
    \<and> n_out (mc_net mc') = frames 0 [comStmtPrepare, 0x53] \<and> idle mc'"
proof -
  let ?ps = "prepareAnswer 9 [emptyField, emptyField] [emptyField] 2"
  have "frameCount (comStmtPrepare # [0x53]) = 1" by (simp add: frameCount_def maxPacketSize_def)
  then have "inbox (packets (of_nat (frameCount (comStmtPrepare # [0x53]))) ?ps) [] (demoMc [packets 1 ?ps])"
    by (intro inbox_demoMc) simp
  from prepare_learns_statement [OF idle_demoMc _ _ _ this] show ?thesis by (auto simp: numeral_2_eq_2 [symmetric])
qed

section \<open>Executing a prepared statement\<close>

text \<open>A statement with fitting arguments on a connection at later.\<close>

definition canExecute :: "mysqlStmt \<Rightarrow> marg list \<Rightarrow> wireArg list \<Rightarrow> mysqlConn \<Rightarrow> bool" where
  "canExecute stmt args ws mc \<longleftrightarrow> idle mc \<and> length args = ms_paramCount stmt \<and> wires (locOff (mc_cfg mc)) args = Ok ws
     \<and> list_all (shortArg (longDataLimit (mc_maxAllowedPacket mc) (ms_paramCount stmt))) args
     \<and> int (execLength ws) \<le> mc_maxAllowedPacket mc"

definition executeFrames :: "wireArg list \<Rightarrow> nat" where
  "executeFrames ws = Suc (execLength ws div maxPacketSize)"

lemma execute_command:
  assumes "canExecute stmt args ws mc"
  shows "\<exists>payload mc'. readExecute (length args) payload = Some (ms_id stmt, map fst ws)
    \<and> writeExecutePacket D stmt args mc = (Ok (), mc') \<and> sent mc payload mc' \<and> frameCount payload = executeFrames ws"
proof -
  have i: "canWrite mc" "\<not> mc_reset mc" "b_length (mc_buf mc) = 0" using assms by (simp_all add: canExecute_def idle_def)
  have "length args = ms_paramCount stmt" "wires (locOff (mc_cfg mc)) args = Ok ws"
    "list_all (shortArg (longDataLimit (mc_maxAllowedPacket mc) (ms_paramCount stmt))) args"
    "14 \<le> length (arr (mc_buf mc) (b_buf (mc_buf mc)))" and fit: "int (execLength ws) \<le> mc_maxAllowedPacket mc"
    using assms by (auto simp: canExecute_def idle_def wf_mc_def roomy_def defaultBufSize_def)
  from execute_sent [OF this(1-3) i this(4), of D] obtain payload res mc' where
    r: "readExecute (length args) payload = Some (ms_id stmt, map fst ws)" and l: "length payload = execLength ws"
    and w: "writeExecutePacket D stmt args mc = (res, mc')" and s: "sentOrRefused mc payload res mc'" by blast
  from s l fit have "res = Ok () \<and> sent mc payload mc'" by (simp add: sentOrRefused_def)
  with r w l show ?thesis by (auto simp: frameCount_def executeFrames_def)
qed

definition binaryResult :: "mysqlField list \<Rightarrow> sval list list \<Rightarrow> u16 \<Rightarrow> byte list list" where
  "binaryResult cols vss st = resultHead cols st @ map (binaryRow cols) vss @ [eofPacket st]"

text \<open>
  C6: Executing a prepared statement as a query with arguments below the size for long data (longer
  ones are sent ahead in packets of their own, see \<open>long_data_arrives\<close>) sends one command packet,
  split into frames where it is long, which names the statement and carries the arguments. It hands
  out exactly the answer of the server, a single result: the columns, the rows with the values of
  every column type converted from the binary protocol (integers, floating-point numbers, byte
  strings, dates as times with \<open>parseTime\<close> and as text of the column's length without it, zero
  dates, times of day with their sign, days and decimals), then the end of the rows; the connection is
  at rest again.
\<close>

theorem prepared_query_delivers_result:
  assumes "canExecute stmt args ws mc"
    and "cols \<noteq> []" "length cols \<le> 4096" "list_all shortName cols" and "list_all (list_all2 fits cols) vss"
    and "st AND statusMoreResultsExists = 0"
    and "inbox (packets (of_nat (executeFrames ws)) (binaryResult cols vss st)) later mc"
  shows "\<exists>payload rows mc1 mc2 mc3. readExecute (length args) payload = Some (ms_id stmt, map fst ws)
    \<and> stmtQuery D stmt args mc = (Ok rows, mc1)
    \<and> mr_columns rows = map (seenColumn (cfg_ColumnsWithAlias (mc_cfg mc))) cols
    \<and> fetchRows (binaryRows_Next (length cols)) (length vss) (rows, mc1)
      = (Ok (map (map2 (binVal (mc_parseTime mc) (locOff (mc_cfg mc))) cols) vss), (rows, mc2))
    \<and> binaryRows_Next (length cols) (rows, mc2) = (Fail ErrEOF, (rows\<lparr>mr_mc := False, mr_done := True\<rparr>, mc3))
    \<and> n_out (mc_net mc3) = n_out (mc_net mc) @ frames 0 payload
    \<and> mc_status mc3 = st \<and> idle mc3 \<and> inbox [] later mc3"
proof -
  let ?seen = "map (seenColumn (cfg_ColumnsWithAlias (mc_cfg mc))) cols"
  let ?rows = "newRows\<lparr>mr_mc := True, mr_columns := ?seen\<rparr>"
  have i: "idle mc" "\<not> mc_closed mc" using assms(1) by (simp_all add: canExecute_def idle_def)
  from execute_command [OF assms(1), of D] obtain payload mc1 where
    pl: "readExecute (length args) payload = Some (ms_id stmt, map fst ws)"
    and w: "writeExecutePacket D stmt args mc = (Ok (), mc1)" and snt: "sent mc payload mc1"
    and fc: "frameCount payload = executeFrames ws" by blast
  note a1 = sent_answers [OF i(1) snt assms(7) [folded fc, unfolded binaryResult_def]]
  from a1 resultHead_answers [OF _ assms(2-4), of st "map (binaryRow cols) vss @ [eofPacket st]" later mc1 "de_infile D"
      "newRows\<lparr>mr_mc := True\<rparr>"]
  obtain mc2 mc3 where
    h: "readResultSetHeaderPacket (de_infile D) mc1 = (Ok (int (length cols)), mc2)"
    and c: "setColumns (int (length cols)) (newRows\<lparr>mr_mc := True\<rparr>, mc2) = (Ok (), (?rows, mc3))"
    and a3: "answers (map (binaryRow cols) vss @ [eofPacket st]) later mc3" and m3: "moved (mc_status mc1) mc1 mc3" by auto
  have q: "stmtQuery D stmt args mc = (Ok ?rows, mc3)" using i(2) assms(2) w h c
    by (simp add: stmtQuery_def requireOpen_def markBad_def withRows_def thenA_def seqA_def tryA_def)
  have "openCursor ?seen ?rows mc3" using a1 moved_fields [OF m3] by (simp add: openCursor_def newRows_def)
  moreover have set3: "mc_parseTime mc3 = mc_parseTime mc \<and> locOff (mc_cfg mc3) = locOff (mc_cfg mc)"
    using a1 moved_fields [OF m3] by simp
  moreover have "list_all (list_all2 fits ?seen) vss" using assms(5) by (simp add: list_all_iff list_all2_fits_seen)
  moreover have "answers (map (binaryRow ?seen) vss @ [eofPacket st]) later mc3"
    using a3 by (simp add: ext [of "binaryRow ?seen" "binaryRow cols", OF binaryRow_seen])
  ultimately obtain mc4 mc5 where
    f: "fetchRows (binaryRows_Next (length cols)) (length vss) (?rows, mc3)
      = (Ok (map (map2 (binVal (mc_parseTime mc) (locOff (mc_cfg mc))) cols) vss), (?rows, mc4))"
    and e: "binaryRows_Next (length cols) (?rows, mc4) = (Fail ErrEOF, (?rows\<lparr>mr_mc := False, mr_done := True\<rparr>, mc5))"
    and a5: "answers [] later mc5" and m5: "moved st mc3 mc5"
    using binaryRows.result_arrives [where p = "mc_parseTime mc" and loc = "locOff (mc_cfg mc)" and cols = ?seen
        and rows = ?rows and mc = mc3 and vss = vss and st = st and later = later] set3 assms(2,6)
    by (auto simp: binaryRows_Next_def binVal_seen)
  have "idle mc5 \<and> inbox [] later mc5"
    using idle_after [OF a5] a1 moved_fields [OF m3] moved_fields [OF m5] by simp
  with pl q f e a1 moved_fields [OF m3] moved_fields [OF m5] show ?thesis
    by (intro exI [of _ payload] exI [of _ ?rows] exI [of _ mc3] exI [of _ mc4] exI [of _ mc5]) simp
qed

definition demoColumns :: "mysqlField list" where
  "demoColumns = map demoColumn [fieldTypeTiny, fieldTypeVarString, fieldTypeDateTime, fieldTypeTime]"

definition demoValues :: "sval list list" where
  "demoValues =
     [[SInt (- 1), SNull,
       SDate \<lparr>t_year = 2020, t_month = 2, t_day = 29, t_hour = 0, t_min = 0, t_sec = 1, t_nsec = 0, t_off = 0\<rparr>,
       SDuration \<lparr>du_neg = True, du_days = 1, du_hours = 1, du_min = 0, du_sec = 0, du_micro = 0\<rparr>],
      [SInt 7, SText [0x41], SZeroDate, SNull]]"

definition demoBinary :: "byte list" where
  "demoBinary = packets 1 (binaryResult demoColumns demoValues 2)"

lemma demo_values:
  "map (map2 (binVal False loc) demoColumns) demoValues =
    [[DInt64 (- 1), DNull, DBytes (bytes_of ''2020-02-29 00:00:01''), DBytes (bytes_of ''-25:00:00'')],
     [DInt64 7, DBytes [0x41], DBytes (bytes_of ''0000-00-00 00:00:00''), DNull]]"
proof -
  have c: "dateLength (demoColumn fieldTypeDateTime) = 19" "colDecimals (demoColumn t) = 0" for t
    by (simp_all add: dateLength_def colDecimals_def demoColumn_def emptyField_def fieldType_defs)
  have t: "take 19 (fullText \<lparr>t_year = 2020, t_month = 2, t_day = 29, t_hour = 0, t_min = 0, t_sec = 1,
      t_nsec = 0, t_off = 0\<rparr>) = bytes_of ''2020-02-29 00:00:01''"
    "durationText 0 \<lparr>du_neg = True, du_days = 1, du_hours = 1, du_min = 0, du_sec = 0, du_micro = 0\<rparr>
      = bytes_of ''-25:00:00''" "take 19 zeroDateTime = bytes_of ''0000-00-00 00:00:00''"
    by code_simp+
  show ?thesis by (simp only: demoColumns_def demoValues_def list.map zip_Cons_Cons zip_Nil split_conv
      binVal_def sval.case c t if_False) (simp add: intVal_def)
qed

lemma demo_fits: "list_all (list_all2 fits demoColumns) demoValues"
proof -
  have c: "mf_fieldType (demoColumn t) = t" "okDecimals (demoColumn t)" "\<not> unsignedCol (demoColumn t)" for t
    by (simp_all add: okDecimals_def unsignedCol_def demoColumn_def emptyField_def)
  show ?thesis by (simp add: demoColumns_def demoValues_def fits_def c)
    (simp add: intWidth_def rawTypes_def dateTypes_def fieldType_defs wf_time_def daysIn_def isLeap_def
      wf_duration_def zeroDuration_def)
qed

theorem prepared_query_delivers_result_witness:
  "\<exists>payload rows mc1 mc2 mc3. readExecute 1 payload = Some (5, [AInt64 3])
    \<and> stmtQuery demoDriver (demoStmt 1) [AInt64 3] (demoMc [take 9 demoBinary, drop 9 demoBinary]) = (Ok rows, mc1)
    \<and> fetchRows (binaryRows_Next 4) 2 (rows, mc1) = (Ok
       [[DInt64 (- 1), DNull, DBytes (bytes_of ''2020-02-29 00:00:01''), DBytes (bytes_of ''-25:00:00'')],
        [DInt64 7, DBytes [0x41], DBytes (bytes_of ''0000-00-00 00:00:00''), DNull]], (rows, mc2))
    \<and> binaryRows_Next 4 (rows, mc2) = (Fail ErrEOF, (rows\<lparr>mr_mc := False, mr_done := True\<rparr>, mc3))
    \<and> n_out (mc_net mc3) = frames 0 payload \<and> idle mc3"
proof -
  let ?mc = "demoMc [take 9 demoBinary, drop 9 demoBinary]" and ?ws = "[(AInt64 3, fieldTypeLongLong, 0, uint64ToBytes 3)]"
  have l: "execLength ?ws < 1000" by (simp add: execLength_def uint64ToBytes_def)
  have ce: "canExecute (demoStmt 1) [AInt64 3] ?ws ?mc" using l idle_demoMc
    by (simp add: canExecute_def demoStmt_def shortArg_def)
  have "executeFrames ?ws = 1" using l by (simp add: executeFrames_def maxPacketSize_def)
  then have u: "inbox (packets (of_nat (executeFrames ?ws)) (binaryResult demoColumns demoValues 2)) [] ?mc"
    by (intro inbox_demoMc) (simp add: demoBinary_def)
  have cols: "demoColumns \<noteq> []" "length demoColumns = 4" "length demoValues = 2" "list_all shortName demoColumns"
    by (simp_all add: demoColumns_def demoValues_def shortName_def demoColumn_def emptyField_def)
  have mc: "\<not> mc_parseTime ?mc" "n_out (mc_net ?mc) = []" by (simp_all add: demoMc_def newBuffer_def demoNet_def)
  from prepared_query_delivers_result [OF ce cols(1) _ cols(4) demo_fits _ u, of demoDriver] show ?thesis
    using cols(2,3) mc by (simp add: statusMoreResultsExists_def demo_values) (simp add: demoStmt_def, blast)
qed

end
