(* ===== verification/CommandProps.thy ===== *)
theory CommandProps
  imports QueryProps
begin

text \<open>
  Commands without rows: the counts and the errors of the server are what the caller gets, the
  connection stays usable, and a transaction is ended by exactly one command.
\<close>

section \<open>One command, one packet\<close>

lemma exchange:
  assumes "idle mc" and "1 + int (length arg) \<le> mc_maxAllowedPacket mc" and "p \<noteq> []"
    and "inbox (packets (of_nat (frameCount (command # arg))) [p]) later mc"
  shows "\<exists>mc1 sp mc2. writeCommandPacketStr command arg mc = (Ok (), mc1) \<and> readPacket mc1 = (Ok (p, sp), mc2)
    \<and> answers [] later mc2 \<and> canWrite mc2 \<and> \<not> mc_closed mc2 \<and> \<not> mc_reset mc2 \<and> sameSettings mc mc2
    \<and> n_out (mc_net mc2) = n_out (mc_net mc) @ frames 0 (command # arg)"
proof -
  from command_sent [OF assms(1,2), of command] obtain mc1 where
    s: "writeCommandPacketStr command arg mc = (Ok (), mc1)" and snt: "sent mc (command # arg) mc1" by blast
  note a = sent_answers [OF assms(1) snt assms(4)]
  from readPacket_answers [OF conjunct1 [OF a] assms(3)] obtain sp mc2 where
    rd: "readPacket mc1 = (Ok (p, sp), mc2)" and a2: "answers [] later mc2" and m: "moved (mc_status mc1) mc1 mc2"
    by blast
  with s a moved_fields [OF m] show ?thesis by (auto simp: sameSettings_def)
qed

section \<open>Success\<close>

definition okPacket :: "u64 \<Rightarrow> u64 \<Rightarrow> u16 \<Rightarrow> byte list" where
  "okPacket rows ident st = [iOK] @ appendLengthEncodedInteger [] rows @ appendLengthEncodedInteger [] ident
     @ to_le 2 st @ [0, 0]"

lemma handleOkPacket_ok:
  "handleOkPacket (okPacket rows ident st, spare) mc
    = (Ok (), mc\<lparr>mc_affectedRows := rows, mc_insertId := ident, mc_status := st\<rparr>)"
proof -
  let ?p = "okPacket rows ident st" and ?r = "appendLengthEncodedInteger [] rows"
    and ?i = "appendLengthEncodedInteger [] ident"
  have r: "bindR (slice_from ?p 1) readLengthEncodedInteger = Ok (rows, False, length ?r)"
    by (simp add: okPacket_def slice_from_def read_append_lenenc)
  have i: "bindR (slice_from ?p (1 + length ?r)) readLengthEncodedInteger = Ok (ident, False, length ?i)"
    by (simp add: okPacket_def slice_from_def read_append_lenenc)
  have "sub_slice (([iOK] @ ?r @ ?i) @ to_le 2 st @ [0, 0], spare) (int (length ([iOK] @ ?r @ ?i)))
      (int (length ([iOK] @ ?r @ ?i)) + int (length (to_le 2 st))) = Ok (to_le 2 st)"
    by (rule sub_slice_append)
  then have "sub_slice (?p, spare) (int (1 + length ?r + length ?i)) (int (1 + length ?r + length ?i + 2)) = Ok (to_le 2 st)"
    by (simp add: okPacket_def add.commute add.left_commute)
  moreover have "readStatus (to_le 2 st) = Ok st" using readStatus_eof [of st] by (simp add: eofPacket_def)
  ultimately have st: "bindR (sub_slice (?p, spare) (int (1 + length ?r + length ?i)) (int (1 + length ?r + length ?i + 2)))
      readStatus = Ok st" by simp
  show ?thesis using r i st
    by (simp add: handleOkPacket_def seqA_def thenA_def liftA_def del: bindR.simps of_nat_add of_nat_Suc)
qed

lemma header_ok:
  assumes "readPacket mc = (Ok (okPacket rows ident st, spare), mc')"
  shows "readResultSetHeaderPacket E mc = (Ok 0, mc'\<lparr>mc_affectedRows := rows, mc_insertId := ident, mc_status := st\<rparr>)"
proof -
  have "first (okPacket rows ident st, spare) = Ok iOK" by (simp add: first_def idx_def okPacket_def)
  then show ?thesis
    by (simp add: readResultSetHeaderPacket_def thenA_Ok [of readPacket, OF assms] seqA_def
        thenA_Ok [of "handleOkPacket _", OF handleOkPacket_ok])
qed

lemma reset_same:
  "inbox bs later (resetResult mc) = inbox bs later mc" "sameSettings (resetResult mc) mc' = sameSettings mc mc'"
  by (simp_all add: inbox_def resetResult_def sameSettings_def)

lemma exec_ok:
  assumes "idle mc" and "1 + int (length query) \<le> mc_maxAllowedPacket mc" and "st AND statusMoreResultsExists = 0"
    and "inbox (packets (of_nat (frameCount (comQuery # query))) [okPacket rows ident st]) later mc"
  shows "\<exists>mc'. exec D query mc = (Ok (), mc') \<and> resultOf mc' = \<lparr>res_affectedRows = sint rows, res_insertID = sint ident\<rparr>
    \<and> n_out (mc_net mc') = n_out (mc_net mc) @ frames 0 (comQuery # query) \<and> mc_status mc' = st
    \<and> idle mc' \<and> inbox [] later mc' \<and> sameSettings mc mc'"
proof -
  have "okPacket rows ident st \<noteq> []" by (simp add: okPacket_def)
  from exchange [OF assms(1,2) this assms(4)] obtain mc1 sp mc2 where
    s: "writeCommandPacketStr comQuery query mc = (Ok (), mc1)"
    and rd: "readPacket mc1 = (Ok (okPacket rows ident st, sp), mc2)"
    and a: "answers [] later mc2" "canWrite mc2" "\<not> mc_closed mc2" "\<not> mc_reset mc2"
    and o: "n_out (mc_net mc2) = n_out (mc_net mc) @ frames 0 (comQuery # query)" and ss: "sameSettings mc mc2"
    by blast
  let ?mc = "mc2\<lparr>mc_affectedRows := rows, mc_insertId := ident, mc_status := st\<rparr>"
  have "discardResults (de_infile D) ?mc = (Ok (), ?mc)"
    using assms(3) by (simp add: discardResults_def withFuel_def discardLoop.simps moreResults_def)
  then have "exec D query mc = (Ok (), ?mc)" using s header_ok [OF rd]
    by (simp add: exec_def markBad_def skipResult_def seqA_def thenA_def tryA_def)
  moreover have "answers [] later ?mc" "canWrite ?mc" using a(1,2) by (simp_all add: answers_update canWrite_def)
  note idle_after [OF this]
  ultimately show ?thesis using a(3,4) o ss by (simp add: resultOf_def sameSettings_def)
qed

lemma Exec_counts:
  assumes "idle mc" and "1 + int (length query) \<le> mc_maxAllowedPacket mc" and "st AND statusMoreResultsExists = 0"
    and "inbox (packets (of_nat (frameCount (comQuery # query))) [okPacket rows ident st]) later mc"
  shows "\<exists>res mc'. mysqlConn_Exec D query [] mc = (Ok res, mc')
    \<and> mysqlResult_RowsAffected res = sint rows \<and> mysqlResult_LastInsertId res = sint ident
    \<and> n_out (mc_net mc') = n_out (mc_net mc) @ frames 0 (comQuery # query) \<and> mc_status mc' = st
    \<and> idle mc' \<and> inbox [] later mc' \<and> sameSettings mc mc'"
proof -
  let ?mc = "resetResult mc"
  have r: "idle ?mc" "mc_maxAllowedPacket ?mc = mc_maxAllowedPacket mc" "mc_buf ?mc = mc_buf mc"
    using assms(1) by (simp_all add: resetResult_def idle_def canRead_def canWrite_def wf_mc_def sameSettings_def)
  from exec_ok [OF r(1), unfolded r reset_same, OF assms(2-4), of D] assms(1) show ?thesis
    by (auto simp: mysqlConn_Exec_def requireOpen_def idle_def queryText_def markBad_def seqA_def thenA_def tryA_def
        mysqlResult_RowsAffected_def mysqlResult_LastInsertId_def)
qed

text \<open>
  C14: \<open>Exec\<close> without arguments on a connection at later sends its text as one command and returns the
  number of changed rows and the insert id that the server reports for it, and nothing of an earlier
  command; the connection is at rest again.
\<close>

theorem exec_returns_server_counts:
  assumes "idle mc" and "1 + int (length query) \<le> mc_maxAllowedPacket mc" and "st AND statusMoreResultsExists = 0"
    and "inbox (packets (of_nat (frameCount (comQuery # query))) [okPacket rows ident st]) later mc"
  shows "\<exists>res mc'. mysqlConn_Exec D query [] mc = (Ok res, mc')
    \<and> mysqlResult_RowsAffected res = sint rows \<and> mysqlResult_LastInsertId res = sint ident
    \<and> n_out (mc_net mc') = n_out (mc_net mc) @ frames 0 (comQuery # query) \<and> mc_status mc' = st
    \<and> idle mc' \<and> inbox [] later mc'"
  using Exec_counts [OF assms, of D] by blast

theorem exec_returns_server_counts_witness:
  "\<exists>res mc'. mysqlConn_Exec demoDriver [0x55] [] (demoMc [packets 1 [okPacket 3 300 2]]) = (Ok res, mc')
    \<and> mysqlResult_RowsAffected res = 3 \<and> mysqlResult_LastInsertId res = 300 \<and> idle mc'
    \<and> n_out (mc_net mc') = frames 0 [comQuery, 0x55]"
proof -
  let ?mc = "demoMc [packets 1 [okPacket 3 300 2]]"
  have "frameCount (comQuery # [0x55]) = 1" by (simp add: frameCount_def maxPacketSize_def)
  then have "inbox (packets (of_nat (frameCount (comQuery # [0x55]))) [okPacket 3 300 2]) [] ?mc"
    by (intro inbox_demoMc) simp
  from exec_returns_server_counts [OF idle_demoMc _ _ this, of demoDriver] show ?thesis
    by (auto simp: statusMoreResultsExists_def)
qed

section \<open>Errors\<close>

definition errPacket :: "u16 \<Rightarrow> byte list \<Rightarrow> byte list \<Rightarrow> byte list" where
  "errPacket errno state msg = [iERR] @ to_le 2 errno @ [0x23] @ state @ msg"

text \<open>Errors that make the driver give the connection up when it is told to reject read-only servers.\<close>

definition rejects :: "Config \<Rightarrow> u16 \<Rightarrow> bool" where
  "rejects cfg errno \<longleftrightarrow> errno \<in> {1792, 1290} \<and> cfg_RejectReadOnly cfg"

lemma handleErrorPacket_err:
  assumes "length state = 5" and "\<not> rejects (mc_cfg mc) errno"
  shows "handleErrorPacket (errPacket errno state msg, spare) mc = (Ok (MySQLError errno msg), mc)"
proof -
  let ?p = "errPacket errno state msg"
  have "sub_slice ([iERR] @ to_le 2 errno @ [0x23] @ state @ msg, spare) (int (length [iERR]))
      (int (length [iERR]) + int (length (to_le 2 errno))) = Ok (to_le 2 errno)"
    by (rule sub_slice_append)
  then have e: "bindR (sub_slice (?p, spare) 1 3) (le_uint 2) = Ok errno"
    by (simp add: errPacket_def le_uint_to_le)
  have p: "first (?p, spare) = Ok iERR" "idx ?p 3 = Ok 0x23" "slice_from ?p 9 = Ok msg"
    using assms(1) by (simp_all add: errPacket_def first_def idx_def slice_from_def nth_append)
  show ?thesis using assms(2) p e
    by (auto simp: handleErrorPacket_def rejects_def thenA_def liftA_def)
qed

lemma header_err:
  assumes "readPacket mc = (Ok (errPacket errno state msg, spare), mc')"
    and "length state = 5" "\<not> rejects (mc_cfg mc') errno"
  shows "readResultSetHeaderPacket E mc = (Fail (MySQLError errno msg), mc')"
proof -
  have "first (errPacket errno state msg, spare) = Ok iERR" "iERR \<noteq> iOK"
    by (simp_all add: first_def idx_def errPacket_def const_defs)
  then show ?thesis
    by (simp add: readResultSetHeaderPacket_def thenA_Ok [of readPacket, OF assms(1)] failWith_def
        thenA_Ok [of "handleErrorPacket _", OF handleErrorPacket_err [OF assms(2,3)]])
qed

lemma command_err:
  assumes "idle mc" and "1 + int (length query) \<le> mc_maxAllowedPacket mc"
    and "length state = 5" and "\<not> rejects (mc_cfg mc) errno"
    and "inbox (packets (of_nat (frameCount (comQuery # query))) [errPacket errno state msg]) later mc"
  shows "\<exists>mc1 mc'. writeCommandPacketStr comQuery query mc = (Ok (), mc1)
    \<and> readResultSetHeaderPacket E mc1 = (Fail (MySQLError errno msg), mc')
    \<and> n_out (mc_net mc') = n_out (mc_net mc) @ frames 0 (comQuery # query)
    \<and> idle mc' \<and> inbox [] later mc' \<and> sameSettings mc mc'"
proof -
  have "errPacket errno state msg \<noteq> []" by (simp add: errPacket_def)
  from exchange [OF assms(1,2) this assms(5)] obtain mc1 sp mc2 where
    s: "writeCommandPacketStr comQuery query mc = (Ok (), mc1)"
    and rd: "readPacket mc1 = (Ok (errPacket errno state msg, sp), mc2)"
    and a: "answers [] later mc2" "canWrite mc2" "\<not> mc_closed mc2" "\<not> mc_reset mc2" and c: "sameSettings mc mc2"
    and o: "n_out (mc_net mc2) = n_out (mc_net mc) @ frames 0 (comQuery # query)"
    by blast
  from c have "mc_cfg mc2 = mc_cfg mc" by (simp add: sameSettings_def)
  with header_err [OF rd assms(3)] assms(4) have "readResultSetHeaderPacket E mc1 = (Fail (MySQLError errno msg), mc2)"
    by simp
  with s o c idle_after [OF a] show ?thesis by blast
qed

lemma command_fails:
  assumes "idle mc" and "1 + int (length query) \<le> mc_maxAllowedPacket mc"
    and "length state = 5" and "\<not> rejects (mc_cfg mc) errno"
    and "inbox (packets (of_nat (frameCount (comQuery # query))) [errPacket errno state msg]) later mc"
  shows "\<exists>mc1 mc2. textQuery D query [] mc = (Fail (MySQLError errno msg), mc1) \<and> idle mc1 \<and> inbox [] later mc1 \<and> sameSettings mc mc1
    \<and> n_out (mc_net mc1) = n_out (mc_net mc) @ frames 0 (comQuery # query)
    \<and> mysqlConn_Exec D query [] mc = (Fail (MySQLError errno msg), mc2) \<and> idle mc2 \<and> inbox [] later mc2 \<and> sameSettings mc mc2
    \<and> n_out (mc_net mc2) = n_out (mc_net mc) @ frames 0 (comQuery # query)"
proof -
  let ?mc = "resetResult mc"
  have r: "idle ?mc" "mc_maxAllowedPacket ?mc = mc_maxAllowedPacket mc" "mc_buf ?mc = mc_buf mc" "mc_cfg ?mc = mc_cfg mc"
    using assms(1) by (simp_all add: resetResult_def idle_def canRead_def canWrite_def wf_mc_def)
  have open_mc: "\<not> mc_closed mc" using assms(1) by (simp add: idle_def)
  from command_err [OF assms, of "de_infile D"] open_mc
  have "\<exists>mc1. textQuery D query [] mc = (Fail (MySQLError errno msg), mc1) \<and> idle mc1 \<and> inbox [] later mc1 \<and> sameSettings mc mc1
    \<and> n_out (mc_net mc1) = n_out (mc_net mc) @ frames 0 (comQuery # query)"
    by (auto simp: textQuery_def requireOpen_def queryText_def markBad_def markBadConn_def seqA_def thenA_def tryA_def)
  moreover from command_err [OF r(1), unfolded r reset_same, OF assms(2-5), of "de_infile D"] open_mc
  have "\<exists>mc2. mysqlConn_Exec D query [] mc = (Fail (MySQLError errno msg), mc2) \<and> idle mc2 \<and> inbox [] later mc2 \<and> sameSettings mc mc2
    \<and> n_out (mc_net mc2) = n_out (mc_net mc) @ frames 0 (comQuery # query)"
    by (auto simp: mysqlConn_Exec_def exec_def requireOpen_def queryText_def markBad_def markBadConn_def seqA_def
        thenA_def tryA_def)
  ultimately show ?thesis by blast
qed

text \<open>
  C13: When the server answers a command within the packet limit with an error, \<open>Query\<close> and \<open>Exec\<close>
  return exactly its number and its message, and the connection is at rest again, so that the next
  command can follow; nothing but the command has been sent. The error carries an SQL state of five
  characters, as the protocol has it, and is not one that \<open>rejectReadOnly\<close> (off by default) turns into
  a bad connection.
\<close>

theorem server_error_is_returned:
  assumes "idle mc" and "1 + int (length query) \<le> mc_maxAllowedPacket mc"
    and "length state = 5" and "\<not> rejects (mc_cfg mc) errno"
    and "inbox (packets (of_nat (frameCount (comQuery # query))) [errPacket errno state msg]) later mc"
  shows "\<exists>mc1 mc2. textQuery D query [] mc = (Fail (MySQLError errno msg), mc1) \<and> idle mc1 \<and> inbox [] later mc1
    \<and> n_out (mc_net mc1) = n_out (mc_net mc) @ frames 0 (comQuery # query)
    \<and> mysqlConn_Exec D query [] mc = (Fail (MySQLError errno msg), mc2) \<and> idle mc2 \<and> inbox [] later mc2
    \<and> n_out (mc_net mc2) = n_out (mc_net mc) @ frames 0 (comQuery # query)"
  using command_fails [OF assms, of D] by blast

theorem server_error_is_returned_witness:
  "\<exists>mc1. textQuery demoDriver [0x55] [] (demoMc [packets 1 [errPacket 1064 [1, 2, 3, 4, 5] [0x6e, 0x6f]]])
    = (Fail (MySQLError 1064 [0x6e, 0x6f]), mc1) \<and> idle mc1"
proof -
  let ?p = "errPacket 1064 [1, 2, 3, 4, 5] [0x6e, 0x6f]"
  let ?mc = "demoMc [packets 1 [?p]]"
  have "frameCount (comQuery # [0x55]) = 1" by (simp add: frameCount_def maxPacketSize_def)
  then have "inbox (packets (of_nat (frameCount (comQuery # [0x55]))) [?p]) [] ?mc" by (intro inbox_demoMc) simp
  from server_error_is_returned [OF idle_demoMc _ _ _ this, of demoDriver] show ?thesis
    by (auto simp: rejects_def)
qed

section \<open>Ending a transaction\<close>

text \<open>
  C26: The driver's \<open>Commit\<close> sends \<open>COMMIT\<close> and succeeds when the server confirms it; from then on the
  transaction has no connection, and a second \<open>Commit\<close> or a \<open>Rollback\<close> fails without sending
  anything.
\<close>

theorem commit_is_sent_once:
  assumes "idle mc" and "7 \<le> mc_maxAllowedPacket mc" and "st AND statusMoreResultsExists = 0"
    and "inbox (packets 1 [okPacket rows ident st]) later mc"
  shows "\<exists>mc'. mysqlTx_Commit D (True, mc) = (Ok (), (False, mc')) \<and> idle mc' \<and> inbox [] later mc'
    \<and> n_out (mc_net mc') = n_out (mc_net mc) @ frames 0 (comQuery # bytes_of ''COMMIT'')
    \<and> mysqlTx_Commit D (False, mc') = (Fail ErrInvalidConn, (False, mc'))
    \<and> mysqlTx_Rollback D (False, mc') = (Fail ErrInvalidConn, (False, mc'))"
proof -
  let ?q = "bytes_of ''COMMIT''"
  have len: "length ?q = 6" by (simp add: bytes_of_def)
  then have "frameCount (comQuery # ?q) = 1" by (simp add: frameCount_def maxPacketSize_def)
  then have u: "inbox (packets (of_nat (frameCount (comQuery # ?q))) [okPacket rows ident st]) later mc"
    using assms(4) by simp
  from exec_ok [OF assms(1) _ assms(3) u, of D] len assms(2) obtain mc' where
    "exec D ?q mc = (Ok (), mc')" "idle mc'" "inbox [] later mc'"
    "n_out (mc_net mc') = n_out (mc_net mc) @ frames 0 (comQuery # ?q)" by auto
  moreover have "\<not> mc_closed mc" using assms(1) by (simp add: idle_def)
  ultimately show ?thesis by (simp add: mysqlTx_Commit_def mysqlTx_Rollback_def endTx_def)
qed

theorem commit_is_sent_once_witness:
  "\<exists>mc'. mysqlTx_Commit demoDriver (True, demoMc [packets 1 [okPacket 0 0 2]]) = (Ok (), (False, mc')) \<and> idle mc'
    \<and> mysqlTx_Rollback demoDriver (False, mc') = (Fail ErrInvalidConn, (False, mc'))"
proof -
  let ?mc = "demoMc [packets 1 [okPacket 0 0 2]]"
  have u: "inbox (packets 1 [okPacket 0 0 2]) [] ?mc" by (intro inbox_demoMc) simp
  from commit_is_sent_once [OF idle_demoMc _ _ u, of demoDriver] show ?thesis
    by (auto simp: statusMoreResultsExists_def)
qed

end
