(* ===== verification/ClientSession.thy ===== *)
theory ClientSession
  imports CommandProps
begin

text \<open>
  A client and a server in conversation: an abstract specification says what each command gives,
  the driver works through any number of commands over one connection, and what the client sees is
  what the specification says, command by command, with nothing else sent.
\<close>

section \<open>The client\<close>

datatype command = Query "byte list" | Exec "byte list"

datatype outcome = RowsGot "mysqlField list" "dval list list" | CountsGot mysqlResult | ErrorGot gerr

fun textOf :: "command \<Rightarrow> byte list" where
  "textOf (Query q) = q" | "textOf (Exec q) = q"

text \<open>All rows, until the end; each row takes at least one of the bytes that are left.\<close>

fun collect :: "dval list rowsAct \<Rightarrow> nat \<Rightarrow> dval list list rowsAct" where
  "collect next 0 = crash Deadlock"
| "collect next (Suc k) = thenA (tryA next) (\<lambda>r. case r of
      Inl e \<Rightarrow> if e = ErrEOF then ret [] else fail e
    | Inr row \<Rightarrow> thenA (collect next k) (\<lambda>rows. ret (row # rows)))"

definition readAll :: "mysqlRows \<Rightarrow> (mysqlConn, outcome) act" where
  "readAll rows = (\<lambda>mc. case collect (textRows_Next (length (mr_columns rows))) (fuelOf mc) (rows, mc) of
     (r, (_, mc)) \<Rightarrow> (bindR r (\<lambda>vss. Ok (RowsGot (mr_columns rows) vss)), mc))"

definition client :: "driverEnv \<Rightarrow> command \<Rightarrow> (mysqlConn, outcome) act" where
  "client D c = thenA (tryA (case c of
       Query q \<Rightarrow> thenA (textQuery D q []) readAll
     | Exec q \<Rightarrow> thenA (mysqlConn_Exec D q []) (\<lambda>res. ret (CountsGot res))))
     (\<lambda>r. case r of Inl e \<Rightarrow> ret (ErrorGot e) | Inr x \<Rightarrow> ret x)"

fun clientRun :: "driverEnv \<Rightarrow> command list \<Rightarrow> (mysqlConn, outcome list) act" where
  "clientRun D [] = ret []"
| "clientRun D (c # cs) = thenA (client D c) (\<lambda>x. thenA (clientRun D cs) (\<lambda>xs. ret (x # xs)))"

section \<open>The specification\<close>

datatype reply =
    Result "mysqlField list" "byte list option list list" u16
  | Done u64 u64 u16
  | Refused u16 "byte list" "byte list"

fun replyPackets :: "reply \<Rightarrow> byte list list" where
  "replyPackets (Result cols vss st) = textResult cols vss st"
| "replyPackets (Done rows ident st) = [okPacket rows ident st]"
| "replyPackets (Refused errno state msg) = [errPacket errno state msg]"

fun expected :: "Config \<Rightarrow> reply \<Rightarrow> outcome" where
  "expected cfg (Result cols vss st) =
     RowsGot (map (seenColumn (cfg_ColumnsWithAlias cfg)) cols) (map (map textVal) vss)"
| "expected cfg (Done rows ident st) = CountsGot \<lparr>res_affectedRows = sint rows, res_insertID = sint ident\<rparr>"
| "expected cfg (Refused errno state msg) = ErrorGot (MySQLError errno msg)"

text \<open>Replies that fit their commands, within the limits.\<close>

fun proper :: "Config \<Rightarrow> int \<Rightarrow> command \<times> reply \<Rightarrow> bool" where
  "proper cfg limit (c, Refused errno state msg) \<longleftrightarrow>
     1 + int (length (textOf c)) \<le> limit \<and> length state = 5 \<and> \<not> rejects cfg errno"
| "proper cfg limit (Query q, Result cols vss st) \<longleftrightarrow>
     1 + int (length q) \<le> limit \<and> cols \<noteq> [] \<and> length cols \<le> 4096 \<and> list_all shortName cols
     \<and> list_all (goodText cols) vss \<and> st AND statusMoreResultsExists = 0"
| "proper cfg limit (Exec q, Done rows ident st) \<longleftrightarrow>
     1 + int (length q) \<le> limit \<and> st AND statusMoreResultsExists = 0"
| "proper cfg limit _ \<longleftrightarrow> False"

definition payloadOf :: "command \<Rightarrow> byte list" where
  "payloadOf c = comQuery # textOf c"

text \<open>The chunks in which the reply to a command arrives.\<close>

definition delivers :: "command \<times> reply \<Rightarrow> chunks \<Rightarrow> bool" where
  "delivers x cs \<longleftrightarrow> concat (map fst cs) = packets (of_nat (frameCount (payloadOf (fst x)))) (replyPackets (snd x))"

section \<open>One command\<close>

lemma collect_fetch:
  "fetchRows next k s = (Ok rs, s1) \<Longrightarrow> next s1 = (Fail ErrEOF, s2) \<Longrightarrow> k < fuel \<Longrightarrow> collect next fuel s = (Ok rs, s2)"
proof (induction k arbitrary: s rs fuel)
  case 0
  then obtain m where "fuel = Suc m" by (cases fuel) auto
  then show ?case using 0 by (simp add: thenA_def tryA_def)
next
  case (Suc k)
  then obtain m where m: "fuel = Suc m" "k < m" by (cases fuel) auto
  from Suc.prems(1) obtain r s' rs' where "next s = (Ok r, s')" "fetchRows next k s' = (Ok rs', s1)" "rs = r # rs'"
    by (auto simp: thenA_Ok_iff)
  with Suc.IH [OF _ Suc.prems(2) m(2)] show ?case by (simp add: m(1) thenA_def tryA_def)
qed

lemma client_step:
  assumes "idle mc" and "\<not> mc_parseTime mc" and "proper (mc_cfg mc) (mc_maxAllowedPacket mc) (c, r)"
    and "inbox (packets (of_nat (frameCount (payloadOf c))) (replyPackets r)) later mc"
  shows "\<exists>mc'. client D c mc = (Ok (expected (mc_cfg mc) r), mc') \<and> idle mc' \<and> inbox [] later mc' \<and> sameSettings mc mc'
    \<and> n_out (mc_net mc') = n_out (mc_net mc) @ frames 0 (payloadOf c)"
proof (cases r)
  case (Refused errno state msg)
  then have p: "1 + int (length (textOf c)) \<le> mc_maxAllowedPacket mc" "length state = 5" "\<not> rejects (mc_cfg mc) errno"
    using assms(3) by simp_all
  have i: "inbox (packets (of_nat (frameCount (comQuery # textOf c))) [errPacket errno state msg]) later mc"
    using assms(4) Refused by (simp add: payloadOf_def)
  from command_fails [OF assms(1) p i, of D] show ?thesis
    by (cases c) (auto simp: client_def Refused payloadOf_def thenA_def tryA_def)
next
  case (Result cols vss st)
  with assms(3) obtain q where c: "c = Query q" by (cases c) auto
  have p: "cols \<noteq> []" "length cols \<le> 4096" "list_all shortName cols" "list_all (goodText cols) vss"
    "st AND statusMoreResultsExists = 0" "1 + int (length q) \<le> mc_maxAllowedPacket mc"
    using assms(3) c Result by simp_all
  have i: "inbox (packets (of_nat (frameCount (comQuery # q))) (textResult cols vss st)) later mc"
    using assms(4) c Result by (simp add: payloadOf_def)
  from textQuery_delivers [OF assms(1,2) p i, of D] obtain rows mc1 mc2 mc3 where
    t: "textQuery D q [] mc = (Ok rows, mc1)" "mr_columns rows = map (seenColumn (cfg_ColumnsWithAlias (mc_cfg mc))) cols"
    and f: "fetchRows (textRows_Next (length cols)) (length vss) (rows, mc1) = (Ok (map (map textVal) vss), (rows, mc2))"
      "textRows_Next (length cols) (rows, mc2) = (Fail ErrEOF, (rows\<lparr>mr_mc := False, mr_done := True\<rparr>, mc3))"
      "length vss < fuelOf mc1"
    and e: "idle mc3" "inbox [] later mc3" "sameSettings mc mc3"
      "n_out (mc_net mc3) = n_out (mc_net mc) @ frames 0 (comQuery # q)" by blast
  from collect_fetch [OF f] t e show ?thesis
    by (auto simp: client_def c Result payloadOf_def readAll_def thenA_def tryA_def)
next
  case (Done rows ident st)
  with assms(3) obtain q where c: "c = Exec q" by (cases c) auto
  have p: "1 + int (length q) \<le> mc_maxAllowedPacket mc" "st AND statusMoreResultsExists = 0"
    using assms(3) c Done by simp_all
  have i: "inbox (packets (of_nat (frameCount (comQuery # q))) [okPacket rows ident st]) later mc"
    using assms(4) c Done by (simp add: payloadOf_def)
  from Exec_counts [OF assms(1) p i, of D] obtain res mc' where
    x: "mysqlConn_Exec D q [] mc = (Ok res, mc')" "mysqlResult_RowsAffected res = sint rows"
      "mysqlResult_LastInsertId res = sint ident"
    and e: "idle mc'" "inbox [] later mc'" "sameSettings mc mc'"
      "n_out (mc_net mc') = n_out (mc_net mc) @ frames 0 (comQuery # q)" by blast
  have "res = \<lparr>res_affectedRows = sint rows, res_insertID = sint ident\<rparr>"
    using x(2,3) by (cases res) (simp add: mysqlResult_RowsAffected_def mysqlResult_LastInsertId_def)
  with x(1) e show ?thesis by (auto simp: client_def c Done payloadOf_def thenA_def tryA_def)
qed

section \<open>The conversation\<close>

text \<open>
  C2: Over one connection without \<open>parseTime\<close>, any sequence of queries with a single result, commands
  without rows and commands that the server refuses gives the client, one by one, exactly the
  outcomes that the replies stand for: a refused command or a result that was read to its end leaves
  nothing behind that the next one would see. Exactly the commands are sent, each as packets of its
  own with fresh sequence numbers. Commands keep within the packet limit, replies announce no further
  results, and with \<open>rejectReadOnly\<close> the errors 1792 and 1290 of a read-only server are left out.
\<close>

theorem conversation_follows_specification:
  assumes "idle mc" and "\<not> mc_parseTime mc"
    and "list_all (proper (mc_cfg mc) (mc_maxAllowedPacket mc)) xs" and "list_all2 delivers xs chunkss"
    and "inbox [] (concat chunkss @ later) mc"
  shows "\<exists>mc'. clientRun D (map fst xs) mc = (Ok (map (expected (mc_cfg mc) \<circ> snd) xs), mc')
    \<and> n_out (mc_net mc') = n_out (mc_net mc) @ concat (map (frames 0 \<circ> payloadOf \<circ> fst) xs)
    \<and> idle mc' \<and> inbox [] later mc'"
  using assms(4,1,2,3,5)
proof (induction xs chunkss arbitrary: mc rule: list_all2_induct)
  case (Cons x xs cs css)
  obtain c r where x: "x = (c, r)" by (cases x)
  have pr: "proper (mc_cfg mc) (mc_maxAllowedPacket mc) (c, r)" using Cons.prems(3) x by simp
  have "inbox [] (cs @ (concat css @ later)) mc" using Cons.prems(4) by simp
  from inbox_next [OF this] Cons.hyps(1) x
  have i: "inbox (packets (of_nat (frameCount (payloadOf c))) (replyPackets r)) (concat css @ later) mc"
    by (simp add: delivers_def)
  from client_step [OF Cons.prems(1,2) pr i, of D] obtain mc1 where
    cl: "client D c mc = (Ok (expected (mc_cfg mc) r), mc1)" and i1: "idle mc1" "inbox [] (concat css @ later) mc1"
    and s: "mc_cfg mc1 = mc_cfg mc" "mc_maxAllowedPacket mc1 = mc_maxAllowedPacket mc" "mc_parseTime mc1 = mc_parseTime mc"
    and o: "n_out (mc_net mc1) = n_out (mc_net mc) @ frames 0 (payloadOf c)"
    by (auto simp: sameSettings_def)
  have "\<not> mc_parseTime mc1" "list_all (proper (mc_cfg mc1) (mc_maxAllowedPacket mc1)) xs"
    using Cons.prems(2,3) s by simp_all
  from Cons.IH [OF i1(1) this i1(2)] obtain mc2 where
    run: "clientRun D (map fst xs) mc1 = (Ok (map (expected (mc_cfg mc) \<circ> snd) xs), mc2)" and
    "n_out (mc_net mc2) = n_out (mc_net mc1) @ concat (map (frames 0 \<circ> payloadOf \<circ> fst) xs)"
    "idle mc2" "inbox [] later mc2" unfolding s by blast
  then show ?case using o x
    by (intro exI [of _ mc2]) (simp add: thenA_Ok [of "client D c", OF cl] thenA_Ok [of "clientRun D _", OF run] comp_def)
qed simp

definition demoTalk :: "(command \<times> reply) list" where
  "demoTalk = [(Query [0x53], Result [demoColumn fieldTypeVarString] [[None], [Some [0x41]]] 2),
     (Exec [0x55], Refused 1064 [1, 2, 3, 4, 5] [0x6e, 0x6f]), (Exec [0x55], Done 3 300 2)]"

theorem conversation_follows_specification_witness:
  "\<exists>chunkss mc'. clientRun demoDriver [Query [0x53], Exec [0x55], Exec [0x55]] (demoMc chunkss)
    = (Ok [RowsGot [(demoColumn fieldTypeVarString)\<lparr>mf_tableName := []\<rparr>] [[DNull], [DBytes [0x41]]],
        ErrorGot (MySQLError 1064 [0x6e, 0x6f]), CountsGot \<lparr>res_affectedRows = 3, res_insertID = 300\<rparr>], mc')
    \<and> n_out (mc_net mc') = frames 0 [comQuery, 0x53] @ frames 0 [comQuery, 0x55] @ frames 0 [comQuery, 0x55] \<and> idle mc'"
proof -
  define answer where "answer x = packets 1 (replyPackets (snd x))" for x :: "command \<times> reply"
  define chunks where "chunks = concat (map (\<lambda>x. [take 5 (answer x), drop 5 (answer x)]) demoTalk)"
  let ?mc = "demoMc chunks" and ?css = "map (\<lambda>x. [(take 5 (answer x), None), (drop 5 (answer x), None)]) demoTalk"
  have n: "n_in (mc_net ?mc) = concat ?css"
    by (simp add: chunks_def demoMc_def newBuffer_def demoNet_def demoTalk_def)
  have "frameCount [comQuery, b] = 1" for b by (simp add: frameCount_def maxPacketSize_def)
  then have d: "list_all2 delivers demoTalk ?css"
    by (simp add: demoTalk_def delivers_def payloadOf_def answer_def)
  have c: "mc_cfg ?mc = NewConfig" "\<not> mc_parseTime ?mc" by (simp_all add: demoMc_def)
  have p: "list_all (proper (mc_cfg ?mc) (mc_maxAllowedPacket ?mc)) demoTalk"
    by (simp add: demoTalk_def c rejects_def shortName_def demoColumn_def emptyField_def goodText_def shortText_def
        statusMoreResultsExists_def)
  have i: "inbox [] (concat ?css @ []) ?mc" using n by (auto simp: inbox_def)
  have "\<not> cfg_ColumnsWithAlias NewConfig" by (simp add: NewConfig_def)
  with conversation_follows_specification [OF idle_demoMc c(2) p d i, of demoDriver] show ?thesis
    by (intro exI [of _ chunks], simp add: demoTalk_def c payloadOf_def seenColumn_def textVal_def) blast
qed

end
