(* ===== verification/MysqlAuth.thy ===== *)
theory MysqlAuth
  imports MysqlStmt
begin

text \<open>
  Authentication (\<open>mysql/auth.go\<close>) and the packets of the connection phase (\<open>mysql/packets.go\<close> lines
  186 to 400 and 487 to 520). The hash functions, RSA encryption, the parsing of public keys and
  the TLS handshake are outside the program and are arguments: \<open>ae_encrypt\<close> is one encryption with
  the randomness it uses, a key is a number, and a parsed block that is no RSA key is \<open>PubOther\<close>.
\<close>

datatype pubParse = PubNoBlock | PubErr gerr | PubRSA nat | PubOther

record authEnv =
  ae_sha1 :: "byte list \<Rightarrow> byte list"
  ae_sha256 :: "byte list \<Rightarrow> byte list"
  ae_encrypt :: "nat \<Rightarrow> byte list \<Rightarrow> gerr + byte list"
  ae_parsePub :: "byte list \<Rightarrow> pubParse"
  ae_tls :: "tlsConfig \<Rightarrow> gerr option"

section \<open>Registered keys\<close>

type_synonym pubKeys = "(string \<times> nat) list"

definition RegisterServerPubKey :: "string \<Rightarrow> nat \<Rightarrow> pubKeys \<Rightarrow> pubKeys" where
  "RegisterServerPubKey name key reg = (name, key) # filter (\<lambda>(n, _). n \<noteq> name) reg"

definition DeregisterServerPubKey :: "string \<Rightarrow> pubKeys \<Rightarrow> pubKeys" where
  "DeregisterServerPubKey name reg = filter (\<lambda>(n, _). n \<noteq> name) reg"

definition getServerPubKey :: "string \<Rightarrow> pubKeys \<Rightarrow> nat option" where
  "getServerPubKey name reg = map_of reg name"

section \<open>The old password hash\<close>

definition myRndMaxVal :: u32 where "myRndMaxVal = 0x3FFFFFFF"

definition newMyRnd :: "u32 \<Rightarrow> u32 \<Rightarrow> u32 \<times> u32" where
  "newMyRnd seed1 seed2 = (seed1 mod myRndMaxVal, seed2 mod myRndMaxVal)"

definition NextByte :: "u32 \<times> u32 \<Rightarrow> byte \<times> (u32 \<times> u32)" where
  "NextByte = (\<lambda>(seed1, seed2).
     let seed1 = (seed1 * 3 + seed2) mod myRndMaxVal; seed2 = (seed1 + seed2 + 33) mod myRndMaxVal
     in (ucast ((ucast seed1 :: u64) * 31 div ucast myRndMaxVal), (seed1, seed2)))"

fun pwHashLoop :: "byte list \<Rightarrow> u32 \<Rightarrow> u32 \<Rightarrow> u32 \<Rightarrow> u32 \<times> u32" where
  "pwHashLoop [] add r0 r1 = (r0 AND 0x7FFFFFFF, r1 AND 0x7FFFFFFF)"
| "pwHashLoop (c # cs) add r0 r1 =
     (if c = 0x20 \<or> c = 0x09 then pwHashLoop cs add r0 r1
      else
        let tmp = ucast c; r0 = r0 XOR (((r0 AND 63) + add) * tmp + push_bit 8 r0);
            r1 = r1 + (push_bit 8 r1 XOR r0)
        in pwHashLoop cs (add + tmp) r0 r1)"

definition pwHash :: "byte list \<Rightarrow> u32 \<times> u32" where
  "pwHash password = pwHashLoop password 7 1345345333 0x12345671"

fun nextBytes :: "nat \<Rightarrow> u32 \<times> u32 \<Rightarrow> byte list \<times> (u32 \<times> u32)" where
  "nextBytes 0 r = ([], r)"
| "nextBytes (Suc n) r = (case NextByte r of (b, r) \<Rightarrow> case nextBytes n r of (bs, r) \<Rightarrow> (b # bs, r))"

definition scrambleOldPassword :: "slice \<Rightarrow> byte list \<Rightarrow> byte list res" where
  "scrambleOldPassword scramble password =
     bindR (sub_slice scramble 0 8) (\<lambda>scramble.
     let (p0, p1) = pwHash password; (s0, s1) = pwHash scramble;
         (out, r) = nextBytes 8 (newMyRnd (p0 XOR s0) (p1 XOR s1));
         (mask, _) = NextByte r
     in Ok (map (\<lambda>b. (b + 64) XOR mask) out))"

section \<open>Password hashes\<close>

definition xorBytes :: "byte list \<Rightarrow> byte list \<Rightarrow> byte list res" where
  "xorBytes dst src = (if length dst \<le> length src then Ok (map2 (XOR) dst src) else Crash IndexOutOfRange)"

definition scramblePassword :: "authEnv \<Rightarrow> byte list \<Rightarrow> byte list \<Rightarrow> byte list res" where
  "scramblePassword A scramble password =
     (if password = [] then Ok []
      else
        let stage1 = ae_sha1 A password; hash = ae_sha1 A stage1
        in xorBytes (ae_sha1 A (scramble @ hash)) stage1)"

definition scrambleSHA256Password :: "authEnv \<Rightarrow> byte list \<Rightarrow> byte list \<Rightarrow> byte list res" where
  "scrambleSHA256Password A scramble password =
     (if password = [] then Ok []
      else
        let message1 = ae_sha256 A password; message1Hash = ae_sha256 A message1
        in xorBytes message1 (ae_sha256 A (message1Hash @ scramble)))"

text \<open>The password and a zero byte, xor-ed with the seed over and over.\<close>

definition encryptPassword :: "authEnv \<Rightarrow> byte list \<Rightarrow> byte list \<Rightarrow> nat \<Rightarrow> byte list res" where
  "encryptPassword A password seed pub =
     (if seed = [] then Crash (Panic ''integer divide by zero'')
      else
        let plain = password @ [0];
            plain = map (\<lambda>i. (plain ! i) XOR (seed ! (i mod length seed))) [0..<length plain]
        in case ae_encrypt A pub plain of Inl e \<Rightarrow> Fail e | Inr enc \<Rightarrow> Ok enc)"

definition passwdOf :: "Config \<Rightarrow> byte list" where
  "passwdOf cfg = bytes_of (cfg_Passwd cfg)"

definition isPrivate :: "Config \<Rightarrow> bool" where
  "isPrivate cfg \<longleftrightarrow> cfg_tls cfg \<noteq> None \<or> cfg_Net cfg = ''unix''"

definition auth :: "authEnv \<Rightarrow> Config \<Rightarrow> slice \<Rightarrow> byte list \<Rightarrow> byte list res" where
  "auth A cfg authData plugin =
     (if plugin = bytes_of ''caching_sha2_password'' then scrambleSHA256Password A (fst authData) (passwdOf cfg)
      else if plugin = bytes_of ''mysql_old_password'' then
        (if \<not> cfg_AllowOldPasswords cfg then Fail ErrOldPassword
         else if cfg_Passwd cfg = [] then Ok []
         else bindR (scrambleOldPassword authData (passwdOf cfg)) (\<lambda>s. Ok (s @ [0])))
      else if plugin = bytes_of ''mysql_clear_password'' then
        (if \<not> cfg_AllowCleartextPasswords cfg then Fail ErrCleartextPassword else Ok (passwdOf cfg @ [0]))
      else if plugin = bytes_of ''mysql_native_password'' then
        (if \<not> cfg_AllowNativePasswords cfg then Fail ErrNativePassword
         else bindR (sub_slice authData 0 20) (\<lambda>scramble. scramblePassword A scramble (passwdOf cfg)))
      else if plugin = bytes_of ''sha256_password'' then
        (if cfg_Passwd cfg = [] then Ok [0]
         else if isPrivate cfg then Ok (passwdOf cfg @ [0])
         else case cfg_pubKey cfg of
           None \<Rightarrow> Ok [1]
         | Some pub \<Rightarrow> encryptPassword A (passwdOf cfg) (fst authData) pub)
      else Fail ErrUnknownPlugin)"

section \<open>The connection phase\<close>

definition minProtocolVersion :: byte where "minProtocolVersion = 10"
definition clientLongPassword :: u32 where "clientLongPassword = 2 ^ 0"
definition clientFoundRows :: u32 where "clientFoundRows = 2 ^ 1"
definition clientLongFlag :: u32 where "clientLongFlag = 2 ^ 2"
definition clientConnectWithDB :: u32 where "clientConnectWithDB = 2 ^ 3"
definition clientLocalFiles :: u32 where "clientLocalFiles = 2 ^ 7"
definition clientProtocol41 :: u32 where "clientProtocol41 = 2 ^ 9"
definition clientSSL :: u32 where "clientSSL = 2 ^ 11"
definition clientTransactions :: u32 where "clientTransactions = 2 ^ 13"
definition clientSecureConn :: u32 where "clientSecureConn = 2 ^ 15"
definition clientMultiStatements :: u32 where "clientMultiStatements = 2 ^ 16"
definition clientMultiResults :: u32 where "clientMultiResults = 2 ^ 17"
definition clientPluginAuth :: u32 where "clientPluginAuth = 2 ^ 19"
definition clientPluginAuthLenEncClientData :: u32 where "clientPluginAuthLenEncClientData = 2 ^ 21"

definition indexOr1 :: "byte list \<Rightarrow> int" where
  "indexOr1 b = (case indexByte b 0 of Some q \<Rightarrow> int q | None \<Rightarrow> -1)"

text \<open>
  The flags of the server, and what they mean for TLS: a configuration that only prefers TLS gives
  it up, in the configuration that the connector shares with its other connections.
\<close>

definition setFlags :: "u16 \<Rightarrow> (mysqlConn, unit) act" where
  "setFlags flags =
     seqA (modA (\<lambda>mc. mc\<lparr>mc_flags := ucast flags\<rparr>))
    (thenA (getA (\<lambda>mc. (mc_flags mc, mc_cfg mc))) (\<lambda>(flags, cfg).
     if flags AND clientProtocol41 = 0 then fail ErrOldProtocol
     else if flags AND clientSSL = 0 \<and> cfg_tls cfg \<noteq> None then
       (if cfg_TLSConfig cfg = ''preferred'' then modA (\<lambda>mc. mc\<lparr>mc_cfg := (mc_cfg mc)\<lparr>cfg_tls := None\<rparr>\<rparr>)
        else fail ErrNoTLS)
     else ret ()))"

definition handshakeTail :: "slice \<Rightarrow> byte list \<Rightarrow> int \<Rightarrow> (byte list \<times> byte list) res" where
  "handshakeTail data authData pos =
     (if int (length (fst data)) > pos then
        bindR (sub_slice data (pos + 16) (pos + 28)) (\<lambda>more.
        bindR (from_pos (fst data) (pos + 29)) (\<lambda>rest.
        let plugin = (case indexByte rest 0 of Some q \<Rightarrow> take q rest | None \<Rightarrow> rest)
        in Ok (authData @ more, plugin)))
      else Ok (authData, []))"

definition readHandshakePacket :: "(mysqlConn, byte list \<times> byte list) act" where
  "readHandshakePacket =
     thenA (tryA readPacket) (\<lambda>r. case r of
       Inl e \<Rightarrow> fail (if e = ErrInvalidConn then ErrBadConn else e)
     | Inr data \<Rightarrow>
         thenA (liftA (first data)) (\<lambda>d0.
         if d0 = iERR then failWith (handleErrorPacket data)
         else if d0 < minProtocolVersion then fail (ErrMsg ''unsupported protocol version %d'')
         else
           thenA (liftA (slice_from (fst data) 1)) (\<lambda>b.
           let pos = 1 + indexOr1 b + 1 + 4
           in thenA (liftA (sub_slice data pos (pos + 8))) (\<lambda>authData.
              let pos = pos + 8 + 1
              in thenA (liftA (bindR (sub_slice data pos (pos + 2)) (le_uint 2))) (\<lambda>flags.
                 seqA (setFlags flags) (liftA (handshakeTail data authData (pos + 2))))))))"

definition orIf :: "bool \<Rightarrow> u32 \<Rightarrow> u32 \<Rightarrow> u32" where
  "orIf b f flags = (if b then flags OR f else flags)"

definition clientFlags :: "mysqlConn \<Rightarrow> nat \<Rightarrow> u32" where
  "clientFlags mc leiLen =
     (let cfg = mc_cfg mc
      in orIf (cfg_DBName cfg \<noteq> []) clientConnectWithDB
        (orIf (leiLen > 1) clientPluginAuthLenEncClientData
        (orIf (cfg_MultiStatements cfg) clientMultiStatements
        (orIf (cfg_tls cfg \<noteq> None) clientSSL
        (orIf (cfg_ClientFoundRows cfg) clientFoundRows
          (clientProtocol41 OR clientSecureConn OR clientLongPassword OR clientTransactions OR
           clientLocalFiles OR clientPluginAuth OR clientMultiResults OR (mc_flags mc AND clientLongFlag)))))))"

text \<open>
  The whole response is built in one buffer, whose front part asks for TLS; there is room for a
  plugin name of 21 bytes.
\<close>

definition writeHandshakeResponsePacket :: "authEnv \<Rightarrow> byte list \<Rightarrow> byte list \<Rightarrow> (mysqlConn, unit) act" where
  "writeHandshakeResponsePacket A authResp plugin =
     thenA (getA id) (\<lambda>mc.
     let cfg = mc_cfg mc;
         authRespLEI = appendLengthEncodedInteger [] (of_nat (length authResp));
         flags = clientFlags mc (length authRespLEI);
         pktLen = 4 + 4 + 1 + 23 + length (cfg_User cfg) + 1 + length authRespLEI + length authResp + 21 + 1
           + (if cfg_DBName cfg \<noteq> [] then length (cfg_DBName cfg) + 1 else 0)
     in thenA (tryA (onBuf (takeSmallBuffer (pktLen + 4)))) (\<lambda>r. case r of
          Inl e \<Rightarrow> fail ErrBadConnNoWrite
        | Inr s \<Rightarrow>
            thenA (getA (\<lambda>mc. bytesAt (mc_buf mc) s)) (\<lambda>data.
            case map_of collations (cfg_Collation cfg) of
              None \<Rightarrow> fail (ErrMsg ''unknown collation'')
            | Some charset \<Rightarrow>
                let front = take 4 data @ u32Bytes flags @ replicate 4 0 @ [charset] @ replicate 23 0
                in seqA (case cfg_tls cfg of
                           None \<Rightarrow> ret ()
                         | Some tls \<Rightarrow> seqA (writePacket front)
                             (case ae_tls A tls of Some e \<Rightarrow> fail e | None \<Rightarrow> ret ()))
                  (if length plugin > 21 then crash IndexOutOfRange
                   else writePacket (front @ bytes_of (cfg_User cfg) @ [0] @ authRespLEI @ authResp @
                     (if cfg_DBName cfg \<noteq> [] then bytes_of (cfg_DBName cfg) @ [0] else []) @ plugin @ [0])))))"

text \<open>The answer of the server: data for the plugin (nil is \<open>None\<close>) and the plugin to switch to.\<close>

definition readAuthResult :: "(mysqlConn, slice option \<times> byte list) act" where
  "readAuthResult =
     thenA readPacket (\<lambda>data.
     thenA (liftA (first data)) (\<lambda>d0.
     if d0 = iOK then seqA (handleOkPacket data) (ret (None, []))
     else if d0 = iAuthMoreData then
       thenA (liftA (slice_from (fst data) 1)) (\<lambda>b. ret (Some (b, snd data), []))
     else if d0 = iEOF then
       (if length (fst data) = 1 then ret (None, bytes_of ''mysql_old_password'')
        else case indexByte (fst data) 0 of
          None \<Rightarrow> fail ErrMalformPkt
        | Some q \<Rightarrow>
            thenA (liftA (slice (fst data) 1 q)) (\<lambda>plugin.
            ret (Some (drop (q + 1) (fst data), snd data), plugin)))
     else failWith (handleErrorPacket data)))"

definition parseKey :: "authEnv \<Rightarrow> byte list \<Rightarrow> (mysqlConn, nat) act" where
  "parseKey A pem = (case ae_parsePub A pem of
     PubNoBlock \<Rightarrow> crash NilDeref
   | PubErr e \<Rightarrow> fail e
   | PubOther \<Rightarrow> crash (Panic ''interface conversion'')
   | PubRSA key \<Rightarrow> ret key)"

definition sendEncryptedPassword :: "authEnv \<Rightarrow> byte list \<Rightarrow> nat \<Rightarrow> (mysqlConn, unit) act" where
  "sendEncryptedPassword A seed pub =
     thenA (getA (\<lambda>mc. passwdOf (mc_cfg mc))) (\<lambda>passwd.
     thenA (liftA (encryptPassword A passwd seed pub)) writeAuthSwitchPacket)"

text \<open>The key of the server, which is asked for; a failed request shows up when the answer is read.\<close>

definition requestKey :: "authEnv \<Rightarrow> (mysqlConn, nat) act" where
  "requestKey A =
     thenA (onBuf (takeSmallBuffer 5)) (\<lambda>s.
     thenA (getA (\<lambda>mc. bytesAt (mc_buf mc) s)) (\<lambda>data.
     seqA (tryA (writePacket (data[4 := 2])))
    (thenA readPacket (\<lambda>data.
     thenA (liftA (slice_from (fst data) 1)) (parseKey A)))))"

definition fullAuthentication :: "authEnv \<Rightarrow> byte list \<Rightarrow> (mysqlConn, unit) act" where
  "fullAuthentication A oldAuthData =
     thenA (getA mc_cfg) (\<lambda>cfg.
     seqA (if isPrivate cfg then writeAuthSwitchPacket (passwdOf cfg @ [0])
           else
             thenA (case cfg_pubKey cfg of Some key \<Rightarrow> ret key | None \<Rightarrow> requestKey A) (\<lambda>pub.
             sendEncryptedPassword A oldAuthData pub))
       readResultOK)"

definition finishAuth :: "authEnv \<Rightarrow> byte list \<Rightarrow> byte list \<Rightarrow> byte list \<Rightarrow> (mysqlConn, unit) act" where
  "finishAuth A plugin oldAuthData authData =
     (if plugin = bytes_of ''caching_sha2_password'' then
        (case authData of
           [] \<Rightarrow> ret ()
         | [b] \<Rightarrow> if b = 3 then readResultOK else if b = 4 then fullAuthentication A oldAuthData else fail ErrMalformPkt
         | _ \<Rightarrow> fail ErrMalformPkt)
      else if plugin = bytes_of ''sha256_password'' then
        (if authData = [] then ret ()
         else thenA (parseKey A authData) (\<lambda>pub.
              seqA (sendEncryptedPassword A oldAuthData pub) readResultOK))
      else ret ())"

definition dataOf :: "slice option \<Rightarrow> byte list" where
  "dataOf d = (case d of None \<Rightarrow> [] | Some s \<Rightarrow> fst s)"

definition handleAuthResult :: "authEnv \<Rightarrow> byte list \<Rightarrow> byte list \<Rightarrow> (mysqlConn, unit) act" where
  "handleAuthResult A oldAuthData plugin =
     thenA readAuthResult (\<lambda>(authData, newPlugin).
     if newPlugin = [] then finishAuth A plugin oldAuthData (dataOf authData)
     else
       let oldData = (case authData of None \<Rightarrow> oldAuthData | Some s \<Rightarrow> copy_at oldAuthData 0 (fst s));
           authData = (case authData of None \<Rightarrow> (oldData, []) | Some s \<Rightarrow> s)
       in thenA (getA mc_cfg) (\<lambda>cfg.
          thenA (liftA (auth A cfg authData newPlugin)) (\<lambda>authResp.
          seqA (writeAuthSwitchPacket authResp)
         (thenA readAuthResult (\<lambda>(authData, again).
          if again \<noteq> [] then fail ErrMalformPkt
          else finishAuth A newPlugin oldData (dataOf authData))))))"

end
