(* ===== verification/MysqlConnect.thy ===== *)
theory MysqlConnect
  imports MysqlAuth
begin

text \<open>
  Opening a connection: \<open>mysql/connector.go\<close> and the registered dial functions of
  \<open>mysql/driver.go\<close>. Dialling is outside the program; a dial function gives a network connection
  or an error.
\<close>

record dialEnv =
  di_dials :: "(string \<times> (string \<Rightarrow> gerr + net)) list"
  di_default :: "string \<Rightarrow> string \<Rightarrow> gerr + net"
  di_keepAlive :: "gerr option"

definition RegisterDialContext :: "string \<Rightarrow> (string \<Rightarrow> gerr + net) \<Rightarrow> dialEnv \<Rightarrow> dialEnv" where
  "RegisterDialContext n dial E = E\<lparr>di_dials := (n, dial) # filter (\<lambda>(m, _). m \<noteq> n) (di_dials E)\<rparr>"

definition RegisterDial :: "string \<Rightarrow> (string \<Rightarrow> gerr + net) \<Rightarrow> dialEnv \<Rightarrow> dialEnv" where
  "RegisterDial n dial = RegisterDialContext n dial"

definition dialNet :: "dialEnv \<Rightarrow> Config \<Rightarrow> gerr + net" where
  "dialNet E cfg = (case map_of (di_dials E) (cfg_Net cfg) of
     Some dial \<Rightarrow> dial (cfg_Addr cfg)
   | None \<Rightarrow> di_default E (cfg_Net cfg) (cfg_Addr cfg))"

definition defaultAuthPlugin :: "byte list" where
  "defaultAuthPlugin = bytes_of ''mysql_native_password''"

text \<open>The connection before the handshake, with the watcher of contexts running.\<close>

definition newConn :: "Config \<Rightarrow> net \<Rightarrow> mysqlConn" where
  "newConn cfg nc = \<lparr>mc_buf = newBuffer nc, mc_affectedRows = 0, mc_insertId = 0, mc_cfg = cfg,
     mc_maxAllowedPacket = int maxPacketSize, mc_maxWriteSize = int maxPacketSize - 1, mc_writeTimeout = 0,
     mc_flags = 0, mc_status = 0, mc_sequence = 0, mc_parseTime = cfg_ParseTime cfg, mc_reset = False,
     mc_canceled = None, mc_closed = False, mc_watcher = True, mc_watching = False\<rparr>"

text \<open>An error before the connection is authenticated closes it without a farewell to the server.\<close>

definition orCleanup :: "(mysqlConn, 'a) act \<Rightarrow> (mysqlConn, 'a) act" where
  "orCleanup m = thenA (tryA m) (\<lambda>r. case r of Inl e \<Rightarrow> seqA cleanup (fail e) | Inr x \<Rightarrow> ret x)"

definition orClose :: "(mysqlConn, 'a) act \<Rightarrow> (mysqlConn, 'a) act" where
  "orClose m = thenA (tryA m) (\<lambda>r. case r of Inl e \<Rightarrow> seqA (tryA mcClose) (fail e) | Inr x \<Rightarrow> ret x)"

text \<open>The response to the handshake; when the plugin fails the default plugin is tried.\<close>

definition firstAuth :: "authEnv \<Rightarrow> byte list \<Rightarrow> byte list \<Rightarrow> (mysqlConn, byte list \<times> byte list) act" where
  "firstAuth A authData plugin =
     thenA (getA mc_cfg) (\<lambda>cfg.
     thenA (tryA (liftA (auth A cfg (authData, []) plugin))) (\<lambda>r. case r of
       Inr resp \<Rightarrow> ret (resp, plugin)
     | Inl _ \<Rightarrow> thenA (liftA (auth A cfg (authData, []) defaultAuthPlugin)) (\<lambda>resp.
         ret (resp, defaultAuthPlugin))))"

definition handshake :: "authEnv \<Rightarrow> (mysqlConn, unit) act" where
  "handshake A =
     orCleanup
      (thenA readHandshakePacket (\<lambda>(authData, plugin).
       thenA (firstAuth A authData (if plugin = [] then defaultAuthPlugin else plugin)) (\<lambda>(authResp, plugin).
       seqA (writeHandshakeResponsePacket A authResp plugin)
         (handleAuthResult A authData plugin))))"

text \<open>The limits of packets: the configured one, or the one the server tells.\<close>

definition setLimits :: "driverEnv \<Rightarrow> (mysqlConn, unit) act" where
  "setLimits D =
     thenA (getA (\<lambda>mc. cfg_MaxAllowedPacket (mc_cfg mc))) (\<lambda>m.
     seqA (if m > 0 then modA (\<lambda>mc. mc\<lparr>mc_maxAllowedPacket := m\<rparr>)
           else thenA (orClose (getSystemVar D (bytes_of ''max_allowed_packet''))) (\<lambda>maxap.
                modA (\<lambda>mc. mc\<lparr>mc_maxAllowedPacket := sint (stringToInt maxap - 1)\<rparr>)))
       (modA (\<lambda>mc. if mc_maxAllowedPacket mc < int maxPacketSize
                    then mc\<lparr>mc_maxWriteSize := mc_maxAllowedPacket mc\<rparr> else mc)))"

definition setTimeouts :: "mysqlConn \<Rightarrow> mysqlConn" where
  "setTimeouts mc = mc\<lparr>mc_buf := (mc_buf mc)\<lparr>b_timeout := cfg_ReadTimeout (mc_cfg mc)\<rparr>,
     mc_writeTimeout := cfg_WriteTimeout (mc_cfg mc)\<rparr>"

definition openConn :: "authEnv \<Rightarrow> driverEnv \<Rightarrow> nat list \<Rightarrow> ctxState \<Rightarrow> (mysqlConn, unit) act" where
  "openConn A D order ctx =
     seqA (orCleanup (watchCancel ctx))
       (deferFinish
         (seqA (modA setTimeouts)
         (seqA (handshake A)
         (seqA (setLimits D)
           (orClose (handleParams D order))))))"

text \<open>
  \<open>Connect\<close>: the connection, and the configuration of the connector afterwards, which the
  connection shares.
\<close>

definition Connect ::
    "authEnv \<Rightarrow> driverEnv \<Rightarrow> dialEnv \<Rightarrow> nat list \<Rightarrow> ctxState \<Rightarrow> Config \<Rightarrow> mysqlConn res \<times> Config" where
  "Connect A D E order ctx cfg =
     (case dialNet E cfg of
        Inl e \<Rightarrow> (Fail e, cfg)
      | Inr nc \<Rightarrow>
          (case di_keepAlive E of
             Some e \<Rightarrow> (Fail e, cfg)
           | None \<Rightarrow> (case openConn A D order ctx (newConn cfg nc) of
               (r, mc) \<Rightarrow> (bindR r (\<lambda>_. Ok mc), mc_cfg mc))))"

end
