(* ===== verification/AuthProps.thy ===== *)
theory AuthProps
  imports MysqlConnect PacketProps
begin

text \<open>
  Authentication: a server that knows the hash of the password accepts the response of the driver,
  and on a connection that others can read the handshake depends on the password only through its
  hashes and ciphertexts.
\<close>

section \<open>The server's side\<close>

text \<open>
  What a server does with a response, as the comments in \<open>auth.go\<close> have it: it keeps the hash of the
  hash, and takes the hash of the password from the response with it.
\<close>

definition nativeCheck :: "authEnv \<Rightarrow> byte list \<Rightarrow> byte list \<Rightarrow> byte list \<Rightarrow> bool" where
  "nativeCheck A stored scramble response \<longleftrightarrow>
     ae_sha1 A (map2 (XOR) response (ae_sha1 A (scramble @ stored))) = stored"

definition sha2Check :: "authEnv \<Rightarrow> byte list \<Rightarrow> byte list \<Rightarrow> byte list \<Rightarrow> bool" where
  "sha2Check A stored scramble response \<longleftrightarrow>
     ae_sha256 A (map2 (XOR) response (ae_sha256 A (stored @ scramble))) = stored"

lemma xor_cancel:
  fixes a b :: "byte list"
  assumes "length a = length b"
  shows "map2 (XOR) (map2 (XOR) a b) a = b" "map2 (XOR) (map2 (XOR) a b) b = a"
  using assms
  by (induction a b rule: list_induct2) (simp_all add: xor.assoc xor.left_commute, simp_all add: xor.commute [of _ "_ XOR _"] xor.assoc)

text \<open>
  C20: A server that has the hash of the password accepts the responses of both hashing plugins, for
  hash functions that have the fixed lengths of SHA-1 and SHA-256.
\<close>

theorem password_responses_verify:
  assumes "\<And>x. length (ae_sha1 A x) = 20" and "\<And>x. length (ae_sha256 A x) = 32"
    and "cfg_AllowNativePasswords cfg" and "passwdOf cfg \<noteq> []" and "length scramble = 20"
  shows "\<exists>native sha2. auth A cfg (scramble, spare) (bytes_of ''mysql_native_password'') = Ok native
    \<and> auth A cfg (scramble, spare) (bytes_of ''caching_sha2_password'') = Ok sha2
    \<and> nativeCheck A (ae_sha1 A (ae_sha1 A (passwdOf cfg))) scramble native
    \<and> sha2Check A (ae_sha256 A (ae_sha256 A (passwdOf cfg))) scramble sha2"
proof -
  have "sub_slice (scramble, spare) 0 20 = Ok scramble"
    using assms(5) by (simp add: sub_slice_def slice_int_def slice_def)
  moreover have "bytes_of ''mysql_native_password'' \<noteq> bytes_of ''caching_sha2_password''"
    "bytes_of ''mysql_native_password'' \<noteq> bytes_of ''mysql_old_password''"
    "bytes_of ''mysql_native_password'' \<noteq> bytes_of ''mysql_clear_password''" by code_simp+
  ultimately show ?thesis using assms
    by (simp add: auth_def scramblePassword_def scrambleSHA256Password_def xorBytes_def
        nativeCheck_def sha2Check_def Let_def xor_cancel)
qed

definition demoAuth :: authEnv where
  "demoAuth = \<lparr>ae_sha1 = (\<lambda>x. replicate 20 (of_nat (length x))), ae_sha256 = (\<lambda>x. replicate 32 (of_nat (length x))),
     ae_encrypt = (\<lambda>pub x. Inr (replicate 256 (of_nat pub))), ae_parsePub = (\<lambda>b. PubRSA (length b)), ae_tls = (\<lambda>c. None)\<rparr>"

theorem password_responses_verify_witness:
  "let cfg = NewConfig\<lparr>cfg_Passwd := ''pw''\<rparr>; scramble = replicate 20 7
   in \<exists>native sha2. auth demoAuth cfg (scramble, []) (bytes_of ''mysql_native_password'') = Ok native
    \<and> auth demoAuth cfg (scramble, []) (bytes_of ''caching_sha2_password'') = Ok sha2
    \<and> nativeCheck demoAuth (ae_sha1 demoAuth (ae_sha1 demoAuth (passwdOf cfg))) scramble native
    \<and> sha2Check demoAuth (ae_sha256 demoAuth (ae_sha256 demoAuth (passwdOf cfg))) scramble sha2"
  unfolding Let_def
  by (rule password_responses_verify) (simp_all add: demoAuth_def NewConfig_def passwdOf_def bytes_of_def)

section \<open>What the network learns of the password\<close>

definition withPasswd :: "string \<Rightarrow> mysqlConn \<Rightarrow> mysqlConn" where
  "withPasswd q mc = mc\<lparr>mc_cfg := (mc_cfg mc)\<lparr>cfg_Passwd := q\<rparr>\<rparr>"

definition exposed :: "string \<Rightarrow> Config \<Rightarrow> bool" where
  "exposed p cfg \<longleftrightarrow> cfg_Passwd cfg = p \<and> \<not> isPrivate cfg \<and> \<not> cfg_AllowCleartextPasswords cfg
     \<and> \<not> cfg_AllowOldPasswords cfg"

text \<open>A step is blind when with another password it does the same and ends in the same state.\<close>

definition blind :: "string \<Rightarrow> string \<Rightarrow> (mysqlConn, 'a) act \<Rightarrow> bool" where
  "blind p q m \<longleftrightarrow> (\<forall>mc. exposed p (mc_cfg mc) \<longrightarrow>
     exposed p (mc_cfg (snd (m mc))) \<and> m (withPasswd q mc) = apsnd (withPasswd q) (m mc))"

lemma withPasswd_fields [simp]:
  "mc_buf (withPasswd q mc) = mc_buf mc" "mc_sequence (withPasswd q mc) = mc_sequence mc"
  "mc_closed (withPasswd q mc) = mc_closed mc" "mc_canceled (withPasswd q mc) = mc_canceled mc"
  "mc_maxAllowedPacket (withPasswd q mc) = mc_maxAllowedPacket mc" "mc_reset (withPasswd q mc) = mc_reset mc"
  "mc_writeTimeout (withPasswd q mc) = mc_writeTimeout mc" "mc_flags (withPasswd q mc) = mc_flags mc"
  "mc_cfg (withPasswd q mc) = (mc_cfg mc)\<lparr>cfg_Passwd := q\<rparr>"
  by (simp_all add: withPasswd_def)

named_theorems blind_intro \<open>rules that reduce \<open>blind\<close> to primitive steps\<close>

lemma blind_atoms [blind_intro]: "blind p q (ret x)" "blind p q (fail e)" "blind p q (crash h)" "blind p q (liftA r)"
  by (simp_all add: blind_def)

lemma blind_thenA [blind_intro]:
  assumes "blind p q m" and "\<And>x. blind p q (f x)"
  shows "blind p q (thenA m f)"
  unfolding blind_def
proof (intro allI impI)
  fix mc :: mysqlConn
  assume e: "exposed p (mc_cfg mc)"
  obtain r t where mt: "m mc = (r, t)" by (cases "m mc")
  then have t: "exposed p (mc_cfg t)" "m (withPasswd q mc) = (r, withPasswd q t)"
    using assms(1) e by (auto simp: blind_def)
  show "exposed p (mc_cfg (snd (thenA m f mc))) \<and> thenA m f (withPasswd q mc) = apsnd (withPasswd q) (thenA m f mc)"
  proof (cases r)
    case (Ok x)
    with assms(2) [of x] mt t show ?thesis by (simp add: thenA_def blind_def)
  qed (use mt t in \<open>simp_all add: thenA_def\<close>)
qed

lemma blind_seqA [blind_intro]: "blind p q m \<Longrightarrow> blind p q n \<Longrightarrow> blind p q (seqA m n)"
  by (simp add: seqA_def blind_thenA)

lemma blind_tryA [blind_intro]:
  assumes "blind p q m"
  shows "blind p q (tryA m)"
  unfolding blind_def
proof (intro allI impI)
  fix mc :: mysqlConn
  assume e: "exposed p (mc_cfg mc)"
  obtain r t where mt: "m mc = (r, t)" by (cases "m mc")
  then have "exposed p (mc_cfg t)" "m (withPasswd q mc) = (r, withPasswd q t)"
    using assms e by (auto simp: blind_def)
  with mt show "exposed p (mc_cfg (snd (tryA m mc))) \<and> tryA m (withPasswd q mc) = apsnd (withPasswd q) (tryA m mc)"
    by (cases r) (simp_all add: tryA_def)
qed

lemma blind_getA [blind_intro]: "(\<And>mc. f (withPasswd q mc) = f mc) \<Longrightarrow> blind p q (getA f)"
  by (simp add: blind_def)

text \<open>A step that depends on the configuration, or on the whole connection.\<close>

lemma blind_get:
  assumes "\<And>mc. exposed p (mc_cfg mc) \<Longrightarrow> blind p q (f (g mc))"
    and "\<And>mc. exposed p (mc_cfg mc) \<Longrightarrow> f (g (withPasswd q mc)) = f (g mc)"
  shows "blind p q (thenA (getA g) f)"
  using assms by (simp add: blind_def)

lemma blind_modA:
  "(\<And>mc. exposed p (mc_cfg mc) \<Longrightarrow> exposed p (mc_cfg (f mc)) \<and> f (withPasswd q mc) = withPasswd q (f mc))
    \<Longrightarrow> blind p q (modA f)"
  by (simp add: blind_def)

lemma blind_onBuf [blind_intro]: "blind p q (onBuf m)"
  by (simp add: blind_def onBuf_def withPasswd_def split: prod.split)

lemma blind_onNet [blind_intro]: "blind p q (onNet m)"
  by (simp add: blind_def onNet_def updNet_def withPasswd_def split: prod.split)

lemma blind_if [blind_intro]:
  "(b \<Longrightarrow> blind p q m) \<Longrightarrow> (\<not> b \<Longrightarrow> blind p q n) \<Longrightarrow> blind p q (if b then m else n)"
  by simp

lemma blind_let [blind_intro]: "blind p q (f x) \<Longrightarrow> blind p q (let y = x in f y)"
  by simp

lemma blind_case_prod [blind_intro]:
  "(\<And>a b. blind p q (f a b)) \<Longrightarrow> blind p q (case x of (a, b) \<Rightarrow> f a b)"
  by (cases x) simp

lemma blind_case_option [blind_intro]:
  "blind p q m \<Longrightarrow> (\<And>a. blind p q (f a)) \<Longrightarrow> blind p q (case x of None \<Rightarrow> m | Some a \<Rightarrow> f a)"
  by (cases x) simp_all

lemma blind_case_sum [blind_intro]:
  "(\<And>a. blind p q (f a)) \<Longrightarrow> (\<And>b. blind p q (g b)) \<Longrightarrow> blind p q (case x of Inl a \<Rightarrow> f a | Inr b \<Rightarrow> g b)"
  by (cases x) simp_all

lemma blind_case_list [blind_intro]:
  "blind p q m \<Longrightarrow> (\<And>a as. blind p q (f a as)) \<Longrightarrow> blind p q (case x of [] \<Rightarrow> m | a # as \<Rightarrow> f a as)"
  by (cases x) simp_all

subsection \<open>Packets\<close>

lemma blind_seqNo [blind_intro]:
  "blind p q (modA (\<lambda>mc. mc\<lparr>mc_sequence := 0\<rparr>))" "blind p q (modA (\<lambda>mc. mc\<lparr>mc_sequence := mc_sequence mc + 1\<rparr>))"
  "blind p q (modA (\<lambda>mc. mc\<lparr>mc_reset := False\<rparr>))" "blind p q (modA (\<lambda>mc. mc\<lparr>mc_affectedRows := a\<rparr>))"
  "blind p q (modA (\<lambda>mc. mc\<lparr>mc_insertId := a\<rparr>))" "blind p q (modA (\<lambda>mc. mc\<lparr>mc_status := st\<rparr>))"
  "blind p q (modA (\<lambda>mc. mc\<lparr>mc_flags := fl\<rparr>))"
  by (rule blind_modA; simp add: withPasswd_def)+

lemma blind_cleanup [blind_intro]: "blind p q cleanup"
  unfolding cleanup_def by (rule blind_modA) (simp add: withPasswd_def updNet_def)

lemma blind_armWrite [blind_intro]: "blind p q armWrite"
  unfolding armWrite_def by (intro blind_intro) simp_all

lemma blind_writeFailed [blind_intro]: "blind p q (writeFailed pktLen n k err)"
  unfolding writeFailed_def by (intro blind_intro) simp_all

lemma blind_writeLoop [blind_intro]: "blind p q (writeLoop pktLen data)"
proof (induction pktLen data rule: writeLoop.induct)
  case (1 pktLen data)
  show ?case by (subst writeLoop.simps) (intro blind_intro 1 conjI; simp)
qed

lemma blind_writeFrames [blind_intro]: "blind p q (writeFrames data)"
  unfolding writeFrames_def by (intro blind_intro) simp_all

lemma blind_commandPacket [blind_intro]: "(\<And>data. blind p q (w data)) \<Longrightarrow> blind p q (commandPacket w c)"
  unfolding commandPacket_def by (intro blind_intro) simp_all

lemma blind_closeWith [blind_intro]: "(\<And>data. blind p q (w data)) \<Longrightarrow> blind p q (closeWith w)"
  unfolding closeWith_def by (intro blind_intro) simp_all

lemma blind_connCheckStep [blind_intro]: "blind p q connCheckStep"
  unfolding connCheckStep_def by (rule blind_get; (intro blind_intro)?; simp)

lemma blind_writePacket [blind_intro]: "blind p q (writePacket data)"
  unfolding writePacket_def by (intro blind_intro) simp_all

lemma blind_mcClose [blind_intro]: "blind p q mcClose"
  unfolding mcClose_def by (intro blind_intro)

lemma blind_writeAuthSwitchPacket [blind_intro]: "blind p q (writeAuthSwitchPacket d)"
  unfolding writeAuthSwitchPacket_def by (intro blind_intro) simp_all

lemma blind_readBytes [blind_intro]: "blind p q (readBytes n)"
  unfolding readBytes_def readFailed_def by (intro blind_intro) simp_all

lemma blind_readPacketLoop [blind_intro]: "blind p q (readPacketLoop n prev)"
  by (induction n arbitrary: prev; simp only: readPacketLoop.simps; intro blind_intro; simp?)

lemma blind_readPacket [blind_intro]: "blind p q readPacket"
  using blind_readPacketLoop by (simp add: readPacket_def blind_def)

subsection \<open>The connection phase\<close>

lemma blind_failWith [blind_intro]: "blind p q m \<Longrightarrow> blind p q (failWith m)"
  unfolding failWith_def by (intro blind_intro)

lemma blind_reject:
  "blind p q m \<Longrightarrow> blind p q n \<Longrightarrow>
   blind p q (thenA (getA mc_cfg) (\<lambda>cfg. if b \<and> cfg_RejectReadOnly cfg then m else n))"
  by (intro blind_get) (simp_all add: blind_if)

lemma blind_handleErrorPacket [blind_intro]: "blind p q (handleErrorPacket data)"
  unfolding handleErrorPacket_def
  by (intro blind_thenA [OF blind_atoms(4)] blind_reject blind_if blind_atoms blind_seqA blind_tryA blind_mcClose)

lemma blind_handleOkPacket [blind_intro]: "blind p q (handleOkPacket data)"
  unfolding handleOkPacket_def by (intro blind_intro)

lemma blind_readResultOK [blind_intro]: "blind p q readResultOK"
  unfolding readResultOK_def by (intro blind_intro)

lemma blind_giveUpTLS [blind_intro]: "blind p q (modA (\<lambda>mc. mc\<lparr>mc_cfg := (mc_cfg mc)\<lparr>cfg_tls := None\<rparr>\<rparr>))"
  by (rule blind_modA) (auto simp: withPasswd_def exposed_def isPrivate_def)

lemma blind_setFlags [blind_intro]: "blind p q (setFlags flags)"
  unfolding setFlags_def
  by (rule blind_seqA [OF blind_seqNo(7)], rule blind_get, unfold split_conv, intro blind_intro) auto

lemma blind_readHandshakePacket [blind_intro]: "blind p q readHandshakePacket"
  unfolding readHandshakePacket_def by (intro blind_intro)

lemma withPasswd_cfg:
  "clientFlags (withPasswd q mc) n = clientFlags mc n"
  "cfg_User (mc_cfg (withPasswd q mc)) = cfg_User (mc_cfg mc)"
  "cfg_DBName (mc_cfg (withPasswd q mc)) = cfg_DBName (mc_cfg mc)"
  "cfg_Collation (mc_cfg (withPasswd q mc)) = cfg_Collation (mc_cfg mc)"
  "cfg_tls (mc_cfg (withPasswd q mc)) = cfg_tls (mc_cfg mc)"
  by (simp_all add: clientFlags_def Let_def)

lemma blind_writeHandshakeResponsePacket [blind_intro]: "blind p q (writeHandshakeResponsePacket A resp plugin)"
  unfolding writeHandshakeResponsePacket_def
proof (rule blind_get, goal_cases)
  case (1 mc)
  show ?case unfolding Let_def id_apply by (intro blind_intro) simp
next
  case (2 mc)
  show ?case unfolding Let_def id_apply withPasswd_cfg ..
qed

lemma blind_readAuthResult [blind_intro]: "blind p q readAuthResult"
  unfolding readAuthResult_def by (intro blind_intro)

lemma blind_parseKey [blind_intro]: "blind p q (parseKey A pem)"
  unfolding parseKey_def by (cases "ae_parsePub A pem") (simp_all add: blind_atoms)

lemma blind_requestKey [blind_intro]: "blind p q (requestKey A)"
  unfolding requestKey_def by (intro blind_intro) simp_all

text \<open>
  Two passwords that look alike: their hashes are the same, and so is what the encryption makes of
  any texts of their lengths.
\<close>

definition alike :: "authEnv \<Rightarrow> string \<Rightarrow> string \<Rightarrow> bool" where
  "alike A p q \<longleftrightarrow> p \<noteq> [] \<and> q \<noteq> []
     \<and> ae_sha1 A (bytes_of p) = ae_sha1 A (bytes_of q) \<and> ae_sha256 A (bytes_of p) = ae_sha256 A (bytes_of q)
     \<and> (\<forall>pub x y. length x = length p + 1 \<and> length y = length q + 1 \<longrightarrow> ae_encrypt A pub x = ae_encrypt A pub y)"

lemma encryptPassword_alike:
  assumes "alike A p q"
  shows "encryptPassword A (bytes_of q) seed pub = encryptPassword A (bytes_of p) seed pub"
proof -
  have enc: "length x = length p + 1 \<Longrightarrow> length y = length q + 1 \<Longrightarrow> ae_encrypt A pub x = ae_encrypt A pub y" for x y
    using assms by (auto simp: alike_def)
  let ?x = "\<lambda>s. map (\<lambda>i. ((bytes_of s @ [0]) ! i) XOR (seed ! (i mod length seed))) [0..<length (bytes_of s @ [0])]"
  have "ae_encrypt A pub (?x p) = ae_encrypt A pub (?x q)" by (rule enc) (simp_all add: bytes_of_def)
  then show ?thesis by (simp only: encryptPassword_def Let_def)
qed

lemma auth_alike:
  assumes "alike A p q" and "exposed p cfg"
  shows "auth A (cfg\<lparr>cfg_Passwd := q\<rparr>) authData plugin = auth A cfg authData plugin"
  using assms(2) encryptPassword_alike [OF assms(1)] assms(1)
  by (auto simp: auth_def exposed_def isPrivate_def passwdOf_def alike_def scramblePassword_def
      scrambleSHA256Password_def bytes_of_def split: option.split)

lemma blind_sendEncryptedPassword [blind_intro]:
  assumes "alike A p q"
  shows "blind p q (sendEncryptedPassword A seed pub)"
  unfolding sendEncryptedPassword_def
proof (rule blind_get)
  show "exposed p (mc_cfg mc) \<Longrightarrow>
      thenA (liftA (encryptPassword A (passwdOf (mc_cfg (withPasswd q mc))) seed pub)) writeAuthSwitchPacket =
      thenA (liftA (encryptPassword A (passwdOf (mc_cfg mc)) seed pub)) writeAuthSwitchPacket" for mc
    using encryptPassword_alike [OF assms] by (simp add: passwdOf_def exposed_def)
qed (intro blind_intro)

lemma blind_fullAuthentication [blind_intro]:
  assumes "alike A p q"
  shows "blind p q (fullAuthentication A seed)"
  unfolding fullAuthentication_def
  by (rule blind_get) (simp_all add: exposed_def isPrivate_def, intro blind_intro assms)

lemma blind_finishAuth [blind_intro]: "alike A p q \<Longrightarrow> blind p q (finishAuth A plugin seed data)"
  unfolding finishAuth_def by (intro blind_intro)

lemma blind_auth [blind_intro]:
  assumes "alike A p q" and "\<And>resp. blind p q (f resp)"
  shows "blind p q (thenA (getA mc_cfg) (\<lambda>cfg. thenA (liftA (auth A cfg authData plugin)) f))"
  by (rule blind_get) (auto simp: auth_alike [OF assms(1)] intro!: blind_intro assms(2))

lemma blind_handleAuthResult [blind_intro]:
  assumes "alike A p q"
  shows "blind p q (handleAuthResult A seed plugin)"
  unfolding handleAuthResult_def Let_def
  by (rule blind_thenA [OF blind_readAuthResult], rule blind_case_prod, rule blind_if)
    (intro blind_auth assms blind_finishAuth blind_intro)+

lemma blind_firstAuth [blind_intro]:
  assumes "alike A p q"
  shows "blind p q (firstAuth A authData plugin)"
  unfolding firstAuth_def
  by (rule blind_get) (auto simp: auth_alike [OF assms] intro!: blind_intro)

lemma blind_handshake: "alike A p q \<Longrightarrow> blind p q (handshake A)"
  unfolding handshake_def orCleanup_def by (intro blind_intro)

text \<open>
  C8: On a connection that others can read (neither TLS nor a Unix socket), unless the configuration
  allows the plugins for clear text and old passwords, the handshake depends on the password only
  through its hashes and encryptions: with a password that looks alike the same bytes are
  written and read, and the outcome is the same, whatever the server sends, including a
  switch to a plugin of its choice.
\<close>

theorem password_stays_hidden:
  assumes "alike A p q" and "exposed p (mc_cfg mc)" and "handshake A mc = (r, mc')"
  shows "handshake A (withPasswd q mc) = (r, withPasswd q mc') \<and> mc_net (withPasswd q mc') = mc_net mc'"
  using blind_handshake [OF assms(1)] assms(2,3) by (auto simp: blind_def)


theorem password_stays_hidden_witness:
  "let mc = withPasswd ''ab'' (demoMc [[2, 0, 0], [0, 9, 0]]); (r, mc') = handshake demoAuth mc
   in handshake demoAuth (withPasswd ''cd'' mc) = (r, withPasswd ''cd'' mc')"
proof -
  let ?mc = "withPasswd ''ab'' (demoMc [[2, 0, 0], [0, 9, 0]])"
  have "alike demoAuth ''ab'' ''cd''" by (simp add: alike_def demoAuth_def bytes_of_def)
  moreover have "exposed ''ab'' (mc_cfg ?mc)" by (simp add: exposed_def isPrivate_def demoMc_def NewConfig_def)
  moreover obtain r mc' where "handshake demoAuth ?mc = (r, mc')" by fastforce
  ultimately show ?thesis using password_stays_hidden [of demoAuth "''ab''" "''cd''" ?mc r mc'] by (simp add: Let_def)
qed

end
