(* ===== verification/LoginProps.thy ===== *)
theory LoginProps
  imports ClientSession AuthProps
begin

text \<open>
  Opening a connection: a server that greets the driver and accepts its response gets exactly the
  user, the authentication data, the database and the plugin of the configuration, and the
  connection is then at rest, ready for a conversation.
\<close>

section \<open>The greeting of the server\<close>

lemma indexByte_first: "c \<notin> set xs \<Longrightarrow> indexByte (xs @ c # ys) c = Some (length xs)"
  by (induction xs) auto

record greeting =
  gr_version :: "byte list"
  gr_connId :: "byte list"
  gr_scramble1 :: "byte list"
  gr_flags :: u16
  gr_middle :: "byte list"
  gr_scramble2 :: "byte list"
  gr_plugin :: "byte list"

definition greetingPacket :: "greeting \<Rightarrow> byte list" where
  "greetingPacket g = [10] @ gr_version g @ [0] @ gr_connId g @ gr_scramble1 g @ [0] @ to_le 2 (gr_flags g)
     @ gr_middle g @ gr_scramble2 g @ [0] @ gr_plugin g @ [0]"

definition scrambleOf :: "greeting \<Rightarrow> byte list" where
  "scrambleOf g = gr_scramble1 g @ gr_scramble2 g"

definition wf_greeting :: "greeting \<Rightarrow> bool" where
  "wf_greeting g \<longleftrightarrow> 0 \<notin> set (gr_version g) \<and> length (gr_connId g) = 4 \<and> length (gr_scramble1 g) = 8
     \<and> bit (gr_flags g) 9 \<and> length (gr_middle g) = 16 \<and> length (gr_scramble2 g) = 12
     \<and> gr_plugin g \<noteq> [] \<and> length (gr_plugin g) \<le> 21 \<and> 0 \<notin> set (gr_plugin g)"

lemma handshakeTail_greeting:
  assumes "wf_greeting g" and "data = xs @ gr_middle g @ gr_scramble2 g @ [0] @ gr_plugin g @ [0]"
  shows "handshakeTail (data, sp) (gr_scramble1 g) (int (length xs)) = Ok (scrambleOf g, gr_plugin g)"
proof -
  let ?m = "gr_middle g" and ?s = "gr_scramble2 g" and ?p = "gr_plugin g"
  have l: "length ?m = 16" "length ?s = 12" "0 \<notin> set ?p" using assms(1) by (simp_all add: wf_greeting_def)
  have "sub_slice ((xs @ ?m) @ ?s @ [0] @ ?p @ [0], sp) (int (length (xs @ ?m))) (int (length (xs @ ?m)) + int (length ?s)) = Ok ?s"
    by (rule sub_slice_append)
  then have s: "sub_slice (data, sp) (int (length xs) + 16) (int (length xs) + 28) = Ok ?s"
    using l assms(2) by (simp add: add.commute)
  have "from_pos ((xs @ ?m @ ?s @ [0]) @ ?p @ [0]) (int (length (xs @ ?m @ ?s @ [0]))) = Ok (?p @ [0])"
    by (rule from_pos_append)
  then have r: "from_pos data (int (length xs) + 29) = Ok (?p @ [0])"
    using l assms(2) by (simp add: add.commute)
  have "indexByte (?p @ [0]) 0 = Some (length ?p)" using indexByte_first [OF l(3), of "[]"] by simp
  then show ?thesis using s r assms(2) by (simp add: handshakeTail_def scrambleOf_def)
qed

lemma setFlags_ok:
  assumes "bit flags 9" and "cfg_tls (mc_cfg mc) = None"
  shows "setFlags flags mc = (Ok (), mc\<lparr>mc_flags := ucast flags\<rparr>)"
proof -
  have "bit ((ucast flags :: u32) AND clientProtocol41) 9" using assms(1)
    by (simp add: clientProtocol41_def bit_and_iff bit_exp_iff bit_ucast_iff)
  then have "(ucast flags :: u32) AND clientProtocol41 \<noteq> 0" by auto
  then show ?thesis using assms(2) by (simp add: setFlags_def seqA_def thenA_def)
qed

lemma readHandshake_greeting:
  assumes "answers [greetingPacket g] later mc" and "wf_greeting g" and "cfg_tls (mc_cfg mc) = None"
    and "frameCount (greetingPacket g) = 1"
  shows "\<exists>mc'. readHandshakePacket mc = (Ok (scrambleOf g, gr_plugin g), mc'\<lparr>mc_flags := ucast (gr_flags g)\<rparr>)
    \<and> answers [] later mc' \<and> moved (mc_status mc) mc mc' \<and> mc_sequence mc' = mc_sequence mc + 1"
proof -
  let ?d = "greetingPacket g" and ?v = "gr_version g" and ?c = "gr_connId g" and ?s = "gr_scramble1 g"
    and ?f = "to_le 2 (gr_flags g)"
  let ?t = "gr_middle g @ gr_scramble2 g @ [0] @ gr_plugin g @ [0]"
  let ?x = "[10] @ ?v @ [0] @ ?c"
  have d: "?d = ?x @ ?s @ [0] @ ?f @ ?t" by (simp add: greetingPacket_def)
  have l: "length ?c = 4" "length ?s = 8" "0 \<notin> set ?v" using assms(2) by (simp_all add: wf_greeting_def)
  have "?d \<noteq> []" by (simp add: greetingPacket_def)
  from readPacket_answers [OF assms(1) this] obtain sp mc' where
    rd: "readPacket mc = (Ok (?d, sp), mc')" and a: "answers [] later mc'" and m: "moved (mc_status mc) mc mc'"
    and sq: "mc_sequence mc' = mc_sequence mc + 1" using assms(4) by auto
  have f0: "first (?d, sp) = Ok 10" by (simp add: first_def idx_def greetingPacket_def)
  have sl: "slice_from ?d 1 = Ok (?v @ 0 # ?c @ ?s @ [0] @ ?f @ ?t)"
    by (simp add: slice_from_def greetingPacket_def)
  define n where "n = int (length ?x)"
  have px: "indexOr1 (?v @ 0 # ?c @ ?s @ [0] @ ?f @ ?t) = n - 6"
    using indexByte_first [OF l(3)] l(1) by (simp add: indexOr1_def n_def)
  have "sub_slice (?x @ ?s @ [0] @ ?f @ ?t, sp) (int (length ?x)) (int (length ?x) + int (length ?s)) = Ok ?s"
    by (rule sub_slice_append)
  then have s: "sub_slice (?d, sp) n (n + 8) = Ok ?s" unfolding d l n_def by simp
  let ?y = "?x @ ?s @ [0]" and ?z = "?x @ ?s @ [0] @ ?f"
  have yz: "int (length ?y) = n + 9" "int (length ?z) = n + 11" using l by (simp_all add: n_def)
  have "sub_slice (?y @ ?f @ ?t, sp) (int (length ?y)) (int (length ?y) + int (length ?f)) = Ok ?f"
    by (rule sub_slice_append)
  then have fl: "bindR (sub_slice (?d, sp) (n + 9) (n + 11)) (le_uint 2) = Ok (gr_flags g)"
    unfolding d yz by (simp add: le_uint_to_le add.commute)
  have "handshakeTail (?d, sp) ?s (int (length ?z)) = Ok (scrambleOf g, gr_plugin g)"
    by (rule handshakeTail_greeting [OF assms(2)]) (simp add: d)
  then have t: "handshakeTail (?d, sp) ?s (n + 11) = Ok (scrambleOf g, gr_plugin g)" unfolding yz .
  have "cfg_tls (mc_cfg mc') = None" using moved_fields [OF m] assms(3) by simp
  moreover have "bit (gr_flags g) 9" using assms(2) by (simp add: wf_greeting_def)
  ultimately have sf: "setFlags (gr_flags g) mc' = (Ok (), mc'\<lparr>mc_flags := ucast (gr_flags g)\<rparr>)" by (intro setFlags_ok)
  have "(10 :: byte) \<noteq> iERR" "\<not> (10 :: byte) < minProtocolVersion" by (simp_all add: const_defs minProtocolVersion_def)
  then have "readHandshakePacket mc = (Ok (scrambleOf g, gr_plugin g), mc'\<lparr>mc_flags := ucast (gr_flags g)\<rparr>)"
    using rd f0 sl s fl t sf
    by (simp add: readHandshakePacket_def tryA_def thenA_def liftA_def seqA_def Let_def px [simplified] ac_simps)
  with a m sq show ?thesis by blast
qed

section \<open>The response of the driver\<close>

record login =
  lg_user :: "byte list"
  lg_response :: "byte list"
  lg_database :: "byte list option"
  lg_plugin :: "byte list"

definition cutZero :: "byte list \<Rightarrow> (byte list \<times> byte list) option" where
  "cutZero b = (case indexByte b 0 of None \<Rightarrow> None | Some q \<Rightarrow> Some (take q b, drop (Suc q) b))"

lemma cutZero_append: "0 \<notin> set xs \<Longrightarrow> cutZero (xs @ 0 # ys) = Some (xs, ys)"
  by (simp add: cutZero_def indexByte_first)

text \<open>How a server reads the response: 32 bytes with the flags in front, then the parts.\<close>

definition readLogin :: "byte list \<Rightarrow> login option" where
  "readLogin p =
     (let flags = le_bytes (take 4 p) :: u32
      in case cutZero (drop 32 p) of
        None \<Rightarrow> None
      | Some (user, b) \<Rightarrow> (case readLengthEncodedInteger b of
          Ok (n, _, k) \<Rightarrow>
            let resp = take (unat n) (drop k b); b = drop (unat n) (drop k b)
            in (case (if bit flags 3 then map_option (\<lambda>(db, b). (Some db, b)) (cutZero b) else Some (None, b)) of
                  None \<Rightarrow> None
                | Some (db, b) \<Rightarrow> (case cutZero b of
                    None \<Rightarrow> None
                  | Some (plugin, _) \<Rightarrow> Some \<lparr>lg_user = user, lg_response = resp, lg_database = db, lg_plugin = plugin\<rparr>))
        | _ \<Rightarrow> None))"

definition loginPayload :: "mysqlConn \<Rightarrow> byte \<Rightarrow> byte list \<Rightarrow> byte list \<Rightarrow> byte list" where
  "loginPayload mc charset resp plugin =
     (let cfg = mc_cfg mc; lei = appendLengthEncodedInteger [] (of_nat (length resp))
      in u32Bytes (clientFlags mc (length lei)) @ replicate 4 0 @ [charset] @ replicate 23 0 @ bytes_of (cfg_User cfg)
        @ [0] @ lei @ resp @ (if cfg_DBName cfg \<noteq> [] then bytes_of (cfg_DBName cfg) @ [0] else []) @ plugin @ [0])"

definition loginOf :: "Config \<Rightarrow> byte list \<Rightarrow> byte list \<Rightarrow> login" where
  "loginOf cfg resp plugin = \<lparr>lg_user = bytes_of (cfg_User cfg), lg_response = resp,
     lg_database = (if cfg_DBName cfg \<noteq> [] then Some (bytes_of (cfg_DBName cfg)) else None), lg_plugin = plugin\<rparr>"

lemma clientFlags_db: "bit (clientFlags mc n) 3 \<longleftrightarrow> cfg_DBName (mc_cfg mc) \<noteq> []"
  by (simp add: clientFlags_def orIf_def Let_def bit_or_iff bit_and_iff bit_exp_iff clientConnectWithDB_def
      clientPluginAuthLenEncClientData_def clientMultiStatements_def clientSSL_def clientFoundRows_def
      clientProtocol41_def clientSecureConn_def clientLongPassword_def clientTransactions_def clientLocalFiles_def
      clientPluginAuth_def clientMultiResults_def clientLongFlag_def)

text \<open>What the driver can send in one response: names without zero bytes, and room in its buffer.\<close>

definition fitsLogin :: "Config \<Rightarrow> byte list \<Rightarrow> bool" where
  "fitsLogin cfg resp \<longleftrightarrow> 0 \<notin> set (bytes_of (cfg_User cfg)) \<and> 0 \<notin> set (bytes_of (cfg_DBName cfg))
     \<and> length (cfg_User cfg) + length (cfg_DBName cfg) + length resp \<le> 4000"

lemma readLogin_payload:
  assumes "fitsLogin (mc_cfg mc) resp" and "0 \<notin> set plugin"
  shows "readLogin (loginPayload mc charset resp plugin) = Some (loginOf (mc_cfg mc) resp plugin)"
proof -
  let ?cfg = "mc_cfg mc" and ?lei = "appendLengthEncodedInteger [] (of_nat (length resp))"
  let ?db = "if cfg_DBName ?cfg \<noteq> [] then bytes_of (cfg_DBName ?cfg) @ [0] else []"
  let ?b = "?lei @ resp @ ?db @ plugin @ [0]" and ?fl = "clientFlags mc (length ?lei)"
  let ?u = "u32Bytes ?fl"
  have u4: "length ?u = 4" by (simp add: u32Bytes_def)
  have p: "loginPayload mc charset resp plugin = ?u @ (replicate 4 0 @ [charset] @ replicate 23 0) @ bytes_of (cfg_User ?cfg) @ 0 # ?b"
    by (simp add: loginPayload_def Let_def)
  have fl: "le_bytes (take 4 (loginPayload mc charset resp plugin)) = ?fl" unfolding p using u4 by simp
  have d: "drop 32 (loginPayload mc charset resp plugin) = bytes_of (cfg_User ?cfg) @ 0 # ?b" unfolding p using u4 by simp
  have us: "cutZero (drop 32 (loginPayload mc charset resp plugin)) = Some (bytes_of (cfg_User ?cfg), ?b)"
    unfolding d using assms(1) by (intro cutZero_append) (simp add: fitsLogin_def)
  have l: "readLengthEncodedInteger ?b = Ok (of_nat (length resp), False, length ?lei)" by (rule read_append_lenenc)
  have n: "unat (of_nat (length resp) :: u64) = length resp"
    using assms(1) by (simp add: fitsLogin_def unsigned_of_nat take_bit_nat_eq_self)
  have db: "(if bit ?fl 3 then map_option (\<lambda>(db, b). (Some db, b)) (cutZero (?db @ plugin @ [0])) else Some (None, ?db @ plugin @ [0]))
    = Some (lg_database (loginOf ?cfg resp plugin), plugin @ [0])"
    using assms(1) cutZero_append [of "bytes_of (cfg_DBName ?cfg)" "plugin @ [0]"]
    by (simp add: clientFlags_db fitsLogin_def loginOf_def)
  have pl: "cutZero (plugin @ [0]) = Some (plugin, [])" using cutZero_append [OF assms(2), of "[]"] by simp
  have parts: "take (length resp) (drop (length ?lei) ?b) = resp" "drop (length resp) (drop (length ?lei) ?b) = ?db @ plugin @ [0]"
    by simp_all
  show ?thesis unfolding readLogin_def Let_def fl us
    by (simp only: option.case split_conv l res.case n parts db pl) (simp add: loginOf_def)
qed

lemma writeHandshakeResponse_ok:
  assumes "canWrite mc" "\<not> mc_reset mc" "wf_mc mc" "b_length (mc_buf mc) = 0"
    and "cfg_tls (mc_cfg mc) = None" "map_of collations (cfg_Collation (mc_cfg mc)) = Some charset"
    and "fitsLogin (mc_cfg mc) resp" "length plugin \<le> 21" "int maxPacketSize \<le> mc_maxAllowedPacket mc"
  shows "\<exists>mc'. writeHandshakeResponsePacket A resp plugin mc = (Ok (), mc')
    \<and> wrote (frames (mc_sequence mc) (loginPayload mc charset resp plugin))
        (frameCount (loginPayload mc charset resp plugin)) mc mc' \<and> frameCount (loginPayload mc charset resp plugin) = 1"
proof -
  let ?cfg = "mc_cfg mc" and ?lei = "appendLengthEncodedInteger [] (of_nat (length resp))"
  let ?len = "4 + 4 + 1 + 23 + length (cfg_User ?cfg) + 1 + length ?lei + length resp + 21 + 1
     + (if cfg_DBName ?cfg \<noteq> [] then length (cfg_DBName ?cfg) + 1 else 0) + 4"
  let ?p = "loginPayload mc charset resp plugin"
  have sz: "length (cfg_User ?cfg) + length (cfg_DBName ?cfg) + length resp \<le> 4000"
    using assms(7) by (simp add: fitsLogin_def)
  have lei: "length ?lei \<le> 9" by (simp add: appendLengthEncodedInteger_def)
  have room: "4096 \<le> length (arr (mc_buf mc) (b_buf (mc_buf mc)))"
    using assms(3) by (simp add: wf_mc_def roomy_def defaultBufSize_def)
  have fit: "?len \<le> length (arr (mc_buf mc) (b_buf (mc_buf mc)))" using sz lei room by auto
  let ?s = "(b_buf (mc_buf mc), 0, ?len)"
  let ?data = "bytesAt (mc_buf mc) ?s"
  have tk: "takeSmallBuffer ?len (mc_buf mc) = (Ok ?s, mc_buf mc)"
    using assms(4) fit by (simp add: takeSmallBuffer_def cutBuf_def)
  have ld: "length ?data = ?len" using fit by (simp add: bytesAt_def)
  have lp: "length ?p \<le> 4096" using sz lei assms(8) by (simp add: loginPayload_def Let_def u32Bytes_def)
  have "length (take 4 ?data) = 4" using ld by simp
  then have d: "drop 4 (take 4 ?data @ ?p) = ?p" "length (take 4 ?data @ ?p) = 4 + length ?p" by simp_all
  have "int (length ?p) \<le> mc_maxAllowedPacket mc" using lp assms(9) by (simp add: maxPacketSize_def)
  with writePacket_frames [OF assms(1,2), of "take 4 ?data @ ?p"] d obtain mc' where
    wp: "writePacket (take 4 ?data @ ?p) mc = (Ok (), mc')" and wr: "wrote (frames (mc_sequence mc) ?p) (frameCount ?p) mc mc'"
    by auto
  have "writeHandshakeResponsePacket A resp plugin mc = (Ok (), mc')"
    using tk wp assms(5,6,8)
    by (cases "cfg_DBName ?cfg = []")
      (simp_all add: writeHandshakeResponsePacket_def loginPayload_def Let_def thenA_def [of "tryA _"] tryA_onBuf)
  moreover have "frameCount ?p = 1" using lp by (simp add: frameCount_def maxPacketSize_def)
  ultimately show ?thesis using wr by blast
qed

section \<open>The whole handshake\<close>

lemma wrote_answers:
  assumes "idle mc" and "wrote out k mc mc'" and "inbox (packets (mc_sequence mc + of_nat k) ps) later mc"
  shows "answers ps later mc' \<and> canWrite mc' \<and> \<not> mc_closed mc' \<and> \<not> mc_reset mc' \<and> mc_cfg mc' = mc_cfg mc
    \<and> mc_parseTime mc' = mc_parseTime mc \<and> n_out (mc_net mc') = n_out (mc_net mc) @ out"
proof -
  have i: "canWrite mc" "canRead mc" "wf_mc mc" "\<not> mc_reset mc" "\<not> mc_closed mc" "b_length (mc_buf mc) = 0"
    using assms(1) by (simp_all add: idle_def)
  from assms(2) obtain dl where mc': "mc' = updNet (\<lambda>c. c\<lparr>n_writeDl := dl, n_out := n_out c @ out\<rparr>)
      (mc\<lparr>mc_sequence := mc_sequence mc + of_nat k\<rparr>)" by (auto simp: wrote_def)
  have w: "canRead mc'" "wf_mc mc'" using i(2,3)
    by (simp_all add: mc' updNet_def canRead_def wf_mc_def wf_buffer_def roomy_def healthy_def arr_def)
  from assms(3) obtain now where now: "n_in (mc_net mc) = now @ later"
    and p: "concat (map fst now) = packets (mc_sequence mc + of_nat k) ps" unfolding inbox_def by blast
  have "n_in (mc_net mc') = now @ later \<and> buffered (mc_buf mc') @ concat (map fst now) = packets (mc_sequence mc') ps"
    using now p i(6) by (simp add: mc' updNet_def buffered_def)
  with w have "answers ps later mc'" unfolding answers_def by blast
  with wrote_canWrite [OF assms(2) i(1)] i(4,5) show ?thesis by (simp add: mc' updNet_def)
qed

lemma handleAuthResult_ok:
  assumes "answers [okPacket rows ident st] later mc"
  shows "\<exists>mc'. handleAuthResult A old plugin mc
      = (Ok (), mc'\<lparr>mc_affectedRows := rows, mc_insertId := ident, mc_status := st\<rparr>)
    \<and> answers [] later mc' \<and> moved (mc_status mc) mc mc'"
proof -
  have "okPacket rows ident st \<noteq> []" by (simp add: okPacket_def)
  from readPacket_answers [OF assms this] obtain sp mc' where
    rd: "readPacket mc = (Ok (okPacket rows ident st, sp), mc')" and a: "answers [] later mc'" "moved (mc_status mc) mc mc'"
    by blast
  have "first (okPacket rows ident st, sp) = Ok iOK" by (simp add: first_def idx_def okPacket_def)
  then have "handleAuthResult A old plugin mc
      = (Ok (), mc'\<lparr>mc_affectedRows := rows, mc_insertId := ident, mc_status := st\<rparr>)"
    using rd handleOkPacket_ok [of rows ident st sp mc']
    by (simp add: handleAuthResult_def readAuthResult_def finishAuth_def dataOf_def thenA_def liftA_def seqA_def)
  with a show ?thesis by blast
qed

text \<open>A connection before the handshake, on which nothing has been read yet.\<close>

definition freshConn :: "mysqlConn \<Rightarrow> bool" where
  "freshConn mc \<longleftrightarrow> idle mc \<and> mc_sequence mc = 0 \<and> mc_maxAllowedPacket mc = int maxPacketSize"

lemma handshake_ok:
  assumes "freshConn mc" and "wf_greeting g" and "cfg_tls (mc_cfg mc) = None"
    and "map_of collations (cfg_Collation (mc_cfg mc)) = Some charset"
    and "auth A (mc_cfg mc) (scrambleOf g, []) (gr_plugin g) = Ok resp" "fitsLogin (mc_cfg mc) resp"
    and "inbox (packets 0 [greetingPacket g]) (ok @ later) mc"
    and "frameCount (greetingPacket g) = 1" "concat (map fst ok) = packets 2 [okPacket rows ident st]"
  shows "\<exists>payload mc'. handshake A mc = (Ok (), mc') \<and> readLogin payload = Some (loginOf (mc_cfg mc) resp (gr_plugin g))
    \<and> n_out (mc_net mc') = n_out (mc_net mc) @ frames 1 payload \<and> idle mc' \<and> inbox [] later mc'
    \<and> mc_cfg mc' = mc_cfg mc \<and> mc_parseTime mc' = mc_parseTime mc"
proof -
  let ?cfg = "mc_cfg mc"
  have fr: "idle mc" "mc_sequence mc = 0" "mc_maxAllowedPacket mc = int maxPacketSize" using assms(1) by (simp_all add: freshConn_def)
  have b0: "b_length (mc_buf mc) = 0" using fr(1) by (simp add: idle_def)
  have "answers [greetingPacket g] (ok @ later) mc"
    using assms(7) fr b0 by (auto simp: answers_def inbox_def idle_def buffered_def)
  from readHandshake_greeting [OF this assms(2,3,8)] obtain mc1 where
    rh: "readHandshakePacket mc = (Ok (scrambleOf g, gr_plugin g), mc1\<lparr>mc_flags := ucast (gr_flags g)\<rparr>)"
    and a1: "answers [] (ok @ later) mc1" and m1: "moved (mc_status mc) mc mc1" and s1: "mc_sequence mc1 = mc_sequence mc + 1"
    by blast
  let ?mc1 = "mc1\<lparr>mc_flags := ucast (gr_flags g)\<rparr>"
  have k1: "mc_cfg mc1 = ?cfg" "canWrite mc1" "\<not> mc_closed mc1" "\<not> mc_reset mc1" "mc_maxAllowedPacket mc1 = int maxPacketSize"
      "n_out (mc_net mc1) = n_out (mc_net mc)"
    using moved_fields [OF m1] fr by (simp_all add: idle_def)
  have "idle mc1" "inbox [] (ok @ later) mc1" using idle_after [OF a1 k1(2-4)] by simp_all
  with inbox_next have i1: "idle ?mc1" "inbox (packets 2 [okPacket rows ident st]) later ?mc1"
    unfolding assms(9) [symmetric] by (simp_all add: idle_def canWrite_def canRead_def wf_mc_def inbox_def)
  have fa: "firstAuth A (scrambleOf g) (gr_plugin g) ?mc1 = (Ok (resp, gr_plugin g), ?mc1)"
    using assms(5) k1(1) by (simp add: firstAuth_def thenA_def tryA_def liftA_def)
  have pl: "length (gr_plugin g) \<le> 21" "0 \<notin> set (gr_plugin g)" "gr_plugin g \<noteq> []"
    using assms(2) by (simp_all add: wf_greeting_def)
  let ?p = "loginPayload ?mc1 charset resp (gr_plugin g)"
  obtain mc2 where
    w: "writeHandshakeResponsePacket A resp (gr_plugin g) ?mc1 = (Ok (), mc2)"
    and wr: "wrote (frames 1 ?p) 1 ?mc1 mc2"
    using writeHandshakeResponse_ok [of ?mc1 charset resp "gr_plugin g" A] i1(1) k1 assms(3,4,6) pl(1) s1 fr(2)
    by (auto simp: idle_def)
  have "inbox (packets (mc_sequence ?mc1 + of_nat 1) [okPacket rows ident st]) later ?mc1"
    using i1(2) s1 fr(2) by simp
  note a2 = wrote_answers [OF i1(1) wr this]
  from a2 handleAuthResult_ok obtain mc3 where
    h: "handleAuthResult A (scrambleOf g) (gr_plugin g) mc2
      = (Ok (), mc3\<lparr>mc_affectedRows := rows, mc_insertId := ident, mc_status := st\<rparr>)"
    and a3: "answers [] later mc3" and m3: "moved (mc_status mc2) mc2 mc3" by blast
  let ?mc3 = "mc3\<lparr>mc_affectedRows := rows, mc_insertId := ident, mc_status := st\<rparr>"
  have "handshake A mc = (Ok (), ?mc3)" using rh fa w h pl(3)
    by (simp add: handshake_def orCleanup_def thenA_def tryA_def seqA_def)
  moreover have "readLogin ?p = Some (loginOf ?cfg resp (gr_plugin g))"
    using readLogin_payload [of ?mc1 resp "gr_plugin g" charset] assms(6) k1(1) pl(2) by simp
  moreover have "answers [] later ?mc3" "canWrite ?mc3" "\<not> mc_closed ?mc3" "\<not> mc_reset ?mc3"
    using a3 a2 moved_fields [OF m3] by (simp_all add: answers_update canWrite_def)
  note idle_after [OF this]
  moreover have "n_out (mc_net ?mc3) = n_out (mc_net mc) @ frames 1 ?p" "mc_cfg ?mc3 = ?cfg"
    "mc_parseTime ?mc3 = mc_parseTime mc"
    using a2 moved_fields [OF m1] moved_fields [OF m3] k1 by simp_all
  ultimately show ?thesis by blast
qed

section \<open>Connecting\<close>

definition netReady :: "net \<Rightarrow> bool" where
  "netReady nc \<longleftrightarrow> healthy nc \<and> n_wres nc = [] \<and> list_all (\<lambda>e. e = None) (n_writeDl nc)"

text \<open>A configuration without TLS and further parameters, with a limit and a known collation.\<close>

definition plainConfig :: "Config \<Rightarrow> bool" where
  "plainConfig cfg \<longleftrightarrow> cfg_tls cfg = None \<and> cfg_Params cfg = [] \<and> 0 < cfg_MaxAllowedPacket cfg
     \<and> cfg_Collation cfg \<in> fst ` set collations"

lemma fresh_newConn:
  assumes "netReady nc"
  shows "freshConn (setTimeouts ((newConn cfg nc)\<lparr>mc_watching := w\<rparr>))"
  using assms newBuffer_wf [of nc] newBuffer_roomy [of nc]
  by (simp add: freshConn_def netReady_def idle_def setTimeouts_def newConn_def canWrite_def canRead_def wf_mc_def
      newBuffer_def healthy_def wf_buffer_def roomy_def arr_def)

lemma idle_updates:
  "idle (mc\<lparr>mc_maxAllowedPacket := m, mc_maxWriteSize := k\<rparr>) = idle mc" "idle (mc\<lparr>mc_maxAllowedPacket := m\<rparr>) = idle mc"
  "idle (mc\<lparr>mc_watching := w\<rparr>) = idle mc"
  by (simp_all add: idle_def canWrite_def canRead_def wf_mc_def)

lemma setLimits_ok:
  assumes "0 < cfg_MaxAllowedPacket (mc_cfg mc)"
  shows "\<exists>k. setLimits D mc = (Ok (), mc\<lparr>mc_maxAllowedPacket := cfg_MaxAllowedPacket (mc_cfg mc), mc_maxWriteSize := k\<rparr>)"
proof (cases "cfg_MaxAllowedPacket (mc_cfg mc) < int maxPacketSize")
  case True
  then show ?thesis using assms by (auto simp: setLimits_def seqA_def thenA_def)
next
  case False
  then have "setLimits D mc = (Ok (), mc\<lparr>mc_maxAllowedPacket := cfg_MaxAllowedPacket (mc_cfg mc), mc_maxWriteSize := mc_maxWriteSize mc\<rparr>)"
    using assms by (cases mc) (simp add: setLimits_def seqA_def thenA_def)
  then show ?thesis by blast
qed

lemma handleParams_none: "cfg_Params (mc_cfg mc) = [] \<Longrightarrow> handleParams D order mc = (Ok (), mc)"
  by (simp add: handleParams_def range_order_eq_Nil)

text \<open>
  C7: Connecting without TLS, with a configuration that has no further parameters, a positive packet
  limit and a known collation, over a network that does not fail: when the server greets the driver
  with a plugin that the driver can answer and accepts the answer at once with an OK packet (no switch
  of the plugin, no further round), the result is a connection at rest. The driver has then sent one
  packet, in which the server reads the configured user, the plugin's answer to its scramble, the
  configured database and the plugin; the configured limit holds, and the connector's configuration
  is what it was. (With TLS the driver sends a request of its own first; where TLS is only preferred
  and the server lacks it, the handshake switches it off in the configuration.)
\<close>

theorem connect_logs_in:
  assumes "dialNet E cfg = Inr nc" "di_keepAlive E = None" "netReady nc" and "cx_err ctx = None"
    and "plainConfig cfg" and "wf_greeting g" "frameCount (greetingPacket g) = 1"
    and "auth A cfg (scrambleOf g, []) (gr_plugin g) = Ok resp" "fitsLogin cfg resp"
    and "n_in nc = hello @ ok @ later"
    and "concat (map fst hello) = packets 0 [greetingPacket g]" "concat (map fst ok) = packets 2 [okPacket rows ident st]"
  shows "\<exists>payload mc. Connect A D E order ctx cfg = (Ok mc, cfg)
    \<and> readLogin payload = Some (loginOf cfg resp (gr_plugin g)) \<and> n_out (mc_net mc) = n_out nc @ frames 1 payload
    \<and> idle mc \<and> inbox [] later mc \<and> mc_cfg mc = cfg \<and> mc_parseTime mc = cfg_ParseTime cfg
    \<and> mc_maxAllowedPacket mc = cfg_MaxAllowedPacket cfg"
proof -
  let ?w = "cx_hasDone ctx"
  let ?mc0 = "setTimeouts ((newConn cfg nc)\<lparr>mc_watching := ?w\<rparr>)"
  have pc: "cfg_tls cfg = None" "cfg_Params cfg = []" "0 < cfg_MaxAllowedPacket cfg" using assms(5) by (simp_all add: plainConfig_def)
  from assms(5) obtain charset where cs: "map_of collations (cfg_Collation cfg) = Some charset"
    by (auto simp: plainConfig_def dest!: weak_map_of_SomeI)
  have c0: "mc_cfg ?mc0 = cfg" "mc_parseTime ?mc0 = cfg_ParseTime cfg" "n_out (mc_net ?mc0) = n_out nc" "n_in (mc_net ?mc0) = n_in nc"
    by (simp_all add: setTimeouts_def newConn_def newBuffer_def)
  have "inbox (packets 0 [greetingPacket g]) (ok @ later) ?mc0"
    using assms(10,11) unfolding inbox_def c0 by blast
  from handshake_ok [OF fresh_newConn [OF assms(3), where cfg = cfg and w = ?w] assms(6), unfolded c0, OF pc(1) cs assms(8,9) this assms(7,12)]
  obtain payload mc1 where
    h: "handshake A ?mc0 = (Ok (), mc1)" and pl: "readLogin payload = Some (loginOf cfg resp (gr_plugin g))"
    and o: "n_out (mc_net mc1) = n_out nc @ frames 1 payload" and i: "idle mc1" "inbox [] later mc1"
    and k: "mc_cfg mc1 = cfg" "mc_parseTime mc1 = cfg_ParseTime cfg" by blast
  from setLimits_ok [of mc1 D] pc(3) k obtain n where
    l: "setLimits D mc1 = (Ok (), mc1\<lparr>mc_maxAllowedPacket := cfg_MaxAllowedPacket cfg, mc_maxWriteSize := n\<rparr>)" by auto
  let ?mc2 = "mc1\<lparr>mc_maxAllowedPacket := cfg_MaxAllowedPacket cfg, mc_maxWriteSize := n\<rparr>"
  have p: "handleParams D order ?mc2 = (Ok (), ?mc2)" using pc(2) k by (intro handleParams_none) simp
  obtain w where fin: "finish ?mc2 = (Ok (), ?mc2\<lparr>mc_watching := w\<rparr>)"
    by (cases "\<not> mc_watching ?mc2 \<or> \<not> mc_watcher ?mc2 \<or> mc_closed ?mc2") (auto simp: finish_def intro: that [of False] that [of "mc_watching ?mc2"])
  let ?mc3 = "?mc2\<lparr>mc_watching := w\<rparr>"
  have wc: "watchCancel ctx (newConn cfg nc) = (Ok (), (newConn cfg nc)\<lparr>mc_watching := ?w\<rparr>)"
    using assms(4) by (simp add: watchCancel_def newConn_def)
  have "openConn A D order ctx (newConn cfg nc) = (Ok (), ?mc3)"
    using wc h l p fin
    by (simp add: openConn_def orCleanup_def orClose_def deferFinish_def seqA_def thenA_def tryA_def)
  then have "Connect A D E order ctx cfg = (Ok ?mc3, cfg)" using assms(1,2) k by (simp add: Connect_def)
  moreover have "idle ?mc3" "inbox [] later ?mc3" using i by (simp_all add: idle_updates inbox_def)
  ultimately show ?thesis using pl o k by (intro exI [of _ payload] exI [of _ ?mc3]) simp
qed

definition demoGreeting :: greeting where
  "demoGreeting = \<lparr>gr_version = bytes_of ''8.0'', gr_connId = [1, 0, 0, 0], gr_scramble1 = replicate 8 7, gr_flags = 0xF7FF,
     gr_middle = replicate 16 0, gr_scramble2 = replicate 12 9, gr_plugin = bytes_of ''mysql_native_password''\<rparr>"

definition demoConfig :: Config where
  "demoConfig = NewConfig\<lparr>cfg_User := ''app'', cfg_Passwd := ''pw'', cfg_DBName := ''shop''\<rparr>"

definition demoDial :: dialEnv where
  "demoDial = \<lparr>di_dials = [], di_default = (\<lambda>n a. Inr (demoNet [packets 0 [greetingPacket demoGreeting],
     packets 2 [okPacket 0 0 2]])), di_keepAlive = None\<rparr>"

theorem connect_logs_in_witness:
  "\<exists>payload mc. Connect demoAuth demoDriver demoDial [] \<lparr>cx_err = None, cx_hasDone = True, cx_later = None\<rparr> demoConfig = (Ok mc, demoConfig)
    \<and> readLogin payload = Some (loginOf demoConfig (replicate 20 (40 XOR 2)) (bytes_of ''mysql_native_password''))
    \<and> n_out (mc_net mc) = frames 1 payload \<and> idle mc"
proof -
  let ?hello = "packets 0 [greetingPacket demoGreeting]" and ?ok = "packets 2 [okPacket 0 0 2]"
  let ?net = "demoNet [?hello, ?ok]" and ?resp = "map (\<lambda>_. 22 XOR 2) [0..<20::nat] :: byte list"
  have d: "dialNet demoDial demoConfig = Inr ?net" "di_keepAlive demoDial = None"
    by (simp_all add: dialNet_def demoDial_def)
  have n: "netReady ?net" "n_in ?net = [(?hello, None)] @ [(?ok, None)] @ []" "n_out ?net = []"
    by (simp_all add: netReady_def healthy_def demoNet_def)
  have c: "plainConfig demoConfig" by code_simp
  have g: "wf_greeting demoGreeting" by code_simp
  have f: "frameCount (greetingPacket demoGreeting) = 1"
    by (simp add: demoGreeting_def bytes_of_def frameCount_def maxPacketSize_def greetingPacket_def)
  have a: "gr_plugin demoGreeting = bytes_of ''mysql_native_password''" by (simp add: demoGreeting_def)
  have pw: "passwdOf demoConfig = [0x70, 0x77]" by code_simp
  have sc: "scrambleOf demoGreeting = replicate 8 7 @ replicate 12 9" by (simp add: scrambleOf_def demoGreeting_def)
  have "bytes_of ''mysql_native_password'' \<noteq> bytes_of ''caching_sha2_password''"
    "bytes_of ''mysql_native_password'' \<noteq> bytes_of ''mysql_old_password''"
    "bytes_of ''mysql_native_password'' \<noteq> bytes_of ''mysql_clear_password''" by code_simp+
  then have r: "auth demoAuth demoConfig (scrambleOf demoGreeting, []) (gr_plugin demoGreeting) = Ok (replicate 20 (40 XOR 2))"
    using pw sc
    by (simp add: a auth_def scramblePassword_def xorBytes_def demoAuth_def demoConfig_def NewConfig_def sub_slice_def
        slice_int_def Let_def)
  have l: "fitsLogin demoConfig (replicate 20 (40 XOR 2))" by code_simp
  have "cx_err \<lparr>cx_err = None, cx_hasDone = True, cx_later = None\<rparr> = None" by simp
  moreover have "concat (map fst [(?hello, None)]) = ?hello" "concat (map fst [(?ok, None)]) = ?ok" by simp_all
  ultimately have "\<exists>payload mc. Connect demoAuth demoDriver demoDial [] \<lparr>cx_err = None, cx_hasDone = True, cx_later = None\<rparr>
      demoConfig = (Ok mc, demoConfig)
    \<and> readLogin payload = Some (loginOf demoConfig (replicate 20 (40 XOR 2)) (gr_plugin demoGreeting))
    \<and> n_out (mc_net mc) = n_out ?net @ frames 1 payload \<and> idle mc"
    using connect_logs_in [OF d n(1) _ c g f r l n(2)] by blast
  then show ?thesis
    unfolding n(3) a append_Nil .
qed

end
