(* ===== verification/MysqlDsn.thy ===== *)
theory MysqlDsn
  imports MysqlAuth GoStrconv "HOL-Library.AList" "HOL-Library.Char_ord" "HOL-Library.List_Lexorder"
begin

text \<open>
  Data source names (\<open>mysql/dsn.go\<close>), the registered TLS configurations (\<open>mysql/utils.go\<close>) and the
  constructors of connectors (\<open>mysql/driver.go\<close>). A string is its bytes. Package \<open>time\<close>'s text of
  durations and its database of locations are arguments (\<open>dsnEnv\<close>), as are the registries; the
  escaping of package \<open>net/url\<close> and the host and port of package \<open>net\<close> are modelled. A map is an
  association list.
\<close>

record dsnEnv =
  dn_fmtDuration :: "int \<Rightarrow> string"
  dn_parseDuration :: "string \<Rightarrow> gerr + int"
  dn_loadLocation :: "string \<Rightarrow> gerr + location"
  dn_tls :: "(string \<times> tlsConfig) list"
  dn_pubKeys :: pubKeys

section \<open>Strings\<close>

text \<open>The parts of a string before and after the first, and the last, occurrence of a byte.\<close>

fun cut :: "char \<Rightarrow> string \<Rightarrow> string \<times> string option" where
  "cut c [] = ([], None)"
| "cut c (x # xs) = (if x = c then ([], Some xs) else case cut c xs of (a, b) \<Rightarrow> (x # a, b))"

definition cutLast :: "char \<Rightarrow> string \<Rightarrow> string option \<times> string" where
  "cutLast c s = (case cut c (rev s) of (a, None) \<Rightarrow> (None, s) | (a, Some b) \<Rightarrow> (Some (rev b), rev a))"

definition toLower :: "char \<Rightarrow> char" where
  "toLower c = (let n = of_char c :: nat in if 65 \<le> n \<and> n \<le> 90 then char_of (n + 32) else c)"

section \<open>Escaping of query components\<close>

definition unreserved :: "char \<Rightarrow> bool" where
  "unreserved c = (let n = of_char c :: nat
     in (97 \<le> n \<and> n \<le> 122) \<or> (65 \<le> n \<and> n \<le> 90) \<or> (48 \<le> n \<and> n \<le> 57) \<or> c \<in> set ''-_.~'')"

definition hexDigit :: "nat \<Rightarrow> char" where
  "hexDigit n = ''0123456789ABCDEF'' ! n"

definition unhex :: "char \<Rightarrow> nat option" where
  "unhex c = (let n = of_char c :: nat
     in if 48 \<le> n \<and> n \<le> 57 then Some (n - 48)
        else if 97 \<le> n \<and> n \<le> 102 then Some (n - 87)
        else if 65 \<le> n \<and> n \<le> 70 then Some (n - 55) else None)"

definition escapeChar :: "char \<Rightarrow> string" where
  "escapeChar c = (if unreserved c then [c] else if c = CHR '' '' then ''+''
     else [CHR ''%'', hexDigit (of_char c div 16), hexDigit (of_char c mod 16)])"

definition QueryEscape :: "string \<Rightarrow> string" where
  "QueryEscape s = concat (map escapeChar s)"

fun QueryUnescape :: "string \<Rightarrow> gerr + string" where
  "QueryUnescape [] = Inr []"
| "QueryUnescape (c # s) =
     (if c = CHR ''%'' then
        (case s of
           a # b # s' \<Rightarrow> (case (unhex a, unhex b) of
               (Some m, Some n) \<Rightarrow> (case QueryUnescape s' of Inl e \<Rightarrow> Inl e | Inr t \<Rightarrow> Inr (char_of (16 * m + n) # t))
             | _ \<Rightarrow> Inl (ErrMsg ''invalid URL escape ''))
         | _ \<Rightarrow> Inl (ErrMsg ''invalid URL escape ''))
      else case QueryUnescape s of Inl e \<Rightarrow> Inl e
        | Inr t \<Rightarrow> Inr ((if c = CHR ''+'' then CHR '' '' else c) # t))"

section \<open>Host and port\<close>

definition splitHostPort :: "string \<Rightarrow> (string \<times> string) option" where
  "splitHostPort hostport =
     (case cutLast CHR '':'' hostport of
        (None, _) \<Rightarrow> None
      | (Some front, port) \<Rightarrow>
          if hostport ! 0 = CHR ''['' then
            (case cut CHR '']'' (tl hostport) of
               (host, Some rest) \<Rightarrow>
                 if length host + 2 = length front \<and> CHR ''['' \<notin> set (tl hostport) \<and> CHR '']'' \<notin> set rest
                 then Some (host, port) else None
             | (_, None) \<Rightarrow> None)
          else if CHR '':'' \<in> set front \<or> CHR ''['' \<in> set hostport \<or> CHR '']'' \<in> set hostport then None
          else Some (front, port))"

definition joinHostPort :: "string \<Rightarrow> string \<Rightarrow> string" where
  "joinHostPort host port =
     (if CHR '':'' \<in> set host then ''['' @ host @ '']:'' @ port else host @ '':'' @ port)"

definition ensureHavePort :: "string \<Rightarrow> string" where
  "ensureHavePort addr = (if splitHostPort addr = None then joinHostPort addr ''3306'' else addr)"

section \<open>TLS configurations\<close>

definition RegisterTLSConfig :: "string \<Rightarrow> tlsConfig \<Rightarrow> dsnEnv \<Rightarrow> gerr option \<times> dsnEnv" where
  "RegisterTLSConfig key config E =
     (if snd (readBool key) \<or> map toLower key = ''skip-verify'' \<or> map toLower key = ''preferred''
      then (Some (ErrMsg ''key '%s' is reserved''), E)
      else (None, E\<lparr>dn_tls := AList.update key config (dn_tls E)\<rparr>))"

definition DeregisterTLSConfig :: "string \<Rightarrow> dsnEnv \<Rightarrow> dsnEnv" where
  "DeregisterTLSConfig key E = E\<lparr>dn_tls := filter (\<lambda>(k, _). k \<noteq> key) (dn_tls E)\<rparr>"

definition getTLSConfigClone :: "dsnEnv \<Rightarrow> string \<Rightarrow> tlsConfig option" where
  "getTLSConfigClone E key = map_of (dn_tls E) key"

section \<open>Defaults\<close>

definition emptyTLS :: tlsConfig where
  "emptyTLS = \<lparr>tls_ServerName = [], tls_InsecureSkipVerify = False, tls_other = 0\<rparr>"

definition defaultAddr :: "Config \<Rightarrow> Config res" where
  "defaultAddr cfg =
     (if cfg_Addr cfg = [] then
        (if cfg_Net cfg = ''tcp'' then Ok (cfg\<lparr>cfg_Addr := ''127.0.0.1:3306''\<rparr>)
         else if cfg_Net cfg = ''unix'' then Ok (cfg\<lparr>cfg_Addr := ''/tmp/mycpool.sock''\<rparr>)
         else Fail (ErrMsg ''default addr for network unknown''))
      else if cfg_Net cfg = ''tcp'' then Ok (cfg\<lparr>cfg_Addr := ensureHavePort (cfg_Addr cfg)\<rparr>)
      else Ok cfg)"

definition chooseTLS :: "dsnEnv \<Rightarrow> Config \<Rightarrow> Config res" where
  "chooseTLS E cfg =
     (if cfg_TLSConfig cfg \<in> {''false'', []} then Ok cfg
      else if cfg_TLSConfig cfg = ''true'' then Ok (cfg\<lparr>cfg_tls := Some emptyTLS\<rparr>)
      else if cfg_TLSConfig cfg \<in> {''skip-verify'', ''preferred''}
        then Ok (cfg\<lparr>cfg_tls := Some (emptyTLS\<lparr>tls_InsecureSkipVerify := True\<rparr>)\<rparr>)
      else case getTLSConfigClone E (cfg_TLSConfig cfg) of
        None \<Rightarrow> Fail (ErrMsg ''invalid value / unknown config name: '')
      | Some t \<Rightarrow> Ok (cfg\<lparr>cfg_tls := Some t\<rparr>))"

definition setServerName :: "Config \<Rightarrow> Config" where
  "setServerName cfg =
     (case cfg_tls cfg of
        Some t \<Rightarrow>
          if tls_ServerName t = [] \<and> \<not> tls_InsecureSkipVerify t then
            (case splitHostPort (cfg_Addr cfg) of
               Some (host, _) \<Rightarrow> cfg\<lparr>cfg_tls := Some (t\<lparr>tls_ServerName := host\<rparr>)\<rparr>
             | None \<Rightarrow> cfg)
          else cfg
      | None \<Rightarrow> cfg)"

definition choosePubKey :: "dsnEnv \<Rightarrow> Config \<Rightarrow> Config res" where
  "choosePubKey E cfg =
     (if cfg_ServerPubKey cfg \<noteq> [] then
        (case getServerPubKey (cfg_ServerPubKey cfg) (dn_pubKeys E) of
           None \<Rightarrow> Fail (ErrMsg ''invalid value / unknown server pub key name: '')
         | Some k \<Rightarrow> Ok (cfg\<lparr>cfg_pubKey := Some k\<rparr>))
      else Ok cfg)"

definition normalize :: "dsnEnv \<Rightarrow> Config \<Rightarrow> Config res" where
  "normalize E cfg =
     (if cfg_InterpolateParams cfg \<and> cfg_Collation cfg \<in> set unsafeCollations
      then Fail ErrInvalidDSNUnsafeCollation
      else
        let cfg = (if cfg_Net cfg = [] then cfg\<lparr>cfg_Net := ''tcp''\<rparr> else cfg)
        in bindR (defaultAddr cfg) (\<lambda>cfg.
           bindR (chooseTLS E cfg) (\<lambda>cfg. choosePubKey E (setServerName cfg))))"

section \<open>Formatting\<close>

definition writeDSNParam :: "string \<Rightarrow> string \<Rightarrow> string \<times> bool \<Rightarrow> string \<times> bool" where
  "writeDSNParam name val = (\<lambda>(buf, hasParam).
     (buf @ [if \<not> hasParam then CHR ''?'' else CHR ''&''] @ name @ ''='' @ val, True))"

text \<open>The parameters in the order they are written, each present or not.\<close>

definition optParam :: "bool \<Rightarrow> string \<Rightarrow> string \<Rightarrow> (string \<times> string) list" where
  "optParam present name val = (if present then [(name, val)] else [])"

definition dsnParams :: "dsnEnv \<Rightarrow> Config \<Rightarrow> (string \<times> string) list" where
  "dsnParams E cfg =
     optParam (cfg_AllowAllFiles cfg) ''allowAllFiles'' ''true'' @
     optParam (cfg_AllowCleartextPasswords cfg) ''allowCleartextPasswords'' ''true'' @
     optParam (\<not> cfg_AllowNativePasswords cfg) ''allowNativePasswords'' ''false'' @
     optParam (cfg_AllowOldPasswords cfg) ''allowOldPasswords'' ''true'' @
     optParam (\<not> cfg_CheckConnLiveness cfg) ''checkConnLiveness'' ''false'' @
     optParam (cfg_ClientFoundRows cfg) ''clientFoundRows'' ''true'' @
     optParam (cfg_Collation cfg \<noteq> defaultCollation \<and> cfg_Collation cfg \<noteq> []) ''collation'' (cfg_Collation cfg) @
     optParam (cfg_ColumnsWithAlias cfg) ''columnsWithAlias'' ''true'' @
     optParam (cfg_InterpolateParams cfg) ''interpolateParams'' ''true'' @
     (case cfg_Loc cfg of None \<Rightarrow> [] | Some l \<Rightarrow> optParam (l \<noteq> UTC) ''loc'' (QueryEscape (fst l))) @
     optParam (cfg_MultiStatements cfg) ''multiStatements'' ''true'' @
     optParam (cfg_ParseTime cfg) ''parseTime'' ''true'' @
     optParam (cfg_ReadTimeout cfg > 0) ''readTimeout'' (dn_fmtDuration E (cfg_ReadTimeout cfg)) @
     optParam (cfg_RejectReadOnly cfg) ''rejectReadOnly'' ''true'' @
     optParam (cfg_ServerPubKey cfg \<noteq> []) ''serverPubKey'' (QueryEscape (cfg_ServerPubKey cfg)) @
     optParam (cfg_Timeout cfg > 0) ''timeout'' (dn_fmtDuration E (cfg_Timeout cfg)) @
     optParam (cfg_TLSConfig cfg \<noteq> []) ''tls'' (QueryEscape (cfg_TLSConfig cfg)) @
     optParam (cfg_WriteTimeout cfg > 0) ''writeTimeout'' (dn_fmtDuration E (cfg_WriteTimeout cfg)) @
     optParam (cfg_MaxAllowedPacket cfg \<noteq> defaultMaxAllowedPacket) ''maxAllowedPacket''
       (formatInt (cfg_MaxAllowedPacket cfg)) @
     map (\<lambda>(name, val). (name, QueryEscape val)) (sort_key fst (cfg_Params cfg))"

definition FormatDSN :: "dsnEnv \<Rightarrow> Config \<Rightarrow> string" where
  "FormatDSN E cfg =
     (let front =
            (if cfg_User cfg \<noteq> [] then
               cfg_User cfg @ (if cfg_Passwd cfg \<noteq> [] then '':'' @ cfg_Passwd cfg else []) @ ''@''
             else []) @
            (if cfg_Net cfg \<noteq> [] then
               cfg_Net cfg @ (if cfg_Addr cfg \<noteq> [] then ''('' @ cfg_Addr cfg @ '')'' else [])
             else []) @
            ''/'' @ cfg_DBName cfg
      in fst (foldl (\<lambda>b (name, val). writeDSNParam name val b) (front, False) (dsnParams E cfg)))"

section \<open>Parsing\<close>

definition setBool :: "(bool \<Rightarrow> Config) \<Rightarrow> string \<Rightarrow> Config res" where
  "setBool f val = (case readBool val of
     (b, True) \<Rightarrow> Ok (f b) | (b, False) \<Rightarrow> Fail (ErrMsg ''invalid bool value: ''))"

definition orFail :: "gerr + 'a \<Rightarrow> ('a \<Rightarrow> 'b res) \<Rightarrow> 'b res" where
  "orFail r f = (case r of Inl e \<Rightarrow> Fail e | Inr x \<Rightarrow> f x)"

definition tlsValue :: "string \<Rightarrow> gerr + string" where
  "tlsValue val =
     (case readBool val of
        (b, True) \<Rightarrow> Inr (if b then ''true'' else ''false'')
      | (b, False) \<Rightarrow>
          let vl = map toLower val
          in if vl = ''skip-verify'' \<or> vl = ''preferred'' then Inr vl
             else case QueryUnescape val of
               Inl e \<Rightarrow> Inl (ErrMsg ''invalid value for TLS config name: %v'') | Inr name \<Rightarrow> Inr name)"

definition parseParam :: "dsnEnv \<Rightarrow> string \<Rightarrow> string \<Rightarrow> Config \<Rightarrow> Config res" where
  "parseParam E name val cfg =
     (if name = ''allowAllFiles'' then setBool (\<lambda>b. cfg\<lparr>cfg_AllowAllFiles := b\<rparr>) val
      else if name = ''allowCleartextPasswords'' then setBool (\<lambda>b. cfg\<lparr>cfg_AllowCleartextPasswords := b\<rparr>) val
      else if name = ''allowNativePasswords'' then setBool (\<lambda>b. cfg\<lparr>cfg_AllowNativePasswords := b\<rparr>) val
      else if name = ''allowOldPasswords'' then setBool (\<lambda>b. cfg\<lparr>cfg_AllowOldPasswords := b\<rparr>) val
      else if name = ''checkConnLiveness'' then setBool (\<lambda>b. cfg\<lparr>cfg_CheckConnLiveness := b\<rparr>) val
      else if name = ''clientFoundRows'' then setBool (\<lambda>b. cfg\<lparr>cfg_ClientFoundRows := b\<rparr>) val
      else if name = ''collation'' then Ok (cfg\<lparr>cfg_Collation := val\<rparr>)
      else if name = ''columnsWithAlias'' then setBool (\<lambda>b. cfg\<lparr>cfg_ColumnsWithAlias := b\<rparr>) val
      else if name = ''compress'' then Fail (ErrMsg ''compression not implemented yet'')
      else if name = ''interpolateParams'' then setBool (\<lambda>b. cfg\<lparr>cfg_InterpolateParams := b\<rparr>) val
      else if name = ''loc'' then
        orFail (QueryUnescape val) (\<lambda>v. orFail (dn_loadLocation E v) (\<lambda>l. Ok (cfg\<lparr>cfg_Loc := Some l\<rparr>)))
      else if name = ''multiStatements'' then setBool (\<lambda>b. cfg\<lparr>cfg_MultiStatements := b\<rparr>) val
      else if name = ''parseTime'' then setBool (\<lambda>b. cfg\<lparr>cfg_ParseTime := b\<rparr>) val
      else if name = ''readTimeout'' then orFail (dn_parseDuration E val) (\<lambda>d. Ok (cfg\<lparr>cfg_ReadTimeout := d\<rparr>))
      else if name = ''rejectReadOnly'' then setBool (\<lambda>b. cfg\<lparr>cfg_RejectReadOnly := b\<rparr>) val
      else if name = ''serverPubKey'' then
        (case QueryUnescape val of
           Inl e \<Rightarrow> Fail (ErrMsg ''invalid value for server pub key name: %v'')
         | Inr v \<Rightarrow> Ok (cfg\<lparr>cfg_ServerPubKey := v\<rparr>))
      else if name = ''strict'' then Crash (Panic ''strict mode has been removed'')
      else if name = ''timeout'' then orFail (dn_parseDuration E val) (\<lambda>d. Ok (cfg\<lparr>cfg_Timeout := d\<rparr>))
      else if name = ''tls'' then orFail (tlsValue val) (\<lambda>v. Ok (cfg\<lparr>cfg_TLSConfig := v\<rparr>))
      else if name = ''writeTimeout'' then orFail (dn_parseDuration E val) (\<lambda>d. Ok (cfg\<lparr>cfg_WriteTimeout := d\<rparr>))
      else if name = ''maxAllowedPacket'' then
        (case parseInt 64 val of Inl _ \<Rightarrow> Fail (ErrMsg ''strconv.Atoi'') | Inr n \<Rightarrow> Ok (cfg\<lparr>cfg_MaxAllowedPacket := n\<rparr>))
      else orFail (QueryUnescape val) (\<lambda>v. Ok (cfg\<lparr>cfg_Params := AList.update name v (cfg_Params cfg)\<rparr>)))"

fun paramLoop :: "dsnEnv \<Rightarrow> string list \<Rightarrow> Config \<Rightarrow> Config res" where
  "paramLoop E [] cfg = Ok cfg"
| "paramLoop E (v # vs) cfg = (case cut CHR ''='' v of
     (name, None) \<Rightarrow> paramLoop E vs cfg
   | (name, Some val) \<Rightarrow> bindR (parseParam E name val cfg) (paramLoop E vs))"

definition parseDSNParams :: "dsnEnv \<Rightarrow> Config \<Rightarrow> string \<Rightarrow> Config res" where
  "parseDSNParams E cfg params = paramLoop E (splitOn CHR ''&'' params) cfg"

text \<open>What stands before the database name: the credentials, the network and the address.\<close>

definition parseUser :: "string \<Rightarrow> Config \<Rightarrow> Config" where
  "parseUser cred cfg = (case cut CHR '':'' cred of
     (user, None) \<Rightarrow> cfg\<lparr>cfg_User := user\<rparr>
   | (user, Some passwd) \<Rightarrow> cfg\<lparr>cfg_Passwd := passwd, cfg_User := user\<rparr>)"

definition parseNet :: "string \<Rightarrow> Config \<Rightarrow> Config res" where
  "parseNet s cfg = (case cut CHR ''('' s of
     (n, None) \<Rightarrow> Ok (cfg\<lparr>cfg_Net := n\<rparr>)
   | (n, Some rest) \<Rightarrow>
       if rest = [] \<or> last rest \<noteq> CHR '')'' then
         Fail (if CHR '')'' \<in> set rest then ErrInvalidDSNUnescaped else ErrInvalidDSNAddr)
       else Ok (cfg\<lparr>cfg_Addr := butlast rest, cfg_Net := n\<rparr>))"

definition parseLeft :: "string \<Rightarrow> Config \<Rightarrow> Config res" where
  "parseLeft left cfg =
     (if left = [] then Ok cfg
      else case cutLast CHR ''@'' left of
        (None, s) \<Rightarrow> parseNet s cfg
      | (Some cred, s) \<Rightarrow> parseNet s (parseUser cred cfg))"

definition ParseDSN :: "dsnEnv \<Rightarrow> string \<Rightarrow> Config res" where
  "ParseDSN E dsn =
     (case cutLast CHR ''/'' dsn of
        (None, _) \<Rightarrow> if dsn \<noteq> [] then Fail ErrInvalidDSNNoSlash else normalize E NewConfig
      | (Some left, right) \<Rightarrow>
          bindR (parseLeft left NewConfig) (\<lambda>cfg.
          bindR (case cut CHR ''?'' right of
                   (db, None) \<Rightarrow> Ok (cfg\<lparr>cfg_DBName := db\<rparr>)
                 | (db, Some params) \<Rightarrow>
                     bindR (parseDSNParams E cfg params) (\<lambda>cfg. Ok (cfg\<lparr>cfg_DBName := db\<rparr>))) (\<lambda>cfg.
          normalize E cfg)))"

section \<open>Connectors\<close>

definition NewConnector :: "dsnEnv \<Rightarrow> Config \<Rightarrow> Config res" where
  "NewConnector E cfg = normalize E (Config_Clone cfg)"

definition OpenConnector :: "dsnEnv \<Rightarrow> string \<Rightarrow> Config res" where
  "OpenConnector E dsn = ParseDSN E dsn"

end
