(* ===== verification/DsnProps.thy ===== *)
theory DsnProps
  imports MysqlDsn
begin

text \<open>
  Writing a configuration as a data source name and reading it back: the escaping of values, the
  splitting of the name at its separators, and one step per parameter.
\<close>

section \<open>Escaping\<close>

lemma unhex_hexDigit: "n < 16 \<Longrightarrow> unhex (hexDigit n) = Some n"
  by (auto simp: less_Suc_eq numeral_eq_Suc hexDigit_def unhex_def Let_def)

lemma unreserved_plain: "unreserved c \<Longrightarrow> c \<noteq> CHR ''%'' \<and> c \<noteq> CHR ''+''"
  by (auto simp: unreserved_def Let_def)

lemma unescape_escapeChar:
  "QueryUnescape (escapeChar c @ s) = (case QueryUnescape s of Inl e \<Rightarrow> Inl e | Inr t \<Rightarrow> Inr (c # t))"
proof (cases "unreserved c \<or> c = CHR '' ''")
  case True
  then show ?thesis using unreserved_plain [of c] by (auto simp: escapeChar_def split: sum.split)
next
  case False
  have "(of_char c :: nat) < 256" by (rule nat_of_char_less_256)
  then have "of_char c div 16 < (16 :: nat)" by (simp add: less_mult_imp_div_less)
  then show ?thesis
    using False by (simp add: escapeChar_def unhex_hexDigit split: sum.split)
qed

lemma unescape_escape: "QueryUnescape (QueryEscape s) = Inr s"
  by (induction s) (simp_all add: QueryEscape_def unescape_escapeChar)

lemma hexDigit_set: "n < 16 \<Longrightarrow> unreserved (hexDigit n)"
  by (auto simp: less_Suc_eq numeral_eq_Suc hexDigit_def unreserved_def Let_def)

lemma escapeChar_set: "x \<in> set (escapeChar c) \<Longrightarrow> unreserved x \<or> x = CHR ''+'' \<or> x = CHR ''%''"
proof -
  have "(of_char c :: nat) < 256" by (rule nat_of_char_less_256)
  then have "of_char c div 16 < (16 :: nat)" by (simp add: less_mult_imp_div_less)
  then show "x \<in> set (escapeChar c) \<Longrightarrow> unreserved x \<or> x = CHR ''+'' \<or> x = CHR ''%''"
    by (auto simp: escapeChar_def hexDigit_set split: if_splits)
qed

lemma escape_set: "x \<in> set (QueryEscape s) \<Longrightarrow> unreserved x \<or> x = CHR ''+'' \<or> x = CHR ''%''"
  using escapeChar_set by (auto simp: QueryEscape_def)

lemma escape_separators:
  "CHR ''&'' \<notin> set (QueryEscape s)" "CHR ''/'' \<notin> set (QueryEscape s)"
  using escape_set [of "CHR ''&''" s] escape_set [of "CHR ''/''" s]
  by (auto simp: unreserved_def Let_def)

lemma escape_plain:
  assumes "CHR ''+'' \<notin> set (QueryEscape s)" and "CHR ''%'' \<notin> set (QueryEscape s)"
  shows "QueryEscape s = s"
  using assms
  by (induction s) (auto simp: QueryEscape_def escapeChar_def split: if_splits)

definition plain :: "string \<Rightarrow> bool" where
  "plain s \<longleftrightarrow> list_all (\<lambda>c. c \<noteq> CHR ''+'' \<and> c \<noteq> CHR ''%'') s"

lemma escape_is: "QueryEscape s = a \<Longrightarrow> plain a \<Longrightarrow> s = a"
proof -
  assume a: "QueryEscape s = a" and "plain a"
  then have "CHR ''+'' \<notin> set a" "CHR ''%'' \<notin> set a" unfolding plain_def list_all_iff by blast+
  then have "QueryEscape s = s" unfolding a [symmetric] by (rule escape_plain)
  then show "s = a" unfolding a by (rule sym)
qed

lemma toLower_special: "toLower CHR ''+'' = CHR ''+''" "toLower CHR ''%'' = CHR ''%''"
  by (simp_all add: toLower_def Let_def)

lemma escape_lower_is:
  assumes "map toLower (QueryEscape s) = a" and "plain a"
  shows "map toLower s = a"
proof -
  have "toLower c \<noteq> CHR ''+''" "toLower c \<noteq> CHR ''%''" if "c \<in> set (QueryEscape s)" for c
    using assms(2) that unfolding assms(1) [symmetric] plain_def list_all_iff set_map by blast+
  then have "CHR ''+'' \<notin> set (QueryEscape s)" "CHR ''%'' \<notin> set (QueryEscape s)"
    using toLower_special by blast+
  then have "QueryEscape s = s" by (rule escape_plain)
  then show ?thesis using assms(1) by (rule subst)
qed

section \<open>Separators\<close>

lemma cut_absent: "c \<notin> set s \<Longrightarrow> cut c s = (s, None)"
  by (induction s) auto

lemma cut_at: "c \<notin> set a \<Longrightarrow> cut c (a @ c # b) = (a, Some b)"
  by (induction a) auto

lemma cutLast_absent: "c \<notin> set s \<Longrightarrow> cutLast c s = (None, s)"
  by (simp add: cutLast_def cut_absent)

lemma cutLast_at: "c \<notin> set b \<Longrightarrow> cutLast c (a @ c # b) = (Some a, b)"
  by (simp add: cutLast_def cut_at)

lemma splitOn_absent: "c \<notin> set s \<Longrightarrow> splitOn c s = [s]"
  by (induction s) auto

lemma splitOn_not_Nil: "splitOn c s \<noteq> []"
  by (cases s) (auto split: list.splits)

lemma splitOn_at: "c \<notin> set a \<Longrightarrow> splitOn c (a @ c # b) = a # splitOn c b"
  by (induction a) auto

text \<open>The written parameters and their parts.\<close>

definition kv :: "string \<times> string \<Rightarrow> string" where
  "kv p = fst p @ ''='' @ snd p"

fun joinParams :: "(string \<times> string) list \<Rightarrow> string" where
  "joinParams [] = []"
| "joinParams [p] = kv p"
| "joinParams (p # ps) = kv p @ ''&'' @ joinParams ps"

lemma splitOn_join:
  assumes "ps \<noteq> []" and "list_all (\<lambda>p. CHR ''&'' \<notin> set (kv p)) ps"
  shows "splitOn CHR ''&'' (joinParams ps) = map kv ps"
  using assms
proof (induction ps rule: joinParams.induct)
  case (3 p q ps)
  then show ?case by (simp add: splitOn_at)
qed (simp_all add: splitOn_absent)

lemma write_params:
  "fst (foldl (\<lambda>b (name, val). writeDSNParam name val b) (front, True) ps)
     = front @ concat (map (\<lambda>p. ''&'' @ kv p) ps)"
  by (induction ps arbitrary: front) (auto simp: writeDSNParam_def kv_def)

lemma joinParams_Cons: "joinParams (p # ps) = kv p @ concat (map (\<lambda>p. ''&'' @ kv p) ps)"
  by (induction ps arbitrary: p) simp_all

lemma write_all:
  "fst (foldl (\<lambda>b (name, val). writeDSNParam name val b) (front, False) ps)
     = front @ (if ps = [] then [] else ''?'' @ joinParams ps)"
proof (cases ps)
  case (Cons p qs)
  obtain n v where p: "p = (n, v)" by (cases p)
  have "writeDSNParam n v (front, False) = (front @ ''?'' @ kv (n, v), True)"
    by (simp add: writeDSNParam_def kv_def)
  then show ?thesis by (simp only: Cons p foldl_Cons prod.case write_params joinParams_Cons) simp
qed simp

section \<open>Reading the parameters\<close>

fun readParams :: "dsnEnv \<Rightarrow> (string \<times> string) list \<Rightarrow> Config \<Rightarrow> Config res" where
  "readParams E [] cfg = Ok cfg"
| "readParams E ((name, val) # ps) cfg = bindR (parseParam E name val cfg) (readParams E ps)"

lemma paramLoop_kv:
  "list_all (\<lambda>p. CHR ''='' \<notin> set (fst p)) ps \<Longrightarrow> paramLoop E (map kv ps) cfg = readParams E ps cfg"
proof (induction ps arbitrary: cfg)
  case (Cons p ps)
  then have "paramLoop E (map kv ps) = readParams E ps" by auto
  moreover obtain n v where p: "p = (n, v)" by (cases p)
  moreover have "cut CHR ''='' (kv p) = (n, Some v)" using Cons.prems p by (simp add: kv_def cut_at)
  ultimately show ?case by simp
qed simp

lemma readParams_append:
  "readParams E (ps @ qs) cfg = bindR (readParams E ps cfg) (readParams E qs)"
proof (induction ps arbitrary: cfg)
  case (Cons p ps)
  then have "readParams E (ps @ qs) = (\<lambda>c. bindR (readParams E ps c) (readParams E qs))" by auto
  then show ?case by (cases p) (simp add: bindR_assoc)
qed simp

lemma readParams_opt:
  "readParams E (optParam b name val @ ps) cfg
     = (if b then bindR (parseParam E name val cfg) (readParams E ps) else readParams E ps cfg)"
  by (simp add: optParam_def)

text \<open>One rule per parameter. A parameter that is written has the value the field did not have.\<close>

named_theorems param_steps

lemma step_allowAllFiles [param_steps]:
  "readParams E (optParam b ''allowAllFiles'' ''true'' @ ps) c
     = readParams E ps (c\<lparr>cfg_AllowAllFiles := b \<or> cfg_AllowAllFiles c\<rparr>)"
  by (simp add: readParams_opt parseParam_def setBool_def readBool_def)

lemma step_allowCleartextPasswords [param_steps]:
  "readParams E (optParam b ''allowCleartextPasswords'' ''true'' @ ps) c
     = readParams E ps (c\<lparr>cfg_AllowCleartextPasswords := b \<or> cfg_AllowCleartextPasswords c\<rparr>)"
  by (simp add: readParams_opt parseParam_def setBool_def readBool_def)

lemma step_allowNativePasswords [param_steps]:
  "readParams E (optParam b ''allowNativePasswords'' ''false'' @ ps) c
     = readParams E ps (c\<lparr>cfg_AllowNativePasswords := \<not> b \<and> cfg_AllowNativePasswords c\<rparr>)"
  by (simp add: readParams_opt parseParam_def setBool_def readBool_def)

lemma step_allowOldPasswords [param_steps]:
  "readParams E (optParam b ''allowOldPasswords'' ''true'' @ ps) c
     = readParams E ps (c\<lparr>cfg_AllowOldPasswords := b \<or> cfg_AllowOldPasswords c\<rparr>)"
  by (simp add: readParams_opt parseParam_def setBool_def readBool_def)

lemma step_checkConnLiveness [param_steps]:
  "readParams E (optParam b ''checkConnLiveness'' ''false'' @ ps) c
     = readParams E ps (c\<lparr>cfg_CheckConnLiveness := \<not> b \<and> cfg_CheckConnLiveness c\<rparr>)"
  by (simp add: readParams_opt parseParam_def setBool_def readBool_def)

lemma step_clientFoundRows [param_steps]:
  "readParams E (optParam b ''clientFoundRows'' ''true'' @ ps) c
     = readParams E ps (c\<lparr>cfg_ClientFoundRows := b \<or> cfg_ClientFoundRows c\<rparr>)"
  by (simp add: readParams_opt parseParam_def setBool_def readBool_def)

lemma step_collation [param_steps]:
  "readParams E (optParam b ''collation'' v @ ps) c
     = readParams E ps (c\<lparr>cfg_Collation := if b then v else cfg_Collation c\<rparr>)"
  by (simp add: readParams_opt parseParam_def)

lemma step_columnsWithAlias [param_steps]:
  "readParams E (optParam b ''columnsWithAlias'' ''true'' @ ps) c
     = readParams E ps (c\<lparr>cfg_ColumnsWithAlias := b \<or> cfg_ColumnsWithAlias c\<rparr>)"
  by (simp add: readParams_opt parseParam_def setBool_def readBool_def)

lemma step_interpolateParams [param_steps]:
  "readParams E (optParam b ''interpolateParams'' ''true'' @ ps) c
     = readParams E ps (c\<lparr>cfg_InterpolateParams := b \<or> cfg_InterpolateParams c\<rparr>)"
  by (simp add: readParams_opt parseParam_def setBool_def readBool_def)

lemma step_loc:
  "(b \<Longrightarrow> dn_loadLocation E (fst l) = Inr l) \<Longrightarrow>
   readParams E (optParam b ''loc'' (QueryEscape (fst l)) @ ps) c
     = readParams E ps (c\<lparr>cfg_Loc := if b then Some l else cfg_Loc c\<rparr>)"
  by (simp add: readParams_opt parseParam_def orFail_def unescape_escape)

lemma step_multiStatements [param_steps]:
  "readParams E (optParam b ''multiStatements'' ''true'' @ ps) c
     = readParams E ps (c\<lparr>cfg_MultiStatements := b \<or> cfg_MultiStatements c\<rparr>)"
  by (simp add: readParams_opt parseParam_def setBool_def readBool_def)

lemma step_parseTime [param_steps]:
  "readParams E (optParam b ''parseTime'' ''true'' @ ps) c
     = readParams E ps (c\<lparr>cfg_ParseTime := b \<or> cfg_ParseTime c\<rparr>)"
  by (simp add: readParams_opt parseParam_def setBool_def readBool_def)

lemma step_rejectReadOnly [param_steps]:
  "readParams E (optParam b ''rejectReadOnly'' ''true'' @ ps) c
     = readParams E ps (c\<lparr>cfg_RejectReadOnly := b \<or> cfg_RejectReadOnly c\<rparr>)"
  by (simp add: readParams_opt parseParam_def setBool_def readBool_def)

lemma step_serverPubKey [param_steps]:
  "readParams E (optParam b ''serverPubKey'' (QueryEscape v) @ ps) c
     = readParams E ps (c\<lparr>cfg_ServerPubKey := if b then v else cfg_ServerPubKey c\<rparr>)"
  by (simp add: readParams_opt parseParam_def unescape_escape)

lemma step_timeouts:
  assumes "b \<Longrightarrow> dn_parseDuration E v = Inr d"
  shows "readParams E (optParam b ''readTimeout'' v @ ps) c
      = readParams E ps (c\<lparr>cfg_ReadTimeout := if b then d else cfg_ReadTimeout c\<rparr>)"
    and "readParams E (optParam b ''timeout'' v @ ps) c
      = readParams E ps (c\<lparr>cfg_Timeout := if b then d else cfg_Timeout c\<rparr>)"
    and "readParams E (optParam b ''writeTimeout'' v @ ps) c
      = readParams E ps (c\<lparr>cfg_WriteTimeout := if b then d else cfg_WriteTimeout c\<rparr>)"
  using assms by (simp_all add: readParams_opt parseParam_def orFail_def)

lemma step_maxAllowedPacket:
  "- (2 ^ 63) \<le> n \<and> n < 2 ^ 63 \<Longrightarrow>
   readParams E (optParam b ''maxAllowedPacket'' (formatInt n) @ ps) c
     = readParams E ps (c\<lparr>cfg_MaxAllowedPacket := if b then n else cfg_MaxAllowedPacket c\<rparr>)"
  by (simp add: readParams_opt parseParam_def parseInt_format)

text \<open>A TLS setting that the parameter can express: a mode, or the name of a registered configuration.\<close>

definition tlsModes :: "string list" where
  "tlsModes = [''true'', ''false'', ''skip-verify'', ''preferred'']"

definition tlsName_ok :: "string \<Rightarrow> bool" where
  "tlsName_ok x \<longleftrightarrow> x \<in> set tlsModes \<or>
     (\<not> snd (readBool x) \<and> map toLower x \<noteq> ''skip-verify'' \<and> map toLower x \<noteq> ''preferred'')"

lemma tls_modes: "x \<in> set tlsModes \<Longrightarrow> tlsValue (QueryEscape x) = Inr x"
proof -
  have "list_all (\<lambda>x. tlsValue (QueryEscape x) = Inr x) tlsModes" by code_simp
  then show "x \<in> set tlsModes \<Longrightarrow> tlsValue (QueryEscape x) = Inr x" by (simp add: list_all_iff)
qed

lemma tlsValue_escape: "tlsName_ok v \<Longrightarrow> tlsValue (QueryEscape v) = Inr v"
proof (cases "v \<in> set tlsModes")
  case False
  moreover assume "tlsName_ok v"
  ultimately have v: "\<not> snd (readBool v)" "map toLower v \<noteq> ''skip-verify''" "map toLower v \<noteq> ''preferred''"
    by (simp_all add: tlsName_ok_def)
  have "v \<notin> {''1'', ''true'', ''TRUE'', ''True''}" "v \<notin> {''0'', ''false'', ''FALSE'', ''False''}"
    using v(1) by (auto simp: readBool_def)
  then have "QueryEscape v \<notin> {''1'', ''true'', ''TRUE'', ''True''}"
    "QueryEscape v \<notin> {''0'', ''false'', ''FALSE'', ''False''}"
    by (auto simp: plain_def dest!: escape_is)
  then have "readBool (QueryEscape v) = (False, False)" by (simp add: readBool_def)
  moreover have "map toLower (QueryEscape v) \<noteq> ''skip-verify''"
    using escape_lower_is [of v "''skip-verify''"] v(2) by (auto simp: plain_def)
  moreover have "map toLower (QueryEscape v) \<noteq> ''preferred''"
    using escape_lower_is [of v "''preferred''"] v(3) by (auto simp: plain_def)
  ultimately show ?thesis by (simp add: tlsValue_def unescape_escape)
qed (simp add: tls_modes)

lemma step_tls:
  "(b \<Longrightarrow> tlsName_ok v) \<Longrightarrow>
   readParams E (optParam b ''tls'' (QueryEscape v) @ ps) c
     = readParams E ps (c\<lparr>cfg_TLSConfig := if b then v else cfg_TLSConfig c\<rparr>)"
  by (simp add: readParams_opt parseParam_def orFail_def tlsValue_escape)

text \<open>The names that are not parameters of the session.\<close>

definition dsnNames :: "string list" where
  "dsnNames = [''allowAllFiles'', ''allowCleartextPasswords'', ''allowNativePasswords'',
     ''allowOldPasswords'', ''checkConnLiveness'', ''clientFoundRows'', ''collation'',
     ''columnsWithAlias'', ''compress'', ''interpolateParams'', ''loc'', ''multiStatements'',
     ''parseTime'', ''readTimeout'', ''rejectReadOnly'', ''serverPubKey'', ''strict'', ''timeout'', ''tls'',
     ''writeTimeout'', ''maxAllowedPacket'']"

lemma step_other:
  "name \<notin> set dsnNames \<Longrightarrow>
   parseParam E name (QueryEscape v) c = Ok (c\<lparr>cfg_Params := AList.update name v (cfg_Params c)\<rparr>)"
  by (simp add: dsnNames_def parseParam_def orFail_def unescape_escape)

lemma update_new: "name \<notin> fst ` set ps \<Longrightarrow> AList.update name v ps = ps @ [(name, v)]"
  by (induction ps) auto

lemma step_params:
  assumes "distinct (map fst ps)" and "fst ` set ps \<inter> fst ` set (cfg_Params c) = {}"
    and "list_all (\<lambda>p. fst p \<notin> set dsnNames) ps"
  shows "readParams E (map (\<lambda>(name, val). (name, QueryEscape val)) ps) c
     = Ok (c\<lparr>cfg_Params := cfg_Params c @ ps\<rparr>)"
  using assms
proof (induction ps arbitrary: c)
  case (Cons p ps)
  obtain n v where p: "p = (n, v)" by (cases p)
  let ?c = "c\<lparr>cfg_Params := cfg_Params c @ [(n, v)]\<rparr>"
  have "parseParam E n (QueryEscape v) c = Ok ?c"
    using Cons.prems p by (simp add: step_other update_new)
  moreover have "readParams E (map (\<lambda>(name, val). (name, QueryEscape val)) ps) ?c
      = Ok (?c\<lparr>cfg_Params := cfg_Params ?c @ ps\<rparr>)"
    using Cons.prems p by (intro Cons.IH) auto
  ultimately show ?case by (simp add: p)
qed simp

section \<open>Configurations that can be written\<close>

text \<open>
  What the syntax can express: no separator where it would be read as one, no empty or negative
  value where the default would be read, no credentials without a user. A set database location is
  one that can be loaded by its name, and a duration one whose text is read back; both are
  documented of package \<open>time\<close>.
\<close>

definition without :: "string \<Rightarrow> string \<Rightarrow> bool" where
  "without cs s \<longleftrightarrow> list_all (\<lambda>c. c \<notin> set s) cs"

definition writable :: "Config \<Rightarrow> bool" where
  "writable cfg \<longleftrightarrow>
     without '':'' (cfg_User cfg) \<and> (cfg_User cfg = [] \<longrightarrow> cfg_Passwd cfg = []) \<and>
     without ''@('' (cfg_Net cfg) \<and> without ''@'' (cfg_Addr cfg) \<and> without ''/?'' (cfg_DBName cfg) \<and>
     cfg_Collation cfg \<noteq> [] \<and> without ''/&'' (cfg_Collation cfg) \<and>
     cfg_Loc cfg \<noteq> None \<and> cfg_Timeout cfg \<ge> 0 \<and> cfg_ReadTimeout cfg \<ge> 0 \<and> cfg_WriteTimeout cfg \<ge> 0 \<and>
     - (2 ^ 63) \<le> cfg_MaxAllowedPacket cfg \<and> cfg_MaxAllowedPacket cfg < 2 ^ 63 \<and>
     (cfg_TLSConfig cfg \<noteq> [] \<longrightarrow> tlsName_ok (cfg_TLSConfig cfg)) \<and>
     distinct (map fst (cfg_Params cfg)) \<and>
     list_all (\<lambda>(n, _). n \<notin> set dsnNames \<and> without ''/&='' n) (cfg_Params cfg)"

definition duration_ok :: "dsnEnv \<Rightarrow> int \<Rightarrow> bool" where
  "duration_ok E d \<longleftrightarrow> (d > 0 \<longrightarrow>
     dn_parseDuration E (dn_fmtDuration E d) = Inr d \<and> without ''/&'' (dn_fmtDuration E d))"

definition env_ok :: "dsnEnv \<Rightarrow> Config \<Rightarrow> bool" where
  "env_ok E cfg \<longleftrightarrow> duration_ok E (cfg_Timeout cfg) \<and> duration_ok E (cfg_ReadTimeout cfg) \<and>
     duration_ok E (cfg_WriteTimeout cfg) \<and>
     (case cfg_Loc cfg of None \<Rightarrow> True | Some l \<Rightarrow> l = UTC \<or> dn_loadLocation E (fst l) = Inr l)"

section \<open>The round trip\<close>

lemma escape_params:
  "list_all (\<lambda>p. P (fst p)) ps \<Longrightarrow> list_all (\<lambda>p. P (fst p)) (map (\<lambda>(n, v). (n, QueryEscape v)) ps)"
  by (auto simp: list_all_iff)

lemma set_sort_fst: "list_all P (sort_key f ps) = list_all P ps"
  by (simp add: list_all_iff)

lemma written_param_kv: "kv (n, v) = n @ CHR ''='' # v"
  by (simp add: kv_def)

lemma opt_all: "list_all P (optParam b n v) \<longleftrightarrow> (b \<longrightarrow> P (n, v))"
  by (simp add: optParam_def)

lemma formatUint_digits: "c \<in> set (formatUint n) \<Longrightarrow> digit_val c \<noteq> None"
proof (induction n rule: formatUint.induct)
  case (1 n)
  have "n mod 10 < 10" by simp
  with 1 show ?case by (subst (asm) (2) formatUint.simps) (auto split: if_splits)
qed

lemma formatInt_plain: "c \<in> {CHR ''&'', CHR ''/''} \<Longrightarrow> c \<notin> set (formatInt i)"
  using formatUint_digits [of c] by (auto simp: formatInt_def digit_val_def split: if_splits)

text \<open>A written parameter has no separator that would end it early.\<close>

definition paramOk :: "string \<times> string \<Rightarrow> bool" where
  "paramOk p \<longleftrightarrow> without ''='' (fst p) \<and> without ''/&'' (kv p)"

lemma paramOk_pair: "paramOk (n, v) \<longleftrightarrow> without ''/&='' n \<and> without ''/&'' v"
  by (auto simp: paramOk_def without_def kv_def)

lemma paramOk_escaped: "paramOk (n, QueryEscape v) \<longleftrightarrow> without ''/&='' n"
  using escape_separators [of v] by (simp add: paramOk_pair without_def)

lemma dsnParams_ok:
  assumes "writable cfg" and "env_ok E cfg"
  shows "list_all paramOk (dsnParams E cfg)"
proof -
  obtain l where l: "cfg_Loc cfg = Some l" using assms(1) by (auto simp: writable_def)
  have d: "d > 0 \<Longrightarrow> duration_ok E d \<Longrightarrow> without ''/&'' (dn_fmtDuration E d)" for d
    by (simp add: duration_ok_def)
  have f: "without ''/&'' (formatInt i)" for i
    using formatInt_plain [of _ i] by (simp add: without_def)
  have p: "list_all paramOk (map (\<lambda>(n, v). (n, QueryEscape v)) (sort_key fst (cfg_Params cfg)))"
    using assms(1) by (auto simp: writable_def list_all_iff paramOk_escaped)
  show ?thesis
    using assms p d f
    by (simp add: dsnParams_def opt_all paramOk_escaped l writable_def env_ok_def)
      (simp add: paramOk_pair without_def)
qed

lemma readParams_dsn:
  assumes w: "writable cfg" and e: "env_ok E cfg"
    and c: "c = NewConfig\<lparr>cfg_User := cfg_User cfg, cfg_Passwd := cfg_Passwd cfg, cfg_Net := cfg_Net cfg,
      cfg_Addr := cfg_Addr cfg\<rparr>"
  shows "bindR (readParams E (dsnParams E cfg) c) (\<lambda>c. Ok (c\<lparr>cfg_DBName := cfg_DBName cfg\<rparr>))
    = Ok (cfg\<lparr>cfg_tls := None, cfg_pubKey := None, cfg_Params := sort_key fst (cfg_Params cfg)\<rparr>)"
proof -
  obtain l where l: "cfg_Loc cfg = Some l" using w by (auto simp: writable_def)
  have ll: "l \<noteq> UTC \<Longrightarrow> dn_loadLocation E (fst l) = Inr l" using e l by (auto simp: env_ok_def)
  have d: "duration_ok E (cfg_Timeout cfg)" "duration_ok E (cfg_ReadTimeout cfg)"
    "duration_ok E (cfg_WriteTimeout cfg)" using e by (simp_all add: env_ok_def)
  have t: "cfg_Timeout cfg > 0 \<Longrightarrow> dn_parseDuration E (dn_fmtDuration E (cfg_Timeout cfg)) = Inr (cfg_Timeout cfg)"
    "cfg_ReadTimeout cfg > 0 \<Longrightarrow> dn_parseDuration E (dn_fmtDuration E (cfg_ReadTimeout cfg)) = Inr (cfg_ReadTimeout cfg)"
    "cfg_WriteTimeout cfg > 0 \<Longrightarrow> dn_parseDuration E (dn_fmtDuration E (cfg_WriteTimeout cfg)) = Inr (cfg_WriteTimeout cfg)"
    using d by (simp_all add: duration_ok_def)
  have ps: "readParams E (map (\<lambda>(name, val). (name, QueryEscape val)) (sort_key fst (cfg_Params cfg))) c
      = Ok (c\<lparr>cfg_Params := cfg_Params c @ sort_key fst (cfg_Params cfg)\<rparr>)" if "cfg_Params c = []" for c
    using that w by (intro step_params) (auto simp: writable_def list_all_iff distinct_map)
  have collation: "(if cfg_Collation cfg \<noteq> defaultCollation \<and> cfg_Collation cfg \<noteq> [] then cfg_Collation cfg
      else defaultCollation) = cfg_Collation cfg" using w by (simp add: writable_def)
  have m: "- (2 ^ 63) \<le> cfg_MaxAllowedPacket cfg \<and> cfg_MaxAllowedPacket cfg < 2 ^ 63"
    "cfg_TLSConfig cfg \<noteq> [] \<Longrightarrow> tlsName_ok (cfg_TLSConfig cfg)" using w by (simp_all add: writable_def)
  note steps = param_steps step_loc [where l = l, OF ll] step_tls [where v = "cfg_TLSConfig cfg", OF m(2)]
    step_timeouts(1) [OF t(2)] step_timeouts(2) [OF t(1)] step_timeouts(3) [OF t(3)]
    step_maxAllowedPacket [OF m(1)]
  have "readParams E (dsnParams E cfg) c = Ok (cfg\<lparr>cfg_DBName := [], cfg_tls := None, cfg_pubKey := None,
      cfg_Params := sort_key fst (cfg_Params cfg)\<rparr>)"
    unfolding dsnParams_def l option.case c NewConfig_def
    using w collation
    by (simp add: steps ps split del: if_split)
      (rule Config.equality; auto simp: NewConfig_def l writable_def)
  then show ?thesis by simp
qed

text \<open>The part before the database name.\<close>

lemma defaultAddr_net:
  "defaultAddr c = Ok d \<Longrightarrow> cfg_Net d = cfg_Net c \<and> cfg_Addr d \<noteq> []"
  by (auto simp: defaultAddr_def ensureHavePort_def joinHostPort_def split: if_splits)

lemma chooseTLS_net: "chooseTLS E c = Ok d \<Longrightarrow> cfg_Net d = cfg_Net c \<and> cfg_Addr d = cfg_Addr c"
  by (auto simp: chooseTLS_def split: if_splits option.splits)

lemma setServerName_net: "cfg_Net (setServerName c) = cfg_Net c \<and> cfg_Addr (setServerName c) = cfg_Addr c"
  by (auto simp: setServerName_def split: option.splits)

lemma choosePubKey_net: "choosePubKey E c = Ok d \<Longrightarrow> cfg_Net d = cfg_Net c \<and> cfg_Addr d = cfg_Addr c"
  by (auto simp: choosePubKey_def split: if_splits option.splits)

lemma normalize_net:
  assumes "normalize E c = Ok cfg"
  shows "cfg_Net cfg \<noteq> [] \<and> cfg_Addr cfg \<noteq> []"
proof -
  let ?c = "if cfg_Net c = [] then c\<lparr>cfg_Net := ''tcp''\<rparr> else c"
  obtain d e where "defaultAddr ?c = Ok d" "chooseTLS E d = Ok e" "choosePubKey E (setServerName e) = Ok cfg"
    using assms by (auto simp: normalize_def bindR_Ok_iff split: if_splits)
  moreover have "cfg_Net ?c \<noteq> []" by simp
  ultimately have "cfg_Net d \<noteq> [] \<and> cfg_Addr d \<noteq> []" "cfg_Net e = cfg_Net d \<and> cfg_Addr e = cfg_Addr d"
    "cfg_Net cfg = cfg_Net (setServerName e) \<and> cfg_Addr cfg = cfg_Addr (setServerName e)"
    using defaultAddr_net chooseTLS_net choosePubKey_net by (fastforce, fastforce, fastforce)
  then show ?thesis using setServerName_net [of e] by simp
qed

text \<open>The parameters of the session play no role in filling in the defaults.\<close>

definition setParams :: "(string \<times> string) list \<Rightarrow> Config res \<Rightarrow> Config res" where
  "setParams ps r = bindR r (\<lambda>c. Ok (c\<lparr>cfg_Params := ps\<rparr>))"

lemma setParams_simps [simp]:
  "setParams ps (Ok c) = Ok (c\<lparr>cfg_Params := ps\<rparr>)" "setParams ps (Fail e) = Fail e"
  "setParams ps (if b then r else r') = (if b then setParams ps r else setParams ps r')"
  by (simp_all add: setParams_def)

lemma setParams_bind:
  assumes "\<And>c. f (c\<lparr>cfg_Params := ps\<rparr>) = setParams ps (f c)"
  shows "bindR (setParams ps r) f = setParams ps (bindR r f)"
  using assms by (cases r) (simp_all add: setParams_def)

lemma defaults_params:
  "defaultAddr (c\<lparr>cfg_Params := ps\<rparr>) = setParams ps (defaultAddr c)"
  "chooseTLS E (c\<lparr>cfg_Params := ps\<rparr>) = setParams ps (chooseTLS E c)"
  "setServerName (c\<lparr>cfg_Params := ps\<rparr>) = (setServerName c)\<lparr>cfg_Params := ps\<rparr>"
  "choosePubKey E (c\<lparr>cfg_Params := ps\<rparr>) = setParams ps (choosePubKey E c)"
  by (simp_all add: defaultAddr_def chooseTLS_def setServerName_def choosePubKey_def split: option.split)

lemma normalize_setParams: "normalize E (c\<lparr>cfg_Params := ps\<rparr>) = setParams ps (normalize E c)"
proof -
  let ?rest = "\<lambda>c. bindR (chooseTLS E c) (\<lambda>c. choosePubKey E (setServerName c))"
  have rest: "?rest (c\<lparr>cfg_Params := ps\<rparr>) = setParams ps (?rest c)" for c
    by (simp add: defaults_params setParams_bind)
  have "bindR (setParams ps r) ?rest = setParams ps (bindR r ?rest)" for r
    by (rule setParams_bind) (rule rest)
  moreover have "c\<lparr>cfg_Params := ps, cfg_Net := n\<rparr> = (c\<lparr>cfg_Net := n\<rparr>)\<lparr>cfg_Params := ps\<rparr>" for n by simp
  then have "defaultAddr (c\<lparr>cfg_Params := ps, cfg_Net := n\<rparr>) = setParams ps (defaultAddr (c\<lparr>cfg_Net := n\<rparr>))" for n
    by (simp only: defaults_params(1))
  ultimately show ?thesis by (simp add: normalize_def Let_def defaults_params)
qed

lemma normalize_params:
  "normalize E c = Ok cfg \<Longrightarrow> normalize E (c\<lparr>cfg_Params := ps\<rparr>) = Ok (cfg\<lparr>cfg_Params := ps\<rparr>)"
  by (simp add: normalize_setParams)

definition dsnLeft :: "Config \<Rightarrow> string" where
  "dsnLeft cfg =
     (if cfg_User cfg \<noteq> [] then
        cfg_User cfg @ (if cfg_Passwd cfg \<noteq> [] then '':'' @ cfg_Passwd cfg else []) @ ''@''
      else []) @ cfg_Net cfg @ ''('' @ cfg_Addr cfg @ '')''"

lemma parseNet_written:
  "without ''@('' (cfg_Net cfg) \<Longrightarrow>
   parseNet (cfg_Net cfg @ ''('' @ cfg_Addr cfg @ '')'') c
     = Ok (c\<lparr>cfg_Addr := cfg_Addr cfg, cfg_Net := cfg_Net cfg\<rparr>)"
  by (simp add: parseNet_def without_def cut_at butlast_append)

lemma parseUser_written:
  "without '':'' (cfg_User cfg) \<Longrightarrow> cfg_Passwd c = [] \<Longrightarrow>
   parseUser (cfg_User cfg @ (if cfg_Passwd cfg \<noteq> [] then '':'' @ cfg_Passwd cfg else [])) c
     = c\<lparr>cfg_Passwd := cfg_Passwd cfg, cfg_User := cfg_User cfg\<rparr>"
  by (simp add: parseUser_def without_def cut_at cut_absent)

lemma parseLeft_written:
  assumes "writable cfg"
  shows "parseLeft (dsnLeft cfg) NewConfig = Ok (NewConfig\<lparr>cfg_User := cfg_User cfg,
    cfg_Passwd := cfg_Passwd cfg, cfg_Net := cfg_Net cfg, cfg_Addr := cfg_Addr cfg\<rparr>)"
proof -
  let ?net = "cfg_Net cfg @ ''('' @ cfg_Addr cfg @ '')''"
  have w: "without '':'' (cfg_User cfg)" "without ''@('' (cfg_Net cfg)" "without ''@'' (cfg_Addr cfg)"
    "cfg_User cfg = [] \<Longrightarrow> cfg_Passwd cfg = []" using assms by (simp_all add: writable_def)
  have n: "CHR ''@'' \<notin> set ?net" using w(2,3) by (simp add: without_def)
  show ?thesis
  proof (cases "cfg_User cfg = []")
    case True
    then have "dsnLeft cfg = ?net" by (simp add: dsnLeft_def)
    then show ?thesis using True w(4) parseNet_written [OF w(2), of NewConfig]
      by (simp add: parseLeft_def cutLast_absent [OF n, simplified] NewConfig_def)
  next
    case False
    let ?cred = "cfg_User cfg @ (if cfg_Passwd cfg \<noteq> [] then '':'' @ cfg_Passwd cfg else [])"
    have "dsnLeft cfg = ?cred @ CHR ''@'' # ?net" using False by (simp add: dsnLeft_def)
    then have "cutLast CHR ''@'' (dsnLeft cfg) = (Some ?cred, ?net)"
      by (simp only: cutLast_at [OF n])
    moreover have "dsnLeft cfg \<noteq> []" by (simp add: dsnLeft_def)
    ultimately have "parseLeft (dsnLeft cfg) NewConfig = parseNet ?net (parseUser ?cred NewConfig)"
      by (simp only: parseLeft_def if_False prod.case option.case)
    also have "\<dots> = parseNet ?net (NewConfig\<lparr>cfg_Passwd := cfg_Passwd cfg, cfg_User := cfg_User cfg\<rparr>)"
      using parseUser_written [OF w(1), of NewConfig] by (simp add: NewConfig_def)
    finally show ?thesis using parseNet_written [OF w(2)] by (simp add: NewConfig_def)
  qed
qed

text \<open>
  C11: A configuration that the syntax can express and that has its defaults filled in is read back
  from its data source name; the parameters of the session come back in the order of their names.
\<close>

theorem dsn_round_trip:
  assumes "writable cfg" and "env_ok E cfg"
    and "normalize E (cfg\<lparr>cfg_tls := None, cfg_pubKey := None\<rparr>) = Ok cfg"
  shows "ParseDSN E (FormatDSN E cfg) = Ok (cfg\<lparr>cfg_Params := sort_key fst (cfg_Params cfg)\<rparr>)"
proof -
  let ?ps = "dsnParams E cfg"
  let ?right = "cfg_DBName cfg @ (if ?ps = [] then [] else ''?'' @ joinParams ?ps)"
  have ok: "list_all paramOk ?ps" using dsnParams_ok [OF assms(1,2)] .
  have net: "cfg_Net cfg \<noteq> []" "cfg_Addr cfg \<noteq> []" using normalize_net [OF assms(3)] by simp_all
  have str: "FormatDSN E cfg = dsnLeft cfg @ CHR ''/'' # ?right"
    using net by (simp add: FormatDSN_def write_all dsnLeft_def)
  have "CHR ''/'' \<notin> set (joinParams ps)" if "list_all paramOk ps" for ps
    using that by (induction ps rule: joinParams.induct) (simp_all add: paramOk_def without_def)
  then have cutR: "cutLast CHR ''/'' (FormatDSN E cfg) = (Some (dsnLeft cfg), ?right)"
    unfolding str using ok assms(1) by (intro cutLast_at) (simp add: writable_def without_def)
  have "list_all (\<lambda>p. CHR ''='' \<notin> set (fst p)) ?ps" "list_all (\<lambda>p. CHR ''&'' \<notin> set (kv p)) ?ps"
    using ok by (auto simp: list_all_iff paramOk_def without_def)
  then have loop: "?ps \<noteq> [] \<Longrightarrow> parseDSNParams E c (joinParams ?ps) = readParams E ?ps c" for c
    by (simp add: parseDSNParams_def splitOn_join paramLoop_kv)
  have db: "CHR ''?'' \<notin> set (cfg_DBName cfg)" using assms(1) by (simp add: writable_def without_def)
  have right: "(case cut CHR ''?'' ?right of (db, None) \<Rightarrow> Ok (c\<lparr>cfg_DBName := db\<rparr>)
      | (db, Some params) \<Rightarrow> bindR (parseDSNParams E c params) (\<lambda>cfg. Ok (cfg\<lparr>cfg_DBName := db\<rparr>)))
    = bindR (readParams E ?ps c) (\<lambda>c. Ok (c\<lparr>cfg_DBName := cfg_DBName cfg\<rparr>))" for c
    using db loop [of c] by (cases "?ps = []") (simp_all add: cut_absent cut_at)
  show ?thesis
    by (simp only: ParseDSN_def cutR prod.case option.case parseLeft_written [OF assms(1)] bindR.simps
        right readParams_dsn [OF assms(1,2) refl])
      (simp add: normalize_params [OF assms(3)])
qed

text \<open>A configuration with credentials, an escaped name, a duration and parameters.\<close>

definition demoDsnEnv :: dsnEnv where
  "demoDsnEnv = \<lparr>dn_fmtDuration = (\<lambda>d. formatInt d @ ''ns''),
     dn_parseDuration = (\<lambda>s. case parseInt 64 (take (length s - 2) s) of
        Inl _ \<Rightarrow> Inl (ErrMsg ''invalid duration'') | Inr d \<Rightarrow> Inr d),
     dn_loadLocation = (\<lambda>n. Inr (n, 7200)), dn_tls = [(''my tls'', emptyTLS)], dn_pubKeys = []\<rparr>"

definition demoDsnCfg :: Config where
  "demoDsnCfg = NewConfig\<lparr>cfg_User := ''bob'', cfg_Passwd := ''a:b@c/d'', cfg_Net := ''tcp'',
     cfg_Addr := ''db:3306'', cfg_DBName := ''shop'', cfg_Params := [(''b'', ''1 & 2''), (''a'', ''/'')],
     cfg_Loc := Some (''Europe/Paris'', 7200), cfg_TLSConfig := ''my tls'',
     cfg_tls := Some (emptyTLS\<lparr>tls_ServerName := ''db''\<rparr>), cfg_ReadTimeout := 15, cfg_ParseTime := True\<rparr>"

theorem dsn_round_trip_witness:
  "ParseDSN demoDsnEnv (FormatDSN demoDsnEnv demoDsnCfg)
     = Ok (demoDsnCfg\<lparr>cfg_Params := [(''a'', ''/''), (''b'', ''1 & 2'')]\<rparr>)"
proof -
  have "writable demoDsnCfg" by code_simp
  moreover have "env_ok demoDsnEnv demoDsnCfg"
  proof -
    have f: "formatInt 15 = ''15''"
      by (simp add: formatInt_def formatUint.simps digit_char_def) (simp add: char_of_eq_iff)
    have "parseInt 64 (formatInt 15) = Inr 15" by (simp add: parseInt_format)
    then show ?thesis
      by (simp add: env_ok_def duration_ok_def demoDsnEnv_def demoDsnCfg_def NewConfig_def f without_def)
  qed
  moreover have "normalize demoDsnEnv (demoDsnCfg\<lparr>cfg_tls := None, cfg_pubKey := None\<rparr>) = Ok demoDsnCfg"
    by code_simp
  ultimately have "ParseDSN demoDsnEnv (FormatDSN demoDsnEnv demoDsnCfg)
      = Ok (demoDsnCfg\<lparr>cfg_Params := sort_key fst (cfg_Params demoDsnCfg)\<rparr>)" by (rule dsn_round_trip)
  moreover have "sort_key fst (cfg_Params demoDsnCfg) = [(''a'', ''/''), (''b'', ''1 & 2'')]" by code_simp
  ultimately show ?thesis by simp
qed

end
