(* ===== verification/MysqlWatch.thy ===== *)
theory MysqlWatch
  imports Main
begin

text \<open>
  The watcher of contexts (\<open>startWatcher\<close>, \<open>watchCancel\<close>, \<open>finish\<close> and \<open>cancel\<close> of
  \<open>mysql/connection.go\<close>): a goroutine per connection that closes it when the context of the
  operation that is running is done. The client is one process with one operation at a time; the
  watcher is the other, and contexts may be done at any time. (An operation that is started in a
  transaction while rows are still open finds the flag set, and \<open>watchCancel\<close> closes the connection,
  although nothing was canceled: that is \<open>Close\<close> here.) Contexts are numbers. Theory \<open>MysqlExec\<close> has the
  two client functions as the rest of the driver sees them.
\<close>

text \<open>
  Where the watcher is: at its first \<open>select\<close>, at the second with a context, between the two writes
  of \<open>cancel\<close>, or returned.
\<close>

datatype phase = Waiting | Watching nat | Canceling nat | Returned

text \<open>What the client does: nothing, or an operation, with the context that it watches if any.\<close>

datatype client = Idle | Running "nat option"

record watchState =
  ws_client :: client
  ws_watching :: bool
  ws_chan :: "nat option"
  ws_phase :: phase
  ws_closed :: bool
  ws_canceled :: "nat option"
  ws_done :: "nat list"

definition startWatcher :: watchState where
  "startWatcher = \<lparr>ws_client = Idle, ws_watching = False, ws_chan = None, ws_phase = Waiting,
     ws_closed = False, ws_canceled = None, ws_done = []\<rparr>"

datatype actor = Client | Watcher | Environment

text \<open>
  \<open>watchCancel\<close> for a context that can be done or not (\<open>Stale\<close>: still watching, which means that the
  connection was closed), \<open>finish\<close>, with the watcher taking part in \<open>FinishMet\<close>, and the client's
  own closing. The channel to the watcher holds one context, so a send needs it to be empty.
\<close>

inductive wstep :: "actor \<Rightarrow> watchState \<Rightarrow> watchState \<Rightarrow> bool" where
  Stale: "ws_client s = Idle \<Longrightarrow> ws_watching s \<Longrightarrow>
    wstep Client s (s\<lparr>ws_closed := True, ws_client := Running None\<rparr>)"
| Unwatched: "ws_client s = Idle \<Longrightarrow> \<not> ws_watching s \<Longrightarrow> wstep Client s (s\<lparr>ws_client := Running None\<rparr>)"
| Watch: "ws_client s = Idle \<Longrightarrow> \<not> ws_watching s \<Longrightarrow> c \<notin> set (ws_done s) \<Longrightarrow> ws_chan s = None \<Longrightarrow>
    wstep Client s (s\<lparr>ws_watching := True, ws_chan := Some c, ws_client := Running (Some c)\<rparr>)"
| FinishUnwatched: "ws_client s = Running x \<Longrightarrow> \<not> ws_watching s \<Longrightarrow> wstep Client s (s\<lparr>ws_client := Idle\<rparr>)"
| FinishMet: "ws_client s = Running x \<Longrightarrow> ws_watching s \<Longrightarrow> ws_phase s = Watching c \<Longrightarrow>
    wstep Client s (s\<lparr>ws_watching := False, ws_phase := Waiting, ws_client := Idle\<rparr>)"
| FinishClosed: "ws_client s = Running x \<Longrightarrow> ws_watching s \<Longrightarrow> ws_closed s \<Longrightarrow> wstep Client s (s\<lparr>ws_client := Idle\<rparr>)"
| Close: "wstep Client s (s\<lparr>ws_closed := True\<rparr>)"
| Receive: "ws_phase s = Waiting \<Longrightarrow> ws_chan s = Some c \<Longrightarrow>
    wstep Watcher s (s\<lparr>ws_chan := None, ws_phase := Watching c\<rparr>)"
| Leave: "ws_phase s = Waiting \<or> ws_phase s = Watching c \<Longrightarrow> ws_closed s \<Longrightarrow>
    wstep Watcher s (s\<lparr>ws_phase := Returned\<rparr>)"
| SetError: "ws_phase s = Watching c \<Longrightarrow> c \<in> set (ws_done s) \<Longrightarrow>
    wstep Watcher s (s\<lparr>ws_canceled := Some c, ws_phase := Canceling c\<rparr>)"
| Cleanup: "ws_phase s = Canceling c \<Longrightarrow> wstep Watcher s (s\<lparr>ws_closed := True, ws_phase := Waiting\<rparr>)"
| Done: "wstep Environment s (s\<lparr>ws_done := c # ws_done s\<rparr>)"

inductive_cases WatcherE: "wstep Watcher s s'"

inductive_simps watcher_step: "wstep Watcher s s'"

text \<open>A watcher that has returned does nothing more.\<close>

lemma watcher_returned: "ws_phase s = Returned \<Longrightarrow> \<not> wstep Watcher s s'"
  by (simp add: watcher_step)

inductive wreach :: "watchState \<Rightarrow> bool" where
  Start: "wreach startWatcher"
| Step: "wreach s \<Longrightarrow> wstep a s s' \<Longrightarrow> wreach s'"

text \<open>
  The invariant: the watcher has left only a closed connection; a context is on its way to the
  watcher, or with it, only while the client is watching, and it is the one of the operation that
  runs as long as the connection is open; a connection whose error is set is closed or about to be.
\<close>

definition phaseCtx :: "phase \<Rightarrow> nat option" where
  "phaseCtx p = (case p of Watching c \<Rightarrow> Some c | Canceling c \<Rightarrow> Some c | _ \<Rightarrow> None)"

lemma phaseCtx_simps [simp]:
  "phaseCtx Waiting = None" "phaseCtx Returned = None" "phaseCtx (Watching c) = Some c"
  "phaseCtx (Canceling c) = Some c"
  by (simp_all add: phaseCtx_def)

lemma phaseCtx_None: "phaseCtx p = None \<longleftrightarrow> p = Waiting \<or> p = Returned"
  by (cases p) simp_all

definition winv :: "watchState \<Rightarrow> bool" where
  "winv s \<longleftrightarrow>
     (ws_phase s = Returned \<longrightarrow> ws_closed s) \<and>
     (\<not> ws_watching s \<longrightarrow> ws_chan s = None \<and> phaseCtx (ws_phase s) = None) \<and>
     (ws_chan s = None \<or> phaseCtx (ws_phase s) = None) \<and>
     (ws_watching s \<and> \<not> ws_closed s \<longrightarrow> (\<exists>c. ws_client s = Running (Some c) \<and>
        (ws_chan s = Some c \<and> ws_phase s = Waiting \<or> phaseCtx (ws_phase s) = Some c))) \<and>
     (ws_canceled s \<noteq> None \<longrightarrow> ws_closed s \<or> (\<exists>c. ws_phase s = Canceling c))"

lemma winv_step: "wstep a s s' \<Longrightarrow> winv s \<Longrightarrow> winv s'"
  by (induction rule: wstep.induct) (auto simp: winv_def phaseCtx_None)

lemma winv_reach: "wreach s \<Longrightarrow> winv s"
proof (induction rule: wreach.induct)
  case Start
  show ?case by (simp add: winv_def startWatcher_def)
qed (rule winv_step)

text \<open>
  C10: Only the context of the operation that is running can cancel: when the watcher closes an open
  connection, the operation that watches this context has not finished, so a context that is done
  later, when its operation is over, cannot close the connection under another operation.
\<close>

theorem only_running_operation_is_canceled:
  assumes "wreach s" and "wstep Watcher s s'" and "\<not> ws_closed s" and "ws_closed s'"
  shows "\<exists>c. ws_client s = Running (Some c) \<and> ws_phase s = Canceling c"
  using winv_reach [OF assms(1)] assms(2-4)
  by (elim WatcherE) (auto simp: winv_def)

text \<open>A run of the client and the watcher in which a context cancels the operation it belongs to.\<close>

definition demoWatch :: watchState where
  "demoWatch = \<lparr>ws_client = Running (Some 4), ws_watching = True, ws_chan = None, ws_phase = Canceling 4,
     ws_closed = False, ws_canceled = Some 4, ws_done = [4]\<rparr>"

lemma demoWatch_reach: "wreach demoWatch"
proof -
  have "wreach (startWatcher\<lparr>ws_watching := True, ws_chan := Some 4, ws_client := Running (Some 4)\<rparr>)"
    by (rule wreach.Step [OF wreach.Start wstep.Watch]) (simp_all add: startWatcher_def)
  from wreach.Step [OF this wstep.Receive [of _ 4]]
  have "wreach (startWatcher\<lparr>ws_watching := True, ws_client := Running (Some 4), ws_phase := Watching 4\<rparr>)"
    by (simp add: startWatcher_def)
  from wreach.Step [OF this wstep.Done [of _ 4]]
  have "wreach (startWatcher\<lparr>ws_watching := True, ws_client := Running (Some 4), ws_phase := Watching 4,
      ws_done := [4]\<rparr>)" by (simp add: startWatcher_def)
  from wreach.Step [OF this wstep.SetError [of _ 4]] show ?thesis
    by (simp add: startWatcher_def demoWatch_def)
qed

theorem only_running_operation_is_canceled_witness:
  "\<exists>c. ws_client demoWatch = Running (Some c) \<and> ws_phase demoWatch = Canceling c"
proof -
  have "wstep Watcher demoWatch (demoWatch\<lparr>ws_closed := True, ws_phase := Waiting\<rparr>)"
    by (rule wstep.Cleanup [of _ 4]) (simp add: demoWatch_def)
  from only_running_operation_is_canceled [OF demoWatch_reach this] show ?thesis
    by (simp add: demoWatch_def)
qed

text \<open>
  C23: The watcher never holds up the client: the channel is empty when the next operation wants to
  hand over its context, and \<open>finish\<close> returns at once or after one step of the watcher.
\<close>

theorem client_never_blocks:
  assumes "wreach s"
  shows "(ws_client s = Idle \<and> \<not> ws_watching s \<longrightarrow> ws_chan s = None)
    \<and> (ws_client s \<noteq> Idle \<longrightarrow> (\<exists>s1 s'. (s1 = s \<or> wstep Watcher s s1) \<and> wstep Client s1 s' \<and> ws_client s' = Idle))"
proof -
  have i: "winv s" using winv_reach [OF assms] .
  have "\<exists>s1 s'. (s1 = s \<or> wstep Watcher s s1) \<and> wstep Client s1 s' \<and> ws_client s' = Idle"
    if run: "ws_client s = Running x" for x
  proof (cases "ws_watching s \<and> \<not> ws_closed s")
    case False
    then have "wstep Client s (s\<lparr>ws_client := Idle\<rparr>)"
      using run wstep.FinishUnwatched [of s x] wstep.FinishClosed [of s x] by auto
    then show ?thesis by fastforce
  next
    case True
    then consider (chan) c where "ws_chan s = Some c" "ws_phase s = Waiting"
      | (watch) c where "ws_phase s = Watching c" | (cancel) c where "ws_phase s = Canceling c"
      using i by (cases "ws_phase s") (auto simp: winv_def)
    then show ?thesis
    proof cases
      case chan
      let ?s1 = "s\<lparr>ws_chan := None, ws_phase := Watching c\<rparr>"
      have "wstep Watcher s ?s1" using chan by (intro wstep.Receive)
      moreover have "wstep Client ?s1 (?s1\<lparr>ws_watching := False, ws_phase := Waiting, ws_client := Idle\<rparr>)"
        using run True by (intro wstep.FinishMet [of _ x c]) simp_all
      ultimately show ?thesis by fastforce
    next
      case watch
      then have "wstep Client s (s\<lparr>ws_watching := False, ws_phase := Waiting, ws_client := Idle\<rparr>)"
        using run True by (intro wstep.FinishMet [of _ x c]) simp_all
      then show ?thesis by fastforce
    next
      case cancel
      let ?s1 = "s\<lparr>ws_closed := True, ws_phase := Waiting\<rparr>"
      have "wstep Watcher s ?s1" using cancel by (intro wstep.Cleanup)
      moreover have "wstep Client ?s1 (?s1\<lparr>ws_client := Idle\<rparr>)"
        using run True by (intro wstep.FinishClosed [of _ x]) simp_all
      ultimately show ?thesis by fastforce
    qed
  qed
  then show ?thesis using i by (cases "ws_client s") (auto simp: winv_def)
qed

theorem client_never_blocks_witness:
  "\<exists>s1 s'. (s1 = demoWatch \<or> wstep Watcher demoWatch s1) \<and> wstep Client s1 s' \<and> ws_client s' = Idle"
  using client_never_blocks [OF demoWatch_reach] by (simp add: demoWatch_def)

end
