(* ===== verification/MysqlDriver.thy ===== *)
theory MysqlDriver
  imports MysqlConnect MysqlDsn
begin

text \<open>
  What is left of the driver: opening by name (\<open>mysql/driver.go\<close>), the probe of an idle connection
  (\<open>mysql/conncheck.go\<close>, of which theory \<open>MysqlBuffer\<close> has the outcome as a part of the network), times
  that may be NULL (\<open>mysql/nulltime.go\<close>), the text of a server's error (\<open>mysql/errors.go\<close>), the atomic
  flag and error of \<open>mysql/utils.go\<close>, and the results for drivers of \<open>driver/driver.go\<close>.
\<close>

section \<open>Opening\<close>

text \<open>\<open>Open\<close> connects with a context that is never done.\<close>

definition background :: ctxState where
  "background = \<lparr>cx_err = None, cx_hasDone = False, cx_later = None\<rparr>"

definition MySQLDriver_Open ::
    "dsnEnv \<Rightarrow> authEnv \<Rightarrow> driverEnv \<Rightarrow> dialEnv \<Rightarrow> nat list \<Rightarrow> string \<Rightarrow> mysqlConn res" where
  "MySQLDriver_Open P A D E order dsn =
     bindR (ParseDSN P dsn) (\<lambda>cfg. fst (Connect A D E order background cfg))"

section \<open>The probe of an idle connection\<close>

text \<open>
  The connection may be no socket; getting at the socket may fail; else one byte is read
  without waiting, unless the runtime refuses the read.
\<close>

datatype sysErr = Again | WouldBlock | Errno gerr

datatype sockProbe = NoSocket | NoRawConn gerr | Refused gerr | RawRead nat "sysErr option"

definition connCheck :: "sockProbe \<Rightarrow> gerr option" where
  "connCheck conn = (case conn of
       NoSocket \<Rightarrow> None
     | NoRawConn err \<Rightarrow> Some err
     | Refused err \<Rightarrow> Some err
     | RawRead n err \<Rightarrow>
         if n = 0 \<and> err = None then Some ErrEOF
         else if n > 0 then Some (ErrMsg ''unexpected read from socket'')
         else (case err of Some (Errno e) \<Rightarrow> Some e | _ \<Rightarrow> None))"

section \<open>Times that may be NULL\<close>

record mysqlNullTime =
  nt_Time :: gotime
  nt_Valid :: bool

definition scanTimeText :: "byte list \<Rightarrow> (gerr option \<times> mysqlNullTime) res" where
  "scanTimeText b = (case parseDateTime b 0 of
       Ok t \<Rightarrow> Ok (None, \<lparr>nt_Time = t, nt_Valid = True\<rparr>)
     | Fail e \<Rightarrow> Ok (Some e, \<lparr>nt_Time = zeroTime, nt_Valid = False\<rparr>)
     | Crash h \<Rightarrow> Crash h)"

definition mysqlNullTime_Scan :: "mysqlNullTime \<Rightarrow> marg \<Rightarrow> (gerr option \<times> mysqlNullTime) res" where
  "mysqlNullTime_Scan nt v = (case v of
       ANull \<Rightarrow> Ok (None, \<lparr>nt_Time = zeroTime, nt_Valid = False\<rparr>)
     | ATime t \<Rightarrow> Ok (None, \<lparr>nt_Time = t, nt_Valid = True\<rparr>)
     | ABytes b \<Rightarrow> scanTimeText (bytesOf b)
     | AString s \<Rightarrow> scanTimeText s
     | _ \<Rightarrow> Ok (Some (ErrMsg ''Can't convert %T to time.Time''), nt\<lparr>nt_Valid := False\<rparr>))"

definition mysqlNullTime_Value :: "mysqlNullTime \<Rightarrow> marg" where
  "mysqlNullTime_Value nt = (if \<not> nt_Valid nt then ANull else ATime (nt_Time nt))"

section \<open>Errors and atomic values\<close>

definition MySQLError_Error :: "u16 \<Rightarrow> byte list \<Rightarrow> byte list" where
  "MySQLError_Error number msg =
     bytes_of ''Error '' @ bytes_of (formatUint (unat number)) @ bytes_of '': '' @ msg"

definition atomicBool_IsSet :: "u32 \<Rightarrow> bool" where
  "atomicBool_IsSet ab \<longleftrightarrow> ab > 0"

definition atomicBool_Set :: "bool \<Rightarrow> u32 \<Rightarrow> u32" where
  "atomicBool_Set b ab = (if b then 1 else 0)"

definition atomicBool_TrySet :: "bool \<Rightarrow> u32 \<Rightarrow> bool \<times> u32" where
  "atomicBool_TrySet b ab = (if b then (ab = 0, 1) else (ab > 0, 0))"

definition atomicError_Set :: "gerr \<Rightarrow> gerr option \<Rightarrow> gerr option" where
  "atomicError_Set err ae = Some err"

definition atomicError_Value :: "gerr option \<Rightarrow> gerr option" where
  "atomicError_Value ae = (case ae of Some v \<Rightarrow> Some v | None \<Rightarrow> None)"

section \<open>Entry points without a context\<close>

definition mysqlConn_Begin :: "driverEnv \<Rightarrow> (mysqlConn, unit) act" where
  "mysqlConn_Begin D = begin_tx D False"

definition mysqlConn_Query :: "driverEnv \<Rightarrow> byte list \<Rightarrow> marg list \<Rightarrow> (mysqlConn, mysqlRows) act" where
  "mysqlConn_Query D query args = textQuery D query args"

text \<open>Text rows go to the next result set the same way as binary rows.\<close>

definition textRows_NextResultSet :: "infileEnv \<Rightarrow> unit rowsAct" where
  "textRows_NextResultSet E = thenA (nextNotEmptyResultSet E) setColumns"

section \<open>Results for drivers\<close>

datatype driverRes = RowsAffectedRes int | NoRowsRes

definition driverRes_LastInsertId :: "driverRes \<Rightarrow> int res" where
  "driverRes_LastInsertId r = (case r of
       RowsAffectedRes _ \<Rightarrow> Fail (ErrMsg ''LastInsertId is not supported by this driver'')
     | NoRowsRes \<Rightarrow> Fail (ErrMsg ''no LastInsertId available after DDL statement''))"

definition driverRes_RowsAffected :: "driverRes \<Rightarrow> int res" where
  "driverRes_RowsAffected r = (case r of
       RowsAffectedRes v \<Rightarrow> Ok v
     | NoRowsRes \<Rightarrow> Fail (ErrMsg ''no RowsAffected available after DDL statement''))"

end
