(* ===== verification/Spec2Isabelle.thy ===== *)
theory Spec2Isabelle
  imports CodecProps ValuesProps PoolProps FacadeProps FacadeRace SessionProps RowsProps
    SessionEntry TimeProps InterpolateProps PacketProps ExecProps QueryProps ClientSession
    LoginProps DsnProps MysqlWatch MysqlDriver
begin

text \<open>
  A verification development for \<open>memsql-conn-pool\<close>, a Go fork of \<open>database/sql\<close> in which one
  facade holds many connection pools under a common connection limit, together with a copy of the
  MySQL driver that works under it. The source files are under \<open>src/\<close>.

  \<^bold>\<open>The program.\<close> A \<open>PoolFacade\<close> has one \<open>ConnPool\<close> per user, password and database
  (\<open>conn_pool_facade.go\<close>, \<open>credentials.go\<close>). A pool lends driver connections to operations
  (\<open>conn_pool.go\<close>, \<open>conn_pool_put.go\<close>); the idle ones of all pools are in one LRU list of the facade,
  from which the oldest is closed when the limit is reached. Requests that cannot be served wait;
  an opener goroutine opens connections for them, and a cleaner closes idle ones. Operations,
  transactions, single connections, prepared statements and rows borrow a connection and give it
  back through release functions. Arguments and results are converted on the way. The MySQL driver
  frames packets over a double buffer, authenticates, sends queries and executes statements, and
  reads rows; a watcher goroutine closes the connection when the context of an operation is done.

  \<^bold>\<open>How Go is modelled.\<close> Theory \<open>Prelude\<close>: a Go function is a step on a state that ends in a value, an
  error value or a crash of the goroutine (\<open>Ok\<close>, \<open>Fail\<close>, \<open>Crash\<close>), so panics, deadlocks and
  errors are outcomes; machine integers are words; index and slice expressions are checked;
  \<open>range\<close> over a map takes an arbitrary order as an argument. Interfaces between components are
  locales, interpreted where the model provides them: \<open>act_order\<close> (relations that every step
  keeps), \<open>lru_cache\<close> and \<open>cmap\<close> (the contracts of the LRU cache and the concurrent map, which are
  other repositories), \<open>escape_step\<close> (one byte of an escaping routine), \<open>row_protocol\<close> (how a cursor reads
  rows, for the text and the binary protocol).

  \<^bold>\<open>The pool.\<close>
    \<^item> \<open>PoolState\<close>, \<open>PoolClose\<close>, \<open>PoolOps\<close>, \<open>PoolLife\<close>: connections, pools, facade and their operations,
      from \<open>conn_pool*.go\<close>, \<open>driver_conn.go\<close>, \<open>driver_stmt.go\<close>, \<open>conn_cleaner.go\<close>, \<open>sql.go\<close>,
      \<open>named_args.go\<close>, \<open>open_conn_pool.go\<close> and \<open>credentials.go\<close>. Pointers are numbers into heaps of the
      world, and the world knows which mutexes the goroutine holds.
    \<^item> \<open>PoolGrow\<close>, \<open>PoolLimit\<close>, \<open>PoolFuel\<close>, \<open>PoolFacts\<close>, \<open>PoolProps\<close>, \<open>FacadeProps\<close>: a connection is lent
      to one operation at a time; operations that run one after another keep the count of open
      connections within the limit (\<open>capped\<close>); a returned connection serves a waiting request or becomes
      idle; closing an idle connection does its whole work and is for good; the cleaner takes exactly
      the expired; the opener delivers or closes. And where operations cannot end well: a mutex locked
      twice, which leaves the pool and the facade locked for ever, and a removal from the LRU of what
      is not there.
    \<^item> \<open>FacadeRace\<close>: any number of goroutines that open and close connections again and again in any
      interleaving of their critical sections; they can exceed the limit, by less than their number.

  \<^bold>\<open>Sessions and values.\<close>
    \<^item> \<open>DriverCalls\<close>, \<open>Session\<close>, \<open>SessionApi\<close>, \<open>RowsCursor\<close>, \<open>SessionEntry\<close>: \<open>ctxutil.go\<close>, \<open>conn_pool_exec.go\<close>,
      \<open>conn_pool_query.go\<close>, \<open>conn_pool_prepare.go\<close>, \<open>conn_pool_begin.go\<close>, \<open>conn_pool_ping.go\<close>,
      \<open>prepared_statement.go\<close>, \<open>transaction.go\<close>, \<open>conn.go\<close>, \<open>rows.go\<close>, \<open>row.go\<close>, \<open>result.go\<close>,
      \<open>column_type.go\<close>. The driver is an argument: the interfaces it has and its answers.
    \<^item> \<open>SessionGrow\<close>, \<open>SessionFacts\<close>, \<open>SessionProps\<close>, \<open>RowsProps\<close>: an ended transaction stays ended, commit
      gives the driver's answer, reading a single row ends with the release of its connection on every
      path, statements retry as the pool does.
    \<^item> \<open>Values\<close>, \<open>GoStrconv\<close>, \<open>ValuesProps\<close>: \<open>convert.go\<close>, \<open>driver/types.go\<close>, \<open>valuer_scanner.go\<close>, the
      converter of \<open>mysql/statement.go\<close>, and the integer text of Go's \<open>strconv\<close>.

  \<^bold>\<open>The MySQL driver.\<close>
    \<^item> \<open>Wire\<close>, \<open>LenEnc\<close>, \<open>SqlEscape\<close>, \<open>TimeCodec\<close>, \<open>Interpolate\<close> with \<open>CodecProps\<close>, \<open>TimeProps\<close>,
      \<open>DurationFacts\<close>, \<open>InterpolateProps\<close>: the codecs of \<open>mysql/utils.go\<close> and \<open>interpolateParams\<close>. Numbers, strings and
      times come back from their encodings; an interpolated argument is one literal for the server,
      whatever bytes it has.
    \<^item> \<open>MysqlConfig\<close>, \<open>MysqlBuffer\<close>, \<open>MysqlConn\<close> with \<open>BufferFacts\<close>, \<open>PacketFacts\<close>, \<open>PacketSafety\<close>,
      \<open>PacketProps\<close>: \<open>mysql/buffer.go\<close>, the framing in \<open>mysql/packets.go\<close>. The buffer refines the
      stream of bytes that is unread (\<open>readNext_is_stream\<close>), the last slice survives a flip of the double
      buffer (\<open>settled\<close>), a packet that is written is read back in any number of frames, and reading is safe
      whatever the server sends.
    \<^item> \<open>MysqlFields\<close>, \<open>MysqlResult\<close>, \<open>MysqlRows\<close>, \<open>MysqlExec\<close>, \<open>MysqlStmt\<close>: results, rows, local files,
      queries, transactions and prepared statements of \<open>mysql/packets.go\<close>, \<open>mysql/rows.go\<close>,
      \<open>mysql/infile.go\<close>, \<open>mysql/connection.go\<close>, \<open>mysql/transaction.go\<close>, \<open>mysql/result.go\<close>,
      \<open>mysql/statement.go\<close>, \<open>mysql/fields.go\<close>, \<open>mysql/const.go\<close>, \<open>mysql/collations.go\<close>.
    \<^item> \<open>ExecProps\<close>, \<open>ResultProps\<close>, \<open>ReadFrame\<close>, \<open>AnswerFacts\<close>, \<open>RowProtocol\<close>, \<open>QueryProps\<close>, \<open>CommandProps\<close>: a
      reference reader of the protocol decodes what the driver sends, a reference writer of the
      protocol answers, with values of every column type. \<open>answers ps later\<close> says that the packets \<open>ps\<close> are the next to be read and that
      the chunks \<open>later\<close> of the network come after them, however the network cuts them and wherever the
      buffer keeps them; each reading function takes its packets from the front and changes nothing
      else (\<open>moved\<close>). Whole exchanges are put together from these lemmas: queries, prepared
      statements, commands, errors of the server, the end of a transaction; each starts and ends with
      a connection at rest (\<open>idle\<close>), on which chunks of the network wait (\<open>inbox\<close>).
    \<^item> \<open>ClientSession\<close>, \<open>LoginProps\<close>: the exchanges composed. A client that sends any sequence of queries
      and commands sees what an abstract specification of the conversation says; and connecting to a
      server that accepts the driver gives the connection at rest from which a conversation starts.
    \<^item> \<open>MysqlAuth\<close>, \<open>MysqlConnect\<close>, \<open>MysqlDriver\<close> with \<open>AuthProps\<close>: \<open>mysql/auth.go\<close>, \<open>mysql/connector.go\<close>,
      \<open>mysql/driver.go\<close> and the small files. A server that knows the hash accepts the responses; on an
      open connection the whole handshake depends on the password only through hashes and
      ciphertexts (\<open>blind\<close> is the relation that every step of it keeps).
    \<^item> \<open>MysqlDsn\<close> with \<open>DsnProps\<close>: \<open>mysql/dsn.go\<close>; a configuration is read back from its name.
    \<^item> \<open>MysqlWatch\<close>: the watcher of contexts and its client as a step relation, by an invariant of the
      reachable states.

  \<^bold>\<open>Bounds.\<close> The recursion of closing ends at depth two (\<open>dcClose_fuel\<close> in \<open>PoolFuel\<close>). Operations of
  a pool are tried three times, as in the code. Loops that read packets have as fuel one more than
  the number of unread bytes (\<open>fuelOf\<close>); each packet takes at least four of them, and \<open>Crash Deadlock\<close>
  for fuel zero is never reached by \<open>readPacket\<close> (\<open>readPacket_is_safe\<close>). The loop over a long
  argument has one more than its length.

  \<^bold>\<open>Parameters.\<close> The LRU cache and the concurrent map; drivers of the session layer; the network (the
  answers of its calls); hashes, RSA, the parsing of keys and the TLS handshake; the text of floats,
  durations and locations; files and readers of local data; the runtime's growth of arrays.

  \<^bold>\<open>Not modelled.\<close> Log output. Bytes under TLS (the encrypted connection is the network again).
  Cancellation in the middle of an operation of the driver, which the sequential model leaves to
  \<open>MysqlWatch\<close>; other interleavings than those of \<open>FacadeRace\<close> and \<open>MysqlWatch\<close>. Reflection beyond a
  datatype of kinds, cursors as column values, decimal interfaces. Interface declarations
  (\<open>driver/driver.go\<close>), error variables, the unused opener (\<open>obsolete_conn_opener.go\<close>,
  \<open>conn_request.go\<close>), the variant of the connection probe for other systems, the fuzz entry
  (\<open>mysql/fuzz.go\<close>), examples (\<open>main/\<close>) and tests.
\<close>

end
